(* ===== verification/RD_Prelude.thy ===== *)
theory RD_Prelude
  imports Main "HOL-Library.Word" "HOL-Library.Monad_Syntax"
begin

text \<open>
  Shared vocabulary of the development: the machine integers of the 68000 compilers the
  sources are written for, C strings, and the two shapes every loop of the sources
  takes, a bounded scan over an array and a write into a fixed buffer.

  A C string is a \<^typ>\<open>string\<close> without its closing NUL byte.  An operation that may read
  or write memory it does not own returns an \<open>option\<close>; \<open>None\<close> stands for such an access
  (a NULL pointer, a freed block, an index outside its array) or for a loop that does not
  end.  Error codes are ordinary values, so a result \<open>Some (EACCDN, s)\<close> is a call that
  returned.
\<close>

unbundle bit_operations_syntax

named_theorems rd_simps \<open>rewrite rules that evaluate the model's helper functions\<close>

subsection \<open>Machine integers\<close>

type_synonym byte = "8 word"
type_synonym mode16 = "16 word"

text \<open>
  \<open>WORD\<close> and \<open>LONG\<close> are the signed 16 and 32 bit integers.  They are kept as \<^typ>\<open>int\<close>;
  \<open>s16\<close> and \<open>s32\<close> are the wrap-around of the arithmetic.
\<close>

definition s16 :: "int \<Rightarrow> int" where
  "s16 x = (x + 2 ^ 15) mod 2 ^ 16 - 2 ^ 15"

definition s32 :: "int \<Rightarrow> int" where
  "s32 x = (x + 2 ^ 31) mod 2 ^ 32 - 2 ^ 31"

lemma s16_id [simp]: "- (2 ^ 15) \<le> x \<Longrightarrow> x < 2 ^ 15 \<Longrightarrow> s16 x = x"
  by (simp add: s16_def)

lemma s32_id [simp]: "- (2 ^ 31) \<le> x \<Longrightarrow> x < 2 ^ 31 \<Longrightarrow> s32 x = x"
  by (simp add: s32_def)

lemma s16_range: "- (2 ^ 15) \<le> s16 x \<and> s16 x < 2 ^ 15"
  by (simp add: s16_def pos_mod_bound)

lemma s32_range: "- (2 ^ 31) \<le> s32 x \<and> s32 x < 2 ^ 31"
  by (simp add: s32_def)

lemma s32_overflow: "2 ^ 31 \<le> x \<Longrightarrow> x < 2 ^ 31 + 2 ^ 31 \<Longrightarrow> s32 x = x - 2 ^ 32"
proof -
  assume x: "2 ^ 31 \<le> x" "x < 2 ^ 31 + 2 ^ 31"
  have "s32 (x - 2 ^ 32 + 2 ^ 32) = s32 (x - 2 ^ 32)"
    unfolding s32_def using mod_add_self2 [of "x - 2 ^ 32 + 2 ^ 31" "2 ^ 32 :: int"] by (simp add: algebra_simps)
  with x show ?thesis by simp
qed

lemma s16_s16_add [simp]: "s16 (s16 x + y) = s16 (x + y)"
  unfolding s16_def by (simp add: mod_simps algebra_simps)

subsection \<open>The C library on strings\<close>

abbreviation NUL :: char where "NUL \<equiv> CHR 0x00"
abbreviation backslash :: char where "backslash \<equiv> CHR 0x5C"

definition c_toupper :: "char \<Rightarrow> char" where
  "c_toupper c = (if 97 \<le> (of_char c :: nat) \<and> (of_char c :: nat) \<le> 122
                  then char_of ((of_char c :: nat) - 32) else c)"

definition c_tolower :: "char \<Rightarrow> char" where
  "c_tolower c = (if 65 \<le> (of_char c :: nat) \<and> (of_char c :: nat) \<le> 90
                  then char_of ((of_char c :: nat) + 32) else c)"

definition c_isalnum :: "char \<Rightarrow> bool" where
  "c_isalnum c \<longleftrightarrow> (let n = (of_char c :: nat) in
     (48 \<le> n \<and> n \<le> 57) \<or> (65 \<le> n \<and> n \<le> 90) \<or> (97 \<le> n \<and> n \<le> 122))"

definition strlwr :: "string \<Rightarrow> string" where
  "strlwr = map c_tolower"

definition stricmp_eq :: "string \<Rightarrow> string \<Rightarrow> bool" where
  "stricmp_eq a b \<longleftrightarrow> map c_toupper a = map c_toupper b"

text \<open>Position of the last occurrence of a character, \<open>None\<close> for the NULL pointer.\<close>

fun strrchr :: "string \<Rightarrow> char \<Rightarrow> nat option" where
  "strrchr [] c = None"
| "strrchr (x # xs) c =
     (case strrchr xs c of
        Some k \<Rightarrow> Some (Suc k)
      | None \<Rightarrow> if x = c then Some 0 else None)"

lemma strrchr_None_iff: "strrchr s c = None \<longleftrightarrow> c \<notin> set s"
  by (induction s) (auto split: option.splits)

lemma strrchr_notin [simp]: "c \<notin> set s \<Longrightarrow> strrchr s c = None"
  by (simp add: strrchr_None_iff)

lemma strrchr_SomeD:
  "strrchr s c = Some k \<Longrightarrow> k < length s \<and> s ! k = c \<and> c \<notin> set (drop (Suc k) s)"
  by (induction s arbitrary: k) (auto simp: strrchr_None_iff split: option.splits if_splits)

lemma of_char_c_toupper:
  "(of_char (c_toupper c) :: nat) =
     (if 97 \<le> (of_char c :: nat) \<and> (of_char c :: nat) \<le> 122
      then of_char c - 32 else of_char c)"
  by (auto simp: c_toupper_def)

lemma c_toupper_idem [simp]: "c_toupper (c_toupper c) = c_toupper c"
  unfolding c_toupper_def [of "c_toupper c"] by (auto simp: of_char_c_toupper split: if_splits)

lemma length_strlwr [simp]: "length (strlwr s) = length s"
  by (simp add: strlwr_def)

lemma of_char_c_tolower:
  "(of_char (c_tolower c) :: nat) =
     (if 65 \<le> (of_char c :: nat) \<and> (of_char c :: nat) \<le> 90
      then of_char c + 32 else of_char c)"
  by (auto simp: c_tolower_def)

lemma c_tolower_idem [simp]: "c_tolower (c_tolower c) = c_tolower c"
  unfolding c_tolower_def [of "c_tolower c"] by (auto simp: of_char_c_tolower split: if_splits)

lemma strlwr_idem [simp]: "strlwr (strlwr s) = strlwr s"
  by (simp add: strlwr_def comp_def)

subsection \<open>Bounded scans and buffer writes\<close>

text \<open>
  \<open>for (i = lo; i < hi; i++) if (P(a[i])) return i;\<close> over an array that holds
  \<open>length xs\<close> elements: an index past the array is an illegal access.
\<close>

function scan_from :: "('a \<Rightarrow> bool) \<Rightarrow> 'a list \<Rightarrow> nat \<Rightarrow> nat \<Rightarrow> nat option option" where
  "scan_from P xs i hi =
     (if hi \<le> i then Some None
      else if length xs \<le> i then None
      else if P (xs ! i) then Some (Some i)
      else scan_from P xs (Suc i) hi)"
  by pat_completeness auto
termination
  by (relation "measure (\<lambda>(P, xs, i, hi). hi - i)") auto

declare scan_from.simps [simp del]

text \<open>The first index of \<open>[i, hi)\<close> whose element satisfies \<open>P\<close>, as a specification.\<close>

lemma scan_from_Some_iff:
  assumes "hi \<le> length xs"
  shows "scan_from P xs i hi = Some (Some k) \<longleftrightarrow>
         i \<le> k \<and> k < hi \<and> P (xs ! k) \<and> (\<forall>j. i \<le> j \<longrightarrow> j < k \<longrightarrow> \<not> P (xs ! j))"
  using assms
proof (induction P xs i hi rule: scan_from.induct)
  case (1 P xs i hi)
  show ?case
  proof (cases "hi \<le> i \<or> P (xs ! i)")
    case True
    with 1 show ?thesis
      by (auto simp: scan_from.simps [of P xs i hi] le_less)
  next
    case False
    with 1 have "scan_from P xs i hi = scan_from P xs (Suc i) hi"
      by (simp add: scan_from.simps [of P xs i hi])
    with 1 False show ?thesis
      by (auto simp: Suc_le_eq) (metis le_neq_implies_less)+
  qed
qed

lemma scan_from_None_iff:
  assumes "hi \<le> length xs"
  shows "scan_from P xs i hi = Some None \<longleftrightarrow> (\<forall>j. i \<le> j \<longrightarrow> j < hi \<longrightarrow> \<not> P (xs ! j))"
  using assms
proof (induction P xs i hi rule: scan_from.induct)
  case (1 P xs i hi)
  then show ?case
    by (auto simp: scan_from.simps [of P xs i hi]) (metis Suc_leI le_neq_implies_less)+
qed

lemma scan_from_no_fault:
  "hi \<le> length xs \<Longrightarrow> scan_from P xs i hi \<noteq> None"
proof (induction P xs i hi rule: scan_from.induct)
  case (1 P xs i hi)
  then show ?case by (auto simp: scan_from.simps [of P xs i hi])
qed

text \<open>\<open>dst[i++] = *src++\<close> until the source ends.\<close>

fun copy_into :: "'a list \<Rightarrow> nat \<Rightarrow> 'a list \<Rightarrow> 'a list option" where
  "copy_into dst i [] = Some dst"
| "copy_into dst i (c # cs) =
     (if i < length dst then copy_into (dst[i := c]) (Suc i) cs else None)"

lemma copy_into_eq:
  "i + length cs \<le> length dst \<Longrightarrow>
   copy_into dst i cs = Some (take i dst @ cs @ drop (i + length cs) dst)"
proof (induction cs arbitrary: dst i)
  case Nil
  then show ?case by simp
next
  case (Cons c cs)
  then have "copy_into (dst[i := c]) (Suc i) cs =
      Some (take (Suc i) (dst[i := c]) @ cs @ drop (Suc i + length cs) (dst[i := c]))"
    by simp
  with Cons.prems show ?case
    by (simp add: take_Suc_conv_app_nth)
qed

lemma copy_into_fault:
  "length dst < i + length cs \<Longrightarrow> i \<le> length dst \<Longrightarrow> copy_into dst i cs = None"
  by (induction cs arbitrary: dst i) auto

subsection \<open>Overwriting a part of a list\<close>

text \<open>\<open>overwrite p xs c\<close> puts \<open>xs\<close> at position \<open>p\<close> of \<open>c\<close> and extends \<open>c\<close> where \<open>xs\<close> goes past its end.\<close>

definition overwrite :: "nat \<Rightarrow> 'a list \<Rightarrow> 'a list \<Rightarrow> 'a list" where
  "overwrite p xs c = take p c @ xs @ drop (p + length xs) c"

lemma length_overwrite: "p \<le> length c \<Longrightarrow> length (overwrite p xs c) = max (length c) (p + length xs)"
  by (simp add: overwrite_def)

lemma overwrite_Nil [simp]: "overwrite p [] c = c"
  by (simp add: overwrite_def)

lemma overwrite_two:
  assumes "pos + length xs = length c" 
  shows "overwrite pos xs c @ overwrite 0 ys d = overwrite pos (xs @ ys) (c @ d)"
  using assms [symmetric] by (simp add: overwrite_def)

lemma overwrite_left: "pos + length xs \<le> length c \<Longrightarrow> overwrite pos xs c @ d = overwrite pos xs (c @ d)"
  by (simp add: overwrite_def)

lemma overwrite_take:
  assumes "p \<le> sz" "sz \<le> length c"
  shows "take (max sz (p + length xs)) (overwrite p xs c) = overwrite p xs (take sz c)"
  using assms by (auto simp: overwrite_def max_def min_def drop_take)

lemma overwrite_drop:
  assumes "k \<le> p" "p \<le> length c"
  shows "overwrite p xs c = take k c @ overwrite (p - k) xs (drop k c)"
  using assms by (simp add: overwrite_def take_drop [symmetric]) (simp add: take_add [symmetric])

lemma overwrite_append: "p + length xs \<le> length c \<Longrightarrow> overwrite p xs (c @ d) = overwrite p xs c @ d"
  by (simp add: overwrite_def)

end
