(* ===== verification/Tos_Names.thy ===== *)
theory Tos_Names
  imports RD_Prelude
begin

text \<open>
  File names of the RAM disk (\<open>extensio/ramdisk/ramutil.c\<close>): the validity check of a
  name, the squeeze of a long name into the 8+3 form a TOS process understands
  (\<open>tostrunc\<close>), the padded form the directory search compares (\<open>fill_tosname\<close>,
  \<open>match_tosname\<close>), the executable extensions and the drive letters.
\<close>

subsection \<open>Definitions\<close>

definition RAM_MAXFNAME :: nat where "RAM_MAXFNAME = 32"

definition letter_from_drive :: "int \<Rightarrow> int" where
  "letter_from_drive drv = (if drv \<ge> 26 then drv - 26 + 49 else drv + 65)"

definition drive_from_letter :: "int \<Rightarrow> int" where
  "drive_from_letter drv =
     (if 65 \<le> drv \<and> drv \<le> 90 then drv - 65
      else if 97 \<le> drv \<and> drv \<le> 122 then drv - 97
      else if 49 \<le> drv \<and> drv \<le> 54 then (drv - 49) + 26
      else -1)"

text \<open>\<open>check_name\<close>: the third and fourth test are the backslash and the slash.\<close>

definition name_char_ok :: "bool \<Rightarrow> char \<Rightarrow> bool" where
  "name_char_ok eight_bit c \<longleftrightarrow>
     (let check = (of_char c :: nat); max = (if eight_bit then 255 else 127)
      in \<not> (check < 0x20 \<or> check > max \<or> c = backslash \<or> c = CHR ''/''))"

definition check_name :: "bool \<Rightarrow> string \<Rightarrow> bool" where
  "check_name eight_bit name \<longleftrightarrow> name \<noteq> [] \<and> list_all (name_char_ok eight_bit) name"

definition tos_chars :: string where
  "tos_chars = ''_!@#$%^&()+-=~`;'' @ [CHR 0x27, CHR 0x22] @ '',<>|[]{}''"

definition tos_conv :: "bool \<Rightarrow> char \<Rightarrow> char" where
  "tos_conv wildcards c =
     (if c \<in> set tos_chars \<or> c_isalnum c \<or> (wildcards \<and> (c = CHR ''*'' \<or> c = CHR ''?''))
      then c_toupper c else CHR ''X'')"

text \<open>
  The two copy loops of \<open>tostrunc\<close>.  The position of the last dot is its distance from
  the current read position.
\<close>

fun tos_name_loop :: "nat \<Rightarrow> bool \<Rightarrow> nat option \<Rightarrow> string \<Rightarrow> string" where
  "tos_name_loop 0 wildcards lastdot src = []"
| "tos_name_loop (Suc i) wildcards lastdot [] = []"
| "tos_name_loop (Suc i) wildcards lastdot (c # src) =
     (if lastdot = Some 0 then []
      else (if c = CHR ''.'' then CHR '','' else tos_conv wildcards c)
           # tos_name_loop i wildcards (map_option (\<lambda>k. k - 1) lastdot) src)"

fun tos_ext_loop :: "nat \<Rightarrow> bool \<Rightarrow> string \<Rightarrow> string" where
  "tos_ext_loop 0 wildcards src = []"
| "tos_ext_loop (Suc i) wildcards [] = []"
| "tos_ext_loop (Suc i) wildcards (c # src) = tos_conv wildcards c # tos_ext_loop i wildcards src"

definition tos_lastdot :: "string \<Rightarrow> nat option" where
  "tos_lastdot src =
     (case strrchr src (CHR ''.'') of
        None \<Rightarrow> None
      | Some k \<Rightarrow> if k = 0 \<or> length src \<le> Suc k then None else Some k)"

definition tostrunc :: "string \<Rightarrow> bool \<Rightarrow> string" where
  "tostrunc src wildcards =
     (if src = ''.'' \<or> src = ''..'' then src
      else let lastdot = tos_lastdot src in
        tos_name_loop 8 wildcards lastdot src @
        (case lastdot of
           None \<Rightarrow> []
         | Some k \<Rightarrow> CHR ''.'' # tos_ext_loop 3 wildcards (drop (Suc k) src)))"

text \<open>
  \<open>fill_tosname\<close> works on the 13 bytes of its destination, the closing NUL included.
  \<open>star_fill lo hi\<close> is one of its two final loops: the first asterisk of the part turns
  the rest of that part into question marks.
\<close>

definition star_fill :: "nat \<Rightarrow> nat \<Rightarrow> char list \<Rightarrow> char list option" where
  "star_fill lo hi dest = do {
     r \<leftarrow> scan_from (\<lambda>c. c = CHR ''*'') dest lo hi;
     Some (case r of
             None \<Rightarrow> dest
           | Some i \<Rightarrow> take i dest @ replicate (hi - i) (CHR ''?'') @ drop hi dest)
   }"

definition after_dot :: "string \<Rightarrow> string" where
  "after_dot src = tl (dropWhile (\<lambda>c. c \<noteq> CHR ''.'') src)"

definition fill_tosname :: "string \<Rightarrow> char list option" where
  "fill_tosname src =
     (if src = ''.'' then Some (''.       .   '' @ [NUL])
      else if src = ''..'' then Some (''..      .   '' @ [NUL])
      else do {
        dest \<leftarrow> copy_into (''        .   '' @ [NUL]) 0 (takeWhile (\<lambda>c. c \<noteq> CHR ''.'') src);
        dest \<leftarrow> copy_into dest 9 (after_dot src);
        dest \<leftarrow> star_fill 0 8 dest;
        star_fill 9 12 dest
      })"

fun match_loop :: "nat \<Rightarrow> char list \<Rightarrow> char list \<Rightarrow> bool" where
  "match_loop 0 to_check sample = True"
| "match_loop (Suc n) to_check sample =
     (if hd sample \<noteq> CHR ''?'' \<and> hd sample \<noteq> hd to_check then False
      else match_loop n (tl to_check) (tl sample))"

definition match_tosname :: "char list \<Rightarrow> char list \<Rightarrow> bool" where
  "match_tosname to_check sample = match_loop 12 to_check sample"

definition xext :: "string list" where
  "xext = [''sot.'', ''ptt.'', ''grp.'', ''ppa.'', ''ptg.'', ''cca.'']"

text \<open>\<open>strnicmp(a, b, n) == 0\<close>: the first \<open>n\<close> characters agree up to case.\<close>

definition strnicmp_eq :: "string \<Rightarrow> string \<Rightarrow> nat \<Rightarrow> bool" where
  "strnicmp_eq a b n \<longleftrightarrow> stricmp_eq (take n a) (take n b)"

definition has_xext :: "int \<Rightarrow> string \<Rightarrow> bool" where
  "has_xext domain name =
     (if domain = 1 then False
      else let temp = rev (take RAM_MAXFNAME name)
           in list_ex (\<lambda>x. strnicmp_eq temp x 4) xext)"

subsection \<open>Closed forms of the copy loops\<close>

lemma tos_ext_loop_eq: "tos_ext_loop n w src = map (tos_conv w) (take n src)"
  by (induction n w src rule: tos_ext_loop.induct) auto

definition tos_base_conv :: "bool \<Rightarrow> char \<Rightarrow> char" where
  "tos_base_conv w c = (if c = CHR ''.'' then CHR '','' else tos_conv w c)"

lemma tos_name_loop_None:
  "tos_name_loop n w None src = map (tos_base_conv w) (take n src)"
  by (induction n w "None :: nat option" src rule: tos_name_loop.induct)
     (auto simp: tos_base_conv_def)

lemma tos_name_loop_Some:
  "tos_name_loop n w (Some k) src = map (tos_base_conv w) (take n (take k src))"
  by (induction n w "Some k" src arbitrary: k rule: tos_name_loop.induct)
     (auto simp: tos_base_conv_def take_Cons' split: if_splits)

lemma tos_lastdot_SomeD:
  assumes "tos_lastdot src = Some k"
  shows "0 < k" "Suc k < length src" "src ! k = CHR ''.''" "CHR ''.'' \<notin> set (drop (Suc k) src)"
  using assms strrchr_SomeD [of src "CHR ''.''" k]
  by (auto simp: tos_lastdot_def split: option.splits if_splits)

text \<open>The two shapes of a squeezed name, the dots of the source apart.\<close>

lemma tostrunc_cases:
  obtains (dots) "src = ''.'' \<or> src = ''..''" "tostrunc src w = src"
  | (plain) "src \<noteq> ''.''" "src \<noteq> ''..''" "tos_lastdot src = None"
      "tostrunc src w = map (tos_base_conv w) (take 8 src)"
  | (ext) k where "src \<noteq> ''.''" "src \<noteq> ''..''" "tos_lastdot src = Some k"
      "tostrunc src w = map (tos_base_conv w) (take 8 (take k src)) @
         CHR ''.'' # map (tos_conv w) (take 3 (drop (Suc k) src))"
  by (cases "src = ''.'' \<or> src = ''..''"; cases "tos_lastdot src")
     (auto simp: tostrunc_def tos_ext_loop_eq tos_name_loop_None tos_name_loop_Some)

subsection \<open>Characters of a squeezed name\<close>

lemma tos_conv_cases:
  "tos_conv w c = CHR ''X'' \<or> tos_conv w c \<in> set tos_chars \<or> c_isalnum (tos_conv w c)
    \<or> (w \<and> tos_conv w c \<in> {CHR ''*'', CHR ''?''})"
proof -
  have up: "c \<in> set tos_chars \<Longrightarrow> c_toupper c = c"
    by (auto simp: tos_chars_def c_toupper_def)
  have al: "c_isalnum c \<Longrightarrow> c_isalnum (c_toupper c)"
    by (auto simp: c_isalnum_def of_char_c_toupper Let_def)
  have st: "c = CHR ''*'' \<or> c = CHR ''?'' \<Longrightarrow> c_toupper c = c"
    by (auto simp: c_toupper_def)
  show ?thesis
    using up al st by (auto simp: tos_conv_def)
qed

lemma not_isalnum [simp]:
  "\<not> c_isalnum (CHR ''.'')" "\<not> c_isalnum (CHR ''*'')" "\<not> c_isalnum (CHR ''?'')"
  "\<not> c_isalnum (CHR 0x20)" "\<not> c_isalnum backslash"
  by (simp_all add: c_isalnum_def)

lemma not_tos_chars [simp]:
  "CHR ''.'' \<notin> set tos_chars" "CHR ''*'' \<notin> set tos_chars" "CHR ''?'' \<notin> set tos_chars"
  "CHR 0x20 \<notin> set tos_chars" "backslash \<notin> set tos_chars"
  by (simp_all add: tos_chars_def)

lemma tos_conv_not_dot [simp]: "tos_conv w c \<noteq> CHR ''.''"
  using tos_conv_cases [of w c] by force

lemma tos_base_conv_not_dot [simp]: "tos_base_conv w c \<noteq> CHR ''.''"
  by (simp add: tos_base_conv_def)

lemma comma_tos_char: "CHR '','' \<in> set tos_chars"
  by (simp add: tos_chars_def)

lemma tos_conv_no_star: "\<not> w \<Longrightarrow> tos_conv w c \<noteq> CHR ''*'' \<and> tos_conv w c \<noteq> CHR ''?''"
  using tos_conv_cases [of w c] by force

lemma tos_conv_idem [simp]: "tos_conv w (tos_conv w c) = tos_conv w c"
proof -
  have up: "d \<in> set tos_chars \<Longrightarrow> c_toupper d = d" for d
    by (auto simp: tos_chars_def c_toupper_def)
  have al: "c_isalnum c \<Longrightarrow> c_isalnum (c_toupper c)"
    by (auto simp: c_isalnum_def of_char_c_toupper Let_def)
  have X: "c_isalnum (CHR ''X'')" "c_toupper (CHR ''X'') = CHR ''X''"
      "c_toupper (CHR ''*'') = CHR ''*''" "c_toupper (CHR ''?'') = CHR ''?''"
    by (simp_all add: c_isalnum_def c_toupper_def)
  show ?thesis
    using up al X by (auto simp: tos_conv_def)
qed

lemma tos_conv_comma [simp]: "tos_conv w (CHR '','') = CHR '',''"
  by (simp add: tos_conv_def comma_tos_char) (simp add: c_toupper_def)

lemma tos_base_conv_idem [simp]: "tos_base_conv w (tos_base_conv w c) = tos_base_conv w c"
  by (simp add: tos_base_conv_def)

subsection \<open>The 8+3 form\<close>

text \<open>A name in 8+3 form: a part without dots, and possibly a dot and an extension.\<close>

definition is_8_3 :: "string \<Rightarrow> bool" where
  "is_8_3 r \<longleftrightarrow> (let b = takeWhile (\<lambda>c. c \<noteq> CHR ''.'') r; e = dropWhile (\<lambda>c. c \<noteq> CHR ''.'') r in
     length b \<le> 8 \<and> (e \<noteq> [] \<longrightarrow> b \<noteq> [] \<and> 2 \<le> length e \<and> length e \<le> 4 \<and> CHR ''.'' \<notin> set (tl e)))"

definition join_8_3 :: "string \<Rightarrow> string \<Rightarrow> string" where
  "join_8_3 b e = b @ (if e = [] then [] else CHR ''.'' # e)"

lemma join_8_3_takeWhile:
  "CHR ''.'' \<notin> set b \<Longrightarrow> takeWhile (\<lambda>c. c \<noteq> CHR ''.'') (join_8_3 b e) = b"
  by (induction b) (auto simp: join_8_3_def)

lemma join_8_3_dropWhile:
  "CHR ''.'' \<notin> set b \<Longrightarrow> dropWhile (\<lambda>c. c \<noteq> CHR ''.'') (join_8_3 b e) = (if e = [] then [] else CHR ''.'' # e)"
  by (induction b) (auto simp: join_8_3_def)

lemma tostrunc_join:
  assumes "src \<noteq> ''.''" "src \<noteq> ''..''"
  obtains x y where "\<And>w. tostrunc src w = join_8_3 (map (tos_base_conv w) x) (map (tos_conv w) y)"
    and "length x \<le> 8" "length y \<le> 3" "y \<noteq> [] \<Longrightarrow> x \<noteq> []" "src \<noteq> [] \<Longrightarrow> x \<noteq> []"
proof (cases "tos_lastdot src")
  case None
  have "\<And>w. tostrunc src w = join_8_3 (map (tos_base_conv w) (take 8 src)) (map (tos_conv w) [])"
    using assms None by (simp add: tostrunc_def tos_name_loop_None join_8_3_def)
  then show ?thesis by (rule that) auto
next
  case (Some k)
  note k = tos_lastdot_SomeD [OF Some]
  have "\<And>w. tostrunc src w = join_8_3 (map (tos_base_conv w) (take 8 (take k src)))
           (map (tos_conv w) (take 3 (drop (Suc k) src)))"
    using assms Some k
    by (simp add: tostrunc_def tos_name_loop_Some tos_ext_loop_eq join_8_3_def)
  then show ?thesis by (rule that) (use k in auto)
qed

lemma base_conv_no_dot [simp]: "CHR ''.'' \<notin> tos_base_conv w ` A"
  using tos_base_conv_not_dot by (metis imageE)

lemma conv_no_dot [simp]: "CHR ''.'' \<notin> tos_conv w ` A"
  using tos_conv_not_dot by (metis imageE)

lemma is_8_3_join:
  "CHR ''.'' \<notin> set b \<Longrightarrow> CHR ''.'' \<notin> set e \<Longrightarrow> length b \<le> 8 \<Longrightarrow> length e \<le> 3
   \<Longrightarrow> (e \<noteq> [] \<Longrightarrow> b \<noteq> []) \<Longrightarrow> is_8_3 (join_8_3 b e)"
  by (cases e) (auto simp: is_8_3_def Let_def join_8_3_takeWhile join_8_3_dropWhile)

lemma strrchr_append_dot:
  "c \<notin> set e \<Longrightarrow> strrchr (b @ c # e) c = Some (length b)"
  by (induction b) auto

lemma tos_lastdot_join:
  assumes "CHR ''.'' \<notin> set b" "CHR ''.'' \<notin> set e" "e \<noteq> [] \<Longrightarrow> b \<noteq> []"
  shows "tos_lastdot (join_8_3 b e) = (if e = [] then None else Some (length b))"
proof (cases "e = []")
  case True
  with assms(1) show ?thesis by (simp add: tos_lastdot_def join_8_3_def)
next
  case False
  with assms show ?thesis
    by (cases e) (auto simp: tos_lastdot_def join_8_3_def strrchr_append_dot)
qed

lemma join_8_3_not_dots:
  "CHR ''.'' \<notin> set b \<Longrightarrow> (e \<noteq> [] \<Longrightarrow> b \<noteq> []) \<Longrightarrow> join_8_3 b e \<noteq> ''.'' \<and> join_8_3 b e \<noteq> ''..''"
  by (cases b; cases e) (auto simp: join_8_3_def)

lemma tostrunc_of_join:
  assumes "CHR ''.'' \<notin> set b" "CHR ''.'' \<notin> set e" "e \<noteq> [] \<Longrightarrow> b \<noteq> []"
    and "length b \<le> 8" "length e \<le> 3"
  shows "tostrunc (join_8_3 b e) w = join_8_3 (map (tos_base_conv w) b) (map (tos_conv w) e)"
proof -
  have nd: "join_8_3 b e \<noteq> ''.''" "join_8_3 b e \<noteq> ''..''"
    using join_8_3_not_dots [of b e] assms by auto
  show ?thesis
    using nd tos_lastdot_join [of b e] assms
    by (auto simp: tostrunc_def tos_name_loop_None tos_name_loop_Some tos_ext_loop_eq)
       (auto simp: join_8_3_def)
qed

subsection \<open>The padded form\<close>

definition raw83 :: "string \<Rightarrow> string \<Rightarrow> char list" where
  "raw83 b e = b @ replicate (8 - length b) (CHR 0x20) @ CHR ''.'' # e
                @ replicate (3 - length e) (CHR 0x20) @ [NUL]"

lemma length_raw83 [simp]: "length b \<le> 8 \<Longrightarrow> length e \<le> 3 \<Longrightarrow> length (raw83 b e) = 13"
  by (simp add: raw83_def)

lemma raw83_nth:
  assumes "length b \<le> 8" "length e \<le> 3" "i < 12"
  shows "raw83 b e ! i = (if i < length b then b ! i else if i < 8 then CHR 0x20
           else if i = 8 then CHR ''.'' else if i - 9 < length e then e ! (i - 9) else CHR 0x20)"
proof -
  have "raw83 b e = b @ replicate (8 - length b) (CHR 0x20) @ ([CHR ''.''] @ e
                @ replicate (3 - length e) (CHR 0x20) @ [NUL])"
    by (simp add: raw83_def)
  then show ?thesis
    using assms by (auto simp: nth_append)
qed

lemma raw83_12: "length b \<le> 8 \<Longrightarrow> length e \<le> 3 \<Longrightarrow> raw83 b e ! 12 = NUL"
  by (auto simp: raw83_def nth_append)

lemma star_fill_spec:
  assumes "hi \<le> length d"
  obtains d' where "star_fill lo hi d = Some d'" "length d' = length d"
    "\<And>i. i < length d \<Longrightarrow> d' ! i = (if lo \<le> i \<and> i < hi \<and> (\<exists>j. lo \<le> j \<and> j \<le> i \<and> d ! j = CHR ''*'')
                                then CHR ''?'' else d ! i)"
proof (cases "scan_from (\<lambda>c. c = CHR ''*'') d lo hi")
  case None
  with scan_from_no_fault [OF assms] show ?thesis by blast
next
  case (Some r)
  show ?thesis
  proof (cases r)
    case None
    with Some scan_from_None_iff [OF assms, of "\<lambda>c. c = CHR ''*''" lo] show ?thesis
      by (intro that [of d]) (auto simp: star_fill_def)
  next
    case (Some i0)
    with \<open>scan_from _ d lo hi = Some r\<close> scan_from_Some_iff [OF assms, of "\<lambda>c. c = CHR ''*''" lo i0]
    have i0: "lo \<le> i0" "i0 < hi" "d ! i0 = CHR ''*''" "\<And>j. lo \<le> j \<Longrightarrow> j < i0 \<Longrightarrow> d ! j \<noteq> CHR ''*''"
      by auto
    have first: "(\<exists>j. lo \<le> j \<and> j \<le> i \<and> d ! j = CHR ''*'') \<longleftrightarrow> i0 \<le> i" for i
      using i0 by (metis le_trans linorder_not_le)
    show ?thesis
      by (rule that [of "take i0 d @ replicate (hi - i0) (CHR ''?'') @ drop hi d"])
         (use Some \<open>scan_from _ d lo hi = Some r\<close> assms i0 in
            \<open>auto simp: star_fill_def first nth_append\<close>)
  qed
qed

lemma fill_tosname_join:
  assumes "CHR ''.'' \<notin> set b" "e \<noteq> [] \<Longrightarrow> b \<noteq> []" "length b \<le> 8" "length e \<le> 3"
  shows "fill_tosname (join_8_3 b e) = star_fill 0 8 (raw83 b e) \<bind> star_fill 9 12"
proof -
  let ?t = "''        .   '' @ [NUL]"
  have nd: "join_8_3 b e \<noteq> ''.''" "join_8_3 b e \<noteq> ''..''"
    using join_8_3_not_dots [of b e] assms by auto
  have after: "after_dot (join_8_3 b e) = e"
    using assms by (simp add: after_dot_def join_8_3_dropWhile)
  have rep: "''        .   '' = replicate 8 (CHR 0x20) @ CHR ''.'' # replicate 3 (CHR 0x20)"
    by (simp add: eval_nat_numeral)
  have 1: "copy_into ?t 0 b = Some (b @ replicate (8 - length b) (CHR 0x20) @ CHR ''.'' # replicate 3 (CHR 0x20) @ [NUL])"
    using assms by (subst copy_into_eq) (auto simp: rep)
  have 2: "copy_into (b @ replicate (8 - length b) (CHR 0x20) @ CHR ''.'' # replicate 3 (CHR 0x20) @ [NUL]) 9 e
      = Some (raw83 b e)"
    using assms by (subst copy_into_eq) (auto simp: raw83_def drop_Cons')
  show ?thesis
    using nd assms 1 2 after by (simp add: fill_tosname_def join_8_3_takeWhile)
qed

text \<open>Every entry of the padded form of an 8+3 name, position by position.\<close>

lemma fill_tosname_nth:
  assumes "CHR ''.'' \<notin> set b" "e \<noteq> [] \<Longrightarrow> b \<noteq> []" "length b \<le> 8" "length e \<le> 3"
  obtains d where "fill_tosname (join_8_3 b e) = Some d" "length d = 13" "d ! 8 = CHR ''.''" "d ! 12 = NUL"
    "\<And>i. i < 8 \<Longrightarrow> d ! i = (if \<exists>j\<le>i. raw83 b e ! j = CHR ''*'' then CHR ''?'' else raw83 b e ! i)"
    "\<And>i. 9 \<le> i \<Longrightarrow> i < 12 \<Longrightarrow> d ! i =
        (if \<exists>j\<le>i. 9 \<le> j \<and> raw83 b e ! j = CHR ''*'' then CHR ''?'' else raw83 b e ! i)"
proof -
  let ?r = "raw83 b e"
  have len: "length ?r = 13" using assms by simp
  obtain d1 where d1: "star_fill 0 8 ?r = Some d1" "length d1 = 13"
    and n1: "\<And>i. i < 13 \<Longrightarrow> d1 ! i = (if i < 8 \<and> (\<exists>j. j \<le> i \<and> ?r ! j = CHR ''*'') then CHR ''?'' else ?r ! i)"
    using star_fill_spec [of 8 ?r 0] len by auto
  obtain d2 where d2: "star_fill 9 12 d1 = Some d2" "length d2 = 13"
    and n2: "\<And>i. i < 13 \<Longrightarrow> d2 ! i = (if 9 \<le> i \<and> i < 12 \<and> (\<exists>j. 9 \<le> j \<and> j \<le> i \<and> d1 ! j = CHR ''*'')
                                 then CHR ''?'' else d1 ! i)"
    using star_fill_spec [of 12 d1 9] d1(2) by auto
  have same: "9 \<le> j \<Longrightarrow> j < 12 \<Longrightarrow> d1 ! j = ?r ! j" for j
    using n1 [of j] by simp
  show ?thesis
  proof (rule that [of d2])
    show "fill_tosname (join_8_3 b e) = Some d2"
      using fill_tosname_join [OF assms] d1 d2 by simp
    show "d2 ! 8 = CHR ''.''"
      using n2 [of 8] n1 [of 8] assms by (simp add: raw83_nth)
    show "d2 ! 12 = NUL"
      using n2 [of 12] n1 [of 12] assms by (simp add: raw83_12)
  next
    fix i :: nat assume "i < 8"
    then show "d2 ! i = (if \<exists>j\<le>i. ?r ! j = CHR ''*'' then CHR ''?'' else ?r ! i)"
      using n2 [of i] n1 [of i] by simp
  next
    fix i :: nat assume i: "9 \<le> i" "i < 12"
    have "(\<exists>j. 9 \<le> j \<and> j \<le> i \<and> d1 ! j = CHR ''*'') \<longleftrightarrow> (\<exists>j\<le>i. 9 \<le> j \<and> ?r ! j = CHR ''*'')"
      using same i by (metis le_trans linorder_not_le)
    then show "d2 ! i = (if \<exists>j\<le>i. 9 \<le> j \<and> ?r ! j = CHR ''*'' then CHR ''?'' else ?r ! i)"
      using n2 [of i] same [of i] i by auto
  qed (use d2 in simp)
qed

lemma match_loop_iff:
  "n \<le> length a \<Longrightarrow> n \<le> length b \<Longrightarrow>
   match_loop n a b \<longleftrightarrow> (\<forall>i<n. b ! i = CHR ''?'' \<or> b ! i = a ! i)"
proof (induction n arbitrary: a b)
  case 0
  then show ?case by simp
next
  case (Suc n)
  then obtain x a' y b' where "a = x # a'" "b = y # b'"
    by (metis Suc_le_length_iff)
  with Suc show ?case
    by (auto simp: All_less_Suc2)
qed

subsection \<open>Properties\<close>

text \<open>\<open>tostrunc\<close> always delivers \<open>.\<close>, \<open>..\<close> or a name in 8+3 form, whatever
  the source name and with or without wildcards, and never an empty name for a
  non-empty one.\<close>

theorem tostrunc_8_3:
  "(tostrunc src w = src \<and> src \<in> {''.'', ''..''} \<or> is_8_3 (tostrunc src w))
   \<and> (tostrunc src w = [] \<longleftrightarrow> src = [])"
proof (cases "src = ''.'' \<or> src = ''..''")
  case True
  then show ?thesis by (auto simp: tostrunc_def)
next
  case False
  then obtain x y where j: "tostrunc src w = join_8_3 (map (tos_base_conv w) x) (map (tos_conv w) y)"
    and xy: "length x \<le> 8" "length y \<le> 3" "y \<noteq> [] \<Longrightarrow> x \<noteq> []" "src \<noteq> [] \<Longrightarrow> x \<noteq> []"
    by (metis tostrunc_join)
  have "is_8_3 (tostrunc src w)"
    unfolding j by (rule is_8_3_join) (use xy in auto)
  moreover have "tostrunc src w = [] \<longleftrightarrow> src = []"
  proof
    assume "tostrunc src w = []"
    then show "src = []" using j xy by (auto simp: join_8_3_def)
  next
    assume "src = []"
    then show "tostrunc src w = []" by (simp add: tostrunc_def tos_lastdot_def tos_name_loop_None)
  qed
  ultimately show ?thesis by blast
qed

theorem tostrunc_8_3_witness:
  "is_8_3 (tostrunc ''name.mit.vielen.punkten'' False)
   \<and> tostrunc ''name.mit.vielen.punkten'' False = ''NAME,MIT.PUN''"
  using tostrunc_8_3 [of "''name.mit.vielen.punkten''" False] by code_simp

text \<open>squeezing a name that is already in 8+3 form changes nothing, so the comparison
  of two squeezed names in \<open>findfile\<close> is an equivalence of names.\<close>

theorem tostrunc_idem: "tostrunc (tostrunc src w) w = tostrunc src w"
proof (cases "src = ''.'' \<or> src = ''..''")
  case True
  then show ?thesis by (auto simp: tostrunc_def)
next
  case False
  then obtain x y where j: "tostrunc src w = join_8_3 (map (tos_base_conv w) x) (map (tos_conv w) y)"
    and xy: "length x \<le> 8" "length y \<le> 3" "y \<noteq> [] \<Longrightarrow> x \<noteq> []"
    by (metis tostrunc_join)
  show ?thesis
    unfolding j by (subst tostrunc_of_join) (use xy in \<open>auto simp: comp_def\<close>)
qed

text \<open>\<open>fill_tosname\<close> stays inside its 13 byte buffer on everything \<open>tostrunc\<close> delivers,
  and the result is eight characters, a dot, three characters and a NUL.\<close>

theorem fill_tosname_in_bounds:
  "\<exists>d. fill_tosname (tostrunc src w) = Some d \<and> length d = 13 \<and> d ! 8 = CHR ''.'' \<and> d ! 12 = NUL"
proof (cases "src = ''.'' \<or> src = ''..''")
  case True
  then show ?thesis by (auto simp: tostrunc_def fill_tosname_def)
next
  case False
  then obtain x y where j: "tostrunc src w = join_8_3 (map (tos_base_conv w) x) (map (tos_conv w) y)"
    and xy: "length x \<le> 8" "length y \<le> 3" "y \<noteq> [] \<Longrightarrow> x \<noteq> []"
    by (metis tostrunc_join)
  obtain d where "fill_tosname (tostrunc src w) = Some d" "length d = 13" "d ! 8 = CHR ''.''" "d ! 12 = NUL"
    unfolding j
    by (rule fill_tosname_nth [of "map (tos_base_conv w) x" "map (tos_conv w) y"]) (use xy in auto)
  then show ?thesis by blast
qed

lemma tos_conv_wild:
  "tos_conv True c = CHR ''*'' \<or> tos_conv True c = CHR ''?'' \<or> tos_conv True c = tos_conv False c"
  by (auto simp: tos_conv_def c_toupper_def)

lemma tos_base_conv_wild:
  "tos_base_conv True c = CHR ''*'' \<or> tos_base_conv True c = CHR ''?'' \<or> tos_base_conv True c = tos_base_conv False c"
  using tos_conv_wild [of c] by (auto simp: tos_base_conv_def)

lemma no_star_base: "tos_base_conv False c \<noteq> CHR ''*''"
  using tos_conv_no_star [of False c] by (simp add: tos_base_conv_def)

lemma no_star_raw83:
  assumes "length x \<le> 8" "length y \<le> 3" "i < 12"
  shows "raw83 (map (tos_base_conv False) x) (map (tos_conv False) y) ! i \<noteq> CHR ''*''"
  using assms tos_conv_no_star [of False] by (auto simp: raw83_nth no_star_base)

lemma raw83_wild:
  assumes "length x \<le> 8" "length y \<le> 3" "i < 12"
    and "raw83 (map (tos_base_conv True) x) (map (tos_conv True) y) ! i \<noteq> CHR ''*''"
  shows "raw83 (map (tos_base_conv True) x) (map (tos_conv True) y) ! i = CHR ''?''
       \<or> raw83 (map (tos_base_conv True) x) (map (tos_conv True) y) ! i
         = raw83 (map (tos_base_conv False) x) (map (tos_conv False) y) ! i"
  using assms tos_conv_wild tos_base_conv_wild by (auto simp: raw83_nth split: if_splits)

text \<open>a search mask made from a file's own name matches that file, for every name, those
  with asterisks or question marks included: \<open>sfirst\<close> called with an existing name finds it.\<close>

theorem match_own_name:
  "\<exists>name mask. fill_tosname (tostrunc src False) = Some name
     \<and> fill_tosname (tostrunc src True) = Some mask \<and> match_tosname name mask"
proof (cases "src = ''.'' \<or> src = ''..''")
  case True
  then show ?thesis
    by (auto simp: tostrunc_def fill_tosname_def match_tosname_def match_loop_iff)
next
  case False
  then obtain x y where j: "\<And>w. tostrunc src w = join_8_3 (map (tos_base_conv w) x) (map (tos_conv w) y)"
    and xy: "length x \<le> 8" "length y \<le> 3" "y \<noteq> [] \<Longrightarrow> x \<noteq> []"
    by (metis tostrunc_join)
  let ?r0 = "raw83 (map (tos_base_conv False) x) (map (tos_conv False) y)"
  let ?r1 = "raw83 (map (tos_base_conv True) x) (map (tos_conv True) y)"
  obtain d0 where d0: "fill_tosname (tostrunc src False) = Some d0" "length d0 = 13" "d0 ! 8 = CHR ''.''"
    and n0: "\<And>i. i < 8 \<Longrightarrow> d0 ! i = (if \<exists>j\<le>i. ?r0 ! j = CHR ''*'' then CHR ''?'' else ?r0 ! i)"
      "\<And>i. 9 \<le> i \<Longrightarrow> i < 12 \<Longrightarrow> d0 ! i = (if \<exists>j\<le>i. 9 \<le> j \<and> ?r0 ! j = CHR ''*'' then CHR ''?'' else ?r0 ! i)"
    unfolding j
    by (rule fill_tosname_nth [of "map (tos_base_conv False) x" "map (tos_conv False) y"]) (use xy in auto)
  obtain d1 where d1: "fill_tosname (tostrunc src True) = Some d1" "length d1 = 13" "d1 ! 8 = CHR ''.''"
    and n1: "\<And>i. i < 8 \<Longrightarrow> d1 ! i = (if \<exists>j\<le>i. ?r1 ! j = CHR ''*'' then CHR ''?'' else ?r1 ! i)"
      "\<And>i. 9 \<le> i \<Longrightarrow> i < 12 \<Longrightarrow> d1 ! i = (if \<exists>j\<le>i. 9 \<le> j \<and> ?r1 ! j = CHR ''*'' then CHR ''?'' else ?r1 ! i)"
    unfolding j
    by (rule fill_tosname_nth [of "map (tos_base_conv True) x" "map (tos_conv True) y"]) (use xy in auto)
  have plain: "i < 12 \<Longrightarrow> i \<noteq> 8 \<Longrightarrow> d0 ! i = ?r0 ! i" for i
    using n0 [of i] no_star_raw83 [OF xy(1,2)] by (cases "i < 8") auto
  have "d1 ! i = CHR ''?'' \<or> d1 ! i = d0 ! i" if "i < 12" for i
  proof (cases "i = 8")
    case True
    with d0 d1 show ?thesis by simp
  next
    case False
    then show ?thesis
      using that n1 [of i] plain [of i] raw83_wild [OF xy(1,2) that]
      by (cases "i < 8") auto
  qed
  then have "match_tosname d0 d1"
    using d0 d1 by (simp add: match_tosname_def match_loop_iff)
  with d0 d1 show ?thesis by blast
qed

text \<open>drive letters and drive numbers are inverse to each other on all 32 drives:
  \<open>A\<close> to \<open>Z\<close> and then \<open>1\<close> to \<open>6\<close>.\<close>

theorem drive_letter_roundtrip:
  "0 \<le> drv \<Longrightarrow> drv < 32 \<Longrightarrow> drive_from_letter (letter_from_drive drv) = drv"
  by (simp add: drive_from_letter_def letter_from_drive_def)

theorem drive_letter_roundtrip_witness:
  "drive_from_letter (letter_from_drive 27) = 27 \<and> letter_from_drive 27 = 50"
  using drive_letter_roundtrip [of 27] by (simp add: letter_from_drive_def)

end
