(* ===== verification/Ram_State.thy ===== *)
theory Ram_State
  imports Tos_Names
begin

text \<open>
  The state of the RAM disk file system (\<open>extensio/ramdisk/ramdisk.h\<close>,
  \<open>extensio/ramdisk/proto.h\<close>), the part of the MagiC kernel it calls, and its memory
  management (\<open>Kmalloc\<close>, \<open>Krealloc\<close>, \<open>Kfree\<close> of \<open>ramutil.c\<close>).

  Memory is a map from block addresses to typed blocks.  A pointer to a directory entry
  is the address of the block that holds it and the entry's index there; a block that is
  freed leaves the map, so that an access through a stale pointer is visible as an access
  outside the map.
\<close>

subsection \<open>Constants\<close>

definition E_OK :: int where "E_OK = 0"
definition EINVFN :: int where "EINVFN = -32"
definition EFILNF :: int where "EFILNF = -33"
definition EPTHNF :: int where "EPTHNF = -34"
definition ENHNDL :: int where "ENHNDL = -35"
definition EACCDN :: int where "EACCDN = -36"
definition EIHNDL :: int where "EIHNDL = -37"
definition ENSMEM :: int where "ENSMEM = -39"
definition EDRIVE :: int where "EDRIVE = -46"
definition ENMFIL :: int where "ENMFIL = -49"
definition ERANGE :: int where "ERANGE = -64"
definition ELINK :: int where "ELINK = -300"
definition E_CHNG :: int where "E_CHNG = -14"
definition EINTRN :: int where "EINTRN = -65"
definition FSTAT :: int where "FSTAT = 0x4600"

lemmas err_defs = E_OK_def EINVFN_def EFILNF_def EPTHNF_def ENHNDL_def EACCDN_def EIHNDL_def
  ENSMEM_def EDRIVE_def ENMFIL_def ERANGE_def ELINK_def

definition MAX_FD :: nat where "MAX_FD = 200"
definition MAX_DHD :: nat where "MAX_DHD = 100"
definition ROOTSIZE :: nat where "ROOTSIZE = 100"
definition DEFAULTFILE :: int where "DEFAULTFILE = 4096"
definition sizeof_DIRENTRY :: int where "sizeof_DIRENTRY = 128"
definition DEFAULTDIR :: int where "DEFAULTDIR = DEFAULTFILE div sizeof_DIRENTRY"
definition sizeof_FILEBLOCK :: int where "sizeof_FILEBLOCK = DEFAULTFILE + 4"

lemma DEFAULTDIR_eq [simp]: "DEFAULTDIR = 32"
  by (simp add: DEFAULTDIR_def DEFAULTFILE_def sizeof_DIRENTRY_def)

definition S_IFMT :: mode16 where "S_IFMT = 0xF000"
definition S_IFDIR :: mode16 where "S_IFDIR = 0x4000"
definition S_IFREG :: mode16 where "S_IFREG = 0x8000"
definition S_IFLNK :: mode16 where "S_IFLNK = 0xE000"
definition S_IRUSR :: mode16 where "S_IRUSR = 0x100"
definition S_IWUSR :: mode16 where "S_IWUSR = 0x80"
definition S_IXUSR :: mode16 where "S_IXUSR = 0x40"
definition S_IWALL :: mode16 where \<comment> \<open>\<open>S_IWUSR | S_IWGRP | S_IWOTH\<close>\<close>
  "S_IWALL = 0x80 OR 0x10 OR 0x02"

definition FA_RDONLY :: mode16 where "FA_RDONLY = 0x01"
definition FA_DIR :: mode16 where "FA_DIR = 0x10"
definition FA_CHANGED :: mode16 where "FA_CHANGED = 0x20"
definition FA_SYMLINK :: mode16 where "FA_SYMLINK = 0x40"

definition OM_RPERM :: mode16 where "OM_RPERM = 1"
definition OM_WPERM :: mode16 where "OM_WPERM = 2"
definition OM_EXEC :: mode16 where "OM_EXEC = 4"
definition O_CREAT :: mode16 where "O_CREAT = 0x200"
definition O_TRUNC :: mode16 where "O_TRUNC = 0x400"
definition O_EXCL :: mode16 where "O_EXCL = 0x800"

lemmas mode_defs = S_IFMT_def S_IFDIR_def S_IFREG_def S_IFLNK_def S_IRUSR_def S_IWUSR_def
  S_IXUSR_def S_IWALL_def FA_RDONLY_def FA_DIR_def FA_CHANGED_def FA_SYMLINK_def
  OM_RPERM_def OM_WPERM_def OM_EXEC_def O_CREAT_def O_TRUNC_def O_EXCL_def

definition is_file :: "mode16 \<Rightarrow> bool" where "is_file m \<longleftrightarrow> m AND S_IFMT = S_IFREG"
definition is_dir :: "mode16 \<Rightarrow> bool" where "is_dir m \<longleftrightarrow> m AND S_IFMT = S_IFDIR"
definition is_link :: "mode16 \<Rightarrow> bool" where "is_link m \<longleftrightarrow> m AND S_IFMT = S_IFLNK"

lemma file_type_exclusive:
  "is_file m \<Longrightarrow> \<not> is_dir m" "is_file m \<Longrightarrow> \<not> is_link m" "is_dir m \<Longrightarrow> \<not> is_link m"
  "is_dir m \<Longrightarrow> \<not> is_file m"
  by (auto simp: is_file_def is_dir_def is_link_def mode_defs)

subsection \<open>Data structures\<close>

type_synonym addr = nat
type_synonym stamp = "int \<times> int"  \<comment> \<open>time, date\<close>
type_synonym de_ptr = "addr \<times> nat"

record XATTR =
  st_mode :: mode16
  st_ino :: addr
  st_dev :: int
  st_rdev :: int
  st_nlink :: int
  st_uid :: int
  st_gid :: int
  st_size :: int
  st_blksize :: int
  st_blocks :: int
  st_mtim :: stamp
  st_atim :: stamp
  st_ctim :: stamp
  st_attr :: mode16

record DIRENTRY =
  de_fname :: string
  de_faddr :: addr
  de_nr :: int
  de_maxnr :: int
  de_xattr :: XATTR

record FILEBLOCK =
  fb_data :: "nat \<Rightarrow> byte"
  fb_next :: addr

datatype hobj = DirBlk "DIRENTRY list" | FileBlk FILEBLOCK | LinkBlk int string

record RAMDISK_FD =
  fd_dmd :: addr
  fd_refcnt :: int
  fd_mode :: mode16
  fd_dev :: bool  \<comment> \<open>points to \<open>ramdisk_dev\<close>\<close>
  fd_fpos :: int
  fd_file :: "de_ptr option"
  fd_is_parent :: int
  fd_parent :: "nat option"
  fd_owner :: addr

record RAMDISK_DHD =
  dhd_dmd :: addr
  dhd_dir :: addr
  dhd_pos :: int
  dhd_tosmode :: bool
  dhd_owner :: addr

record RAMDISK_DTA =
  dta_dir :: addr
  dta_pos :: int
  dta_mask :: "char list"
  dta_attr :: byte
  dta_drive :: byte
  dta_attribute :: byte
  dta_time :: int
  dta_date :: int
  dta_len :: int
  dta_name :: string

text \<open>The memory left by \<open>fast_clrmem\<close>.\<close>

definition zero_xattr :: XATTR where
  "zero_xattr = \<lparr>st_mode = 0, st_ino = 0, st_dev = 0, st_rdev = 0, st_nlink = 0, st_uid = 0,
     st_gid = 0, st_size = 0, st_blksize = 0, st_blocks = 0, st_mtim = (0, 0), st_atim = (0, 0),
     st_ctim = (0, 0), st_attr = 0\<rparr>"

definition zero_de :: DIRENTRY where
  "zero_de = \<lparr>de_fname = [], de_faddr = 0, de_nr = 0, de_maxnr = 0, de_xattr = zero_xattr\<rparr>"

definition zero_fd :: RAMDISK_FD where
  "zero_fd = \<lparr>fd_dmd = 0, fd_refcnt = 0, fd_mode = 0, fd_dev = False, fd_fpos = 0, fd_file = None,
     fd_is_parent = 0, fd_parent = None, fd_owner = 0\<rparr>"

definition zero_dhd :: RAMDISK_DHD where
  "zero_dhd = \<lparr>dhd_dmd = 0, dhd_dir = 0, dhd_pos = 0, dhd_tosmode = False, dhd_owner = 0\<rparr>"

text \<open>
  The kernel services, over a state \<open>'m\<close> of the rest of the system.  \<open>k_mxalloc\<close> is
  \<open>_Mxalloc\<close> (a size for the amount \<open>-1\<close>, otherwise an address or 0), \<open>k_mfree\<close> is
  \<open>_Mfree\<close>, \<open>k_junk\<close> the bytes a fresh block happens to hold.
\<close>

record 'm kern =
  k_mxalloc :: "int \<Rightarrow> int \<Rightarrow> 'm \<Rightarrow> int \<times> 'm"
  k_mfree :: "addr \<Rightarrow> 'm \<Rightarrow> int \<times> 'm"
  k_junk :: "'m \<Rightarrow> addr \<Rightarrow> nat \<Rightarrow> byte"
  k_time :: "'m \<Rightarrow> int \<times> 'm"
  k_date :: "'m \<Rightarrow> int \<times> 'm"
  k_domain :: "'m \<Rightarrow> int"
  k_act_pd :: "'m \<Rightarrow> addr"
  k_version :: int

record 'm ram =
  mem :: 'm
  heap :: "addr \<Rightarrow> hobj option"
  fds :: "nat \<Rightarrow> RAMDISK_FD"
  dhds :: "nat \<Rightarrow> RAMDISK_DHD"
  ramdisk_dmd :: addr
  ramdisk_drive :: int
  starttime :: int
  startdate :: int
  leave_free :: int
  ram_type :: int
  eight_bit :: bool
  volume_label :: string
  opened_once :: bool

text \<open>
  The two static objects that hold directory entries: the array \<open>root\<close> and the variable
  \<open>root_de\<close>.  \<open>ROOT_DE\<close> is the pseudo pointer \<open>(DIRENTRY * )1L\<close>.
\<close>

definition ROOT :: nat where "ROOT = 0"
definition ROOT_DE :: addr where "ROOT_DE = 1"
definition root_blk :: addr where "root_blk = 2"
definition root_de_blk :: addr where "root_de_blk = 3"

subsection \<open>Memory access\<close>

definition dir_at :: "addr \<Rightarrow> 'm ram \<Rightarrow> DIRENTRY list option" where
  "dir_at a s = (case heap s a of Some (DirBlk es) \<Rightarrow> Some es | _ \<Rightarrow> None)"

definition get_de :: "de_ptr \<Rightarrow> 'm ram \<Rightarrow> DIRENTRY option" where
  "get_de p s = do {
     es \<leftarrow> dir_at (fst p) s;
     if snd p < length es then Some (es ! snd p) else None }"

definition put_de :: "de_ptr \<Rightarrow> DIRENTRY \<Rightarrow> 'm ram \<Rightarrow> 'm ram option" where
  "put_de p e s = do {
     es \<leftarrow> dir_at (fst p) s;
     if snd p < length es
     then Some (s\<lparr>heap := (heap s)(fst p \<mapsto> DirBlk (es[snd p := e]))\<rparr>) else None }"

definition file_at :: "addr \<Rightarrow> 'm ram \<Rightarrow> FILEBLOCK option" where
  "file_at a s = (case heap s a of Some (FileBlk b) \<Rightarrow> Some b | _ \<Rightarrow> None)"

definition put_file :: "addr \<Rightarrow> FILEBLOCK \<Rightarrow> 'm ram \<Rightarrow> 'm ram option" where
  "put_file a b s = do {
     _ \<leftarrow> file_at a s;
     Some (s\<lparr>heap := (heap s)(a \<mapsto> FileBlk b)\<rparr>) }"

definition link_at :: "addr \<Rightarrow> 'm ram \<Rightarrow> (int \<times> string) option" where
  "link_at a s = (case heap s a of Some (LinkBlk n t) \<Rightarrow> Some (n, t) | _ \<Rightarrow> None)"

text \<open>\<open>dd->fd_file->...\<close>: the entry a descriptor points to.\<close>

definition fd_entry :: "RAMDISK_FD \<Rightarrow> 'm ram \<Rightarrow> DIRENTRY option" where
  "fd_entry f s = do { p \<leftarrow> fd_file f; get_de p s }"

abbreviation mode_of :: "DIRENTRY \<Rightarrow> mode16" where
  "mode_of e \<equiv> st_mode (de_xattr e)"

definition waccess :: "DIRENTRY \<Rightarrow> bool" where "waccess e \<longleftrightarrow> mode_of e AND S_IWUSR \<noteq> 0"
definition raccess :: "DIRENTRY \<Rightarrow> bool" where "raccess e \<longleftrightarrow> mode_of e AND S_IRUSR \<noteq> 0"
definition xaccess :: "DIRENTRY \<Rightarrow> bool" where "xaccess e \<longleftrightarrow> mode_of e AND S_IXUSR \<noteq> 0"

subsection \<open>Kernel calls\<close>

definition Mxalloc :: "'m kern \<Rightarrow> int \<Rightarrow> int \<Rightarrow> 'm ram \<Rightarrow> int \<times> 'm ram" where
  "Mxalloc K amount mode s = (let (r, m) = k_mxalloc K amount mode (mem s) in (r, s\<lparr>mem := m\<rparr>))"

definition Kfree :: "'m kern \<Rightarrow> addr \<Rightarrow> 'm ram \<Rightarrow> 'm ram" where
  "Kfree K a s = (let (r, m) = k_mfree K a (mem s) in
     s\<lparr>mem := m, heap := (if r = 0 then (heap s)(a := None) else heap s)\<rparr>)"

definition Pdomain :: "'m kern \<Rightarrow> 'm ram \<Rightarrow> int" where
  "Pdomain K s = k_domain K (mem s)"

definition act_pd :: "'m kern \<Rightarrow> 'm ram \<Rightarrow> addr" where
  "act_pd K s = k_act_pd K (mem s)"

text \<open>\<open>x.time = Tgettime(); x.date = Tgetdate();\<close>\<close>

definition now :: "'m kern \<Rightarrow> 'm \<Rightarrow> stamp \<times> 'm" where
  "now K m = (let (t, m1) = k_time K m; (d, m2) = k_date K m1 in ((t, d), m2))"

text \<open>
  \<open>Kmalloc\<close> first tries to place the block at the end of the largest free block
  (\<open>Kmalloc_end\<close>) and then anywhere, provided the largest free block does not shrink below
  the reserve (\<open>Kmalloc_any\<close>).
\<close>

definition Kmalloc_end :: "'m kern \<Rightarrow> int \<Rightarrow> int \<Rightarrow> 'm ram \<Rightarrow> int \<times> 'm ram" where
  "Kmalloc_end K len free s =
     (if s32 (free - leave_free s) \<ge> s32 (len + 16) then
        let (temp, s1) = Mxalloc K (s32 (free - len - 16)) (ram_type s) s in
        if temp \<noteq> 0 then
          let (block, s2) = Mxalloc K len (0x4000 OR ram_type s) s1
          in (block, Kfree K (nat temp) s2)
        else (0, s1)
      else (0, s))"

definition Kmalloc_any :: "'m kern \<Rightarrow> int \<Rightarrow> int \<Rightarrow> 'm ram \<Rightarrow> int \<times> 'm ram" where
  "Kmalloc_any K len free s =
     (let (block, s1) = Mxalloc K len (0x4000 OR ram_type s) s in
      if block = 0 then (0, s1)
      else
        let (new_free, s2) = Mxalloc K (-1) (ram_type s1) s1 in
        if new_free = free then (block, s2)
        else if new_free < leave_free s2 then (0, Kfree K (nat block) s2)
        else (block, s2))"

definition Kmalloc :: "'m kern \<Rightarrow> int \<Rightarrow> 'm ram \<Rightarrow> int \<times> 'm ram" where
  "Kmalloc K len s =
     (let (free, s1) = Mxalloc K (-1) (ram_type s) s in
      if len = -1 then
        (if free < leave_free s1 then (0, s1) else (s32 (free - leave_free s1), s1))
      else
        let (block, s2) = Kmalloc_end K len free s1 in
        if block \<noteq> 0 then (block, s2) else Kmalloc_any K len free s2)"

text \<open>
  \<open>Krealloc\<close> is called for directories only; its lengths are in bytes.  The copy reads
  \<open>min old_len new_len\<close> bytes of the old block, the rest of the new block is cleared.
\<close>

definition Krealloc :: "'m kern \<Rightarrow> addr \<Rightarrow> int \<Rightarrow> int \<Rightarrow> 'm ram \<Rightarrow> (addr \<times> 'm ram) option" where
  "Krealloc K ptr old_len new_len s0 =
     (let (new_ptr, s) = Kmalloc K new_len s0 in
      if new_ptr = 0 then Some (0, s)
      else do {
        es \<leftarrow> dir_at ptr s;
        let n = nat ((if old_len < new_len then old_len else new_len) div sizeof_DIRENTRY);
        if length es < n then None
        else
          let es' = take n es @ replicate (nat (new_len div sizeof_DIRENTRY) - n) zero_de in
          Some (nat new_ptr, Kfree K ptr (s\<lparr>heap := (heap s)(nat new_ptr \<mapsto> DirBlk es')\<rparr>))
      })"

subsection \<open>What the kernel's memory management promises\<close>

text \<open>
  \<open>live m\<close> is the set of blocks allocated in the kernel state \<open>m\<close>.  \<open>Mxalloc(-1)\<close> only
  asks; every other call delivers 0 or a block that was not allocated before; \<open>Mfree\<close>
  accepts exactly allocated blocks; reading the clock allocates nothing.  The addresses 0
  to 3 are never handed out (NULL, the pseudo pointer and the two static objects).
\<close>

definition kern_ok :: "'m kern \<Rightarrow> ('m \<Rightarrow> addr set) \<Rightarrow> bool" where
  "kern_ok K live \<longleftrightarrow>
     (\<forall>md m r m'. k_mxalloc K (-1) md m = (r, m') \<longrightarrow>
        0 \<le> r \<and> r < 2 ^ 31 \<and> live m' = live m) \<and>
     (\<forall>n md m r m'. n \<noteq> -1 \<longrightarrow> k_mxalloc K n md m = (r, m') \<longrightarrow>
        r = 0 \<and> live m' = live m \<or> r > 3 \<and> nat r \<notin> live m \<and> live m' = insert (nat r) (live m)) \<and>
     (\<forall>a m r m'. k_mfree K a m = (r, m') \<longrightarrow>
        (if a \<in> live m then r = 0 \<and> live m' = live m - {a} else r \<noteq> 0 \<and> live m' = live m)) \<and>
     (\<forall>m t m'. k_time K m = (t, m') \<longrightarrow> live m' = live m) \<and>
     (\<forall>m t m'. k_date K m = (t, m') \<longrightarrow> live m' = live m)"

definition mem_inv :: "('m \<Rightarrow> addr set) \<Rightarrow> 'm ram \<Rightarrow> bool" where
  "mem_inv live s \<longleftrightarrow>
     dom (heap s) \<subseteq> live (mem s) \<union> {root_blk, root_de_blk} \<and> (\<forall>a \<in> live (mem s). 3 < a)
     \<and> 0 \<le> leave_free s \<and> leave_free s < 2 ^ 31"

lemma mem_invD:
  assumes "mem_inv live s" "a \<notin> live (mem s)" "3 < a"
  shows "heap s a = None"
  using assms by (auto simp: mem_inv_def root_blk_def root_de_blk_def dom_def)

lemma kern_ok_now: "kern_ok K live \<Longrightarrow> now K m = (t, m') \<Longrightarrow> live m' = live m"
  by (auto simp: kern_ok_def now_def split: prod.splits)

lemma mem_inv_mem [simp]:
  "live m = live (mem s) \<Longrightarrow> mem_inv live (s\<lparr>mem := m\<rparr>) = mem_inv live s"
  by (simp add: mem_inv_def)

lemma Mxalloc_query:
  assumes "kern_ok K live" "Mxalloc K (-1) md s = (r, s')"
  obtains m where "s' = s\<lparr>mem := m\<rparr>" "live m = live (mem s)" "0 \<le> r" "r < 2 ^ 31"
  using assms by (auto simp: kern_ok_def Mxalloc_def split: prod.splits)

text \<open>The outcome of an allocation: nothing changes but the kernel's books, and the result is
  0 or a new block.\<close>

definition alloc_post :: "('m \<Rightarrow> addr set) \<Rightarrow> 'm ram \<Rightarrow> int \<Rightarrow> 'm ram \<Rightarrow> bool" where
  "alloc_post live s r s' \<longleftrightarrow> (\<exists>m. s' = s\<lparr>mem := m\<rparr> \<and>
     (r = 0 \<and> live m = live (mem s) \<or>
      3 < r \<and> nat r \<notin> live (mem s) \<and> live m = insert (nat r) (live (mem s))))"

lemma alloc_post_cases:
  assumes "alloc_post live s r s'"
  obtains (none) m where "s' = s\<lparr>mem := m\<rparr>" "live m = live (mem s)" "r = 0"
  | (fresh) m where "s' = s\<lparr>mem := m\<rparr>" "live m = insert (nat r) (live (mem s))" "3 < r"
      "nat r \<notin> live (mem s)"
  using assms unfolding alloc_post_def by blast

lemma alloc_post_refl: "alloc_post live s 0 s"
  unfolding alloc_post_def by (rule exI [of _ "mem s"]) simp

lemma alloc_post_trans:
  "alloc_post live s 0 s1 \<Longrightarrow> alloc_post live s1 r s2 \<Longrightarrow> alloc_post live s r s2"
  by (auto simp: alloc_post_def)

lemma Mxalloc_block:
  assumes "kern_ok K live" "n \<noteq> -1" "Mxalloc K n md s = (r, s')"
  shows "alloc_post live s r s'"
proof -
  obtain m where m: "k_mxalloc K n md (mem s) = (r, m)" "s' = s\<lparr>mem := m\<rparr>"
    using assms(3) by (auto simp: Mxalloc_def split: prod.splits)
  have "r = 0 \<and> live m = live (mem s) \<or>
      r > 3 \<and> nat r \<notin> live (mem s) \<and> live m = insert (nat r) (live (mem s))"
    using assms(1,2) m(1) unfolding kern_ok_def by blast
  with m(2) show ?thesis by (auto simp: alloc_post_def)
qed

text \<open>Freeing a block that holds no object yet changes only the kernel's books.\<close>

lemma Kfree_unused:
  assumes "kern_ok K live" "a \<in> live (mem s)" "heap s a = None"
  obtains m where "Kfree K a s = s\<lparr>mem := m\<rparr>" "live m = live (mem s) - {a}"
proof -
  obtain r m where m: "k_mfree K a (mem s) = (r, m)" by fastforce
  with assms have "r = 0 \<and> live m = live (mem s) - {a}"
    unfolding kern_ok_def by metis
  with m assms show thesis
    by (intro that [of m]) (auto simp: Kfree_def fun_upd_idem)
qed

lemma Kfree_live:
  assumes "kern_ok K live" "a \<in> live (mem s)"
  obtains m where "Kfree K a s = s\<lparr>mem := m, heap := (heap s)(a := None)\<rparr>"
    "live m = live (mem s) - {a}"
proof -
  obtain r m where m: "k_mfree K a (mem s) = (r, m)" by fastforce
  with assms have "r = 0 \<and> live m = live (mem s) - {a}"
    unfolding kern_ok_def by metis
  with m assms show thesis
    by (intro that [of m]) (auto simp: Kfree_def)
qed

lemma mem_inv_fresh:
  "mem_inv live s \<Longrightarrow> nat r \<notin> live (mem s) \<Longrightarrow> 3 < r \<Longrightarrow> heap s (nat r) = None"
  by (rule mem_invD) auto

text \<open>A helper block that is freed again leaves no trace.\<close>

lemma alloc_then_free:
  assumes ok: "kern_ok K live" and inv: "mem_inv live s"
    and t: "alloc_post live s t s1" "t \<noteq> 0" and r: "alloc_post live s1 r s2"
  shows "alloc_post live s r (Kfree K (nat t) s2)"
proof -
  obtain m1 where s1: "s1 = s\<lparr>mem := m1\<rparr>" and l1: "live m1 = insert (nat t) (live (mem s))"
    and f: "3 < t" "nat t \<notin> live (mem s)"
    using t by (auto simp: alloc_post_def)
  obtain m2 where s2: "s2 = s1\<lparr>mem := m2\<rparr>" and l2: "r = 0 \<and> live m2 = live m1 \<or>
      3 < r \<and> nat r \<notin> live m1 \<and> live m2 = insert (nat r) (live m1)"
    using r s1 by (auto simp: alloc_post_def)
  have "nat t \<in> live (mem s2)" "heap s2 (nat t) = None"
    using mem_inv_fresh [OF inv f(2,1)] s1 s2 l1 l2 by auto
  then obtain m3 where "Kfree K (nat t) s2 = s2\<lparr>mem := m3\<rparr>" "live m3 = live (mem s2) - {nat t}"
    using Kfree_unused [OF ok] by blast
  then show ?thesis
    using s1 s2 l1 l2 f by (auto simp: alloc_post_def)
qed

lemma Kmalloc_end_post:
  assumes ok: "kern_ok K live" and inv: "mem_inv live s"
    and len: "0 \<le> len" "len < 2 ^ 30" and free: "0 \<le> free" "free < 2 ^ 31"
    and run: "Kmalloc_end K len free s = (r, s')"
  shows "alloc_post live s r s'"
proof (cases "s32 (free - leave_free s) \<ge> s32 (len + 16)")
  case True
  have "0 \<le> leave_free s" "leave_free s < 2 ^ 31" using inv by (auto simp: mem_inv_def)
  then have n: "s32 (free - len - 16) \<noteq> -1" using True free len by simp
  obtain temp s1 where a1: "Mxalloc K (s32 (free - len - 16)) (ram_type s) s = (temp, s1)" by fastforce
  obtain block s2 where a2: "Mxalloc K len (0x4000 OR ram_type s) s1 = (block, s2)" by fastforce
  have p1: "alloc_post live s temp s1" by (rule Mxalloc_block [OF ok n a1])
  have p2: "alloc_post live s1 block s2" by (rule Mxalloc_block [OF ok _ a2]) (use len in simp)
  show ?thesis
    using alloc_then_free [OF ok inv p1 _ p2] p1 run True a1 a2
    by (auto simp: Kmalloc_end_def split: if_splits)
next
  case False
  with run alloc_post_refl show ?thesis by (auto simp: Kmalloc_end_def)
qed

lemma Kmalloc_any_post:
  assumes ok: "kern_ok K live" and inv: "mem_inv live s" and len: "0 \<le> len"
    and run: "Kmalloc_any K len free s = (r, s')"
  shows "alloc_post live s r s'"
proof -
  obtain block s1 where a1: "Mxalloc K len (0x4000 OR ram_type s) s = (block, s1)" by fastforce
  obtain nf s2 where q: "Mxalloc K (-1) (ram_type s1) s1 = (nf, s2)" by fastforce
  have p1: "alloc_post live s block s1" by (rule Mxalloc_block [OF ok _ a1]) (use len in simp)
  obtain m2 where s2: "s2 = s1\<lparr>mem := m2\<rparr>" "live m2 = live (mem s1)"
    using Mxalloc_query [OF ok q] by blast
  have p2: "alloc_post live s block s2"
    using p1 s2 by (auto simp: alloc_post_def)
  have p3: "block \<noteq> 0 \<Longrightarrow> alloc_post live s 0 (Kfree K (nat block) s2)"
    using alloc_then_free [OF ok inv p2 _ alloc_post_refl] by simp
  show ?thesis
    using p1 p2 p3 run a1 q by (auto simp: Kmalloc_any_def split: if_splits)
qed

lemma Kmalloc_post:
  assumes ok: "kern_ok K live" and inv: "mem_inv live s"
    and len: "0 \<le> len" "len < 2 ^ 30" and run: "Kmalloc K len s = (r, s')"
  shows "alloc_post live s r s'"
proof -
  obtain free s1 where q: "Mxalloc K (-1) (ram_type s) s = (free, s1)" by fastforce
  obtain m1 where s1: "s1 = s\<lparr>mem := m1\<rparr>" "live m1 = live (mem s)"
    and free: "0 \<le> free" "free < 2 ^ 31"
    using Mxalloc_query [OF ok q] .
  have inv1: "mem_inv live s1" and q0: "alloc_post live s 0 s1"
    using inv s1 by (auto simp: alloc_post_def)
  obtain b s2 where e: "Kmalloc_end K len free s1 = (b, s2)" by fastforce
  have p1: "alloc_post live s1 b s2" by (rule Kmalloc_end_post [OF ok inv1 len free e])
  have inv2: "b = 0 \<Longrightarrow> mem_inv live s2"
    using inv1 p1 by (auto simp: alloc_post_def)
  have "alloc_post live s1 r s'"
  proof (cases "b = 0")
    case True
    have "alloc_post live s2 r s'"
      by (rule Kmalloc_any_post [OF ok inv2 [OF True] len(1), of free])
         (use run q e len True in \<open>simp add: Kmalloc_def\<close>)
    with p1 True show ?thesis using alloc_post_trans by blast
  next
    case False
    with p1 run q e len show ?thesis by (simp add: Kmalloc_def)
  qed
  with q0 show ?thesis by (rule alloc_post_trans)
qed

end
