(* ===== verification/Ram_Dir.thy ===== *)
theory Ram_Dir
  imports Ram_State
begin

text \<open>
  Directories of the RAM disk (\<open>extensio/ramdisk/ramutil.c\<close>): setting up a directory,
  searching an entry, creating one, and \<open>work_entry\<close>, which changes an entry together
  with all entries that stand for the same directory.
\<close>

subsection \<open>Checks of descriptors\<close>

definition check_dd :: "RAMDISK_FD \<Rightarrow> 'm ram \<Rightarrow> int option" where
  "check_dd dd s =
     (if fd_dmd dd \<noteq> ramdisk_dmd s then Some EDRIVE
      else do {
        e \<leftarrow> fd_entry dd s;
        Some (if \<not> is_dir (mode_of e) then EPTHNF else E_OK) })"

definition check_fd :: "RAMDISK_FD \<Rightarrow> 'm ram \<Rightarrow> int option" where
  "check_fd f s =
     (if fd_dmd f \<noteq> ramdisk_dmd s then Some EDRIVE
      else do {
        e \<leftarrow> fd_entry f s;
        Some (if \<not> is_file (mode_of e) then EFILNF else E_OK) })"

definition dir_is_open :: "addr \<Rightarrow> 'm ram \<Rightarrow> bool" where
  "dir_is_open dir s \<longleftrightarrow> list_ex (\<lambda>i. dhd_dir (dhds s i) = dir) [0..<MAX_DHD]"

subsection \<open>Setting up a directory\<close>

definition dir_mode :: mode16 where "dir_mode = S_IFDIR OR 0x1FF"

text \<open>The entry \<open>.\<close>; \<open>blocks\<close> is 0 for the root directory and 1 otherwise.\<close>

definition dot_entry :: "'m kern \<Rightarrow> addr \<Rightarrow> int \<Rightarrow> int \<Rightarrow> int \<Rightarrow> 'm \<Rightarrow> DIRENTRY \<times> 'm" where
  "dot_entry K dir maxentries blocks drive m =
     (let (mt, m) = now K m; (at, m) = now K m; (ct, m) = now K m in
      (\<lparr>de_fname = ''.'', de_faddr = dir, de_nr = 0, de_maxnr = maxentries,
        de_xattr = zero_xattr\<lparr>st_mode := dir_mode, st_ino := dir, st_dev := drive,
          st_rdev := drive, st_nlink := 1, st_blocks := blocks,
          st_mtim := mt, st_atim := at, st_ctim := ct, st_attr := FA_DIR\<rparr>\<rparr>, m))"

text \<open>The entry \<open>..\<close> of the root directory.\<close>

definition root_dotdot :: "'m kern \<Rightarrow> stamp \<Rightarrow> int \<Rightarrow> 'm \<Rightarrow> DIRENTRY \<times> 'm" where
  "root_dotdot K start drive m =
     (let (mt, m) = now K m; (at, m) = now K m in
      (\<lparr>de_fname = ''..'', de_faddr = root_de_blk, de_nr = 1, de_maxnr = 0,
        de_xattr = zero_xattr\<lparr>st_mode := dir_mode, st_ino := ROOT_DE, st_dev := drive,
          st_rdev := drive, st_nlink := 1, st_blocks := 1,
          st_mtim := mt, st_atim := at, st_ctim := start, st_attr := FA_DIR\<rparr>\<rparr>, m))"

definition prepare_dir :: "'m kern \<Rightarrow> addr \<Rightarrow> nat \<Rightarrow> addr \<Rightarrow> 'm ram \<Rightarrow> 'm ram option" where
  "prepare_dir K dir maxentries parent s = do {
     es \<leftarrow> dir_at dir s;
     if length es < maxentries then None
     else do {
       let s = s\<lparr>heap := (heap s)(dir \<mapsto> DirBlk (replicate maxentries zero_de @ drop maxentries es))\<rparr>;
       let blocks = (if parent \<noteq> ROOT_DE then 1 else 0);
       let (e0, m) = dot_entry K dir (int maxentries) blocks (ramdisk_drive s) (mem s);
       s \<leftarrow> put_de (dir, 0) e0 (s\<lparr>mem := m\<rparr>);
       if parent \<noteq> ROOT_DE then do {
         p0 \<leftarrow> get_de (parent, 0) s;
         let (t, m) = now K (mem s);
         let xa = (de_xattr p0)\<lparr>st_mtim := t, st_atim := t\<rparr>;
         s \<leftarrow> put_de (parent, 0) (p0\<lparr>de_xattr := xa\<rparr>) (s\<lparr>mem := m\<rparr>);
         put_de (dir, 1) \<lparr>de_fname = ''..'', de_faddr = parent, de_nr = 1, de_maxnr = 0,
                          de_xattr = xa\<rparr> s
       }
       else
         let (e1, m) = root_dotdot K (starttime s, startdate s) (ramdisk_drive s) (mem s)
         in put_de (dir, 1) e1 (s\<lparr>mem := m\<rparr>)
     } }"

subsection \<open>Searching\<close>

datatype ff_mode = FF_SEARCH | FF_EXIST

definition named :: "string \<Rightarrow> DIRENTRY \<Rightarrow> bool" where
  "named n d \<longleftrightarrow> de_faddr d \<noteq> 0 \<and> n = de_fname d"

definition tos_named :: "string \<Rightarrow> DIRENTRY \<Rightarrow> bool" where
  "tos_named n d \<longleftrightarrow> de_faddr d \<noteq> 0 \<and> n = tostrunc (de_fname d) False"

text \<open>
  The search of \<open>findfile\<close> in the entries \<open>es\<close> of a directory: exactly, in lower case, in
  8+3 form, depending on the domain of the caller and the purpose of the search.
\<close>

definition find_in :: "int \<Rightarrow> string \<Rightarrow> nat \<Rightarrow> ff_mode \<Rightarrow> DIRENTRY list \<Rightarrow> nat \<Rightarrow> nat option option" where
  "find_in domain pathname spos s_or_e es maxnr = do {
     let temp = take RAM_MAXFNAME pathname;
     r \<leftarrow> (if domain = EINVFN \<or> domain = 1 \<or> s_or_e = FF_SEARCH
           then scan_from (named temp) es spos maxnr else Some None);
     if r \<noteq> None then Some r
     else if domain = 1 \<or> (domain = EINVFN \<and> s_or_e = FF_EXIST) then Some None
     else do {
       r \<leftarrow> (if domain = 0 then scan_from (named (strlwr temp)) es spos maxnr else Some None);
       if r \<noteq> None then Some r
       else if domain = 0 \<and> s_or_e = FF_EXIST then Some None
       else scan_from (tos_named (tostrunc pathname False)) es spos maxnr
     } }"

definition findfile ::
  "'m kern \<Rightarrow> RAMDISK_FD \<Rightarrow> string \<Rightarrow> nat \<Rightarrow> ff_mode \<Rightarrow> bool \<Rightarrow> 'm ram \<Rightarrow> de_ptr option option" where
  "findfile K dd pathname spos s_or_e maybe_dir s = do {
     e \<leftarrow> fd_entry dd s;
     if \<not> is_dir (mode_of e) then Some None
     else if pathname = [] \<and> maybe_dir then Some (fd_file dd)
     else if \<not> xaccess e then Some None
     else do {
       es \<leftarrow> dir_at (de_faddr e) s;
       e0 \<leftarrow> get_de (de_faddr e, 0) s;
       r \<leftarrow> find_in (Pdomain K s) pathname spos s_or_e es (nat (de_maxnr e0));
       Some (map_option (Pair (de_faddr e)) r)
     } }"

subsection \<open>Creating an entry\<close>

text \<open>
  The branch of \<open>new_file\<close> for a full directory: the block is reallocated with one more
  block of entries and the new address is recorded in \<open>.\<close> and in the entry the descriptor
  points to.  The result 0 is the NULL of a failed allocation.
\<close>

definition grow_dir :: "'m kern \<Rightarrow> RAMDISK_FD \<Rightarrow> addr \<Rightarrow> 'm ram \<Rightarrow> (addr \<times> 'm ram) option" where
  "grow_dir K cur dir s = do {
     e0 \<leftarrow> get_de (dir, 0) s;
     let blocks = st_blocks (de_xattr e0);
     (new_dir, s) \<leftarrow> Krealloc K dir (s32 (blocks * DEFAULTDIR * sizeof_DIRENTRY))
                        (s32 ((blocks + 1) * DEFAULTDIR * sizeof_DIRENTRY)) s;
     if new_dir = 0 then Some (0, s)
     else do {
       e0 \<leftarrow> get_de (new_dir, 0) s;
       let e0 = e0\<lparr>de_maxnr := s16 (de_maxnr e0 + DEFAULTDIR), de_faddr := new_dir,
                   de_xattr := (de_xattr e0)\<lparr>st_blocks := s32 (st_blocks (de_xattr e0) + 1),
                                              st_ino := new_dir\<rparr>\<rparr>;
       s \<leftarrow> put_de (new_dir, 0) e0 s;
       p \<leftarrow> fd_file cur;
       c \<leftarrow> get_de p s;
       s \<leftarrow> put_de p (c\<lparr>de_maxnr := de_maxnr e0, de_faddr := new_dir,
                        de_xattr := (de_xattr c)\<lparr>st_blocks := st_blocks (de_xattr e0),
                                                  st_ino := new_dir\<rparr>\<rparr>) s;
       Some (new_dir, s)
     } }"

text \<open>The fields \<open>new_file\<close> fills; \<open>de_faddr\<close> stays 0, the entry is still free.\<close>

definition blank_entry :: "string \<Rightarrow> nat \<Rightarrow> int \<Rightarrow> stamp \<Rightarrow> DIRENTRY" where
  "blank_entry name i drive t =
     zero_de\<lparr>de_fname := name, de_nr := int i,
       de_xattr := zero_xattr\<lparr>st_mtim := t, st_atim := t, st_ctim := t, st_dev := drive,
         st_rdev := drive, st_nlink := 1, st_blksize := DEFAULTFILE\<rparr>\<rparr>"

definition stored_name :: "'m kern \<Rightarrow> 'm ram \<Rightarrow> string \<Rightarrow> string" where
  "stored_name K s name =
     (let n = take RAM_MAXFNAME name in if Pdomain K s = 0 then strlwr n else n)"

definition fill_entry ::
  "'m kern \<Rightarrow> addr \<Rightarrow> nat \<Rightarrow> string \<Rightarrow> 'm ram \<Rightarrow> (de_ptr option \<times> 'm ram) option" where
  "fill_entry K dir i name s = do {
     let fname = stored_name K s name;
     let (t, m) = now K (mem s);
     s \<leftarrow> put_de (dir, i) (blank_entry fname i (ramdisk_drive s) t) (s\<lparr>mem := m\<rparr>);
     Some (Some (dir, i), s) }"

definition new_file ::
  "'m kern \<Rightarrow> RAMDISK_FD \<Rightarrow> string \<Rightarrow> 'm ram \<Rightarrow> (de_ptr option \<times> 'm ram) option" where
  "new_file K cur name s =
     (if \<not> check_name (eight_bit s) name then Some (None, s)
      else do {
        e \<leftarrow> fd_entry cur s;
        if \<not> waccess e \<or> \<not> xaccess e then Some (None, s)
        else do {
          let dir = de_faddr e;
          es \<leftarrow> dir_at dir s;
          e0 \<leftarrow> get_de (dir, 0) s;
          let maxnr = nat (de_maxnr e0);
          r \<leftarrow> scan_from (\<lambda>d. de_faddr d = 0) es 2 maxnr;
          case r of
            Some i \<Rightarrow> fill_entry K dir i name s
          | None \<Rightarrow>
              if maxnr < 2 then fill_entry K dir 2 name s
              else do {
                (new_dir, s) \<leftarrow> grow_dir K cur dir s;
                if new_dir = 0 then Some (None, s) else fill_entry K new_dir maxnr name s }
        } })"

subsection \<open>Changing an entry and everything that stands for it\<close>

type_synonym 'm action = "'m kern \<Rightarrow> DIRENTRY \<Rightarrow> 'm \<Rightarrow> int \<times> DIRENTRY \<times> 'm"

text \<open>The last loop of \<open>work_entry\<close>: \<open>..\<close> of every subdirectory.\<close>

fun upd_children :: "XATTR \<Rightarrow> addr \<Rightarrow> nat list \<Rightarrow> 'm ram \<Rightarrow> 'm ram option" where
  "upd_children new a [] s = Some s"
| "upd_children new a (i # is) s = do {
     e \<leftarrow> get_de (a, i) s;
     s \<leftarrow> (if de_faddr e \<noteq> 0 \<and> is_dir (mode_of e)
           then do { h \<leftarrow> get_de (de_faddr e, 1) s; put_de (de_faddr e, 1) (h\<lparr>de_xattr := new\<rparr>) s }
           else Some s);
     upd_children new a is s }"

text \<open>The other representatives of a changed directory entry; \<open>p\<close> is the entry found.\<close>

definition upd_representatives :: "RAMDISK_FD \<Rightarrow> de_ptr \<Rightarrow> 'm ram \<Rightarrow> 'm ram option" where
  "upd_representatives dd p s = do {
     e \<leftarrow> get_de p s;
     let new = de_xattr e;
     p \<leftarrow> (if de_fname e = ''.'' then fd_file dd else Some p);
     e \<leftarrow> get_de p s;
     if de_fname e = ''..'' \<and> fd_parent dd = None then Some s
     else do {
       p \<leftarrow> (if de_fname e = ''..''
             then (case fd_parent dd of None \<Rightarrow> None | Some i \<Rightarrow> fd_file (fds s i)) else Some p);
       e \<leftarrow> get_de p s;
       s \<leftarrow> put_de p (e\<lparr>de_xattr := new\<rparr>) s;
       let a = de_faddr e;
       e0 \<leftarrow> get_de (a, 0) s;
       s \<leftarrow> put_de (a, 0) (e0\<lparr>de_xattr := new\<rparr>) s;
       upd_children new a [2..<nat (de_maxnr e0)] s
     } }"

text \<open>
  \<open>work_entry\<close> returns the code and what it stored through \<open>symlink\<close>; \<open>want_link\<close> is
  \<open>symlink != NULL\<close> and \<open>action = None\<close> the NULL action.
\<close>

definition work_entry ::
  "'m kern \<Rightarrow> RAMDISK_FD \<Rightarrow> string \<Rightarrow> bool \<Rightarrow> bool \<Rightarrow> 'm action option \<Rightarrow> 'm ram
   \<Rightarrow> (int \<times> addr option \<times> 'm ram) option" where
  "work_entry K dd name want_link writeflag action s = do {
     c \<leftarrow> check_dd dd s;
     if c < 0 then Some (case action of None \<Rightarrow> EINVFN | Some _ \<Rightarrow> c, None, s)
     else do {
       f \<leftarrow> findfile K dd name 0 FF_SEARCH True s;
       case f of
         None \<Rightarrow> Some (case action of None \<Rightarrow> EINVFN | Some _ \<Rightarrow> EFILNF, None, s)
       | Some p \<Rightarrow> do {
           e \<leftarrow> get_de p s;
           if is_link (mode_of e) \<and> want_link then Some (ELINK, Some (de_faddr e), s)
           else case action of
             None \<Rightarrow> Some (EINVFN, None, s)
           | Some act \<Rightarrow> do {
               d \<leftarrow> fd_entry dd s;
               if writeflag \<and> de_faddr d \<noteq> de_faddr e \<and> \<not> waccess d then Some (EACCDN, None, s)
               else do {
                 let (ret, e', m) = act K e (mem s);
                 s \<leftarrow> put_de p e' (s\<lparr>mem := m\<rparr>);
                 if ret < 0 \<or> \<not> writeflag \<or> \<not> is_dir (mode_of e') then Some (ret, None, s)
                 else do {
                   s \<leftarrow> upd_representatives dd p s;
                   Some (ret, None, s) }
               } } } } }"

subsection \<open>The actions\<close>

definition set_amtime :: "bool \<Rightarrow> 'm action" where
  "set_amtime set_atime K e m =
     (let (t, m) = now K m in
      (E_OK, e\<lparr>de_xattr := (if set_atime then (de_xattr e)\<lparr>st_atim := t\<rparr>
                           else (de_xattr e)\<lparr>st_mtim := t\<rparr>)\<rparr>, m))"

definition attrib_action :: "bool \<Rightarrow> mode16 \<Rightarrow> 'm action" where
  "attrib_action rwflag attrib K e m =
     (let xa = de_xattr e;
          xa1 = (if attrib AND FA_RDONLY \<noteq> 0
                 then xa\<lparr>st_mode := st_mode xa AND NOT S_IWALL, st_attr := st_attr xa OR FA_RDONLY\<rparr>
                 else xa\<lparr>st_mode := st_mode xa OR S_IWALL, st_attr := st_attr xa AND NOT FA_RDONLY\<rparr>);
          xa2 = (if attrib AND FA_CHANGED \<noteq> 0 \<and> is_file (st_mode xa1)
                 then xa1\<lparr>st_attr := st_attr xa1 OR FA_CHANGED\<rparr>
                 else xa1\<lparr>st_attr := st_attr xa1 AND NOT FA_CHANGED\<rparr>);
          e' = (if rwflag then e\<lparr>de_xattr := xa2\<rparr> else e)
      in (sint (st_attr (de_xattr e')), e', m))"

definition chmod_action :: "mode16 \<Rightarrow> 'm action" where
  "chmod_action mode K e m =
     (let e1 = e\<lparr>de_xattr := (de_xattr e)\<lparr>st_mode := (mode_of e AND S_IFMT) OR mode\<rparr>\<rparr>;
          xa = de_xattr e1;
          e2 = (if \<not> waccess e1
                then e1\<lparr>de_xattr := xa\<lparr>st_attr := st_attr xa OR FA_RDONLY\<rparr>\<rparr>
                else e1\<lparr>de_xattr := xa\<lparr>st_attr := st_attr xa AND NOT FA_RDONLY\<rparr>\<rparr>)
      in (E_OK, e2, m))"

definition FUTIME :: int where "FUTIME = 0x4603"
definition FIONREAD :: int where "FIONREAD = 0x4601"
definition FIONWRITE :: int where "FIONWRITE = 0x4602"

text \<open>The four words \<open>arg\<close> points to (access time and date, modification time and date), or
  \<open>None\<close> for the NULL pointer.\<close>

definition futime :: "stamp \<Rightarrow> (stamp \<times> stamp) option \<Rightarrow> XATTR \<Rightarrow> XATTR" where
  "futime t timebuf xa =
     (case timebuf of
        Some (a, mt) \<Rightarrow> xa\<lparr>st_ctim := t, st_atim := a, st_mtim := mt\<rparr>
      | None \<Rightarrow> xa\<lparr>st_ctim := t, st_atim := t, st_mtim := t\<rparr>)"

definition dcntl_action :: "int \<Rightarrow> (stamp \<times> stamp) option \<Rightarrow> 'm action" where
  "dcntl_action cmd arg K e m =
     (if s16 cmd = FUTIME then
        (if \<not> waccess e then (EACCDN, e, m)
         else let (t, m) = now K m in (E_OK, e\<lparr>de_xattr := futime t arg (de_xattr e)\<rparr>, m))
      else (EINVFN, e, m))"

end
