(* ===== verification/Ram_DD.thy ===== *)
theory Ram_DD
  imports Ram_Dir
begin

text \<open>
  Directory descriptors: opening and closing the drive, resolving a path to a descriptor
  (\<open>ramdisk_path2DD\<close>), the reference counts that decide when a descriptor is free
  (\<open>increase_refcnts\<close>, \<open>ramdisk_freeDD\<close>), and the way back from a descriptor to a path
  (\<open>ramdisk_DD2name\<close>).  The descriptors form an array; \<open>fd_parent\<close> is an index into it.
\<close>

subsection \<open>Finding a descriptor\<close>

definition findfd :: "de_ptr option \<Rightarrow> 'm ram \<Rightarrow> nat option \<times> 'm ram" where
  "findfd fname s =
     (case (if fname = None then None else find (\<lambda>i. fd_file (fds s i) = fname) [0..<MAX_FD]) of
        Some i \<Rightarrow> (Some i, s)
      | None \<Rightarrow>
          (case find (\<lambda>i. fd_file (fds s i) = None) [0..<MAX_FD] of
             Some i \<Rightarrow> (Some i, s\<lparr>fds := (fds s)(i := zero_fd)\<rparr>)
           | None \<Rightarrow> (None, s)))"

subsection \<open>Reference counts\<close>

text \<open>Both walks follow \<open>fd_parent\<close> to its end; on a cyclic chain they do not return.\<close>

definition inc_is_parent :: "RAMDISK_FD \<Rightarrow> RAMDISK_FD" where
  "inc_is_parent x = x\<lparr>fd_is_parent := s16 (fd_is_parent x + 1)\<rparr>"

partial_function (option) inc_parents ::
  "nat option \<Rightarrow> (nat \<Rightarrow> RAMDISK_FD) \<Rightarrow> (nat \<Rightarrow> RAMDISK_FD) option" where
  "inc_parents d f =
     (case d of
        None \<Rightarrow> Some f
      | Some i \<Rightarrow> inc_parents (fd_parent (f i)) (f(i := inc_is_parent (f i))))"

definition increase_refcnts :: "nat \<Rightarrow> 'm ram \<Rightarrow> 'm ram option" where
  "increase_refcnts dd s =
     (let x = (fds s dd)\<lparr>fd_refcnt := s16 (fd_refcnt (fds s dd) + 1)\<rparr>;
          f = (fds s)(dd := x) in
      if fd_refcnt x > 1 then Some (s\<lparr>fds := f\<rparr>)
      else do { f \<leftarrow> inc_parents (fd_parent x) f; Some (s\<lparr>fds := f\<rparr>) })"

definition release_one :: "RAMDISK_FD \<Rightarrow> RAMDISK_FD" where
  "release_one x =
     (let x = (if fd_is_parent x \<noteq> 0 then x\<lparr>fd_is_parent := s16 (fd_is_parent x - 1)\<rparr> else x) in
      if fd_is_parent x = 0 \<and> fd_refcnt x = 0 then x\<lparr>fd_file := None\<rparr> else x)"

partial_function (option) free_chain ::
  "nat option \<Rightarrow> (nat \<Rightarrow> RAMDISK_FD) \<Rightarrow> (nat \<Rightarrow> RAMDISK_FD) option" where
  "free_chain d f =
     (case d of
        None \<Rightarrow> Some f
      | Some i \<Rightarrow> free_chain (fd_parent (f i)) (f(i := release_one (f i))))"

text \<open>The last loop of \<open>ramdisk_freeDD\<close>: descriptors nobody counts any more.\<close>

definition sweep_fds :: "(nat \<Rightarrow> RAMDISK_FD) \<Rightarrow> nat \<Rightarrow> RAMDISK_FD" where
  "sweep_fds f = (\<lambda>j.
     if ROOT + 1 \<le> j \<and> j < MAX_FD \<and> fd_file (f j) \<noteq> None \<and> fd_refcnt (f j) = 0
        \<and> fd_is_parent (f j) = 0
     then (f j)\<lparr>fd_file := None\<rparr> else f j)"

definition ramdisk_freeDD :: "nat \<Rightarrow> 'm ram \<Rightarrow> 'm ram option" where
  "ramdisk_freeDD dd s =
     (if fd_refcnt (fds s dd) \<noteq> 0 then Some s
      else do {
        f \<leftarrow> free_chain (Some dd) ((fds s)(dd := inc_is_parent (fds s dd)));
        Some (s\<lparr>fds := sweep_fds f\<rparr>) })"

subsection \<open>Opening and closing the drive\<close>

record MX_DMD =
  d_xfs :: addr
  d_drive :: int
  d_root :: "nat option"
  d_biosdev :: int
  d_driver :: int
  d_devcode :: int

definition my_xfs :: addr where "my_xfs = 1"

definition ramdisk_sync :: "'m ram \<Rightarrow> 'm ram" where
  "ramdisk_sync s = s"

definition ramdisk_garbcoll :: "'m ram \<Rightarrow> int \<times> 'm ram" where
  "ramdisk_garbcoll s = (E_OK, s)"

definition ramdisk_pterm :: "addr \<Rightarrow> 'm ram \<Rightarrow> 'm ram" where
  "ramdisk_pterm pd s = s\<lparr>dhds := (\<lambda>i.
     if i < MAX_DHD \<and> dhd_owner (dhds s i) = pd then (dhds s i)\<lparr>dhd_dir := 0\<rparr> else dhds s i)\<rparr>"

text \<open>The first opening of the drive: everything is cleared and the root directory set up.\<close>

definition first_open :: "'m kern \<Rightarrow> addr \<Rightarrow> 'm ram \<Rightarrow> 'm ram option" where
  "first_open K dp s = do {
     let s = s\<lparr>opened_once := True, heap := (heap s)(root_blk \<mapsto> DirBlk (replicate ROOTSIZE zero_de))\<rparr>;
     s \<leftarrow> prepare_dir K root_blk ROOTSIZE ROOT_DE s;
     let root_fd = zero_fd\<lparr>fd_dmd := dp, fd_file := Some (root_de_blk, 0), fd_parent := None, fd_refcnt := 1\<rparr>;
     let s = s\<lparr>dhds := (\<lambda>i. if i < MAX_DHD then zero_dhd else dhds s i),
               fds := (\<lambda>i. if i < MAX_FD then zero_fd else fds s i)(ROOT := root_fd),
               ramdisk_dmd := dp\<rparr>;
     r1 \<leftarrow> get_de (root_blk, 1) s;
     put_de (root_de_blk, 0) (r1\<lparr>de_fname := [], de_faddr := root_blk\<rparr>) s }"

definition ramdisk_drv_open :: "'m kern \<Rightarrow> addr \<Rightarrow> MX_DMD \<Rightarrow> 'm ram \<Rightarrow> (int \<times> MX_DMD \<times> 'm ram) option" where
  "ramdisk_drv_open K dp d s =
     (if d_xfs d = 0 then
        (if d_drive d = ramdisk_drive s then do {
           let d = d\<lparr>d_xfs := my_xfs, d_root := Some ROOT, d_biosdev := -1, d_driver := 0, d_devcode := 0\<rparr>;
           s \<leftarrow> (if \<not> opened_once s then first_open K dp s else Some s);
           Some (E_OK, d, s) }
         else Some (EDRIVE, d, s))
      else if d_xfs d \<noteq> my_xfs then Some (EDRIVE, d, s)
      else Some (E_OK, d, s))"

definition ramdisk_drv_close :: "MX_DMD \<Rightarrow> bool \<Rightarrow> 'm ram \<Rightarrow> int \<times> 'm ram" where
  "ramdisk_drv_close d mode s =
     (if d_xfs d \<noteq> my_xfs then (EDRIVE, s)
      else if mode then (E_OK, s\<lparr>dhds := (\<lambda>i. if i < MAX_DHD \<and> dhd_dir (dhds s i) \<noteq> 0
                                  then (dhds s i)\<lparr>dhd_dir := 0\<rparr> else dhds s i)\<rparr>)
      else if list_ex (\<lambda>i. dhd_dir (dhds s i) \<noteq> 0) [0..<MAX_DHD] then (EACCDN, s)
      else (E_OK, s))"

subsection \<open>From a path to a descriptor\<close>

datatype path_result =
    PErr int
  | PDD nat string  \<comment> \<open>the descriptor and \<open>*lastpath\<close>\<close>
  | PLink string nat "addr option"  \<comment> \<open>\<open>ELINK\<close> with \<open>*lastpath\<close>, \<open>*linkdir\<close>, \<open>*symlink\<close>\<close>

definition is_bs :: "char \<Rightarrow> bool" where "is_bs c \<longleftrightarrow> c = backslash"

text \<open>The component copied to \<open>temp\<close> and the rest of the path behind its backslashes.\<close>

definition path_current :: "string \<Rightarrow> string" where
  "path_current p =
     (if list_ex is_bs p then take RAM_MAXFNAME (takeWhile (\<lambda>c. \<not> is_bs c) p) else p)"

definition path_rest :: "string \<Rightarrow> string" where
  "path_rest p = dropWhile is_bs (dropWhile (\<lambda>c. \<not> is_bs c) p)"

text \<open>Looking a component up and making a descriptor for it.\<close>

definition path_enter ::
  "'m kern \<Rightarrow> nat \<Rightarrow> string \<Rightarrow> string \<Rightarrow> 'm ram \<Rightarrow> ((path_result + string \<times> nat) \<times> 'm ram) option" where
  "path_enter K dd current rest s = do {
     f \<leftarrow> findfile K (fds s dd) current 2 FF_SEARCH False s;
     case f of
       None \<Rightarrow> Some (Inl (PErr EPTHNF), s)
     | Some p \<Rightarrow> do {
         e \<leftarrow> get_de p s;
         if is_link (mode_of e) then do {
           s \<leftarrow> increase_refcnts dd s;
           Some (Inl (PLink rest dd (Some (de_faddr e))), s) }
         else if \<not> is_dir (mode_of e) then Some (Inl (PErr EPTHNF), s)
         else
           (case findfd (Some p) s of
              (None, s) \<Rightarrow> Some (Inl (PErr ENSMEM), s)
            | (Some i, s) \<Rightarrow>
                Some (Inr (rest, i), s\<lparr>fds := (fds s)(i := (fds s i)\<lparr>fd_dmd := ramdisk_dmd s,
                                         fd_file := Some p, fd_parent := Some dd\<rparr>)\<rparr>)) } }"

text \<open>One round of the loop: a result, or the next rest of the path and descriptor.\<close>

definition path_step ::
  "'m kern \<Rightarrow> bool \<Rightarrow> string \<Rightarrow> nat \<Rightarrow> 'm ram \<Rightarrow> ((path_result + string \<times> nat) \<times> 'm ram) option" where
  "path_step K dirlookup path dd s = do {
     let next = dropWhile is_bs path;
     ok \<leftarrow> (if next = [] then Some True
            else do { e \<leftarrow> fd_entry (fds s dd) s; Some (xaccess e) });
     if \<not> ok then Some (Inl (PErr EACCDN), s)
     else if next = [] then do { s \<leftarrow> increase_refcnts dd s; Some (Inl (PDD dd next), s) }
     else if \<not> list_ex is_bs next \<and> \<not> dirlookup then do {
       s \<leftarrow> increase_refcnts dd s;
       Some (Inl (PDD dd next), s) }
     else if path_current next = ''..'' then
       (if dd = ROOT then Some (Inl (PLink (path_rest next) dd None), s)
        else case fd_parent (fds s dd) of
               None \<Rightarrow> None
             | Some i \<Rightarrow> Some (Inr (path_rest next, i), s))
     else if path_current next = ''.'' then Some (Inr (path_rest next, dd), s)
     else path_enter K dd (path_current next) (path_rest next) s }"

lemma path_rest_shorter: "p \<noteq> [] \<Longrightarrow> \<not> is_bs (hd p) \<Longrightarrow> length (path_rest p) < length p"
  unfolding path_rest_def
  by (cases p) (auto simp: less_Suc_eq_le intro: order_trans [OF length_dropWhile_le length_dropWhile_le])

lemma path_step_shorter:
  assumes "path_step K dirlookup path dd s = Some (Inr (rest, i), s')"
  shows "length rest < length path"
proof -
  let ?n = "dropWhile is_bs path"
  have "?n \<noteq> []" and rest: "rest = path_rest ?n"
    using assms
    by (auto simp: path_step_def path_enter_def Let_def bind_eq_Some_conv
             split: if_splits option.splits prod.splits)
  then have "length (path_rest ?n) < length ?n"
    by (intro path_rest_shorter) (auto simp: hd_dropWhile)
  also have "length ?n \<le> length path"
    by (rule length_dropWhile_le)
  finally show ?thesis using rest by simp
qed

function path2DD_loop ::
  "'m kern \<Rightarrow> bool \<Rightarrow> string \<Rightarrow> nat \<Rightarrow> 'm ram \<Rightarrow> (path_result \<times> 'm ram) option" where
  "path2DD_loop K dirlookup path dd s =
     (case path_step K dirlookup path dd s of
        None \<Rightarrow> None
      | Some (Inl r, s) \<Rightarrow> Some (r, s)
      | Some (Inr (rest, i), s) \<Rightarrow> path2DD_loop K dirlookup rest i s)"
  by pat_completeness auto
termination
  by (relation "measure (\<lambda>(K, d, path, dd, s). length path)") (auto dest: path_step_shorter)

declare path2DD_loop.simps [simp del]

text \<open>\<open>pathname = None\<close> is the NULL pointer.\<close>

definition ramdisk_path2DD ::
  "'m kern \<Rightarrow> nat \<Rightarrow> string option \<Rightarrow> bool \<Rightarrow> 'm ram \<Rightarrow> (path_result \<times> 'm ram) option" where
  "ramdisk_path2DD K reldir pathname mode s = do {
     c \<leftarrow> check_dd (fds s reldir) s;
     if c < 0 then Some (PErr c, s)
     else case pathname of
            None \<Rightarrow> Some (PErr (if mode then EPTHNF else EFILNF), s)
          | Some path \<Rightarrow> path2DD_loop K mode path reldir s }"

subsection \<open>From a descriptor to a path\<close>

partial_function (option) DD2name_loop ::
  "'m kern \<Rightarrow> int \<Rightarrow> nat \<Rightarrow> string \<Rightarrow> 'm ram \<Rightarrow> (int \<times> string) option" where
  "DD2name_loop K bufsize dd name s =
     (case fd_parent (fds s dd) of
        None \<Rightarrow> Some (E_OK, name)
      | Some parent \<Rightarrow> do {
          e \<leftarrow> fd_entry (fds s dd) s;
          let temp = (if Pdomain K s = 0 then tostrunc (de_fname e) False else de_fname e);
          if s16 (int (length name + length temp + 1)) \<ge> bufsize then Some (ERANGE, name)
          else DD2name_loop K bufsize parent (name @ rev temp @ [backslash]) s })"

definition ramdisk_DD2name :: "'m kern \<Rightarrow> nat \<Rightarrow> int \<Rightarrow> 'm ram \<Rightarrow> (int \<times> string) option" where
  "ramdisk_DD2name K dir bufsize s = do {
     c \<leftarrow> check_dd (fds s dir) s;
     if c < 0 then Some (c, [])
     else if bufsize < 1 then Some (ERANGE, [])
     else do {
       (r, name) \<leftarrow> DD2name_loop K bufsize dir [] s;
       Some (r, if r = E_OK then rev name else name) } }"

end
