(* ===== verification/Ram_File.thy ===== *)
theory Ram_File
  imports Ram_DD
begin

text \<open>
  The device driver of open files (\<open>ramdisk_close\<close> to \<open>ramdisk_putc\<close> of
  \<open>extensio/ramdisk/ramdisk.c\<close>).  A file is a chain of blocks of \<open>DEFAULTFILE\<close> bytes;
  reading and writing walk the chain.  Positions inside the chain stay far below \<open>2^31\<close>;
  the sums with a caller's count, which do not, wrap (\<open>s32\<close>).
\<close>

definition cdiv :: "int \<Rightarrow> int \<Rightarrow> int" where \<comment> \<open>division of C: rounds towards 0\<close>
  "cdiv a b = sgn a * sgn b * (\<bar>a\<bar> div \<bar>b\<bar>)"

definition set_fd :: "nat \<Rightarrow> RAMDISK_FD \<Rightarrow> 'm ram \<Rightarrow> 'm ram" where
  "set_fd f x s = s\<lparr>fds := (fds s)(f := x)\<rparr>"

subsection \<open>Closing\<close>

definition ramdisk_close :: "nat \<Rightarrow> 'm ram \<Rightarrow> (int \<times> 'm ram) option" where
  "ramdisk_close f s = do {
     c \<leftarrow> check_fd (fds s f) s;
     if c < 0 then Some (c, s)
     else
       let x = fds s f;
           x = (if fd_refcnt x \<noteq> 0 then x\<lparr>fd_refcnt := s16 (fd_refcnt x - 1)\<rparr> else x);
           x = (if fd_refcnt x = 0 then x\<lparr>fd_file := None\<rparr> else x)
       in Some (E_OK, set_fd f x s) }"

subsection \<open>Reading\<close>

text \<open>The search of the block the read position lies in.\<close>

function read_skip :: "addr \<Rightarrow> int \<Rightarrow> int \<Rightarrow> 'm ram \<Rightarrow> (addr \<times> int) option" where
  "read_skip blk pos fpos s =
     (if pos + DEFAULTFILE < fpos then do {
        b \<leftarrow> file_at blk s;
        read_skip (fb_next b) (pos + DEFAULTFILE) fpos s }
      else Some (blk, pos))"
  by pat_completeness auto
termination
  by (relation "measure (\<lambda>(blk, pos, fpos, s). nat (fpos - pos))") (auto simp: DEFAULTFILE_def)

declare read_skip.simps [simp del]

text \<open>The copy loop; a \<open>memcpy\<close> outside the block's data is an illegal access.\<close>

definition blk_bytes :: "FILEBLOCK \<Rightarrow> int \<Rightarrow> int \<Rightarrow> byte list" where
  "blk_bytes b pos n = map (\<lambda>i. fb_data b (nat pos + i)) [0..<nat n]"

function read_loop :: "addr \<Rightarrow> int \<Rightarrow> int \<Rightarrow> int \<Rightarrow> 'm ram \<Rightarrow> byte list option" where
  "read_loop blk pos readable count s =
     (if count \<le> 0 then Some []
      else let n = (if readable > count then count else readable) in
        if pos < 0 \<or> n < 0 \<or> DEFAULTFILE < pos + n then None
        else do {
          b \<leftarrow> file_at blk s;
          rest \<leftarrow> read_loop (fb_next b) 0 DEFAULTFILE (count - n) s;
          Some (blk_bytes b pos n @ rest) })"
  by pat_completeness auto
termination
  by (relation "measure (\<lambda>(blk, pos, readable, count, s). 2 * nat count + (if readable = 0 then 1 else 0))")
     (auto simp: DEFAULTFILE_def nat_less_eq_zless)

declare read_loop.simps [simp del]

definition ramdisk_read :: "'m kern \<Rightarrow> nat \<Rightarrow> int \<Rightarrow> 'm ram \<Rightarrow> (int \<times> byte list \<times> 'm ram) option" where
  "ramdisk_read K f count s = do {
     let x = fds s f;
     c \<leftarrow> check_fd x s;
     if c < 0 then Some (c, [], s)
     else if fd_mode x AND (OM_RPERM OR OM_EXEC) = 0 then Some (EACCDN, [], s)
     else do {
       p \<leftarrow> fd_file x;
       e \<leftarrow> get_de p s;
       let sz = st_size (de_xattr e);
       let count = (if s32 (fd_fpos x + count) > sz then s32 (sz - fd_fpos x) else count);
       (blk, pos) \<leftarrow> read_skip (de_faddr e) 0 (fd_fpos x) s;
       let pos = fd_fpos x - pos;
       data \<leftarrow> read_loop blk pos (DEFAULTFILE - pos) count s;
       let read = int (length data);
       let (t, m) = now K (mem s);
       let s = set_fd f (x\<lparr>fd_fpos := s32 (fd_fpos x + read)\<rparr>) (s\<lparr>mem := m\<rparr>);
       s \<leftarrow> put_de p (e\<lparr>de_xattr := (de_xattr e)\<lparr>st_atim := t\<rparr>\<rparr>) s;
       Some (read, data, s)
     } }"

subsection \<open>Writing\<close>

text \<open>The first loop: the block writing begins in, its position, and the last block.\<close>

partial_function (option) write_walk ::
  "addr \<Rightarrow> addr \<Rightarrow> int \<Rightarrow> addr \<Rightarrow> int \<Rightarrow> 'm ram \<Rightarrow> (addr \<times> int \<times> addr) option" where
  "write_walk j the_file pos add fpos s =
     (if j = 0 then Some (the_file, pos, add)
      else do {
        b \<leftarrow> file_at j s;
        if pos + DEFAULTFILE < fpos
        then write_walk (fb_next b) (fb_next b) (pos + DEFAULTFILE) j fpos s
        else write_walk (fb_next b) the_file pos j fpos s })"

text \<open>The second loop: at most \<open>n\<close> new blocks behind \<open>add\<close>, as far as memory goes.\<close>

fun write_extend :: "'m kern \<Rightarrow> nat \<Rightarrow> addr \<Rightarrow> int \<Rightarrow> 'm ram \<Rightarrow> (int \<times> 'm ram) option" where
  "write_extend K 0 add blocks s = Some (blocks, s)"
| "write_extend K (Suc n) add blocks s =
     (case Kmalloc K sizeof_FILEBLOCK s of (r, s) \<Rightarrow>
        if r = 0 then Some (blocks, s)
        else do {
          b \<leftarrow> file_at add s;
          s \<leftarrow> put_file add (b\<lparr>fb_next := nat r\<rparr>) s;
          write_extend K n (nat r) (blocks + 1)
            (s\<lparr>heap := (heap s)(nat r \<mapsto> FileBlk \<lparr>fb_data = k_junk K (mem s) (nat r), fb_next = 0\<rparr>)\<rparr>) })"

definition patch :: "(nat \<Rightarrow> byte) \<Rightarrow> nat \<Rightarrow> byte list \<Rightarrow> nat \<Rightarrow> byte" where
  "patch d pos xs = (\<lambda>i. if pos \<le> i \<and> i < pos + length xs then xs ! (i - pos) else d i)"

function write_loop :: "addr \<Rightarrow> int \<Rightarrow> int \<Rightarrow> int \<Rightarrow> byte list \<Rightarrow> 'm ram \<Rightarrow> 'm ram option" where
  "write_loop blk pos writeable count buf s =
     (if count \<le> 0 then Some s
      else let n = (if writeable > count then count else writeable) in
        if pos < 0 \<or> n < 0 \<or> DEFAULTFILE < pos + n \<or> int (length buf) < n then None
        else do {
          b \<leftarrow> file_at blk s;
          s \<leftarrow> put_file blk (b\<lparr>fb_data := patch (fb_data b) (nat pos) (take (nat n) buf)\<rparr>) s;
          write_loop (fb_next b) 0 DEFAULTFILE (count - n) (drop (nat n) buf) s })"
  by pat_completeness auto
termination
  by (relation "measure (\<lambda>(blk, pos, writeable, count, buf, s). 2 * nat count + (if writeable = 0 then 1 else 0))")
     (auto simp: DEFAULTFILE_def nat_less_eq_zless)

declare write_loop.simps [simp del]

text \<open>How many blocks a write of \<open>count\<close> bytes at \<open>fpos\<close> asks for beyond \<open>blocks\<close>.\<close>

definition blocks_wanted :: "int \<Rightarrow> int \<Rightarrow> int \<Rightarrow> int" where
  "blocks_wanted fpos count blocks =
     (if s32 (fpos + count) > blocks * DEFAULTFILE
      then cdiv (s32 (fpos + count + DEFAULTFILE - 1)) DEFAULTFILE - blocks else 0)"

definition write_count :: "int \<Rightarrow> int \<Rightarrow> int \<Rightarrow> int \<Rightarrow> int" where
  "write_count fpos count old_blocks blocks =
     (if s32 (fpos + count) > old_blocks * DEFAULTFILE \<and> s32 (fpos + count) > blocks * DEFAULTFILE
      then blocks * DEFAULTFILE - fpos else count)"

definition ramdisk_write :: "'m kern \<Rightarrow> nat \<Rightarrow> int \<Rightarrow> byte list \<Rightarrow> 'm ram \<Rightarrow> (int \<times> 'm ram) option" where
  "ramdisk_write K f count buffer s = do {
     let x = fds s f;
     c \<leftarrow> check_fd x s;
     if c < 0 then Some (c, s)
     else if fd_mode x AND OM_WPERM = 0 then Some (EACCDN, s)
     else do {
       p \<leftarrow> fd_file x;
       e \<leftarrow> get_de p s;
       (the_file, pos, add) \<leftarrow> write_walk (de_faddr e) (de_faddr e) 0 0 (fd_fpos x) s;
       let old_blocks = st_blocks (de_xattr e);
       (blocks, s) \<leftarrow> write_extend K (nat (blocks_wanted (fd_fpos x) count old_blocks)) add old_blocks s;
       let count = write_count (fd_fpos x) count old_blocks blocks;
       let pos = fd_fpos x - pos;
       s \<leftarrow> write_loop the_file pos (DEFAULTFILE - pos) count buffer s;
       let written = (if count > 0 then count else 0);
       let fpos = s32 (fd_fpos x + written);
       let (t, m) = now K (mem s);
       let s = set_fd f (x\<lparr>fd_fpos := fpos\<rparr>) (s\<lparr>mem := m\<rparr>);
       let xa = de_xattr e;
       s \<leftarrow> put_de p (e\<lparr>de_xattr := xa\<lparr>st_blocks := blocks,
               st_size := (if fpos > st_size xa then fpos else st_size xa),
               st_mtim := t, st_attr := st_attr xa OR FA_CHANGED\<rparr>\<rparr>) s;
       Some (written, s)
     } }"

subsection \<open>Status, position and times\<close>

definition ramdisk_stat :: "nat \<Rightarrow> bool \<Rightarrow> 'm ram \<Rightarrow> int option" where
  "ramdisk_stat f rwflag s = do {
     let x = fds s f;
     c \<leftarrow> check_fd x s;
     Some (if c < 0 then c
           else if \<not> rwflag \<and> fd_mode x AND (OM_RPERM OR OM_EXEC) = 0 then EACCDN
           else if rwflag \<and> fd_mode x AND OM_WPERM = 0 then EACCDN
           else 1) }"

definition ramdisk_seek :: "nat \<Rightarrow> int \<Rightarrow> int \<Rightarrow> 'm ram \<Rightarrow> (int \<times> 'm ram) option" where
  "ramdisk_seek f whence mode s = do {
     let x = fds s f;
     c \<leftarrow> check_fd x s;
     if c < 0 then Some (c, s)
     else do {
       e \<leftarrow> fd_entry x s;
       let sz = st_size (de_xattr e);
       if mode \<noteq> 0 \<and> mode \<noteq> 1 \<and> mode \<noteq> 2 then Some (fd_fpos x, s)
       else
         let base = (if mode = 0 then 0 else if mode = 1 then fd_fpos x else sz);
             new_pos = s32 (base + whence)
         in if new_pos < 0 \<or> new_pos > sz then Some (ERANGE, s)
            else Some (new_pos, set_fd f (x\<lparr>fd_fpos := new_pos\<rparr>) s)
     } }"

text \<open>\<open>d\<close> is the array of time and date; the second component of the result is its new value.\<close>

definition ramdisk_datime ::
  "'m kern \<Rightarrow> nat \<Rightarrow> stamp \<Rightarrow> int \<Rightarrow> 'm ram \<Rightarrow> (int \<times> stamp \<times> 'm ram) option" where
  "ramdisk_datime K f d setflag s = do {
     let x = fds s f;
     c \<leftarrow> check_fd x s;
     if c < 0 then Some (c, d, s)
     else do {
       p \<leftarrow> fd_file x;
       e \<leftarrow> get_de p s;
       if setflag = 0 then Some (E_OK, st_mtim (de_xattr e), s)
       else if setflag = 1 then
         (if \<not> waccess e then Some (EACCDN, d, s)
          else do {
            let (t, m) = now K (mem s);
            s \<leftarrow> put_de p (e\<lparr>de_xattr := (de_xattr e)\<lparr>st_ctim := t, st_atim := d, st_mtim := d\<rparr>\<rparr>)
                   (s\<lparr>mem := m\<rparr>);
            Some (E_OK, d, s) })
       else Some (EACCDN, d, s)
     } }"

text \<open>What \<open>ramdisk_ioctl\<close> stores through its buffer pointer.\<close>

datatype ioctl_out = NoOut | OutLong int | OutXattr XATTR

definition ramdisk_ioctl ::
  "'m kern \<Rightarrow> nat \<Rightarrow> int \<Rightarrow> (stamp \<times> stamp) option \<Rightarrow> 'm ram \<Rightarrow> (int \<times> ioctl_out \<times> 'm ram) option" where
  "ramdisk_ioctl K f cmd timebuf s = do {
     let x = fds s f;
     c \<leftarrow> check_fd x s;
     if c < 0 then Some (c, NoOut, s)
     else do {
       p \<leftarrow> fd_file x;
       e \<leftarrow> get_de p s;
       if cmd = FUTIME then
         (if \<not> waccess e then Some (EACCDN, NoOut, s)
          else do {
            let (t, m) = now K (mem s);
            s \<leftarrow> put_de p (e\<lparr>de_xattr := futime t timebuf (de_xattr e)\<rparr>) (s\<lparr>mem := m\<rparr>);
            Some (E_OK, NoOut, s) })
       else if cmd = FIONREAD then
         (if fd_mode x AND (OM_RPERM OR OM_EXEC) = 0 then Some (EACCDN, NoOut, s)
          else Some (E_OK, OutLong (st_size (de_xattr e) - fd_fpos x), s))
       else if cmd = FIONWRITE then
         (if fd_mode x AND OM_WPERM = 0 then Some (EACCDN, NoOut, s)
          else let avail = st_blocks (de_xattr e) * DEFAULTFILE - fd_fpos x
               in Some (E_OK, OutLong (if avail < 0 then 0 else avail), s))
       else if cmd = FSTAT then Some (E_OK, OutXattr (de_xattr e), s)
       else Some (EINVFN, NoOut, s)
     } }"

subsection \<open>Characters and lines\<close>

definition EOF_CODE :: int where "EOF_CODE = 0xff1a"

definition ramdisk_getc :: "'m kern \<Rightarrow> nat \<Rightarrow> 'm ram \<Rightarrow> (int \<times> 'm ram) option" where
  "ramdisk_getc K f s = do {
     c \<leftarrow> check_fd (fds s f) s;
     if c < 0 then Some (c, s)
     else do {
       (n, data, s) \<leftarrow> ramdisk_read K f 1 s;
       if n \<noteq> 1 then Some (EOF_CODE, s) else Some (uint (hd data), s) } }"

text \<open>\<open>buf\<close> collects what is stored at \<open>buf[0]\<close>, \<open>buf[1]\<close>, \<open>\<dots>\<close>.\<close>

partial_function (option) getline_loop ::
  "'m kern \<Rightarrow> nat \<Rightarrow> int \<Rightarrow> int \<Rightarrow> byte list \<Rightarrow> 'm ram \<Rightarrow> (int \<times> byte list \<times> 'm ram) option" where
  "getline_loop K f sz count buf s =
     (if count = sz then Some (count, buf, s)
      else do {
        (c, s) \<leftarrow> ramdisk_getc K f s;
        if c = EOF_CODE then Some (count, buf @ [0], s)
        else if c = 0xd then do {
          (_, s) \<leftarrow> ramdisk_getc K f s;
          Some (count, buf @ [0], s) }
        else if c = 0xa then Some (count, buf @ [0], s)
        else getline_loop K f sz (count + 1) (buf @ [word_of_int c]) s })"

definition ramdisk_getline ::
  "'m kern \<Rightarrow> nat \<Rightarrow> int \<Rightarrow> 'm ram \<Rightarrow> (int \<times> byte list \<times> 'm ram) option" where
  "ramdisk_getline K f sz s = do {
     c \<leftarrow> check_fd (fds s f) s;
     if c < 0 then Some (0, [], s) else getline_loop K f sz 0 [] s }"

definition ramdisk_putc :: "'m kern \<Rightarrow> nat \<Rightarrow> int \<Rightarrow> 'm ram \<Rightarrow> (int \<times> 'm ram) option" where
  "ramdisk_putc K f value s = ramdisk_write K f 1 [word_of_int value] s"

end
