(* ===== verification/Ram_Ops.thy ===== *)
theory Ram_Ops
  imports Ram_File
begin

text \<open>
  The operations on names of the RAM disk file system (\<open>ramdisk_sfirst\<close> to
  \<open>ramdisk_dcntl\<close> of \<open>extensio/ramdisk/ramdisk.c\<close>).  The directory argument is the index of
  a descriptor in \<open>fds\<close>; every operation returns its GEMDOS code, what it stores through
  the caller's pointers, and the new state.  \<open>CHECK_OPEN\<close> and \<open>CHECK_PARENT\<close> are not
  defined in the project file, so the checks they guard are not part of the program.
\<close>

text \<open>\<open>work_entry(dd, ".", NULL, 1, at, 0L, set_amtime)\<close>, whose result is ignored.\<close>

definition touch_dir :: "'m kern \<Rightarrow> RAMDISK_FD \<Rightarrow> bool \<Rightarrow> 'm ram \<Rightarrow> 'm ram option" where
  "touch_dir K dd at s = do {
     (_, _, s) \<leftarrow> work_entry K dd ''.'' False True (Some (set_amtime at)) s;
     Some s }"

subsection \<open>Opening and deleting files\<close>

partial_function (option) free_blocks :: "'m kern \<Rightarrow> addr \<Rightarrow> 'm ram \<Rightarrow> 'm ram option" where
  "free_blocks K blk s =
     (if blk = 0 then Some s
      else do { b \<leftarrow> file_at blk s; free_blocks K (fb_next b) (Kfree K blk s) })"

text \<open>The entry of a new file, once its first block is there.\<close>

definition file_entry :: "bool \<Rightarrow> mode16 \<Rightarrow> addr \<Rightarrow> DIRENTRY \<Rightarrow> DIRENTRY" where
  "file_entry exec attrib blk e =
     (let mode = S_IFREG OR (if exec then 0x1FF else 0x1B6);
          ro = attrib AND FA_RDONLY \<noteq> 0
      in e\<lparr>de_faddr := blk,
           de_xattr := (de_xattr e)\<lparr>st_mode := (if ro then mode AND NOT S_IWALL else mode),
             st_ino := blk, st_size := 0, st_blocks := 1,
             st_attr := (if ro then FA_RDONLY OR FA_CHANGED else FA_CHANGED)\<rparr>\<rparr>)"

definition fopen_create ::
  "'m kern \<Rightarrow> nat \<Rightarrow> string \<Rightarrow> mode16 \<Rightarrow> mode16 \<Rightarrow> 'm ram \<Rightarrow> ((int + de_ptr) \<times> 'm ram) option" where
  "fopen_create K dd name omode attrib s =
     (if omode AND O_CREAT \<noteq> O_CREAT then Some (Inl EFILNF, s)
      else if name = ''.'' \<or> name = ''..'' then Some (Inl EACCDN, s)
      else do {
        (f, s) \<leftarrow> new_file K (fds s dd) name s;
        case f of
          None \<Rightarrow> Some (Inl EACCDN, s)
        | Some p \<Rightarrow>
            (case Kmalloc K sizeof_FILEBLOCK s of (r, s) \<Rightarrow>
               if r = 0 then Some (Inl ENSMEM, s)
               else do {
                 let blk = nat r;
                 let s = s\<lparr>heap := (heap s)(blk \<mapsto>
                             FileBlk \<lparr>fb_data = k_junk K (mem s) blk, fb_next = 0\<rparr>)\<rparr>;
                 s \<leftarrow> touch_dir K (fds s dd) False s;
                 e \<leftarrow> get_de p s;
                 let exec = (omode AND OM_EXEC \<noteq> 0 \<or> has_xext (Pdomain K s) name);
                 s \<leftarrow> put_de p (file_entry exec attrib blk e) s;
                 Some (Inr p, s) }) })"

definition fopen_trunc :: "'m kern \<Rightarrow> de_ptr \<Rightarrow> 'm ram \<Rightarrow> 'm ram option" where
  "fopen_trunc K p s = do {
     e \<leftarrow> get_de p s;
     b \<leftarrow> file_at (de_faddr e) s;
     s \<leftarrow> put_file (de_faddr e) (b\<lparr>fb_next := 0\<rparr>) s;
     s \<leftarrow> free_blocks K (fb_next b) s;
     e \<leftarrow> get_de p s;
     let xa = de_xattr e;
     put_de p (e\<lparr>de_xattr := xa\<lparr>st_size := 0, st_blocks := 1,
                                st_attr := st_attr xa OR FA_CHANGED\<rparr>\<rparr>) s }"

text \<open>What an open call returns: a code, \<open>ELINK\<close> with the link, or a descriptor.\<close>

datatype open_result = OErr int | OLink addr | OFd nat

text \<open>The tests on the entry that was found.\<close>

definition fopen_refuse :: "mode16 \<Rightarrow> DIRENTRY \<Rightarrow> open_result option" where
  "fopen_refuse omode e =
     (if is_link (mode_of e) then Some (OLink (de_faddr e))
      else if is_dir (mode_of e) then Some (OErr EFILNF)
      else if omode AND OM_WPERM \<noteq> 0 \<and> \<not> waccess e then Some (OErr EACCDN)
      else if omode AND (O_CREAT OR O_EXCL) = O_CREAT OR O_EXCL then Some (OErr EACCDN)
      else None)"

definition open_fd :: "'m kern \<Rightarrow> mode16 \<Rightarrow> de_ptr \<Rightarrow> nat \<Rightarrow> RAMDISK_FD \<Rightarrow> 'm ram \<Rightarrow> RAMDISK_FD" where
  "open_fd K omode p dd x s = x\<lparr>fd_dmd := ramdisk_dmd s, fd_refcnt := 1, fd_mode := omode,
     fd_dev := True, fd_fpos := 0, fd_file := Some p, fd_parent := Some dd, fd_owner := act_pd K s\<rparr>"

text \<open>The second half of \<open>ramdisk_fopen\<close>: a descriptor for what was found, or a new file.\<close>

definition fopen_found ::
  "'m kern \<Rightarrow> nat \<Rightarrow> string \<Rightarrow> mode16 \<Rightarrow> mode16 \<Rightarrow> de_ptr option \<Rightarrow> 'm ram \<Rightarrow> (open_result \<times> 'm ram) option" where
  "fopen_found K dd name omode attrib found s =
     (case findfd found s of
        (None, s) \<Rightarrow> Some (OErr ENSMEM, s)
      | (Some i, s) \<Rightarrow>
          if fd_parent (fds s i) \<noteq> None then Some (OErr EACCDN, s)
          else do {
            (r, s) \<leftarrow> (case found of
               None \<Rightarrow> fopen_create K dd name omode attrib s
             | Some p \<Rightarrow>
                 if omode AND O_TRUNC \<noteq> 0 then do { s \<leftarrow> fopen_trunc K p s; Some (Inr p, s) }
                 else Some (Inr p, s));
            case r of
              Inl err \<Rightarrow> Some (OErr err, s)
            | Inr p \<Rightarrow> Some (OFd i, set_fd i (open_fd K omode p dd (fds s i) s) s) })"

definition ramdisk_fopen ::
  "'m kern \<Rightarrow> nat \<Rightarrow> string \<Rightarrow> mode16 \<Rightarrow> mode16 \<Rightarrow> 'm ram \<Rightarrow> (open_result \<times> 'm ram) option" where
  "ramdisk_fopen K dd name omode attrib s = do {
     c \<leftarrow> check_dd (fds s dd) s;
     if c < 0 then Some (OErr c, s)
     else do {
       d \<leftarrow> fd_entry (fds s dd) s;
       if \<not> xaccess d then Some (OErr EACCDN, s)
       else if (omode AND O_CREAT \<noteq> 0 \<or> omode AND O_TRUNC \<noteq> 0) \<and> omode AND OM_WPERM \<noteq> OM_WPERM
       then Some (OErr EACCDN, s)
       else do {
         let wct = OM_WPERM OR O_CREAT OR O_TRUNC;
         found \<leftarrow> findfile K (fds s dd) name 2 (if omode AND wct = wct then FF_EXIST else FF_SEARCH) False s;
         refuse \<leftarrow> (case found of
                     None \<Rightarrow> Some None
                   | Some p \<Rightarrow> do { e \<leftarrow> get_de p s; Some (fopen_refuse omode e) });
         case refuse of
           Some r \<Rightarrow> Some (r, s)
         | None \<Rightarrow> fopen_found K dd name omode attrib found s
       } } }"

text \<open>Freeing what an entry owns: a link block, or the chain of a file.\<close>

definition release_data :: "'m kern \<Rightarrow> DIRENTRY \<Rightarrow> 'm ram \<Rightarrow> 'm ram option" where
  "release_data K e s =
     (if is_link (mode_of e) then Some (Kfree K (de_faddr e) s)
      else do {
        b \<leftarrow> file_at (de_faddr e) s;
        free_blocks K (fb_next b) (Kfree K (de_faddr e) s) })"

definition ramdisk_fdelete :: "'m kern \<Rightarrow> nat \<Rightarrow> string \<Rightarrow> 'm ram \<Rightarrow> (int \<times> 'm ram) option" where
  "ramdisk_fdelete K dd name s = do {
     c \<leftarrow> check_dd (fds s dd) s;
     if c < 0 then Some (c, s)
     else do {
       found \<leftarrow> findfile K (fds s dd) name 2 FF_SEARCH False s;
       case found of
         None \<Rightarrow> Some (EFILNF, s)
       | Some p \<Rightarrow> do {
           d \<leftarrow> fd_entry (fds s dd) s;
           e \<leftarrow> get_de p s;
           if \<not> waccess d \<or> \<not> xaccess d then Some (EACCDN, s)
           else if is_dir (mode_of e) then Some (EACCDN, s)
           else
             (case findfd (Some p) s of (i, s) \<Rightarrow>
                if (case i of None \<Rightarrow> False | Some i \<Rightarrow> fd_parent (fds s i) \<noteq> None) then Some (EACCDN, s)
                else if \<not> waccess e then Some (EACCDN, s)
                else do {
                  s \<leftarrow> release_data K e s;
                  e \<leftarrow> get_de p s;
                  s \<leftarrow> put_de p (e\<lparr>de_faddr := 0\<rparr>) s;
                  s \<leftarrow> touch_dir K (fds s dd) False s;
                  Some (E_OK, s) }) } } }"

subsection \<open>Renaming and moving\<close>

text \<open>Whether the entry \<open>p\<close> is met on the way from descriptor \<open>d\<close> up to the root.\<close>

partial_function (option) link_walk :: "nat \<Rightarrow> de_ptr \<Rightarrow> 'm ram \<Rightarrow> bool option" where
  "link_walk d p s =
     (case fd_parent (fds s d) of
        None \<Rightarrow> Some False
      | Some i \<Rightarrow> if fd_file (fds s d) = Some p then Some True else link_walk i p s)"

text \<open>\<open>*e_new = *e_old\<close> and what follows it.\<close>

definition move_entry ::
  "nat \<Rightarrow> string \<Rightarrow> de_ptr \<Rightarrow> de_ptr \<Rightarrow> 'm ram \<Rightarrow> 'm ram option" where
  "move_entry nd newname p_old p_new s = do {
     e \<leftarrow> get_de p_old s;
     s \<leftarrow> put_de p_new (e\<lparr>de_fname := newname\<rparr>) s;
     e_old \<leftarrow> get_de p_old s;
     s \<leftarrow> put_de p_old (e_old\<lparr>de_faddr := 0\<rparr>) s;
     e \<leftarrow> get_de p_new s;
     if is_dir (mode_of e) then do {
       d \<leftarrow> fd_entry (fds s nd) s;
       up \<leftarrow> get_de (de_faddr e, 1) s;
       put_de (de_faddr e, 1) (up\<lparr>de_faddr := de_faddr d,
                                 de_xattr := (de_xattr up)\<lparr>st_ino := de_faddr d\<rparr>\<rparr>) s }
     else Some s }"

text \<open>The end of \<open>ramdisk_link\<close>, when nothing speaks against the new name.\<close>

definition link_perform ::
  "'m kern \<Rightarrow> nat \<Rightarrow> nat \<Rightarrow> string \<Rightarrow> de_ptr \<Rightarrow> 'm ram \<Rightarrow> (int \<times> 'm ram) option" where
  "link_perform K od nd temp p_old s =
     (if od = nd then do {
        e \<leftarrow> get_de p_old s;
        s \<leftarrow> put_de p_old (e\<lparr>de_fname := temp\<rparr>) s;
        s \<leftarrow> touch_dir K (fds s od) False s;
        Some (E_OK, s) }
      else do {
        (f, s) \<leftarrow> new_file K (fds s nd) temp s;
        case f of
          None \<Rightarrow> Some (EACCDN, s)
        | Some p_new \<Rightarrow> do {
            s \<leftarrow> touch_dir K (fds s od) False s;
            s \<leftarrow> touch_dir K (fds s nd) False s;
            s \<leftarrow> move_entry nd temp p_old p_new s;
            Some (E_OK, s) } })"

definition ramdisk_link ::
  "'m kern \<Rightarrow> nat \<Rightarrow> nat \<Rightarrow> string \<Rightarrow> string \<Rightarrow> bool \<Rightarrow> 'm ram \<Rightarrow> (int \<times> 'm ram) option" where
  "ramdisk_link K od nd oldname newname flag_link s =
     (if flag_link then Some (EINVFN, s)
      else do {
        c \<leftarrow> check_dd (fds s od) s;
        if c < 0 then Some (c, s)
        else do {
          c \<leftarrow> check_dd (fds s nd) s;
          if c < 0 then Some (c, s)
          else do {
            d \<leftarrow> fd_entry (fds s od) s;
            n \<leftarrow> fd_entry (fds s nd) s;
            if \<not> waccess d \<or> \<not> waccess n \<or> \<not> xaccess d \<or> \<not> xaccess n then Some (EACCDN, s)
            else if \<not> check_name (eight_bit s) newname then Some (EACCDN, s)
            else do {
              let temp = stored_name K s newname;
              e_old \<leftarrow> findfile K (fds s od) oldname 2 FF_SEARCH False s;
              case e_old of
                None \<Rightarrow> Some (EFILNF, s)
              | Some p_old \<Rightarrow> do {
                  e_new \<leftarrow> findfile K (fds s nd) temp 0 FF_EXIST False s;
                  e \<leftarrow> get_de p_old s;
                  if e_new \<noteq> None then Some (EACCDN, s)
                  else do {
                    below \<leftarrow> (if is_dir (mode_of e) then link_walk nd p_old s else Some False);
                    if below then Some (EACCDN, s)
                    else link_perform K od nd temp p_old s } } } } } })"

subsection \<open>Attributes\<close>

definition ramdisk_xattr ::
  "'m kern \<Rightarrow> nat \<Rightarrow> string \<Rightarrow> bool \<Rightarrow> 'm ram \<Rightarrow> (int \<times> XATTR option \<times> addr option) option" where
  "ramdisk_xattr K dd name mode s = do {
     c \<leftarrow> check_dd (fds s dd) s;
     if c < 0 then Some (c, None, None)
     else do {
       found \<leftarrow> findfile K (fds s dd) name 0 FF_SEARCH True s;
       case found of
         None \<Rightarrow> Some (EFILNF, None, None)
       | Some p \<Rightarrow> do {
           e \<leftarrow> get_de p s;
           if \<not> mode \<and> is_link (mode_of e) then Some (ELINK, None, Some (de_faddr e))
           else Some (E_OK, Some (de_xattr e), None) } } }"

definition ramdisk_attrib ::
  "'m kern \<Rightarrow> nat \<Rightarrow> string \<Rightarrow> bool \<Rightarrow> mode16 \<Rightarrow> 'm ram \<Rightarrow> (int \<times> addr option \<times> 'm ram) option" where
  "ramdisk_attrib K dd name rwflag attrib s =
     work_entry K (fds s dd) name True rwflag (Some (attrib_action rwflag attrib)) s"

definition ramdisk_chown ::
  "'m kern \<Rightarrow> nat \<Rightarrow> string \<Rightarrow> int \<Rightarrow> int \<Rightarrow> 'm ram \<Rightarrow> (int \<times> addr option \<times> 'm ram) option" where
  "ramdisk_chown K dd name uid gid s = work_entry K (fds s dd) name True False None s"

definition ramdisk_chmod ::
  "'m kern \<Rightarrow> nat \<Rightarrow> string \<Rightarrow> mode16 \<Rightarrow> 'm ram \<Rightarrow> (int \<times> addr option \<times> 'm ram) option" where
  "ramdisk_chmod K dd name mode s =
     work_entry K (fds s dd) name True True (Some (chmod_action mode)) s"

definition ramdisk_dcntl ::
  "'m kern \<Rightarrow> nat \<Rightarrow> string \<Rightarrow> int \<Rightarrow> (stamp \<times> stamp) option \<Rightarrow> 'm ram
   \<Rightarrow> (int \<times> addr option \<times> 'm ram) option" where
  "ramdisk_dcntl K dd name cmd arg s =
     work_entry K (fds s dd) name True True (Some (dcntl_action cmd arg)) s"

end
