(* ===== verification/Ram_Names.thy ===== *)
theory Ram_Names
  imports Ram_Ops
begin

text \<open>
  Directories as the caller sees them (\<open>extensio/ramdisk/ramdisk.c\<close>): creating and deleting
  them, reading them through a handle (\<open>Dopendir\<close> and its companions) or through a DTA
  (\<open>Fsfirst\<close>, \<open>Fsnext\<close>), the statistics of the drive, its label, and symbolic links.
\<close>

subsection \<open>Creating and deleting directories\<close>

definition dir_entry :: "addr \<Rightarrow> DIRENTRY \<Rightarrow> DIRENTRY" where
  "dir_entry blk e = e\<lparr>de_faddr := blk, de_xattr := (de_xattr e)\<lparr>st_mode := dir_mode,
     st_ino := blk, st_size := 0, st_blocks := 1, st_attr := FA_DIR\<rparr>\<rparr>"

definition ramdisk_dcreate :: "'m kern \<Rightarrow> nat \<Rightarrow> string \<Rightarrow> mode16 \<Rightarrow> 'm ram \<Rightarrow> (int \<times> 'm ram) option" where
  "ramdisk_dcreate K dd name mode s = do {
     c \<leftarrow> check_dd (fds s dd) s;
     if c < 0 then Some (c, s)
     else do {
       found \<leftarrow> findfile K (fds s dd) name 0 FF_EXIST False s;
       if found \<noteq> None then Some (EACCDN, s)
       else do {
         (f, s) \<leftarrow> new_file K (fds s dd) name s;
         case f of
           None \<Rightarrow> Some (EACCDN, s)
         | Some p \<Rightarrow>
             (case Kmalloc K (DEFAULTDIR * sizeof_DIRENTRY) s of (r, s) \<Rightarrow>
                if r = 0 then Some (ENSMEM, s)
                else do {
                  let new = nat r;
                  s \<leftarrow> touch_dir K (fds s dd) False s;
                  let s = s\<lparr>heap := (heap s)(new \<mapsto> DirBlk (replicate (nat DEFAULTDIR) zero_de))\<rparr>;
                  d \<leftarrow> fd_entry (fds s dd) s;
                  s \<leftarrow> prepare_dir K new (nat DEFAULTDIR) (de_faddr d) s;
                  e \<leftarrow> get_de p s;
                  s \<leftarrow> put_de p (dir_entry new e) s;
                  Some (E_OK, s) }) } } }"

text \<open>The loop of \<open>ramdisk_ddelete\<close> that looks for a third used entry.\<close>

fun in_use :: "DIRENTRY list \<Rightarrow> nat list \<Rightarrow> nat \<Rightarrow> bool option" where
  "in_use es [] cnt = Some False"
| "in_use es (i # is) cnt =
     (if length es \<le> i then None
      else if de_faddr (es ! i) \<noteq> 0
      then (if cnt + 1 > 2 then Some True else in_use es is (cnt + 1))
      else in_use es is cnt)"

text \<open>The second half of \<open>ramdisk_ddelete\<close>, which works on copies of both descriptors.\<close>

definition ddelete_copies ::
  "'m kern \<Rightarrow> RAMDISK_FD \<Rightarrow> RAMDISK_FD \<Rightarrow> 'm ram \<Rightarrow> (int \<times> 'm ram) option" where
  "ddelete_copies K cpy parent s = do {
     pe \<leftarrow> fd_entry parent s;
     if \<not> waccess pe then Some (EACCDN, s)
     else do {
       ce \<leftarrow> fd_entry cpy s;
       let the_dir = de_faddr ce;
       if \<not> waccess ce then Some (EACCDN, s)
       else if dir_is_open the_dir s then Some (EACCDN, s)
       else do {
         es \<leftarrow> dir_at the_dir s;
         e0 \<leftarrow> get_de (the_dir, 0) s;
         used \<leftarrow> in_use es [0..<nat (de_maxnr e0)] 0;
         if used then Some (EACCDN, s)
         else do {
           let s = Kfree K the_dir s;
           s \<leftarrow> touch_dir K parent False s;
           p \<leftarrow> fd_file cpy;
           e \<leftarrow> get_de p s;
           s \<leftarrow> put_de p (e\<lparr>de_faddr := 0\<rparr>) s;
           Some (E_OK, s) } } } }"

definition ramdisk_ddelete :: "'m kern \<Rightarrow> nat \<Rightarrow> 'm ram \<Rightarrow> (int \<times> 'm ram) option" where
  "ramdisk_ddelete K dd s = do {
     c \<leftarrow> check_dd (fds s dd) s;
     if c < 0 then Some (c, s)
     else do {
       let old = (k_version K < 3);
       let x = fds s dd;
       let s = (if old then set_fd dd (x\<lparr>fd_refcnt := s16 (fd_refcnt x - 1)\<rparr>) s else s);
       if old \<and> fd_refcnt (fds s dd) > 0 then Some (EACCDN, s)
       else do {
         let cpy = fds s dd;
         i \<leftarrow> fd_parent cpy;
         let parent = fds s i;
         s \<leftarrow> (if old then ramdisk_freeDD dd s else Some s);
         ddelete_copies K cpy parent s } } }"

subsection \<open>Reading directories\<close>

text \<open>A handle is an index into \<open>dhds\<close>; the result is a code or the handle.\<close>

definition ramdisk_dopendir :: "'m kern \<Rightarrow> nat \<Rightarrow> bool \<Rightarrow> 'm ram \<Rightarrow> ((int + nat) \<times> 'm ram) option" where
  "ramdisk_dopendir K dd tosflag s = do {
     c \<leftarrow> check_dd (fds s dd) s;
     if c < 0 then Some (Inl c, s)
     else do {
       d \<leftarrow> fd_entry (fds s dd) s;
       if \<not> raccess d then Some (Inl EACCDN, s)
       else
         (case find (\<lambda>i. dhd_dir (dhds s i) = 0) [0..<MAX_DHD] of
            None \<Rightarrow> Some (Inl ENHNDL, s)
          | Some i \<Rightarrow> Some (Inr i, s\<lparr>dhds := (dhds s)(i := \<lparr>dhd_dmd = ramdisk_dmd s,
              dhd_dir = de_faddr d, dhd_pos = 0, dhd_tosmode = tosflag, dhd_owner = act_pd K s\<rparr>)\<rparr>)) } }"

text \<open>What \<open>ramdisk_dreaddir\<close> stores in its buffer: an 8+3 name, or an inode and a name.\<close>

datatype dirent = TosName string | LongName addr string

definition handle_ok :: "'m kern \<Rightarrow> RAMDISK_DHD \<Rightarrow> 'm ram \<Rightarrow> bool" where
  "handle_ok K h s \<longleftrightarrow> dhd_dmd h = ramdisk_dmd s \<and> dhd_owner h = act_pd K s"

text \<open>The pseudo descriptor of \<open>ramdisk_dreaddir\<close>; the fields it leaves open are not read.\<close>

definition help_fd :: "addr \<Rightarrow> 'm ram \<Rightarrow> RAMDISK_FD" where
  "help_fd dir s = zero_fd\<lparr>fd_dmd := ramdisk_dmd s, fd_file := Some (dir, 0)\<rparr>"

text \<open>
  \<open>ramdisk_dreaddir\<close> on a handle that is passed by value and returned; the result holds what
  is stored in the buffer and the attributes, when they are stored.
\<close>

definition dreaddir_handle ::
  "'m kern \<Rightarrow> RAMDISK_DHD \<Rightarrow> int \<Rightarrow> 'm ram
   \<Rightarrow> (int \<times> (dirent \<times> XATTR) option \<times> RAMDISK_DHD \<times> 'm ram) option" where
  "dreaddir_handle K h len s =
     (if \<not> handle_ok K h s then Some (EIHNDL, None, h, s)
      else do {
        s \<leftarrow> touch_dir K (help_fd (dhd_dir h) s) True s;
        es \<leftarrow> dir_at (dhd_dir h) s;
        e0 \<leftarrow> get_de (dhd_dir h, 0) s;
        r \<leftarrow> scan_from (\<lambda>d. de_faddr d \<noteq> 0) es (nat (dhd_pos h)) (nat (de_maxnr e0));
        case r of
          None \<Rightarrow> Some (ENMFIL, None, h, s)
        | Some pos \<Rightarrow>
            let e = es ! pos; h' = h\<lparr>dhd_pos := int pos + 1\<rparr> in
            if dhd_tosmode h then
              (if len < 13 then Some (ERANGE, None, h, s)
               else Some (E_OK, Some (TosName (tostrunc (de_fname e) False), de_xattr e), h', s))
            else if s16 (int (length (de_fname e))) + 4 \<ge> len then Some (ERANGE, None, h, s)
            else Some (E_OK, Some (LongName (st_ino (de_xattr e)) (de_fname e), de_xattr e), h', s) })"

definition ramdisk_dreaddir ::
  "'m kern \<Rightarrow> nat \<Rightarrow> int \<Rightarrow> 'm ram \<Rightarrow> (int \<times> (dirent \<times> XATTR) option \<times> 'm ram) option" where
  "ramdisk_dreaddir K i len s = do {
     (r, out, h, s) \<leftarrow> dreaddir_handle K (dhds s i) len s;
     Some (r, out, s\<lparr>dhds := (dhds s)(i := h)\<rparr>) }"

definition ramdisk_drewinddir :: "'m kern \<Rightarrow> nat \<Rightarrow> 'm ram \<Rightarrow> int \<times> 'm ram" where
  "ramdisk_drewinddir K i s =
     (if \<not> handle_ok K (dhds s i) s then (EIHNDL, s)
      else (E_OK, s\<lparr>dhds := (dhds s)(i := (dhds s i)\<lparr>dhd_pos := 0\<rparr>)\<rparr>))"

definition ramdisk_dclosedir :: "'m kern \<Rightarrow> nat \<Rightarrow> 'm ram \<Rightarrow> int \<times> 'm ram" where
  "ramdisk_dclosedir K i s =
     (if \<not> handle_ok K (dhds s i) s then (EIHNDL, s)
      else (E_OK, s\<lparr>dhds := (dhds s)(i := (dhds s i)\<lparr>dhd_dir := 0\<rparr>)\<rparr>))"

subsection \<open>Searching with a DTA\<close>

text \<open>\<open>strchr(mask, '?')\<close> looks up to the closing NUL.\<close>

definition has_wildcard :: "char list \<Rightarrow> bool" where
  "has_wildcard msk \<longleftrightarrow> CHR ''?'' \<in> set (takeWhile (\<lambda>c. c \<noteq> NUL) msk)"

text \<open>The test of the attributes of a name that matches; \<open>char\<close> is signed.\<close>

definition attr_matches :: "byte \<Rightarrow> mode16 \<Rightarrow> bool" where
  "attr_matches want attr \<longleftrightarrow>
     attr = 0 \<or> attr AND (FA_CHANGED OR FA_RDONLY) \<noteq> 0 \<or> scast want AND attr \<noteq> 0"

definition dta_fill :: "XATTR \<Rightarrow> RAMDISK_DTA \<Rightarrow> RAMDISK_DTA" where
  "dta_fill xa d = d\<lparr>dta_attribute := ucast (st_attr xa), dta_time := fst (st_mtim xa),
     dta_date := snd (st_mtim xa), dta_len := st_size xa\<rparr>"

partial_function (option) snext_loop ::
  "'m kern \<Rightarrow> bool \<Rightarrow> RAMDISK_DHD \<Rightarrow> RAMDISK_DTA \<Rightarrow> 'm ram
   \<Rightarrow> (int \<times> addr option \<times> RAMDISK_DTA \<times> 'm ram) option" where
  "snext_loop K first_call h d s = do {
     (r, out, h, s) \<leftarrow> dreaddir_handle K h 13 s;
     let d = d\<lparr>dta_pos := dhd_pos h\<rparr>;
     case out of
       None \<Rightarrow> Some (if first_call \<and> r = ENMFIL then EFILNF else r, None, d, s)
     | Some (LongName ino n, xa) \<Rightarrow> None
     | Some (TosName n, xa) \<Rightarrow> do {
         let d = d\<lparr>dta_name := n\<rparr>;
         name \<leftarrow> fill_tosname n;
         if \<not> match_tosname name (dta_mask d) then snext_loop K first_call h d s
         else if is_link (st_mode xa) then Some (ELINK, Some (st_ino xa), d, s)
         else if attr_matches (dta_attr d) (st_attr xa) then Some (E_OK, None, dta_fill xa d, s)
         else snext_loop K first_call h d s } }"

definition ramdisk_snext ::
  "'m kern \<Rightarrow> RAMDISK_DTA \<Rightarrow> addr \<Rightarrow> 'm ram \<Rightarrow> (int \<times> addr option \<times> RAMDISK_DTA \<times> 'm ram) option" where
  "ramdisk_snext K d dmd s =
     (if dmd \<noteq> ramdisk_dmd s then Some (EDRIVE, None, d, s)
      else
        let first_call = dta_pos d \<le> 0;
            d = (if dta_pos d < 0 then d\<lparr>dta_pos := s16 (- dta_pos d)\<rparr> else d) in
        if \<not> first_call \<and> \<not> has_wildcard (dta_mask d) then Some (ENMFIL, None, d, s)
        else snext_loop K first_call
               \<lparr>dhd_dmd = dmd, dhd_dir = dta_dir d, dhd_pos = dta_pos d, dhd_tosmode = True,
                dhd_owner = act_pd K s\<rparr> d s)"

definition ramdisk_sfirst ::
  "'m kern \<Rightarrow> nat \<Rightarrow> string \<Rightarrow> RAMDISK_DTA \<Rightarrow> mode16 \<Rightarrow> 'm ram
   \<Rightarrow> (int \<times> addr option \<times> RAMDISK_DTA \<times> 'm ram) option" where
  "ramdisk_sfirst K dd name d attrib s = do {
     c \<leftarrow> check_dd (fds s dd) s;
     if c < 0 then Some (c, None, d, s)
     else do {
       msk \<leftarrow> fill_tosname (tostrunc name True);
       let d = d\<lparr>dta_mask := msk, dta_pos := 0\<rparr>;
       e \<leftarrow> fd_entry (fds s dd) s;
       let go = (\<lambda>pos. ramdisk_snext K (d\<lparr>dta_pos := pos, dta_drive := word_of_int (ramdisk_drive s),
                   dta_attr := ucast attrib, dta_dir := de_faddr e\<rparr>) (ramdisk_dmd s) s);
       if has_wildcard msk then
         (if \<not> raccess e then Some (EACCDN, None, d, s) else go 0)
       else do {
         found \<leftarrow> findfile K (fds s dd) name 0 FF_SEARCH True s;
         case found of
           None \<Rightarrow> Some (EFILNF, None, d, s)
         | Some p \<Rightarrow> do { f \<leftarrow> get_de p s; go (s16 (- de_nr f)) } } } }"

subsection \<open>Statistics and label\<close>

definition ramdisk_dpathconf :: "nat \<Rightarrow> int \<Rightarrow> 'm ram \<Rightarrow> int option" where
  "ramdisk_dpathconf dd which s = do {
     c \<leftarrow> check_dd (fds s dd) s;
     Some (if c < 0 then c
           else if which = -1 then 8
           else if which = 0 then int MAX_FD - 1
           else if which = 1 then 1
           else if which = 2 then 0x7fffffff
           else if which = 3 then int RAM_MAXFNAME
           else if which = 4 then DEFAULTFILE
           else if which = 5 then 1
           else if which = 6 then 0
           else if which = 7 then 0x01900000 OR (0x1FF * 256) OR
              uint (FA_RDONLY OR FA_DIR OR FA_CHANGED OR FA_SYMLINK)
           else if which = 8 then 0x0fff
           else EINVFN) }"

text \<open>
  \<open>get_size search\<close> is \<open>get_size_from search 2 maxnr blocks\<close>, with both numbers taken from
  the entry \<open>.\<close>; a cyclic tree is a recursion without end.
\<close>

partial_function (option) get_size_from :: "addr \<Rightarrow> nat \<Rightarrow> nat \<Rightarrow> int \<Rightarrow> 'm ram \<Rightarrow> int option" where
  "get_size_from search i maxnr newsize s =
     (if maxnr \<le> i then Some newsize
      else do {
        e \<leftarrow> get_de (search, i) s;
        n \<leftarrow> (if de_faddr e = 0 then Some 0
              else if is_dir (mode_of e) then do {
                e0 \<leftarrow> get_de (de_faddr e, 0) s;
                get_size_from (de_faddr e) 2 (nat (de_maxnr e0)) (st_blocks (de_xattr e0)) s }
              else Some (st_blocks (de_xattr e)));
        get_size_from search (Suc i) maxnr (s32 (newsize + n)) s })"

definition get_size :: "addr \<Rightarrow> 'm ram \<Rightarrow> int option" where
  "get_size search s = do {
     e0 \<leftarrow> get_de (search, 0) s;
     get_size_from search 2 (nat (de_maxnr e0)) (st_blocks (de_xattr e0)) s }"

record DISKINFO =
  b_free :: int
  b_total :: int
  b_secsiz :: int
  b_clsiz :: int

definition ramdisk_dfree :: "'m kern \<Rightarrow> nat \<Rightarrow> 'm ram \<Rightarrow> (int \<times> DISKINFO option \<times> 'm ram) option" where
  "ramdisk_dfree K dd s = do {
     c \<leftarrow> check_dd (fds s dd) s;
     if c < 0 then Some (c, None, s)
     else
       (case Kmalloc K (-1) s of (r, s) \<Rightarrow> do {
          let freeblocks = cdiv (s32 (r + DEFAULTFILE - 1)) DEFAULTFILE;
          usedblocks \<leftarrow> get_size root_blk s;
          Some (E_OK, Some \<lparr>b_free = freeblocks, b_total = s32 (freeblocks + usedblocks),
                            b_secsiz = DEFAULTFILE, b_clsiz = 1\<rparr>, s) }) }"

definition ramdisk_wlabel :: "nat \<Rightarrow> string \<Rightarrow> 'm ram \<Rightarrow> (int \<times> 'm ram) option" where
  "ramdisk_wlabel dd name s = do {
     c \<leftarrow> check_dd (fds s dd) s;
     if c < 0 then Some (c, s)
     else Some (E_OK, s\<lparr>volume_label :=
            (if name \<noteq> [] \<and> hd name = CHR 0xE5 then [] else take RAM_MAXFNAME name)\<rparr>) }"

definition ramdisk_rlabel :: "nat \<Rightarrow> int \<Rightarrow> 'm ram \<Rightarrow> (int \<times> string option) option" where
  "ramdisk_rlabel dd len s = do {
     c \<leftarrow> check_dd (fds s dd) s;
     Some (if c < 0 then (c, None)
           else if volume_label s = [] then (EFILNF, None)
           else if s16 (int (length (volume_label s))) \<ge> len then (ERANGE, None)
           else (E_OK, Some (volume_label s))) }"

subsection \<open>Symbolic links\<close>

text \<open>The length word of a link: the target with its NUL, rounded up to even.\<close>

definition link_len :: "string \<Rightarrow> int" where
  "link_len to = (let len = int (length to) + 1 in if len mod 2 = 1 then len + 1 else len)"

definition link_entry :: "int \<Rightarrow> addr \<Rightarrow> DIRENTRY \<Rightarrow> DIRENTRY" where
  "link_entry len blk e = e\<lparr>de_faddr := blk, de_xattr := (de_xattr e)\<lparr>st_mode := S_IFLNK OR 0x1FF,
     st_ino := blk, st_size := len + 2, st_blocks := (len + 1 + DEFAULTFILE) div DEFAULTFILE,
     st_attr := FA_SYMLINK\<rparr>\<rparr>"

definition ramdisk_symlink :: "'m kern \<Rightarrow> nat \<Rightarrow> string \<Rightarrow> string \<Rightarrow> 'm ram \<Rightarrow> (int \<times> 'm ram) option" where
  "ramdisk_symlink K dd name to s = do {
     c \<leftarrow> check_dd (fds s dd) s;
     if c < 0 then Some (c, s)
     else do {
       found \<leftarrow> findfile K (fds s dd) name 0 FF_EXIST False s;
       if found \<noteq> None then Some (EACCDN, s)
       else do {
         (f, s) \<leftarrow> new_file K (fds s dd) name s;
         case f of
           None \<Rightarrow> Some (EACCDN, s)
         | Some p \<Rightarrow>
             (case Kmalloc K (link_len to + 2) s of (r, s) \<Rightarrow>
                if r = 0 then Some (ENSMEM, s)
                else do {
                  s \<leftarrow> touch_dir K (fds s dd) False s;
                  let blk = nat r;
                  let s = s\<lparr>heap := (heap s)(blk \<mapsto> LinkBlk (s16 (link_len to)) to)\<rparr>;
                  e \<leftarrow> get_de p s;
                  s \<leftarrow> put_de p (link_entry (link_len to) blk e) s;
                  Some (E_OK, s) }) } } }"

text \<open>\<open>size_t\<close> is an unsigned long, so the comparison with \<open>size\<close> is unsigned.\<close>

definition ramdisk_readlink ::
  "'m kern \<Rightarrow> nat \<Rightarrow> string \<Rightarrow> int \<Rightarrow> 'm ram \<Rightarrow> (int \<times> string option \<times> 'm ram) option" where
  "ramdisk_readlink K dd name sz s = do {
     c \<leftarrow> check_dd (fds s dd) s;
     if c < 0 then Some (c, None, s)
     else do {
       found \<leftarrow> findfile K (fds s dd) name 2 FF_SEARCH False s;
       case found of
         None \<Rightarrow> Some (EFILNF, None, s)
       | Some p \<Rightarrow> do {
           e \<leftarrow> get_de p s;
           if \<not> is_link (mode_of e) then Some (EACCDN, None, s)
           else do {
             (_, to) \<leftarrow> link_at (de_faddr e) s;
             if sz mod 2 ^ 32 < int (length to) + 1 then Some (ERANGE, None, s)
             else do {
               let (t, m) = now K (mem s);
               s \<leftarrow> put_de p (e\<lparr>de_xattr := (de_xattr e)\<lparr>st_atim := t\<rparr>\<rparr>) (s\<lparr>mem := m\<rparr>);
               Some (E_OK, Some to, s) } } } } }"

end
