(* ===== verification/Ram_Init.thy ===== *)
theory Ram_Init
  imports Ram_Names
begin

text \<open>
  Installing the RAM disk (\<open>extensio/ramdisk/ramutil.c\<close>): the cookie jar, the drive bits of
  the system variable \<open>_drvbits\<close>, the INF file with the settings, and \<open>main\<close>.  What
  GEMDOS delivers (files, environment, the kernel structure) is a parameter.
\<close>

subsection \<open>Drives\<close>

definition NUM_DRIVES :: nat where "NUM_DRIVES = 32"

abbreviation drive_U :: nat where "drive_U \<equiv> 20"

text \<open>The result \<open>-1\<close> of the search is \<open>None\<close>; the second component is the new \<open>_drvbits\<close>.\<close>

definition get_and_set_drive :: "32 word \<Rightarrow> nat option \<times> 32 word" where
  "get_and_set_drive drvbits =
     (case find (\<lambda>i. i \<noteq> drive_U \<and> \<not> bit drvbits i) [2..<NUM_DRIVES] of
        Some i \<Rightarrow> (Some i, drvbits OR push_bit i 1)
      | None \<Rightarrow> (None, drvbits))"

definition set_ramdisk_drive :: "nat \<Rightarrow> int \<Rightarrow> 32 word \<Rightarrow> bool \<times> 32 word" where
  "set_ramdisk_drive drive nflops drvbits =
     (if drvbits AND push_bit drive 1 \<noteq> 0 \<and> (drive \<noteq> 1 \<or> nflops > 1) then (False, drvbits)
      else (True, drvbits OR push_bit drive 1))"

subsection \<open>The cookie jar\<close>

text \<open>The jar is an array of pairs that a pair with the cookie 0 closes; \<open>None\<close> is no jar.\<close>

fun cookie_scan :: "32 word \<Rightarrow> (32 word \<times> 32 word) list \<Rightarrow> 32 word option option" where
  "cookie_scan c [] = None"
| "cookie_scan c ((k, v) # jar) =
     (if k = 0 then Some None else if k = c then Some (Some v) else cookie_scan c jar)"

definition get_cookie :: "32 word \<Rightarrow> (32 word \<times> 32 word) list option \<Rightarrow> 32 word option option" where
  "get_cookie c jar = (case jar of None \<Rightarrow> Some None | Some j \<Rightarrow> cookie_scan c j)"

subsection \<open>Reading a line\<close>

abbreviation LF :: char where "LF \<equiv> CHR 0x0A"
abbreviation CR :: char where "CR \<equiv> CHR 0x0D"
abbreviation TAB :: char where "TAB \<equiv> CHR 0x09"

text \<open>The GEMDOS calls on an open file with state \<open>'h\<close>.\<close>

record 'h gemdos =
  g_seek :: "int \<Rightarrow> int \<Rightarrow> 'h \<Rightarrow> int \<times> 'h"
  g_read :: "int \<Rightarrow> 'h \<Rightarrow> int \<times> string \<times> 'h"

text \<open>
  The inner loop of \<open>readline\<close> over the bytes just read, from index \<open>n\<close> on: the line and
  \<open>add\<close>, or \<open>None\<close> for the return in its middle.
\<close>

fun rl_scan :: "nat \<Rightarrow> string \<Rightarrow> (string \<times> int) option" where
  "rl_scan n [] = Some ([], 0)"
| "rl_scan n (c # cs) =
     (if c = LF then Some ([], 1)
      else if n = 255 then None
      else map_option (\<lambda>(l, a). ((if c = TAB then CHR '' '' else c) # l, a)) (rl_scan (Suc n) cs))"

definition strip_cr :: "string \<Rightarrow> string" where
  "strip_cr l = (if l \<noteq> [] \<and> last l = CR then butlast l else l)"

definition starts_with :: "char \<Rightarrow> string \<Rightarrow> bool" where
  "starts_with c l \<longleftrightarrow> l \<noteq> [] \<and> hd l = c"

text \<open>The result is the line (a C string), or \<open>None\<close> for the return code 0.\<close>

partial_function (option) readline :: "'h gemdos \<Rightarrow> 'h \<Rightarrow> (string option \<times> 'h) option" where
  "readline G h =
     (let (fpos, h) = g_seek G 0 1 h in
      if fpos < 0 then Some (None, h)
      else
        let (bytes_read, data, h) = g_read G 255 h in
        if bytes_read \<le> 0 then Some (None, h)
        else case rl_scan 0 data of
               None \<Rightarrow> Some (None, h)
             | Some (l, add) \<Rightarrow>
                 let (r, h) = g_seek G (int (length l) + fpos + add) 0 h in
                 if r < 0 then Some (None, h)
                 else
                   let line = takeWhile (\<lambda>c. c \<noteq> NUL) (strip_cr l) in
                   if starts_with CHR ''#'' line then readline G h else Some (Some line, h))"

subsection \<open>The INF file\<close>

record config =
  c_drive :: int
  c_mountname :: string
  c_ram_type :: int
  c_leave_free :: int
  c_eight_bit :: bool
  c_label :: string

definition default_config :: config where
  "default_config = \<lparr>c_drive = -1, c_mountname = [], c_ram_type = 3, c_leave_free = 512 * 1024,
     c_eight_bit = False, c_label = []\<rparr>"

definition c_isdigit :: "char \<Rightarrow> bool" where
  "c_isdigit c \<longleftrightarrow> 48 \<le> (of_char c :: nat) \<and> (of_char c :: nat) \<le> 57"

definition c_isspace :: "char \<Rightarrow> bool" where
  "c_isspace c \<longleftrightarrow> (of_char c :: nat) = 32 \<or> (9 \<le> (of_char c :: nat) \<and> (of_char c :: nat) \<le> 13)"

fun digits_val :: "int \<Rightarrow> string \<Rightarrow> int" where
  "digits_val acc [] = acc"
| "digits_val acc (c # cs) =
     (if c_isdigit c then digits_val (s32 (acc * 10 + int (of_char c) - 48)) cs else acc)"

definition c_atol :: "string \<Rightarrow> int" where
  "c_atol str =
     (let t = dropWhile c_isspace str in
      if starts_with CHR ''-'' t then s32 (- digits_val 0 (tl t))
      else if starts_with CHR ''+'' t then digits_val 0 (tl t)
      else digits_val 0 t)"

text \<open>
  What one line does to the settings; \<open>None\<close> is an invalid line, which is reported and
  ignored.  \<open>key\<close> is the text before the first \<open>=\<close>, \<open>arg\<close> the text behind it.
\<close>

definition inf_command :: "string \<Rightarrow> string \<Rightarrow> config \<Rightarrow> config option" where
  "inf_command key arg c =
     (if arg = [] then None
      else if stricmp_eq key ''drive'' then
        (if length arg > 1 then None
         else let drv = drive_from_letter (int (of_char (hd arg))) in
              if drv < 0 \<or> drv = 20 then None else Some (c\<lparr>c_drive := drv\<rparr>))
      else if stricmp_eq key ''mountname'' then Some (c\<lparr>c_mountname := arg\<rparr>)
      else if stricmp_eq key ''ramtype'' then
        (if stricmp_eq arg ''stonly'' then Some (c\<lparr>c_ram_type := 0\<rparr>)
         else if stricmp_eq arg ''altonly'' then Some (c\<lparr>c_ram_type := 1\<rparr>)
         else if stricmp_eq arg ''storalt'' then Some (c\<lparr>c_ram_type := 2\<rparr>)
         else if stricmp_eq arg ''altorst'' then Some (c\<lparr>c_ram_type := 3\<rparr>)
         else None)
      else if stricmp_eq key ''leavefree'' then Some (c\<lparr>c_leave_free := s32 (c_atol arg * 1024)\<rparr>)
      else if stricmp_eq key ''8bit'' then
        (if stricmp_eq arg ''true'' then Some (c\<lparr>c_eight_bit := True\<rparr>)
         else if stricmp_eq arg ''false'' then Some (c\<lparr>c_eight_bit := False\<rparr>)
         else None)
      else if stricmp_eq key ''label'' then Some (c\<lparr>c_label := take RAM_MAXFNAME arg\<rparr>)
      else None)"

text \<open>The settings and the lines reported as invalid so far.\<close>

definition inf_line :: "string \<Rightarrow> config \<times> string list \<Rightarrow> config \<times> string list" where
  "inf_line input st =
     (case st of (c, bad) \<Rightarrow>
        if input = [] then (c, bad)
        else if CHR ''='' \<notin> set input then (c, bad @ [input])
        else
          let key = takeWhile (\<lambda>x. x \<noteq> CHR ''='') input;
              arg = tl (dropWhile (\<lambda>x. x \<noteq> CHR ''='') input) in
          case inf_command key arg c of
            Some c' \<Rightarrow> (c', bad)
          | None \<Rightarrow> (c, bad @ [input]))"

partial_function (option) inf_loop ::
  "'h gemdos \<Rightarrow> 'h \<Rightarrow> config \<times> string list \<Rightarrow> (config \<times> string list) option" where
  "inf_loop G h st =
     (case readline G h of
        None \<Rightarrow> None
      | Some (None, h) \<Rightarrow> Some st
      | Some (Some input, h) \<Rightarrow> inf_loop G h (inf_line input st))"

text \<open>
  The names under which the file is tried, in order, for the value of the environment
  variable \<open>_PNAM\<close>; \<open>None\<close> when the name does not fit the 128 bytes of \<open>filename\<close>.
\<close>

definition inf_dir :: string where
  "inf_dir = [backslash] @ ''gemsys'' @ [backslash] @ ''magic'' @ [backslash] @ ''xtension'' @ [backslash]"

definition inf_stem :: "string \<Rightarrow> string" where
  "inf_stem pnam = (case strrchr pnam CHR ''.'' of None \<Rightarrow> pnam | Some k \<Rightarrow> take k pnam)"

definition inf_names :: "string option \<Rightarrow> string list option" where
  "inf_names pnam =
     (let (name, searched) =
        (case pnam of
           None \<Rightarrow> (inf_dir @ ''ramdisk.inf'', True)
         | Some p \<Rightarrow>
             if starts_with backslash p then (inf_stem p @ ''.inf'', False)
             else (inf_dir @ inf_stem p @ ''.inf'', True))
      in if 128 \<le> length name then None
         else if searched then
           let name2 = drop (length inf_dir - 1) name in Some [name, name2, tl name2]
         else Some [name])"

fun try_open :: "(string \<Rightarrow> 'h option) \<Rightarrow> string list \<Rightarrow> 'h option" where
  "try_open fopen [] = None"
| "try_open fopen (n # ns) = (case fopen n of Some h \<Rightarrow> Some h | None \<Rightarrow> try_open fopen ns)"

definition read_infofile ::
  "'h gemdos \<Rightarrow> string option \<Rightarrow> (string \<Rightarrow> 'h option) \<Rightarrow> (config \<times> string list) option" where
  "read_infofile G pnam fopen = do {
     names \<leftarrow> inf_names pnam;
     case try_open fopen names of
       None \<Rightarrow> Some (default_config, [])
     | Some h \<Rightarrow> inf_loop G h (default_config, []) }"

subsection \<open>Kernel functions\<close>

text \<open>
  The functions \<open>main\<close> puts behind \<open>p_Pdomain\<close>, \<open>_Mxalloc\<close> and \<open>_Mfree\<close> when the kernel
  offers its own; \<open>proc_info\<close>, \<open>mxalloc\<close> and \<open>mfree\<close> are those of the kernel structure.
\<close>

definition Pdomain_kernel :: "(int \<Rightarrow> addr \<Rightarrow> 'm \<Rightarrow> int) \<Rightarrow> addr \<Rightarrow> 'm \<Rightarrow> int" where
  "Pdomain_kernel proc_info pd m = proc_info 1 pd m"

definition Mxalloc_kernel :: "(int \<Rightarrow> int \<Rightarrow> 'm \<Rightarrow> int \<times> 'm) \<Rightarrow> int \<Rightarrow> int \<Rightarrow> 'm \<Rightarrow> int \<times> 'm" where
  "Mxalloc_kernel mxalloc amount mode m = mxalloc amount (mode AND NOT 0x4000) m"

definition Mfree_kernel :: "(addr \<Rightarrow> 'm \<Rightarrow> int \<times> 'm) \<Rightarrow> addr \<Rightarrow> 'm \<Rightarrow> int \<times> 'm" where
  "Mfree_kernel mfree block m = (case mfree block m of (r, m) \<Rightarrow> (s16 r, m))"

subsection \<open>Installation\<close>

text \<open>What the system tells \<open>main\<close>; \<open>sys_kernel\<close> is the \<open>int_msize\<close> of the kernel structure.\<close>

record 'h sys =
  sys_jar :: "(32 word \<times> 32 word) list option"
  sys_gemdos :: "'h gemdos"
  sys_pnam :: "string option"
  sys_fopen :: "string \<Rightarrow> 'h option"
  sys_drvbits :: "32 word"
  sys_nflops :: int
  sys_kernel :: "int option"
  sys_install_xfs :: int

definition MagX :: "32 word" where "MagX = 0x4D616758"

definition choose_drive :: "int \<Rightarrow> int \<Rightarrow> 32 word \<Rightarrow> nat option \<times> 32 word" where
  "choose_drive drive nflops drvbits =
     (if drive < 0 then get_and_set_drive drvbits
      else case set_ramdisk_drive (nat drive) nflops drvbits of
             (ok, b) \<Rightarrow> (if ok then Some (nat drive) else None, b))"

text \<open>The result is the settings with the drive, or \<open>None\<close> for the return code \<open>-1\<close>, and the
  drive bits \<open>main\<close> leaves behind.\<close>

definition ramdisk_main :: "'h sys \<Rightarrow> (config option \<times> 32 word) option" where
  "ramdisk_main y = do {
     ck \<leftarrow> get_cookie MagX (sys_jar y);
     if ck = None then Some (None, sys_drvbits y)
     else do {
       (c, _) \<leftarrow> read_infofile (sys_gemdos y) (sys_pnam y) (sys_fopen y);
       let (d, bits) = choose_drive (c_drive c) (sys_nflops y) (sys_drvbits y);
       Some (case d of
           None \<Rightarrow> (None, bits)
         | Some drv \<Rightarrow>
             (case sys_kernel y of
                None \<Rightarrow> (None, bits)
              | Some msize \<Rightarrow>
                  if msize < int RAM_MAXFNAME + 2 then (None, bits)
                  else if sys_install_xfs y \<le> 0 then (None, bits)
                  else (Some (c\<lparr>c_drive := int drv\<rparr>), bits))) } }"

end
