(* ===== verification/Byte_File.thy ===== *)
theory Byte_File
  imports RD_Prelude
begin

text \<open>
  The contract between an open file and the code that uses it: a byte sequence, a position
  in it, and the operations that read, overwrite and seek.  Operations return an
  \<open>option\<close>; \<open>room\<close> bounds the positions for which the contract is given.
\<close>

locale byte_file =
  fixes inv :: "'s \<Rightarrow> bool" and content :: "'s \<Rightarrow> 'b list" and pos :: "'s \<Rightarrow> nat"
    and rd :: "nat \<Rightarrow> 's \<Rightarrow> ('b list \<times> 's) option"
    and wr :: "'b list \<Rightarrow> 's \<Rightarrow> (nat \<times> 's) option"
    and sk :: "nat \<Rightarrow> 's \<Rightarrow> 's option"
    and room :: nat
  assumes pos_le: "inv s \<Longrightarrow> pos s \<le> length (content s)"
    and rd_spec: "inv s \<Longrightarrow> pos s + n < room \<Longrightarrow>
      \<exists>s'. rd n s = Some (take n (drop (pos s) (content s)), s') \<and> inv s' \<and> content s' = content s
         \<and> pos s' = min (length (content s)) (pos s + n)"
    and wr_spec: "inv s \<Longrightarrow> pos s + length xs < room \<Longrightarrow>
      \<exists>n s'. wr xs s = Some (n, s') \<and> n \<le> length xs \<and> inv s'
         \<and> content s' = overwrite (pos s) (take n xs) (content s) \<and> pos s' = pos s + n"
    and sk_spec: "inv s \<Longrightarrow> p \<le> length (content s) \<Longrightarrow> p < room \<Longrightarrow>
      \<exists>s'. sk p s = Some s' \<and> inv s' \<and> content s' = content s \<and> pos s' = p"
begin

lemma read_at_end:
  assumes "inv s" "pos s = length (content s)" "pos s + n < room"
  shows "\<exists>s'. rd n s = Some ([], s') \<and> inv s' \<and> content s' = content s \<and> pos s' = pos s"
  using rd_spec [OF assms(1,3)] assms(2) by simp

lemma read_all:
  assumes "inv s" "length (content s) < room"
  shows "\<exists>s1 s2. sk 0 s = Some s1 \<and> rd (length (content s)) s1 = Some (content s, s2)
           \<and> inv s2 \<and> content s2 = content s"
proof -
  obtain s1 where s1: "sk 0 s = Some s1" "inv s1" "content s1 = content s" "pos s1 = 0"
    using sk_spec [OF assms(1), of 0] assms(2) by auto
  with rd_spec [OF s1(2), of "length (content s)"] assms show ?thesis by auto
qed

lemma read_twice:
  assumes "inv s" "pos s + (m + n) < room"
  shows "\<exists>s1 s2 d1 d2. rd m s = Some (d1, s1) \<and> rd n s1 = Some (d2, s2)
           \<and> d1 @ d2 = take (m + n) (drop (pos s) (content s)) \<and> inv s2
           \<and> content s2 = content s \<and> pos s2 = min (length (content s)) (pos s + (m + n))"
proof -
  obtain s1 where s1: "rd m s = Some (take m (drop (pos s) (content s)), s1)" "inv s1"
    "content s1 = content s" "pos s1 = min (length (content s)) (pos s + m)"
    using rd_spec [OF assms(1), of m] assms(2) by auto
  moreover have "pos s1 + n < room" using assms(2) s1(4) by simp
  moreover from rd_spec [OF s1(2) this] obtain s2 where "rd n s1 = Some (take n (drop (pos s1) (content s)), s2)" "inv s2"
    "content s2 = content s" "pos s2 = min (length (content s)) (pos s1 + n)"
    using s1(3) by auto
  ultimately show ?thesis
    by (auto simp: take_add min_def add.commute [of "pos s" m])
qed

lemma append_at_end:
  assumes "inv s" "length (content s) + length xs < room"
  shows "\<exists>s1 n s2. sk (length (content s)) s = Some s1 \<and> wr xs s1 = Some (n, s2) \<and> inv s2
           \<and> content s2 = content s @ take n xs"
proof -
  obtain s1 where s1: "sk (length (content s)) s = Some s1" "inv s1" "content s1 = content s"
    "pos s1 = length (content s)"
    using sk_spec [OF assms(1), of "length (content s)"] assms(2) by auto
  with wr_spec [OF s1(2), of xs] assms show ?thesis by (auto simp: overwrite_def)
qed

lemma write_seek_read:
  assumes "inv s" "pos s + length xs < room"
  shows "\<exists>n s1 s2 s3. wr xs s = Some (n, s1) \<and> n \<le> length xs \<and> sk (pos s) s1 = Some s2
           \<and> rd n s2 = Some (take n xs, s3) \<and> inv s3 \<and> content s3 = content s1"
proof -
  obtain n s1 where s1: "wr xs s = Some (n, s1)" "n \<le> length xs" "inv s1"
    "content s1 = overwrite (pos s) (take n xs) (content s)"
    using wr_spec [OF assms] by blast
  have p: "pos s \<le> length (content s)" by (rule pos_le [OF assms(1)])
  then obtain s2 where s2: "sk (pos s) s1 = Some s2" "inv s2" "content s2 = content s1" "pos s2 = pos s"
    using sk_spec [OF s1(3), of "pos s"] assms(2) s1(4) by (auto simp: length_overwrite le_max_iff_disj)
  obtain s3 where s3: "rd n s2 = Some (take n (drop (pos s) (content s1)), s3)" "inv s3" "content s3 = content s1"
    using rd_spec [OF s2(2), of n] s2 s1(2) assms(2) by auto
  have "take n (drop (pos s) (content s1)) = take n xs"
    using p s1(2,4) by (simp add: overwrite_def)
  with s1 s2 s3 show ?thesis by auto
qed
end

end
