(* ===== verification/Ram_Data.thy ===== *)
theory Ram_Data
  imports Ram_File Byte_File
begin

text \<open>
  The data of files.  The chain of blocks of an open file is related to a plain byte
  sequence (\<open>file_content\<close>); \<open>ramdisk_read\<close>, \<open>ramdisk_write\<close> and \<open>ramdisk_seek\<close> refine the
  operations of \<open>byte_file\<close> on it.
\<close>

subsection \<open>Chains of file blocks\<close>

type_synonym heapmap = "addr \<Rightarrow> hobj option"

fun chain :: "heapmap \<Rightarrow> addr \<Rightarrow> addr list \<Rightarrow> bool" where
  "chain h a [] \<longleftrightarrow> a = 0"
| "chain h a (b # bs) \<longleftrightarrow> a = b \<and> a \<noteq> 0 \<and> (\<exists>fb. h a = Some (FileBlk fb) \<and> chain h (fb_next fb) bs)"

definition blk_at :: "heapmap \<Rightarrow> addr \<Rightarrow> byte list" where
  "blk_at h a = (case h a of Some (FileBlk fb) \<Rightarrow> map (fb_data fb) [0..<4096] | _ \<Rightarrow> [])"

definition chain_bytes :: "heapmap \<Rightarrow> addr list \<Rightarrow> byte list" where
  "chain_bytes h bs = concat (map (blk_at h) bs)"

lemma chain_0 [simp]: "chain h 0 bs \<longleftrightarrow> bs = []"
  by (cases bs) auto

lemma chain_det: "chain h a bs \<Longrightarrow> chain h a cs \<Longrightarrow> bs = cs"
proof (induction h a bs arbitrary: cs rule: chain.induct)
  case (1 h a) then show ?case by simp
next
  case (2 h a b bs) then show ?case by (cases cs) auto
qed

lemma chain_append:
  "chain h a (xs @ ys) \<Longrightarrow> \<exists>b. chain h b ys \<and> (ys \<noteq> [] \<longrightarrow> b = hd ys)"
proof (induction h a xs rule: chain.induct)
  case (1 h a) then show ?case by (cases ys) auto
next
  case (2 h a b bs) then show ?case by auto
qed

lemma chain_distinct: "chain h a bs \<Longrightarrow> distinct bs"
proof (induction h a bs rule: chain.induct)
  case (1 h a) then show ?case by simp
next
  case (2 h a b bs)
  then obtain fb where fb: "h b = Some (FileBlk fb)" "chain h (fb_next fb) bs" by auto
  have "b \<notin> set bs"
  proof
    assume "b \<in> set bs"
    then obtain xs ys where bs: "bs = xs @ b # ys" by (auto simp: in_set_conv_decomp)
    then have "chain h b (b # ys)" using chain_append fb(2) by fastforce
    moreover have "chain h b (b # bs)" using 2 by auto
    ultimately have "b # ys = b # bs" by (rule chain_det)
    with bs show False by (auto dest: arg_cong [of _ _ length])
  qed
  with 2 fb show ?case by auto
qed

lemma chain_drop: "chain h a bs \<Longrightarrow> k < length bs \<Longrightarrow> chain h (bs ! k) (drop k bs)"
proof (induction h a bs arbitrary: k rule: chain.induct)
  case (1 h a) then show ?case by simp
next
  case (2 h a b bs) then show ?case by (cases k) auto
qed

lemma chain_nonzero: "chain h a bs \<Longrightarrow> 0 \<notin> set bs"
  by (induction h a bs rule: chain.induct) auto

lemma chain_file: "chain h a bs \<Longrightarrow> b \<in> set bs \<Longrightarrow> \<exists>fb. h b = Some (FileBlk fb)"
  by (induction h a bs rule: chain.induct) auto

lemma chain_cong:
  "chain h a bs \<Longrightarrow> (\<And>b. b \<in> set bs \<Longrightarrow> h' b = h b) \<Longrightarrow> chain h' a bs"
  by (induction h a bs rule: chain.induct) fastforce+

lemma chain_bytes_cong:
  "(\<And>b. b \<in> set bs \<Longrightarrow> h' b = h b) \<Longrightarrow> chain_bytes h' bs = chain_bytes h bs"
  by (simp add: chain_bytes_def blk_at_def cong: map_cong)

lemma length_blk_at: "h b = Some (FileBlk fb) \<Longrightarrow> length (blk_at h b) = 4096"
  by (simp add: blk_at_def)

lemma length_chain_bytes: "chain h a bs \<Longrightarrow> length (chain_bytes h bs) = 4096 * length bs"
  by (induction h a bs rule: chain.induct) (auto simp: chain_bytes_def length_blk_at)

lemma chain_bytes_Cons: "chain_bytes h (b # bs) = blk_at h b @ chain_bytes h bs"
  by (simp add: chain_bytes_def)

lemma drop_chain_bytes:
  "chain h a bs \<Longrightarrow> drop (4096 * k) (chain_bytes h bs) = chain_bytes h (drop k bs)"
proof (induction h a bs arbitrary: k rule: chain.induct)
  case (1 h a) then show ?case by (simp add: chain_bytes_def)
next
  case (2 h a b bs)
  then show ?case
    by (cases k) (auto simp: chain_bytes_Cons length_blk_at)
qed

lemma file_at_heap: "file_at a s = Some fb \<longleftrightarrow> heap s a = Some (FileBlk fb)"
  by (auto simp: file_at_def split: option.splits hobj.splits)

lemma read_skip_chain:
  assumes "chain (heap s) a bs" "bs \<noteq> []" "fpos - pos \<le> 4096 * int (length bs)" "pos \<le> fpos"
  shows "\<exists>k < length bs. read_skip a pos fpos s = Some (bs ! k, pos + 4096 * int k)
           \<and> chain (heap s) (bs ! k) (drop k bs)
           \<and> pos + 4096 * int k \<le> fpos \<and> fpos - (pos + 4096 * int k) \<le> 4096"
  using assms
proof (induction bs arbitrary: a pos)
  case Nil then show ?case by simp
next
  case (Cons b bs)
  obtain fb where fb: "heap s b = Some (FileBlk fb)" "chain (heap s) (fb_next fb) bs" "a = b"
    using Cons.prems by auto
  show ?case
  proof (cases "pos + DEFAULTFILE < fpos")
    case False
    with Cons.prems fb show ?thesis
      by (intro exI [of _ 0]) (auto simp: read_skip.simps [of _ pos] DEFAULTFILE_def)
  next
    case True
    then have ne: "bs \<noteq> []" using Cons.prems by (auto simp: DEFAULTFILE_def)
    obtain k where k: "k < length bs"
      "read_skip (fb_next fb) (pos + 4096) fpos s = Some (bs ! k, pos + 4096 + 4096 * int k)"
      "chain (heap s) (bs ! k) (drop k bs)"
      "pos + 4096 + 4096 * int k \<le> fpos" "fpos - (pos + 4096 + 4096 * int k) \<le> 4096"
      using Cons.IH [OF fb(2) ne, of "pos + 4096"] Cons.prems True by (auto simp: DEFAULTFILE_def)
    have "read_skip a pos fpos s = read_skip (fb_next fb) (pos + 4096) fpos s"
      using True fb by (subst read_skip.simps) (simp add: file_at_heap [THEN iffD2] DEFAULTFILE_def)
    with k show ?thesis
      by (intro exI [of _ "Suc k"]) (auto simp: algebra_simps)
  qed
qed

lemma blk_bytes_take:
  assumes "h b = Some (FileBlk fb)" "0 \<le> pos" "0 \<le> n" "pos + n \<le> 4096"
  shows "blk_bytes fb pos n = take (nat n) (drop (nat pos) (blk_at h b))"
  using assms by (intro nth_equalityI) (auto simp: blk_bytes_def blk_at_def nat_add_distrib)

lemma read_loop_chain:
  assumes "chain (heap s) a bs" "0 \<le> pos" "pos \<le> 4096" "0 \<le> count"
    "pos + count \<le> 4096 * int (length bs)"
  shows "read_loop a pos (4096 - pos) count s
           = Some (take (nat count) (drop (nat pos) (chain_bytes (heap s) bs)))"
  using assms
proof (induction bs arbitrary: a pos count)
  case Nil
  then show ?case by (subst read_loop.simps) simp
next
  case (Cons b bs)
  obtain fb where fb: "heap s b = Some (FileBlk fb)" "chain (heap s) (fb_next fb) bs" "a = b"
    using Cons.prems by auto
  define n where "n = (if 4096 - pos > count then count else 4096 - pos)"
  have n: "0 \<le> n" "pos + n \<le> 4096" "n \<le> count" and cn: "count - n \<le> 4096 * int (length bs)"
    using Cons.prems by (auto simp: n_def)
  have len: "length (blk_at (heap s) b) = 4096" using fb by (simp add: length_blk_at)
  show ?case
  proof (cases "count \<le> 0")
    case True
    then show ?thesis by (subst read_loop.simps) simp
  next
    case False
    have "read_loop a pos (4096 - pos) count s = do {
        rest \<leftarrow> read_loop (fb_next fb) 0 4096 (count - n) s;
        Some (blk_bytes fb pos n @ rest) }"
      using False n fb Cons.prems
      by (subst read_loop.simps) (simp add: n_def [symmetric] Let_def DEFAULTFILE_def file_at_heap [THEN iffD2])
    also have "\<dots> = Some (blk_bytes fb pos n @ take (nat (count - n)) (chain_bytes (heap s) bs))"
      using Cons.IH [OF fb(2), of 0 "count - n"] cn n by simp
    also have "blk_bytes fb pos n = take (nat n) (drop (nat pos) (blk_at (heap s) b))"
      by (rule blk_bytes_take [where h = "heap s"]) (use fb n Cons.prems in auto)
    also have "\<dots> @ take (nat (count - n)) (chain_bytes (heap s) bs)
        = take (nat count) (drop (nat pos) (chain_bytes (heap s) (b # bs)))"
      using Cons.prems n len by (auto simp: chain_bytes_Cons n_def nat_diff_distrib)
    finally show ?thesis .
  qed
qed

subsection \<open>Writing into a chain\<close>

lemma chain_upd_data:
  assumes "chain h a bs" "h b = Some (FileBlk fb)" "fb_next fb' = fb_next fb"
  shows "chain (h(b \<mapsto> FileBlk fb')) a bs"
  using assms by (induction h a bs rule: chain.induct) fastforce+

lemma chain_snoc:
  assumes "chain h a bs" "bs \<noteq> []" "h (last bs) = Some (FileBlk fb)" "r \<noteq> 0" "h r = None"
    "fb_next fb' = r" "fb_next nb = 0"
  shows "chain (h(last bs \<mapsto> FileBlk fb', r \<mapsto> FileBlk nb)) a (bs @ [r])"
  using assms
proof (induction bs arbitrary: a)
  case Nil then show ?case by simp
next
  case (Cons b bs)
  show ?case
  proof (cases "bs = []")
    case True
    with Cons.prems show ?thesis by auto
  next
    case False
    from Cons.prems obtain gb where gb: "a = b" "h b = Some (FileBlk gb)" "b \<noteq> 0" "chain h (fb_next gb) bs"
      by auto
    have "b \<notin> set bs" using chain_distinct [OF Cons.prems(1)] by simp
    with False have "b \<noteq> last bs" by auto
    moreover have "b \<noteq> r" using gb Cons.prems by auto
    ultimately show ?thesis
      using Cons.IH [OF gb(4) False] Cons.prems gb False by simp
  qed
qed

lemma write_walk_rest:
  assumes "chain (heap s) j cs" "\<not> pos + DEFAULTFILE < fpos"
  shows "write_walk j tf pos add fpos s = Some (tf, pos, last (add # cs))"
  using assms
proof (induction cs arbitrary: j add)
  case Nil then show ?case by (subst write_walk.simps) simp
next
  case (Cons c cs)
  then obtain fb where fb: "j = c" "c \<noteq> 0" "heap s c = Some (FileBlk fb)" "chain (heap s) (fb_next fb) cs"
    by auto
  have "write_walk j tf pos add fpos s = write_walk (fb_next fb) tf pos c fpos s"
    using fb Cons.prems by (subst write_walk.simps) (simp add: file_at_heap [THEN iffD2])
  also have "\<dots> = Some (tf, pos, last (c # cs))" by (rule Cons.IH) (use fb Cons.prems in auto)
  finally show ?case by simp
qed

lemma write_walk_chain:
  assumes "chain (heap s) a bs" "bs \<noteq> []" "fpos - pos \<le> 4096 * int (length bs)" "pos \<le> fpos"
  shows "\<exists>k < length bs. write_walk a a pos add fpos s = Some (bs ! k, pos + 4096 * int k, last bs)
           \<and> chain (heap s) (bs ! k) (drop k bs)
           \<and> pos + 4096 * int k \<le> fpos \<and> fpos - (pos + 4096 * int k) \<le> 4096"
  using assms
proof (induction bs arbitrary: a pos add)
  case Nil then show ?case by simp
next
  case (Cons b bs)
  show ?case
  proof (cases "pos + DEFAULTFILE < fpos")
    case False
    with Cons.prems write_walk_rest [OF Cons.prems(1) False] show ?thesis
      by (intro exI [of _ 0]) (auto simp: DEFAULTFILE_def)
  next
    case True
    obtain fb where fb: "a = b" "b \<noteq> 0" "heap s b = Some (FileBlk fb)" "chain (heap s) (fb_next fb) bs"
      using Cons.prems by auto
    have ne: "bs \<noteq> []" using True Cons.prems by (auto simp: DEFAULTFILE_def)
    obtain k where k: "k < length bs"
      "write_walk (fb_next fb) (fb_next fb) (pos + 4096) b fpos s = Some (bs ! k, pos + 4096 + 4096 * int k, last bs)"
      "chain (heap s) (bs ! k) (drop k bs)"
      "pos + 4096 + 4096 * int k \<le> fpos" "fpos - (pos + 4096 + 4096 * int k) \<le> 4096"
      using Cons.IH [OF fb(4) ne, of "pos + 4096" b] Cons.prems True by (auto simp: DEFAULTFILE_def)
    have "write_walk a a pos add fpos s = write_walk (fb_next fb) (fb_next fb) (pos + 4096) b fpos s"
      using True fb by (subst write_walk.simps) (simp add: file_at_heap [THEN iffD2] DEFAULTFILE_def)
    with k ne show ?thesis
      by (intro exI [of _ "Suc k"]) (auto simp: algebra_simps)
  qed
qed

lemma patch_blk:
  assumes "h b = Some (FileBlk fb)" "pos + length xs \<le> 4096"
  shows "map (patch (fb_data fb) pos xs) [0..<4096] = overwrite pos xs (blk_at h b)"
  using assms by (intro nth_equalityI) (auto simp: overwrite_def blk_at_def patch_def nth_append)

lemma write_loop_chain:
  assumes "chain (heap s) a bs" "0 \<le> pos" "pos \<le> 4096" "0 \<le> count"
    "pos + count \<le> 4096 * int (length bs)" "count \<le> int (length buf)"
  shows "\<exists>h. write_loop a pos (4096 - pos) count buf s = Some (s\<lparr>heap := h\<rparr>)
           \<and> chain h a bs \<and> (\<forall>x. x \<notin> set bs \<longrightarrow> h x = heap s x)
           \<and> chain_bytes h bs = overwrite (nat pos) (take (nat count) buf) (chain_bytes (heap s) bs)"
  using assms
proof (induction bs arbitrary: a pos count buf s)
  case Nil
  then show ?case by (subst write_loop.simps) (auto intro!: exI [of _ "heap s"])
next
  case (Cons b bs)
  obtain fb where fb: "heap s b = Some (FileBlk fb)" "chain (heap s) (fb_next fb) bs" "a = b" "b \<noteq> 0"
    using Cons.prems by auto
  have nin: "b \<notin> set bs" using chain_distinct [OF Cons.prems(1)] by simp
  have len: "length (blk_at (heap s) b) = 4096" using fb by (simp add: length_blk_at)
  show ?case
  proof (cases "count \<le> 0")
    case True
    with Cons.prems show ?thesis
      by (subst write_loop.simps) (auto intro!: exI [of _ "heap s"])
  next
    case False
    define n where "n = (if 4096 - pos > count then count else 4096 - pos)"
    have n: "0 \<le> n" "pos + n \<le> 4096" "n \<le> count" and cn: "count - n \<le> 4096 * int (length bs)"
      using Cons.prems by (auto simp: n_def)
    let ?xs = "take (nat n) buf" and ?ys = "drop (nat n) buf"
    let ?fb = "fb\<lparr>fb_data := patch (fb_data fb) (nat pos) ?xs\<rparr>"
    let ?h1 = "(heap s)(b \<mapsto> FileBlk ?fb)" 
    let ?s1 = "s\<lparr>heap := ?h1\<rparr>"
    have lxs: "length ?xs = nat n" using n Cons.prems by simp
    have blk: "blk_at ?h1 b = overwrite (nat pos) ?xs (blk_at (heap s) b)"
      using patch_blk [where h = "heap s" and b = b, OF fb(1), of "nat pos" ?xs] n Cons.prems lxs by (simp add: blk_at_def)
    have c1: "chain (heap ?s1) (fb_next fb) bs" using fb by (simp add: chain_upd_data)
    have run: "write_loop a pos (4096 - pos) count buf s
        = write_loop (fb_next fb) 0 (4096 - 0) (count - n) ?ys ?s1"
      using False n fb Cons.prems
      by (subst write_loop.simps)
         (simp add: n_def [symmetric] Let_def DEFAULTFILE_def file_at_heap [THEN iffD2] put_file_def)
    obtain h where h: "write_loop (fb_next fb) 0 (4096 - 0) (count - n) ?ys ?s1 = Some (?s1\<lparr>heap := h\<rparr>)"
      "chain h (fb_next fb) bs" "\<forall>x. x \<notin> set bs \<longrightarrow> h x = heap ?s1 x"
      "chain_bytes h bs = overwrite 0 (take (nat (count - n)) ?ys) (chain_bytes (heap ?s1) bs)"
    proof -
      have len_ys: "count - n \<le> int (length ?ys)" using n Cons.prems by simp
      show thesis using that Cons.IH [OF c1, of 0 "count - n" ?ys] len_ys cn n by fastforce
    qed
    have hb: "h b = Some (FileBlk ?fb)" using h(3) nin by simp
    have same: "chain_bytes (heap ?s1) bs = chain_bytes (heap s) bs"
      by (rule chain_bytes_cong) (use nin in auto)
    have "chain_bytes h (b # bs) = overwrite (nat pos) ?xs (blk_at (heap s) b) @
        overwrite 0 (take (nat (count - n)) ?ys) (chain_bytes (heap s) bs)"
      using h(4) same hb blk by (simp add: chain_bytes_Cons blk_at_def)
    also have "\<dots> = overwrite (nat pos) (take (nat count) buf) (chain_bytes (heap s) (b # bs))"
    proof (cases "n = count")
      case True
      with overwrite_left [of "nat pos" ?xs] n Cons.prems len lxs show ?thesis
        by (simp add: chain_bytes_Cons)
    next
      case ne: False
      then have "n = 4096 - pos" by (auto simp: n_def split: if_splits)
      then have "nat pos + length ?xs = length (blk_at (heap s) b)" using n Cons.prems len lxs by auto
      moreover have "?xs @ take (nat (count - n)) ?ys = take (nat count) buf"
        using n by (simp add: take_add [symmetric] nat_add_distrib [symmetric])
      ultimately show ?thesis by (simp add: overwrite_two chain_bytes_Cons)
    qed
    finally have "chain_bytes h (b # bs) = overwrite (nat pos) (take (nat count) buf) (chain_bytes (heap s) (b # bs))" .
    moreover have "chain h a (b # bs)" using fb h(2) hb by simp
    moreover have "\<forall>x. x \<notin> set (b # bs) \<longrightarrow> h x = heap s x" using h(3) by simp
    ultimately show ?thesis using run h(1) by (intro exI [of _ h]) auto
  qed
qed

subsection \<open>Growing a chain\<close>

lemma alloc_post_mem_inv:
  assumes "alloc_post live s r s'" "mem_inv live s"
  shows "mem_inv live s'"
using assms(1)
proof (cases rule: alloc_post_cases)
  case (none m)
  with assms(2) show ?thesis by simp
next
  case (fresh m)
  with assms(2) have "dom (heap s) \<subseteq> live m \<union> {root_blk, root_de_blk}" "\<forall>a \<in> live m. 3 < a"
    by (auto simp: mem_inv_def)
  with fresh assms(2) show ?thesis by (simp add: mem_inv_def)
qed

lemma Kmalloc_block:
  assumes "kern_ok K live" "mem_inv live s" "Kmalloc K sizeof_FILEBLOCK s = (r, s')"
  shows "alloc_post live s r s'"
  by (rule Kmalloc_post [OF assms(1,2) _ _ assms(3)]) (simp_all add: sizeof_FILEBLOCK_def DEFAULTFILE_def)

text \<open>A step that touches nothing but the memory.\<close>

definition mem_step :: "'m ram \<Rightarrow> 'm ram \<Rightarrow> bool" where
  "mem_step s s' \<longleftrightarrow> s' = s\<lparr>mem := mem s', heap := heap s'\<rparr>"

lemma mem_step_refl [simp]: "mem_step s s"
  by (simp add: mem_step_def)

lemma mem_step_trans: "mem_step s s1 \<Longrightarrow> mem_step s1 s2 \<Longrightarrow> mem_step s s2"
  unfolding mem_step_def by (cases s; cases s1; cases s2) simp

lemma mem_step_upd [simp]:
  "mem_step s (s\<lparr>mem := m\<rparr>)" "mem_step s (s\<lparr>heap := h\<rparr>)" "mem_step s (s\<lparr>mem := m, heap := h\<rparr>)"
  by (simp_all add: mem_step_def)

lemma mem_step_fields:
  assumes "mem_step s s'"
  shows "fds s' = fds s" "dhds s' = dhds s" "ramdisk_dmd s' = ramdisk_dmd s"
    "ramdisk_drive s' = ramdisk_drive s" "leave_free s' = leave_free s" "eight_bit s' = eight_bit s"
  using assms unfolding mem_step_def by (cases s; cases s'; simp)+

text \<open>What the extension of a chain does to the rest of the state.\<close>

definition extended :: "('m \<Rightarrow> addr set) \<Rightarrow> addr \<Rightarrow> addr list \<Rightarrow> addr list \<Rightarrow> 'm ram \<Rightarrow> 'm ram \<Rightarrow> bool" where
  "extended live a bs ns s s' \<longleftrightarrow>
     mem_step s s' \<and> mem_inv live s'
     \<and> chain (heap s') a (bs @ ns) \<and> (\<forall>b \<in> set bs. blk_at (heap s') b = blk_at (heap s) b)
     \<and> (\<forall>b \<in> set ns. heap s b = None) \<and> (\<forall>x. x \<notin> set (bs @ ns) \<longrightarrow> heap s' x = heap s x)"

lemma extended_refl: "mem_inv live s \<Longrightarrow> chain (heap s) a bs \<Longrightarrow> extended live a bs [] s s"
  by (simp add: extended_def)

lemma extended_trans:
  assumes "extended live a bs ns s s1" "extended live a (bs @ ns) ms s1 s2"
  shows "extended live a bs (ns @ ms) s s2"
proof -
  have "heap s b = None" if "b \<in> set ms" for b
  proof -
    have "heap s1 b = None" using assms(2) that by (simp add: extended_def)
    moreover have "b \<notin> set (bs @ ns)"
    proof
      assume "b \<in> set (bs @ ns)"
      then obtain fb where "heap s1 b = Some (FileBlk fb)"
        using assms(1) chain_file unfolding extended_def by blast
      with \<open>heap s1 b = None\<close> show False by simp
    qed
    ultimately show ?thesis using assms(1) by (simp add: extended_def)
  qed
  with assms show ?thesis
    unfolding extended_def by (auto simp: ball_Un intro: mem_step_trans)
qed

lemma extend_one:
  assumes ok: "kern_ok K live" and inv: "mem_inv live s" and ch: "chain (heap s) a bs" "bs \<noteq> []"
    and al: "Kmalloc K sizeof_FILEBLOCK s = (r, s1)" "r \<noteq> 0"
    and fb: "file_at (last bs) s1 = Some fb" and nb: "fb_next nb = 0"
  shows "extended live a bs [nat r] s
           (s1\<lparr>heap := (heap s1)(last bs \<mapsto> FileBlk (fb\<lparr>fb_next := nat r\<rparr>), nat r \<mapsto> FileBlk nb)\<rparr>)"
proof -
  obtain m where m: "s1 = s\<lparr>mem := m\<rparr>" "3 < r" "nat r \<notin> live (mem s)" "live m = insert (nat r) (live (mem s))"
    using Kmalloc_block [OF ok inv al(1)] al(2) by (auto simp: alloc_post_def)
  have fresh: "heap s (nat r) = None" by (rule mem_inv_fresh [OF inv m(3,2)])
  have hl: "heap s (last bs) = Some (FileBlk fb)" using fb m(1) by (simp add: file_at_heap)
  have nin: "nat r \<notin> set bs" using fresh chain_file [OF ch(1)] by fastforce
  have "chain ((heap s)(last bs \<mapsto> FileBlk (fb\<lparr>fb_next := nat r\<rparr>), nat r \<mapsto> FileBlk nb)) a (bs @ [nat r])"
    by (rule chain_snoc [OF ch hl]) (use m fresh nb in auto)
  moreover have "last bs \<in> dom (heap s)" using hl by auto
  ultimately show ?thesis
    using inv m fresh nin ch(2) hl unfolding extended_def
    by (auto simp: mem_inv_def blk_at_def)
qed

lemma write_extend_chain:
  assumes ok: "kern_ok K live" and inv: "mem_inv live s" and ch: "chain (heap s) a bs" "bs \<noteq> []"
  shows "\<exists>ns s'. write_extend K n (last bs) blocks s = Some (blocks + int (length ns), s')
           \<and> length ns \<le> n \<and> extended live a bs ns s s'"
  using inv ch
proof (induction n arbitrary: bs blocks s)
  case 0
  then show ?case by (auto intro!: exI [of _ "[]"] extended_refl)
next
  case (Suc n)
  obtain r s1 where al: "Kmalloc K sizeof_FILEBLOCK s = (r, s1)" by fastforce
  have post: "alloc_post live s r s1" by (rule Kmalloc_block [OF ok Suc.prems(1) al])
  then have heap1: "heap s1 = heap s" by (auto simp: alloc_post_def)
  show ?case
  proof (cases "r = 0")
    case True
    have "extended live a bs [] s s1"
      using Suc.prems alloc_post_mem_inv [OF post] post by (auto simp: extended_def alloc_post_def)
    with True al show ?thesis by (auto intro!: exI [of _ "[]"])
  next
    case False
    obtain fb where fb: "file_at (last bs) s1 = Some fb"
      using chain_file [OF Suc.prems(2), of "last bs"] Suc.prems(3) heap1 by (auto simp: file_at_heap)
    define nb where "nb = \<lparr>fb_data = k_junk K (mem s1) (nat r), fb_next = 0\<rparr>"
    let ?s2 = "s1\<lparr>heap := (heap s1)(last bs \<mapsto> FileBlk (fb\<lparr>fb_next := nat r\<rparr>), nat r \<mapsto> FileBlk nb)\<rparr>"
    have x1: "extended live a bs [nat r] s ?s2"
      by (rule extend_one [OF ok Suc.prems al False fb]) (simp add: nb_def)
    then have "mem_inv live ?s2" "chain (heap ?s2) a (bs @ [nat r])" by (simp_all add: extended_def)
    from Suc.IH [OF this, of "blocks + 1"] obtain ns s' where ns:
      "write_extend K n (nat r) (blocks + 1) ?s2 = Some (blocks + 1 + int (length ns), s')"
      "length ns \<le> n" "extended live a (bs @ [nat r]) ns ?s2 s'"
      by auto
    have "write_extend K (Suc n) (last bs) blocks s = Some (blocks + 1 + int (length ns), s')"
      using al False fb ns(1) by (simp add: put_file_def nb_def)
    with ns(2) extended_trans [OF x1 ns(3)] show ?thesis
      by (auto intro!: exI [of _ "nat r # ns"])
  qed
qed

subsection \<open>An open file as a byte sequence\<close>

partial_function (option) chain_of :: "heapmap \<Rightarrow> addr \<Rightarrow> addr list option" where
  "chain_of h a =
     (if a = 0 then Some []
      else case h a of
             Some (FileBlk fb) \<Rightarrow> do { bs \<leftarrow> chain_of h (fb_next fb); Some (a # bs) }
           | _ \<Rightarrow> None)"

lemma chain_of_iff: "chain_of h a = Some bs \<longleftrightarrow> chain h a bs"
proof
  show "chain h a bs" if "chain_of h a = Some bs"
    by (rule chain_of.raw_induct [OF _ that])
       (auto simp: bind_eq_Some_conv split: if_splits option.splits hobj.splits)
next
  show "chain_of h a = Some bs" if "chain h a bs"
    using that
    by (induction h a bs rule: chain.induct) (subst chain_of.simps; auto)+
qed

definition file_content :: "nat \<Rightarrow> 'm ram \<Rightarrow> byte list" where
  "file_content f s =
     (case fd_entry (fds s f) s of
        None \<Rightarrow> []
      | Some e \<Rightarrow>
          (case chain_of (heap s) (de_faddr e) of
             None \<Rightarrow> []
           | Some bs \<Rightarrow> take (nat (st_size (de_xattr e))) (chain_bytes (heap s) bs)))"

definition file_pos :: "nat \<Rightarrow> 'm ram \<Rightarrow> nat" where
  "file_pos f s = nat (fd_fpos (fds s f))"

text \<open>The descriptor is one of an open file whose entry describes its chain of blocks.\<close>

definition fd_ok :: "nat \<Rightarrow> 'm ram \<Rightarrow> bool" where
  "fd_ok f s \<longleftrightarrow>
     fd_dmd (fds s f) = ramdisk_dmd s \<and>
     (case fd_entry (fds s f) s of
        None \<Rightarrow> False
      | Some e \<Rightarrow>
          is_file (mode_of e) \<and>
          (case chain_of (heap s) (de_faddr e) of
             None \<Rightarrow> False
           | Some bs \<Rightarrow>
               bs \<noteq> [] \<and> st_blocks (de_xattr e) = int (length bs) \<and> 4096 * int (length bs) < 2 ^ 31 \<and>
               0 \<le> fd_fpos (fds s f) \<and> fd_fpos (fds s f) \<le> st_size (de_xattr e) \<and>
               st_size (de_xattr e) \<le> 4096 * int (length bs)))"

definition fd_view :: "nat \<Rightarrow> 'm ram \<Rightarrow> de_ptr \<Rightarrow> DIRENTRY \<Rightarrow> addr list \<Rightarrow> bool" where
  "fd_view f s p e bs \<longleftrightarrow>
     fd_dmd (fds s f) = ramdisk_dmd s \<and> fd_file (fds s f) = Some p \<and> get_de p s = Some e \<and>
     is_file (mode_of e) \<and> chain (heap s) (de_faddr e) bs \<and> bs \<noteq> [] \<and>
     st_blocks (de_xattr e) = int (length bs) \<and> 4096 * int (length bs) < 2 ^ 31 \<and>
     0 \<le> fd_fpos (fds s f) \<and> fd_fpos (fds s f) \<le> st_size (de_xattr e) \<and>
     st_size (de_xattr e) \<le> 4096 * int (length bs)"

lemma fd_ok_view: "fd_ok f s \<longleftrightarrow> (\<exists>p e bs. fd_view f s p e bs)"
  by (auto simp: fd_ok_def fd_view_def fd_entry_def bind_eq_Some_conv simp flip: chain_of_iff
           split: option.splits)

lemma fd_okE:
  assumes "fd_ok f s"
  obtains p e bs where "fd_view f s p e bs"
  using assms unfolding fd_ok_view by blast

lemma fd_okI: "fd_view f s p e bs \<Longrightarrow> fd_ok f s"
  unfolding fd_ok_view by blast

lemma fd_view_content:
  "fd_view f s p e bs \<Longrightarrow> file_content f s = take (nat (st_size (de_xattr e))) (chain_bytes (heap s) bs)"
  by (simp add: fd_view_def file_content_def fd_entry_def flip: chain_of_iff)

lemma fd_view_length: "fd_view f s p e bs \<Longrightarrow> int (length (file_content f s)) = st_size (de_xattr e)"
  by (auto simp: fd_view_content) (auto simp: fd_view_def length_chain_bytes)

lemma fd_view_check: "fd_view f s p e bs \<Longrightarrow> check_fd (fds s f) s = Some E_OK"
  by (simp add: fd_view_def check_fd_def fd_entry_def)

lemma fd_viewD:
  assumes "fd_view f s p e bs"
  shows "fd_dmd (fds s f) = ramdisk_dmd s" "fd_file (fds s f) = Some p" "get_de p s = Some e"
    "chain (heap s) (de_faddr e) bs" "bs \<noteq> []" "4096 * int (length bs) < 2 ^ 31"
  using assms by (simp_all add: fd_view_def)

text \<open>Entries and blocks live in different objects.\<close>

lemma put_de_Some:
  assumes "get_de p s = Some e0"
  obtains es where "put_de p e s = Some (s\<lparr>heap := (heap s)(fst p \<mapsto> DirBlk (es[snd p := e]))\<rparr>)"
    "heap s (fst p) = Some (DirBlk es)" "snd p < length es" "e0 = es ! snd p"
  using assms that
  by (auto simp: get_de_def put_de_def dir_at_def bind_eq_Some_conv split: if_splits option.splits hobj.splits)

lemma chain_dir_upd:
  assumes "chain h a bs" "h d = Some (DirBlk es)"
  shows "chain (h(d \<mapsto> DirBlk es')) a bs" "chain_bytes (h(d \<mapsto> DirBlk es')) bs = chain_bytes h bs"
proof -
  have "d \<notin> set bs" using assms chain_file by fastforce
  then have eq: "b \<in> set bs \<Longrightarrow> (h(d \<mapsto> DirBlk es')) b = h b" for b by auto
  show "chain (h(d \<mapsto> DirBlk es')) a bs" by (rule chain_cong [OF assms(1) eq])
  show "chain_bytes (h(d \<mapsto> DirBlk es')) bs = chain_bytes h bs" by (rule chain_bytes_cong [OF eq])
qed

text \<open>Storing a new entry and position for an open file.\<close>

lemma fd_view_update:
  assumes v: "fd_dmd (fds s f) = ramdisk_dmd s" "fd_file (fds s f) = Some p" "get_de p s = Some e"
      "chain (heap s) (de_faddr e) bs" "bs \<noteq> []" "4096 * int (length bs) < 2 ^ 31"
    and e': "is_file (mode_of e')" "de_faddr e' = de_faddr e"
      "st_blocks (de_xattr e') = int (length bs)"
    and pos: "0 \<le> pos" "pos \<le> st_size (de_xattr e')" "st_size (de_xattr e') \<le> 4096 * int (length bs)"
  obtains s' where "put_de p e' (set_fd f ((fds s f)\<lparr>fd_fpos := pos\<rparr>) (s\<lparr>mem := m\<rparr>)) = Some s'"
    "fd_view f s' p e' bs" "chain_bytes (heap s') bs = chain_bytes (heap s) bs"
    "fds s' = (fds s)(f := (fds s f)\<lparr>fd_fpos := pos\<rparr>)" "mem s' = m" "dom (heap s') = dom (heap s)"
    "leave_free s' = leave_free s"
proof -
  let ?s = "set_fd f ((fds s f)\<lparr>fd_fpos := pos\<rparr>) (s\<lparr>mem := m\<rparr>)"
  have "get_de p ?s = Some e" using v by (simp add: set_fd_def get_de_def dir_at_def)
  then obtain es where es: "put_de p e' ?s = Some (?s\<lparr>heap := (heap ?s)(fst p \<mapsto> DirBlk (es[snd p := e']))\<rparr>)"
    "heap ?s (fst p) = Some (DirBlk es)" "snd p < length es" "e = es ! snd p"
    by (rule put_de_Some)
  let ?s' = "?s\<lparr>heap := (heap ?s)(fst p \<mapsto> DirBlk (es[snd p := e']))\<rparr>"
  have h: "heap s (fst p) = Some (DirBlk es)" using es(2) by (simp add: set_fd_def)
  note c = chain_dir_upd [OF v(4) h, of "es[snd p := e']"]
  have "get_de p ?s' = Some e'" using es by (simp add: get_de_def dir_at_def)
  then have "fd_view f ?s' p e' bs"
    using v e' pos c by (simp add: fd_view_def set_fd_def)
  with es(1) c h that [of ?s'] show thesis by (auto simp: set_fd_def)
qed

subsection \<open>Reading\<close>

definition readable :: "nat \<Rightarrow> 'm ram \<Rightarrow> bool" where
  "readable f s \<longleftrightarrow> fd_mode (fds s f) AND (OM_RPERM OR OM_EXEC) \<noteq> 0"

definition writable :: "nat \<Rightarrow> 'm ram \<Rightarrow> bool" where
  "writable f s \<longleftrightarrow> fd_mode (fds s f) AND OM_WPERM \<noteq> 0"

text \<open>The descriptors after an operation on \<open>f\<close> that ends at position \<open>pos\<close>.\<close>

abbreviation moved :: "nat \<Rightarrow> int \<Rightarrow> 'm ram \<Rightarrow> nat \<Rightarrow> RAMDISK_FD" where
  "moved f pos s \<equiv> (fds s)(f := (fds s f)\<lparr>fd_fpos := pos\<rparr>)"

lemma drop_take_chain:
  assumes "chain h a bs" "k \<le> length bs"
  shows "drop p (chain_bytes h (drop k bs)) = drop (4096 * k + p) (chain_bytes h bs)"
  using drop_chain_bytes [OF assms(1), of k] by (metis add.commute drop_drop)

lemma read_chain:
  assumes ch: "chain (heap s) a bs" "bs \<noteq> []" and p: "0 \<le> fpos" "0 \<le> count"
    "fpos + count \<le> 4096 * int (length bs)"
  obtains blk pos where "read_skip a 0 fpos s = Some (blk, pos)"
    "read_loop blk (fpos - pos) (DEFAULTFILE - (fpos - pos)) count s
       = Some (take (nat count) (drop (nat fpos) (chain_bytes (heap s) bs)))"
proof -
  obtain k where k: "k < length bs" "read_skip a 0 fpos s = Some (bs ! k, 4096 * int k)"
    "chain (heap s) (bs ! k) (drop k bs)" "4096 * int k \<le> fpos" "fpos - 4096 * int k \<le> 4096"
    using read_skip_chain [OF ch, of fpos 0] p by auto
  have "read_loop (bs ! k) (fpos - 4096 * int k) (4096 - (fpos - 4096 * int k)) count s
      = Some (take (nat count) (drop (nat (fpos - 4096 * int k)) (chain_bytes (heap s) (drop k bs))))"
    by (rule read_loop_chain [OF k(3)]) (use k p in auto)
  moreover have "4096 * k + nat (fpos - 4096 * int k) = nat fpos" using k(4) by linarith
  ultimately show thesis
    using that [OF k(2)] drop_take_chain [OF ch(1), of k "nat (fpos - 4096 * int k)"] k(1)
    by (simp add: DEFAULTFILE_def)
qed

lemma clip_slice:
  assumes "0 \<le> p" "p \<le> sz" "sz \<le> int (length c)" "0 \<le> count"
  defines "n \<equiv> if p + count > sz then sz - p else count"
  shows "take (nat n) (drop (nat p) c) = take (nat count) (drop (nat p) (take (nat sz) c))"
    "int (length (take (nat count) (drop (nat p) (take (nat sz) c)))) = n"
proof -
  obtain p' sz' c' where i: "p = int p'" "sz = int sz'" "count = int c'"
    using assms(1,2,4) by (metis nonneg_int_cases order_trans)
  show "take (nat n) (drop (nat p) c) = take (nat count) (drop (nat p) (take (nat sz) c))"
    using assms(2) unfolding n_def i by (auto simp: drop_take min_def nat_diff_distrib')
  show "int (length (take (nat count) (drop (nat p) (take (nat sz) c)))) = n"
    using assms(2,3) unfolding n_def i by (auto simp: min_def)
qed

lemma read_view:
  assumes v: "fd_view f s p e bs" and md: "readable f s"
    and cnt: "0 \<le> count" "fd_fpos (fds s f) + count < 2 ^ 31"
  defines "d \<equiv> take (nat count) (drop (file_pos f s) (file_content f s))"
  obtains s' e' where "ramdisk_read K f count s = Some (int (length d), d, s')"
    "fd_view f s' p e' bs" "file_content f s' = file_content f s"
    "fds s' = moved f (fd_fpos (fds s f) + int (length d)) s" "mem s' = snd (now K (mem s))"
    "dom (heap s') = dom (heap s)" "leave_free s' = leave_free s"
proof -
  let ?x = "fds s f" and ?sz = "st_size (de_xattr e)"
  define n where "n = (if fd_fpos ?x + count > ?sz then ?sz - fd_fpos ?x else count)"
  have b: "0 \<le> fd_fpos ?x" "fd_fpos ?x \<le> ?sz" "?sz \<le> 4096 * int (length bs)" "?sz < 2 ^ 31"
    using v by (auto simp: fd_view_def)
  have n: "0 \<le> n" "fd_fpos ?x + n \<le> ?sz" using b cnt by (auto simp: n_def)
  have ch: "chain (heap s) (de_faddr e) bs" "bs \<noteq> []" using v by (auto simp: fd_view_def)
  have "fd_fpos ?x + n \<le> 4096 * int (length bs)" using n b by linarith
  from read_chain [OF ch b(1) n(1) this] obtain blk pos where r:
    "read_skip (de_faddr e) 0 (fd_fpos ?x) s = Some (blk, pos)"
    "read_loop blk (fd_fpos ?x - pos) (DEFAULTFILE - (fd_fpos ?x - pos)) n s
       = Some (take (nat n) (drop (nat (fd_fpos ?x)) (chain_bytes (heap s) bs)))" .
  have len: "length (chain_bytes (heap s) bs) = 4096 * length bs" by (rule length_chain_bytes [OF ch(1)])
  have d: "take (nat n) (drop (nat (fd_fpos ?x)) (chain_bytes (heap s) bs)) = d" and ld: "int (length d) = n"
    unfolding d_def fd_view_content [OF v] file_pos_def n_def
    by (rule clip_slice; use b cnt len in simp)+
  obtain t m where tm: "now K (mem s) = (t, m)" by fastforce
  let ?e = "e\<lparr>de_xattr := (de_xattr e)\<lparr>st_atim := t\<rparr>\<rparr>"
  have pos: "0 \<le> fd_fpos ?x + n" "fd_fpos ?x + n \<le> st_size (de_xattr ?e)"
    "st_size (de_xattr ?e) \<le> 4096 * int (length bs)" using b n by auto
  have e': "is_file (mode_of ?e)" "de_faddr ?e = de_faddr e" "st_blocks (de_xattr ?e) = int (length bs)"
    using v by (simp_all add: fd_view_def)
  obtain s' where s': "put_de p ?e (set_fd f (?x\<lparr>fd_fpos := fd_fpos ?x + n\<rparr>) (s\<lparr>mem := m\<rparr>)) = Some s'"
    "fd_view f s' p ?e bs" "chain_bytes (heap s') bs = chain_bytes (heap s) bs"
    "fds s' = moved f (fd_fpos ?x + n) s" "mem s' = m" "dom (heap s') = dom (heap s)"
    "leave_free s' = leave_free s"
    by (rule fd_view_update [OF fd_viewD [OF v] e' pos])
  have cont: "file_content f s' = file_content f s"
    using fd_view_content [OF v] fd_view_content [OF s'(2)] s'(3) by simp
  have clip: "(if s32 (fd_fpos ?x + count) > ?sz then s32 (?sz - fd_fpos ?x) else count) = n"
    and s32n: "s32 (fd_fpos ?x + n) = fd_fpos ?x + n"
    using b cnt n by (auto simp: n_def)
  have "ramdisk_read K f count s = Some (int (length d), d, s')"
    using fd_view_check [OF v] v md r s'(1) tm d ld s32n
    by (simp add: ramdisk_read_def fd_view_def readable_def E_OK_def Let_def clip)
  then show thesis using that s' cont ld tm by simp
qed

subsection \<open>Writing\<close>

lemma chain_bytes_append: "chain_bytes h (xs @ ys) = chain_bytes h xs @ chain_bytes h ys"
  by (simp add: chain_bytes_def)

lemma chain_split:
  assumes "chain h a bs" "k < length bs" "chain h' b (drop k bs)" "b = bs ! k"
    "\<And>x. x \<notin> set (drop k bs) \<Longrightarrow> h' x = h x"
  shows "chain h' a bs"
  using assms
proof (induction bs arbitrary: a k)
  case Nil then show ?case by simp
next
  case (Cons c bs)
  show ?case
  proof (cases k)
    case 0
    with Cons.prems show ?thesis by auto
  next
    case (Suc j)
    from Cons.prems obtain fb where fb: "a = c" "c \<noteq> 0" "h c = Some (FileBlk fb)" "chain h (fb_next fb) bs"
      by auto
    have "c \<notin> set bs" using chain_distinct [OF Cons.prems(1)] by simp
    then have "h' c = h c" using Cons.prems(5) Suc by (auto dest: in_set_dropD)
    moreover have "chain h' (fb_next fb) bs"
      using Cons.IH [OF fb(4), of j] Cons.prems Suc by simp
    ultimately show ?thesis using fb by auto
  qed
qed

text \<open>Writing into a chain that is long enough.\<close>

lemma write_chain:
  assumes ch: "chain (heap s) a bs" and k: "k < length bs" "chain (heap s) (bs ! k) (drop k bs)"
      "4096 * int k \<le> fpos" "fpos - 4096 * int k \<le> 4096"
    and n: "0 \<le> n" "fpos + n \<le> 4096 * int (length bs)" "n \<le> int (length buf)"
  obtains h where "write_loop (bs ! k) (fpos - 4096 * int k) (4096 - (fpos - 4096 * int k)) n buf s
      = Some (s\<lparr>heap := h\<rparr>)" "chain h a bs" "\<And>x. x \<notin> set bs \<Longrightarrow> h x = heap s x"
    "chain_bytes h bs = overwrite (nat fpos) (take (nat n) buf) (chain_bytes (heap s) bs)"
proof -
  let ?p = "fpos - 4096 * int k"
  have "\<exists>h. write_loop (bs ! k) ?p (4096 - ?p) n buf s = Some (s\<lparr>heap := h\<rparr>)
     \<and> chain h (bs ! k) (drop k bs) \<and> (\<forall>x. x \<notin> set (drop k bs) \<longrightarrow> h x = heap s x)
     \<and> chain_bytes h (drop k bs) = overwrite (nat ?p) (take (nat n) buf) (chain_bytes (heap s) (drop k bs))"
    by (rule write_loop_chain [OF k(2)]) (use k n in auto)
  then obtain h where h: "write_loop (bs ! k) ?p (4096 - ?p) n buf s = Some (s\<lparr>heap := h\<rparr>)"
    "chain h (bs ! k) (drop k bs)" "\<And>x. x \<notin> set (drop k bs) \<Longrightarrow> h x = heap s x"
    "chain_bytes h (drop k bs) = overwrite (nat ?p) (take (nat n) buf) (chain_bytes (heap s) (drop k bs))"
    by blast
  have dis: "set (take k bs) \<inter> set (drop k bs) = {}"
    by (rule set_take_disj_set_drop_if_distinct [OF chain_distinct [OF ch]]) simp
  have pre: "chain_bytes h (take k bs) = chain_bytes (heap s) (take k bs)"
    by (rule chain_bytes_cong) (use h(3) dis in auto)
  have len: "length (chain_bytes (heap s) bs) = 4096 * length bs" by (rule length_chain_bytes [OF ch])
  have lk: "length (chain_bytes (heap s) (take k bs)) = 4096 * k"
    using arg_cong [OF drop_chain_bytes [OF ch, of k], of length] len k(1)
      arg_cong [OF chain_bytes_append [of "heap s" "take k bs" "drop k bs"], of length] by simp
  have "chain_bytes h bs = chain_bytes (heap s) (take k bs)
      @ overwrite (nat ?p) (take (nat n) buf) (chain_bytes (heap s) (drop k bs))"
    using chain_bytes_append [of h "take k bs" "drop k bs"] pre h(4) by simp
  also have "\<dots> = overwrite (nat fpos) (take (nat n) buf) (chain_bytes (heap s) bs)"
  proof -
    have "chain_bytes (heap s) (take k bs) = take (4096 * k) (chain_bytes (heap s) bs)"
      using chain_bytes_append [of "heap s" "take k bs" "drop k bs"] lk by simp
    moreover have "4096 * k \<le> nat fpos" "nat ?p = nat fpos - 4096 * k" "nat fpos \<le> length (chain_bytes (heap s) bs)"
      using k n len by linarith+
    ultimately show ?thesis using overwrite_drop [of "4096 * k" "nat fpos" "chain_bytes (heap s) bs"
      "take (nat n) buf"] drop_chain_bytes [OF ch, of k] by simp
  qed
  finally have "chain_bytes h bs = overwrite (nat fpos) (take (nat n) buf) (chain_bytes (heap s) bs)" .
  moreover have "chain h a bs" by (rule chain_split [OF ch k(1) h(2)]) (use h(3) in auto)
  moreover have "\<And>x. x \<notin> set bs \<Longrightarrow> h x = heap s x" using h(3) by (auto dest: in_set_dropD)
  ultimately show thesis using that h(1) by blast
qed

text \<open>The arithmetic of the number of blocks.\<close>

lemma blocks_wanted_eq:
  assumes "0 \<le> fpos" "0 \<le> count" "0 \<le> blocks" "blocks < 2 ^ 19" "fpos + count + 4096 < 2 ^ 31"
  shows "blocks_wanted fpos count blocks
     = (if fpos + count > blocks * 4096 then (fpos + count + 4095) div 4096 - blocks else 0)"
proof -
  have "s32 (fpos + count) = fpos + count" "s32 (fpos + count + 4096 - 1) = fpos + count + 4095"
    using assms by auto
  moreover have "cdiv (fpos + count + 4095) 4096 = (fpos + count + 4095) div 4096"
    using assms by (simp add: cdiv_def sgn_if)
  ultimately show ?thesis by (simp add: blocks_wanted_def DEFAULTFILE_def)
qed

lemma write_count_bounds:
  assumes "0 \<le> fpos" "0 \<le> count" "fpos \<le> old * 4096" "old \<le> blocks" "fpos + count + 4096 < 2 ^ 31"
    and "blocks - old \<le> blocks_wanted fpos count old" "0 \<le> old" "old < 2 ^ 19"
  shows "0 \<le> write_count fpos count old blocks" "write_count fpos count old blocks \<le> count"
    "fpos + write_count fpos count old blocks \<le> blocks * 4096" "blocks * 4096 < 2 ^ 31"
    "write_count fpos count old blocks < count \<Longrightarrow> fpos + write_count fpos count old blocks = blocks * 4096
       \<and> blocks - old < blocks_wanted fpos count old"
proof -
  have w: "blocks_wanted fpos count old
     = (if fpos + count > old * 4096 then (fpos + count + 4095) div 4096 - old else 0)"
    by (rule blocks_wanted_eq) (use assms in auto)
  have s: "s32 (fpos + count) = fpos + count" using assms by auto
  show "0 \<le> write_count fpos count old blocks" "write_count fpos count old blocks \<le> count"
    "fpos + write_count fpos count old blocks \<le> blocks * 4096"
    "blocks * 4096 < 2 ^ 31"
    "write_count fpos count old blocks < count \<Longrightarrow> fpos + write_count fpos count old blocks = blocks * 4096
       \<and> blocks - old < blocks_wanted fpos count old"
    using assms w s unfolding write_count_def DEFAULTFILE_def by (auto split: if_splits)
qed

lemma write_extend_refused:
  assumes "write_extend K n add blocks s = Some (blocks', s')" "blocks' - blocks < int n"
  shows "\<exists>s1 s2. Kmalloc K sizeof_FILEBLOCK s1 = (0, s2)"
  using assms
proof (induction n arbitrary: add blocks s)
  case 0 then show ?case by simp
next
  case (Suc n)
  obtain r s1 where al: "Kmalloc K sizeof_FILEBLOCK s = (r, s1)" by fastforce
  show ?case
  proof (cases "r = 0")
    case True with al show ?thesis by blast
  next
    case False
    with Suc.prems(1) al obtain add' t where "write_extend K n add' (blocks + 1) t = Some (blocks', s')"
      by (auto simp: bind_eq_Some_conv)
    then show ?thesis by (rule Suc.IH) (use Suc.prems(2) in simp)
  qed
qed

lemma extended_bytes:
  assumes "extended live a bs ns s s'"
  shows "chain_bytes (heap s') (bs @ ns) = chain_bytes (heap s) bs @ chain_bytes (heap s') ns"
  using assms by (simp add: extended_def chain_bytes_def cong: map_cong)

lemma extended_de:
  assumes "extended live a bs ns s s'" "chain (heap s) a bs" "get_de p s = Some e"
  shows "get_de p s' = Some e"
proof -
  obtain es where "heap s (fst p) = Some (DirBlk es)"
    using assms(3) by (auto simp: get_de_def dir_at_def bind_eq_Some_conv split: option.splits hobj.splits)
  moreover from this have "fst p \<notin> set (bs @ ns)"
    using assms(1) chain_file [OF assms(2)] by (fastforce simp: extended_def)
  ultimately have "heap s' (fst p) = heap s (fst p)" using assms(1) by (simp add: extended_def)
  then have "dir_at (fst p) s' = dir_at (fst p) s" by (simp add: dir_at_def)
  with assms(3) show ?thesis by (simp add: get_de_def)
qed

text \<open>The blocks of an open file after the two loops of a write.\<close>

lemma write_data:
  assumes ok: "kern_ok K live" and inv: "mem_inv live s" and v: "fd_view f s p e bs"
    and cnt: "0 \<le> count" "fd_fpos (fds s f) + count + 4096 < 2 ^ 31" "count \<le> int (length buf)"
  obtains k bl s1 n s2 ns where
    "write_walk (de_faddr e) (de_faddr e) 0 0 (fd_fpos (fds s f)) s = Some (bs ! k, 4096 * int k, last bs)"
    "write_extend K (nat (blocks_wanted (fd_fpos (fds s f)) count (int (length bs)))) (last bs) (int (length bs)) s
       = Some (bl, s1)"
    "bl = int (length (bs @ ns))" "4096 * bl < 2 ^ 31"
    "n = write_count (fd_fpos (fds s f)) count (int (length bs)) bl" "0 \<le> n" "n \<le> count"
    "n < count \<longrightarrow> (\<exists>s1 s2. Kmalloc K sizeof_FILEBLOCK s1 = (0, s2))"
    "fd_fpos (fds s f) + n \<le> 4096 * bl"
    "write_loop (bs ! k) (fd_fpos (fds s f) - 4096 * int k) (4096 - (fd_fpos (fds s f) - 4096 * int k)) n buf s1
       = Some s2" "mem_step s s2" "mem_inv live s2" "get_de p s2 = Some e"
    "chain (heap s2) (de_faddr e) (bs @ ns)"
    "chain_bytes (heap s2) (bs @ ns) = overwrite (file_pos f s) (take (nat n) buf)
       (chain_bytes (heap s) bs @ chain_bytes (heap s1) ns)"
proof -
  let ?fp = "fd_fpos (fds s f)" and ?old = "int (length bs)"
  have ch: "chain (heap s) (de_faddr e) bs" "bs \<noteq> []" and e: "get_de p s = Some e"
    and b: "0 \<le> ?fp" "?fp \<le> 4096 * ?old" "4096 * ?old < 2 ^ 31"
    using v by (auto simp: fd_view_def)
  obtain k where k: "k < length bs"
    "write_walk (de_faddr e) (de_faddr e) 0 0 ?fp s = Some (bs ! k, 4096 * int k, last bs)"
    "4096 * int k \<le> ?fp" "?fp - 4096 * int k \<le> 4096"
    using write_walk_chain [OF ch, of ?fp 0 0] b by auto
  define w where "w = blocks_wanted ?fp count ?old"
  obtain ns s1 where x: "write_extend K (nat w) (last bs) ?old s = Some (?old + int (length ns), s1)"
    "length ns \<le> nat w" "extended live (de_faddr e) bs ns s s1"
    using write_extend_chain [OF ok inv ch] by blast
  define bl where "bl = ?old + int (length ns)"
  have w0: "0 \<le> w" using b cnt unfolding w_def by (subst blocks_wanted_eq) auto
  define n where "n = write_count ?fp count ?old bl"
  have n: "0 \<le> n" "n \<le> count" "?fp + n \<le> bl * 4096" "bl * 4096 < 2 ^ 31"
    "n < count \<Longrightarrow> ?fp + n = bl * 4096 \<and> bl - ?old < w"
  proof -
    have "?fp \<le> ?old * 4096" "?old \<le> bl" "bl - ?old \<le> blocks_wanted ?fp count ?old" "0 \<le> ?old" "?old < 2 ^ 19"
      using b x(2) w0 by (auto simp: bl_def w_def [symmetric])
    note wb = write_count_bounds [OF b(1) cnt(1) this(1,2) cnt(2) this(3-5)]
    show "0 \<le> n" "n \<le> count" "?fp + n \<le> bl * 4096" "bl * 4096 < 2 ^ 31"
      "n < count \<Longrightarrow> ?fp + n = bl * 4096 \<and> bl - ?old < w"
      using wb unfolding n_def w_def by blast+
  qed
  have ref: "\<exists>s1 s2. Kmalloc K sizeof_FILEBLOCK s1 = (0, s2)" if "n < count"
    by (rule write_extend_refused [OF x(1)]) (use n(5) [OF that] w0 in \<open>simp add: bl_def\<close>)
  have ch1: "chain (heap s1) (de_faddr e) (bs @ ns)" using x(3) by (simp add: extended_def)
  have kd: "chain (heap s1) ((bs @ ns) ! k) (drop k (bs @ ns))"
    by (rule chain_drop [OF ch1]) (use k(1) in simp)
  obtain h where h: "write_loop ((bs @ ns) ! k) (?fp - 4096 * int k) (4096 - (?fp - 4096 * int k)) n buf s1
      = Some (s1\<lparr>heap := h\<rparr>)" "chain h (de_faddr e) (bs @ ns)" "\<And>x. x \<notin> set (bs @ ns) \<Longrightarrow> h x = heap s1 x"
    "chain_bytes h (bs @ ns) = overwrite (nat ?fp) (take (nat n) buf) (chain_bytes (heap s1) (bs @ ns))"
    by (rule write_chain [OF ch1 _ kd k(3,4), of n buf]) (use k(1) n cnt in \<open>auto simp: bl_def\<close>)
  let ?s2 = "s1\<lparr>heap := h\<rparr>"
  have e1: "get_de p s1 = Some e" by (rule extended_de [OF x(3) ch(1) e])
  have st: "mem_step s ?s2" using x(3) by (auto simp: extended_def intro: mem_step_trans)
  have "dom h \<subseteq> dom (heap s1)"
    using h(3) chain_file [OF ch1] by fastforce
  then have inv2: "mem_inv live ?s2" using x(3) by (auto simp: extended_def mem_inv_def)
  have "get_de p ?s2 = Some e"
  proof -
    obtain es where es: "heap s1 (fst p) = Some (DirBlk es)"
      using e1 by (auto simp: get_de_def dir_at_def bind_eq_Some_conv split: option.splits hobj.splits)
    then have "fst p \<notin> set (bs @ ns)" using chain_file [OF ch1] by fastforce
    with h(3) have "h (fst p) = heap s1 (fst p)" by blast
    with e1 show ?thesis by (simp add: get_de_def dir_at_def)
  qed
  with that [of k bl s1 ns n ?s2] k x n ref h st inv2 show thesis
    by (simp add: w_def bl_def n_def nth_append file_pos_def extended_bytes [OF x(3)] mult.commute)
qed

lemma write_view:
  assumes ok: "kern_ok K live" and inv: "mem_inv live s" and v: "fd_view f s p e bs" and md: "writable f s"
    and cnt: "0 \<le> count" "fd_fpos (fds s f) + count + 4096 < 2 ^ 31" "count \<le> int (length buf)"
  obtains n s' e' bs' where "ramdisk_write K f count buf s = Some (n, s')" "0 \<le> n" "n \<le> count"
    "n < count \<longrightarrow> (\<exists>s1 s2. Kmalloc K sizeof_FILEBLOCK s1 = (0, s2))"
    "fd_view f s' p e' bs'" "mem_inv live s'" "fds s' = moved f (fd_fpos (fds s f) + n) s"
    "file_content f s' = overwrite (file_pos f s) (take (nat n) buf) (file_content f s)"
proof -
  let ?x = "fds s f" and ?sz = "st_size (de_xattr e)"
  have b: "0 \<le> fd_fpos ?x" "fd_fpos ?x \<le> ?sz" "?sz \<le> 4096 * int (length bs)" "?sz < 2 ^ 31"
    using v by (auto simp: fd_view_def)
  obtain k bl s1 n s2 ns where w:
    "write_walk (de_faddr e) (de_faddr e) 0 0 (fd_fpos ?x) s = Some (bs ! k, 4096 * int k, last bs)"
    "write_extend K (nat (blocks_wanted (fd_fpos ?x) count (int (length bs)))) (last bs) (int (length bs)) s
       = Some (bl, s1)"
    and bl: "bl = int (length (bs @ ns))" "4096 * bl < 2 ^ 31"
    and n: "n = write_count (fd_fpos ?x) count (int (length bs)) bl" "0 \<le> n" "n \<le> count"
    and ref: "n < count \<longrightarrow> (\<exists>s1 s2. Kmalloc K sizeof_FILEBLOCK s1 = (0, s2))"
    and cap: "fd_fpos ?x + n \<le> 4096 * bl"
    and wl: "write_loop (bs ! k) (fd_fpos ?x - 4096 * int k) (4096 - (fd_fpos ?x - 4096 * int k)) n buf s1 = Some s2"
    and st: "mem_step s s2" "mem_inv live s2" "get_de p s2 = Some e" "chain (heap s2) (de_faddr e) (bs @ ns)"
    and cb: "chain_bytes (heap s2) (bs @ ns) = overwrite (file_pos f s) (take (nat n) buf)
       (chain_bytes (heap s) bs @ chain_bytes (heap s1) ns)"
    by (rule write_data [OF ok inv v cnt])
  obtain t m where tm: "now K (mem s2) = (t, m)" by fastforce
  let ?xa = "de_xattr e" and ?fp = "fd_fpos ?x + n"
  define e' where "e' = e\<lparr>de_xattr := ?xa\<lparr>st_blocks := bl, st_size := (if ?fp > ?sz then ?fp else ?sz),
               st_mtim := t, st_attr := st_attr ?xa OR FA_CHANGED\<rparr>\<rparr>"
  note fds2 = mem_step_fields [OF st(1)]
  have core: "fd_dmd (fds s2 f) = ramdisk_dmd s2" "fd_file (fds s2 f) = Some p" "bs @ ns \<noteq> []"
    "4096 * int (length (bs @ ns)) < 2 ^ 31"
    using v bl fds2 by (simp_all add: fd_view_def)
  have e': "is_file (mode_of e')" "de_faddr e' = de_faddr e" "st_blocks (de_xattr e') = int (length (bs @ ns))"
    using v bl by (simp_all add: fd_view_def e'_def)
  have pos: "0 \<le> ?fp" "?fp \<le> st_size (de_xattr e')" "st_size (de_xattr e') \<le> 4096 * int (length (bs @ ns))"
    using b n cap bl by (auto simp: e'_def)
  obtain s' where s': "put_de p e' (set_fd f ((fds s2 f)\<lparr>fd_fpos := ?fp\<rparr>) (s2\<lparr>mem := m\<rparr>)) = Some s'"
    "fd_view f s' p e' (bs @ ns)" "chain_bytes (heap s') (bs @ ns) = chain_bytes (heap s2) (bs @ ns)"
    "fds s' = moved f ?fp s2" "mem s' = m" "dom (heap s') = dom (heap s2)" "leave_free s' = leave_free s2"
    by (rule fd_view_update [OF core(1,2) st(3,4) core(3,4) e' pos])
  have s32n: "s32 ?fp = ?fp" using b n cap bl by auto
  have sb: "st_blocks ?xa = int (length bs)" using v by (simp add: fd_view_def)
  have wr: "(if n > 0 then n else 0) = n" using n by simp
  have "ramdisk_write K f count buf s = Some (n, s')"
    using fd_view_check [OF v] fd_viewD(2,3) [OF v] md w wl s'(1) tm
    by (simp add: ramdisk_write_def writable_def E_OK_def Let_def e'_def DEFAULTFILE_def
          fds2 sb n(1) [symmetric] wr s32n split del: if_split cong: if_cong)
  moreover have "mem_inv live s'"
    using st(2) s'(5-7) kern_ok_now [OF ok tm] by (simp add: mem_inv_def)
  moreover have "file_content f s' = overwrite (file_pos f s) (take (nat n) buf) (file_content f s)"
  proof -
    let ?c = "chain_bytes (heap s) bs @ chain_bytes (heap s1) ns"
    have "length (chain_bytes (heap s) bs) = 4096 * length bs"
      using v by (auto simp: fd_view_def intro: length_chain_bytes)
    then have le: "file_pos f s \<le> nat ?sz" "nat ?sz \<le> length (chain_bytes (heap s) bs)"
      using b by (auto simp: file_pos_def)
    have "nat (st_size (de_xattr e')) = max (nat ?sz) (file_pos f s + length (take (nat n) buf))"
      using b n cnt by (auto simp: e'_def file_pos_def max_def)
    then show ?thesis
      using overwrite_take [of "file_pos f s" "nat ?sz" ?c "take (nat n) buf"] le
        fd_view_content [OF v] fd_view_content [OF s'(2)] s'(3) cb by simp
  qed
  ultimately show thesis using that n(2,3) ref s'(2,4) fds2 by simp
qed

lemma seek_view:
  fixes whence :: int
  assumes v: "fd_view f s p e bs" and m: "md \<in> {0, 1, 2}"
  defines "new \<equiv> (if md = 0 then 0 else if md = 1 then fd_fpos (fds s f) else st_size (de_xattr e)) + whence"
  assumes r: "- (2 ^ 31) \<le> new" "new < 2 ^ 31" 
  shows "ramdisk_seek f whence md s =
     (if 0 \<le> new \<and> new \<le> st_size (de_xattr e)
      then Some (new, s\<lparr>fds := moved f new s\<rparr>) else Some (ERANGE, s))"
proof -
  have "s32 new = new" using r by auto
  then show ?thesis
    using fd_view_check [OF v] v m
    by (auto simp: ramdisk_seek_def fd_view_def fd_entry_def E_OK_def Let_def new_def set_fd_def)
qed

subsection \<open>The refinement\<close>

type_synonym 'm session = "'m kern \<times> ('m \<Rightarrow> addr set) \<times> nat \<times> 'm ram"

definition s_inv :: "'m session \<Rightarrow> bool" where
  "s_inv x = (case x of (K, live, f, s) \<Rightarrow>
     kern_ok K live \<and> mem_inv live s \<and> fd_ok f s \<and> readable f s \<and> writable f s)"

definition s_content :: "'m session \<Rightarrow> byte list" where
  "s_content x = (case x of (K, live, f, s) \<Rightarrow> file_content f s)"

definition s_pos :: "'m session \<Rightarrow> nat" where
  "s_pos x = (case x of (K, live, f, s) \<Rightarrow> file_pos f s)"

definition s_read :: "nat \<Rightarrow> 'm session \<Rightarrow> (byte list \<times> 'm session) option" where
  "s_read n x = (case x of (K, live, f, s) \<Rightarrow>
     map_option (\<lambda>(r, d, s'). (d, (K, live, f, s'))) (ramdisk_read K f (int n) s))"

definition s_write :: "byte list \<Rightarrow> 'm session \<Rightarrow> (nat \<times> 'm session) option" where
  "s_write xs x = (case x of (K, live, f, s) \<Rightarrow>
     map_option (\<lambda>(r, s'). (nat r, (K, live, f, s'))) (ramdisk_write K f (int (length xs)) xs s))"

definition s_seek :: "nat \<Rightarrow> 'm session \<Rightarrow> 'm session option" where
  "s_seek p x = (case x of (K, live, f, s) \<Rightarrow>
     (case ramdisk_seek f (int p) 0 s of
        Some (r, s') \<Rightarrow> if r < 0 then None else Some (K, live, f, s')
      | None \<Rightarrow> None))"

definition file_room :: nat where "file_room = 2 ^ 31 - 4096"

lemmas s_defs = s_inv_def s_content_def s_pos_def s_read_def s_write_def s_seek_def

lemma moved_modes:
  "fds s' = moved f p s \<Longrightarrow> readable f s' = readable f s \<and> writable f s' = writable f s"
  by (simp add: readable_def writable_def)

lemma moved_pos: "fds s' = moved f p s \<Longrightarrow> file_pos f s' = nat p"
  by (simp add: file_pos_def)

lemma mem_inv_cong:
  "live (mem s') = live (mem s) \<Longrightarrow> dom (heap s') = dom (heap s) \<Longrightarrow> leave_free s' = leave_free s
   \<Longrightarrow> mem_inv live s' = mem_inv live s"
  by (simp add: mem_inv_def)

lemma fd_view_pos: "fd_view f s p e bs \<Longrightarrow> file_pos f s \<le> length (file_content f s)"
  using fd_view_length [of f s p e bs] by (auto simp: fd_view_def file_pos_def)

lemma fd_view_fpos: "fd_view f s p e bs \<Longrightarrow> fd_fpos (fds s f) = int (file_pos f s)"
  by (simp add: fd_view_def file_pos_def)

lemma s_invE:
  assumes "s_inv x"
  obtains K live f s p e bs where "x = (K, live, f, s)" "kern_ok K live" "mem_inv live s"
    "fd_view f s p e bs" "readable f s" "writable f s"
  using assms by (cases x) (auto simp: s_inv_def elim: fd_okE)

lemma s_read_spec:
  assumes "s_inv x" "s_pos x + n < file_room"
  shows "\<exists>x'. s_read n x = Some (take n (drop (s_pos x) (s_content x)), x') \<and> s_inv x'
           \<and> s_content x' = s_content x \<and> s_pos x' = min (length (s_content x)) (s_pos x + n)"
proof -
  obtain K live f s p e bs where x: "x = (K, live, f, s)" and ok: "kern_ok K live" "mem_inv live s"
    and v: "fd_view f s p e bs" and md: "readable f s" "writable f s"
    using assms(1) by (rule s_invE)
  have "fd_fpos (fds s f) + int n < 2 ^ 31"
    using assms(2) x fd_view_fpos [OF v] by (simp add: s_pos_def file_room_def)
  from read_view [OF v md(1) _ this, of K, simplified]
  obtain s' e' where r: "ramdisk_read K f (int n) s
      = Some (int (length (take n (drop (file_pos f s) (file_content f s)))),
              take n (drop (file_pos f s) (file_content f s)), s')"
    and v': "fd_view f s' p e' bs" and c: "file_content f s' = file_content f s"
    and fd: "fds s' = moved f (fd_fpos (fds s f) + int (length (take n (drop (file_pos f s) (file_content f s))))) s"
    and m: "mem s' = snd (now K (mem s))" "dom (heap s') = dom (heap s)" "leave_free s' = leave_free s"
    by auto
  have "live (mem s') = live (mem s)" using kern_ok_now [OF ok(1)] m(1) by (metis prod.collapse)
  then have "mem_inv live s'" using mem_inv_cong [of live s' s] m ok(2) by simp
  moreover have "file_pos f s' = min (length (file_content f s)) (file_pos f s + n)"
    using moved_pos [OF fd] fd_view_fpos [OF v] fd_view_pos [OF v] by auto
  ultimately show ?thesis
    using x ok(1) r c v' moved_modes [OF fd] md by (auto simp: s_defs intro: fd_okI)
qed

lemma s_write_spec:
  assumes "s_inv x" "s_pos x + length xs < file_room"
  shows "\<exists>n x'. s_write xs x = Some (n, x') \<and> n \<le> length xs \<and> s_inv x'
           \<and> s_content x' = overwrite (s_pos x) (take n xs) (s_content x) \<and> s_pos x' = s_pos x + n"
proof -
  obtain K live f s p e bs where x: "x = (K, live, f, s)" and ok: "kern_ok K live" "mem_inv live s"
    and v: "fd_view f s p e bs" and md: "readable f s" "writable f s"
    using assms(1) by (rule s_invE)
  have "fd_fpos (fds s f) + int (length xs) + 4096 < 2 ^ 31"
    using assms(2) x fd_view_fpos [OF v] by (simp add: s_pos_def file_room_def)
  from write_view [OF ok v md(2) _ this order_refl, simplified]
  obtain n s' e' bs' where w: "ramdisk_write K f (int (length xs)) xs s = Some (n, s')" "0 \<le> n"
    "n \<le> int (length xs)" "fd_view f s' p e' bs'" "mem_inv live s'"
    "fds s' = moved f (fd_fpos (fds s f) + n) s"
    "file_content f s' = overwrite (file_pos f s) (take (nat n) xs) (file_content f s)"
    by metis
  moreover have "file_pos f s' = file_pos f s + nat n"
    using moved_pos [OF w(6)] fd_view_fpos [OF v] w(2) by (simp add: nat_add_distrib)
  ultimately show ?thesis
    using x ok(1) moved_modes [OF w(6)] md by (auto simp: s_defs intro: fd_okI)
qed

lemma s_seek_spec:
  assumes "s_inv x" "p \<le> length (s_content x)" "p < file_room"
  shows "\<exists>x'. s_seek p x = Some x' \<and> s_inv x' \<and> s_content x' = s_content x \<and> s_pos x' = p"
proof -
  obtain K live f s q e bs where x: "x = (K, live, f, s)" and ok: "kern_ok K live" "mem_inv live s"
    and v: "fd_view f s q e bs" and md: "readable f s" "writable f s"
    using assms(1) by (rule s_invE)
  let ?s = "s\<lparr>fds := moved f (int p) s\<rparr>"
  have p: "int p \<le> st_size (de_xattr e)"
    using assms(2) x fd_view_length [OF v] by (simp add: s_content_def)
  then have r: "ramdisk_seek f (int p) 0 s = Some (int p, ?s)"
    using seek_view [OF v, of 0 "int p"] assms(3) by (simp add: file_room_def)
  have v': "fd_view f ?s q e bs" using v p by (simp add: fd_view_def get_de_def dir_at_def)
  have "mem_inv live ?s" using ok by (simp add: mem_inv_def)
  moreover have "file_content f ?s = file_content f s"
    using fd_view_content [OF v] fd_view_content [OF v'] by simp
  ultimately show ?thesis
    using x ok(1) r v' md by (auto simp: s_defs readable_def writable_def file_pos_def intro: fd_okI)
qed

interpretation ramfile: byte_file s_inv s_content s_pos s_read s_write s_seek file_room
proof
  fix x :: "'a session"
  show "s_pos x \<le> length (s_content x)" if "s_inv x"
    using that by (auto simp: s_defs fd_view_pos elim!: fd_okE)
qed (use s_read_spec s_write_spec s_seek_spec in blast)+

end
