(* ===== verification/Ram_Demo.thy ===== *)
theory Ram_Demo
  imports Ram_File
begin

text \<open>
  A concrete kernel and a concrete RAM disk, on which the hypotheses of the properties
  hold.  The kernel keeps the list of allocated blocks; a new block gets the address
  behind the largest one.
\<close>

definition demo_fresh :: "nat list \<Rightarrow> nat" where
  "demo_fresh m = Suc (foldr max m 4)"

definition demo_kern :: "nat list kern" where
  "demo_kern = \<lparr>
     k_mxalloc = (\<lambda>n md m. if n = -1 then (1000000, m) else (int (demo_fresh m), demo_fresh m # m)),
     k_mfree = (\<lambda>a m. if a \<in> set m then (0, removeAll a m) else (-40, m)),
     k_junk = (\<lambda>m a i. 0xAA), k_time = (\<lambda>m. (1000, m)), k_date = (\<lambda>m. (2000, m)),
     k_domain = (\<lambda>m. 1), k_act_pd = (\<lambda>m. 7), k_version = 4\<rparr>"

lemma foldr_max_ge: "x \<in> set m \<Longrightarrow> x \<le> foldr max m (k :: nat)" "k \<le> foldr max m (k :: nat)"
  by (induction m) (auto simp: le_max_iff_disj)

lemma demo_fresh_new: "demo_fresh m \<notin> set m" "4 < demo_fresh m"
  using foldr_max_ge(1) [where x = "demo_fresh m" and m = m and k = 4] foldr_max_ge(2) [where m = m and k = 4]
  by (auto simp: demo_fresh_def)

lemma demo_kern_ok: "kern_ok demo_kern set"
proof -
  have "3 < demo_fresh m" for m using demo_fresh_new(2) [of m] by simp
  then show ?thesis
    by (auto simp: kern_ok_def demo_kern_def demo_fresh_new split: if_splits)
qed

text \<open>The root directory with one file, \<open>a.txt\<close>, that holds the bytes 104 and 105 and is open.\<close>

definition demo_dir_xattr :: "addr \<Rightarrow> XATTR" where
  "demo_dir_xattr a = zero_xattr\<lparr>st_mode := 0x41FF, st_ino := a, st_attr := FA_DIR\<rparr>"

definition demo_root :: "DIRENTRY list" where
  "demo_root =
     [\<lparr>de_fname = ''.'', de_faddr = root_blk, de_nr = 0, de_maxnr = 5, de_xattr = demo_dir_xattr root_blk\<rparr>,
      \<lparr>de_fname = ''..'', de_faddr = root_de_blk, de_nr = 1, de_maxnr = 0, de_xattr = demo_dir_xattr ROOT_DE\<rparr>,
      \<lparr>de_fname = ''a.txt'', de_faddr = 5, de_nr = 2, de_maxnr = 0,
       de_xattr = zero_xattr\<lparr>st_mode := 0x81B6, st_ino := 5, st_size := 2, st_blocks := 1,
         st_blksize := 4096, st_attr := FA_CHANGED\<rparr>\<rparr>,
      zero_de, zero_de]"

definition demo_ram :: "nat list ram" where
  "demo_ram = \<lparr>mem = [5],
     heap = [root_blk \<mapsto> DirBlk demo_root,
             root_de_blk \<mapsto> DirBlk [\<lparr>de_fname = [], de_faddr = root_blk, de_nr = 1, de_maxnr = 0,
                                      de_xattr = demo_dir_xattr ROOT_DE\<rparr>],
             5 \<mapsto> FileBlk \<lparr>fb_data = (\<lambda>i. if i = 0 then 104 else 105), fb_next = 0\<rparr>],
     fds = (\<lambda>_. zero_fd)(
       ROOT := zero_fd\<lparr>fd_dmd := 9, fd_refcnt := 1, fd_file := Some (root_de_blk, 0)\<rparr>,
       4 := zero_fd\<lparr>fd_dmd := 9, fd_refcnt := 1, fd_mode := 3, fd_dev := True,
                    fd_file := Some (root_blk, 2), fd_parent := Some ROOT, fd_owner := 7\<rparr>),
     dhds = (\<lambda>_. zero_dhd), ramdisk_dmd = 9, ramdisk_drive = 12, starttime = 1, startdate = 1,
     leave_free = 0, ram_type = 3, eight_bit = False, volume_label = [], opened_once = True\<rparr>"

text \<open>The same, with the position of the open file at \<open>q\<close>.\<close>

definition demo_at :: "int \<Rightarrow> nat list ram" where
  "demo_at q = demo_ram\<lparr>fds := (fds demo_ram)(4 := (fds demo_ram 4)\<lparr>fd_fpos := q\<rparr>)\<rparr>"

lemmas demo_defs = demo_ram_def demo_at_def demo_root_def demo_dir_xattr_def root_blk_def root_de_blk_def
  ROOT_def ROOT_DE_def zero_xattr_def zero_de_def zero_fd_def

lemma demo_mem_inv [simp]: "mem_inv set demo_ram" "mem_inv set (demo_at q)"
  by (auto simp: mem_inv_def demo_defs)

end
