(* ===== verification/Ram_File_Props.thy ===== *)
theory Ram_File_Props
  imports Ram_Data Ram_Demo
begin

text \<open>
  The properties of the device driver of open files, stated over the byte sequence a file
  stands for, and of the functions that read characters and lines.
\<close>

subsection \<open>The demo file\<close>

lemma demo_view:
  "0 \<le> q \<Longrightarrow> q \<le> 2 \<Longrightarrow> fd_view 4 (demo_at q) (root_blk, 2) (demo_root ! 2) [5]"
  by (simp add: fd_view_def demo_defs get_de_def dir_at_def is_file_def mode_defs)

lemma demo_fd_ok: "0 \<le> q \<Longrightarrow> q \<le> 2 \<Longrightarrow> fd_ok 4 (demo_at q)"
  by (rule fd_okI [OF demo_view])

lemma demo_modes: "readable 4 (demo_at q)" "writable 4 (demo_at q)"
  by (simp_all add: readable_def writable_def demo_defs mode_defs)

lemma demo_content:
  assumes "0 \<le> q" "q \<le> 2"
  shows "file_content 4 (demo_at q) = [104, 105]"
proof -
  have "[0..<2::nat] = [0, 1]" by code_simp
  then show ?thesis
    using fd_view_content [OF demo_view [OF assms]]
    by (simp add: chain_bytes_def blk_at_def demo_defs take_map take_upt)
qed

lemma demo_pos: "file_pos 4 (demo_at q) = nat q" "fd_fpos (fds (demo_at q) 4) = q"
  by (simp_all add: file_pos_def demo_defs)

subsection \<open>Reading, writing, seeking\<close>

text \<open>C12: Reading delivers exactly the bytes of the file behind the position, at most \<open>count\<close> of them, and moves the position behind them; the content does not change.  The chain of blocks is invisible.\<close>

theorem read_delivers_content:
  assumes "fd_ok f s" "readable f s" "0 \<le> count" "fd_fpos (fds s f) + count < 2 ^ 31"
  shows "\<exists>d s'. ramdisk_read K f count s = Some (int (length d), d, s')
           \<and> d = take (nat count) (drop (file_pos f s) (file_content f s))
           \<and> fd_ok f s' \<and> file_content f s' = file_content f s
           \<and> file_pos f s' = file_pos f s + length d"
proof -
  obtain p e bs where v: "fd_view f s p e bs" using assms(1) by (rule fd_okE)
  let ?d = "take (nat count) (drop (file_pos f s) (file_content f s))"
  obtain s' e' where s': "ramdisk_read K f count s = Some (int (length ?d), ?d, s')" "fd_view f s' p e' bs"
    "file_content f s' = file_content f s" "fds s' = moved f (fd_fpos (fds s f) + int (length ?d)) s"
    by (rule read_view [OF v assms(2-4), of K])
  moreover have "file_pos f s' = file_pos f s + length ?d"
    using moved_pos [OF s'(4)] fd_view_fpos [OF v] by (simp del: length_take flip: of_nat_add)
  ultimately show ?thesis using fd_okI by blast
qed

theorem read_delivers_content_witness:
  "\<exists>s'. ramdisk_read demo_kern 4 5 (demo_at 1) = Some (1, [105], s') \<and> file_pos 4 s' = 2"
  using read_delivers_content [of 4 "demo_at 1" 5 demo_kern]
  by (auto simp: demo_fd_ok demo_modes demo_content demo_pos)



text \<open>C16: What has been written is read back after seeking to where writing began.\<close>

theorem write_seek_read_roundtrip:
  assumes "kern_ok K live" "mem_inv live s" "fd_ok f s" "readable f s" "writable f s"
    and "file_pos f s + length xs < 2 ^ 31 - 4096"
  shows "\<exists>n s1 r s2 c s3. ramdisk_write K f (int (length xs)) xs s = Some (n, s1)
           \<and> 0 \<le> n \<and> n \<le> int (length xs)
           \<and> ramdisk_seek f (int (file_pos f s)) 0 s1 = Some (r, s2) \<and> 0 \<le> r
           \<and> ramdisk_read K f n s2 = Some (c, take (nat n) xs, s3)"
proof -
  let ?x = "(K, live, f, s)"
  obtain p e bs where v: "fd_view f s p e bs" using assms(3) by (rule fd_okE)
  have "fd_fpos (fds s f) + int (length xs) + 4096 < 2 ^ 31"
    using assms(6) fd_view_fpos [OF v] by simp
  from write_view [OF assms(1,2) v assms(5) _ this order_refl, simplified]
  obtain n s1 where w: "ramdisk_write K f (int (length xs)) xs s = Some (n, s1)" "0 \<le> n" "n \<le> int (length xs)"
    by metis
  have "s_inv ?x" "s_pos ?x + length xs < file_room" using assms by (simp_all add: s_defs file_room_def)
  from ramfile.write_seek_read [OF this] obtain x2 x3 where
    "s_seek (file_pos f s) (K, live, f, s1) = Some x2" "s_read (nat n) x2 = Some (take (nat n) xs, x3)"
    using w(1) by (auto simp: s_write_def s_pos_def)
  with w show ?thesis
    by (auto simp: s_read_def s_seek_def split: prod.splits option.splits if_splits)
qed

theorem write_seek_read_roundtrip_witness:
  "\<exists>n s1 r s2 c s3. ramdisk_write demo_kern 4 3 [1, 2, 3] (demo_at 1) = Some (n, s1)
     \<and> 0 \<le> n \<and> n \<le> 3 \<and> ramdisk_seek 4 1 0 s1 = Some (r, s2) \<and> 0 \<le> r
     \<and> ramdisk_read demo_kern 4 n s2 = Some (c, take (nat n) [1, 2, 3], s3)"
  using write_seek_read_roundtrip [of demo_kern set "demo_at 1" 4 "[1, 2, 3]"]
  by (simp add: demo_kern_ok demo_fd_ok demo_modes demo_pos)

lemma fd_view_seek:
  assumes "fd_view f s p e bs" "0 \<le> q" "q \<le> st_size (de_xattr e)"
  shows "fd_view f (s\<lparr>fds := moved f q s\<rparr>) p e bs"
    "file_content f (s\<lparr>fds := moved f q s\<rparr>) = file_content f s"
proof -
  show v': "fd_view f (s\<lparr>fds := moved f q s\<rparr>) p e bs"
    using assms by (simp add: fd_view_def get_de_def dir_at_def)
  show "file_content f (s\<lparr>fds := moved f q s\<rparr>) = file_content f s"
    using fd_view_content [OF assms(1)] fd_view_content [OF v'] by simp
qed

lemma seek_outcome:
  assumes v: "fd_view f s p e bs"
  obtains "ramdisk_seek f whence md s = Some (ERANGE, s)"
  | "ramdisk_seek f whence md s = Some (fd_fpos (fds s f), s)"
  | q where "0 \<le> q" "q \<le> st_size (de_xattr e)" "ramdisk_seek f whence md s = Some (q, s\<lparr>fds := moved f q s\<rparr>)"
proof -
  define q where "q = s32 ((if md = 0 then 0 else if md = 1 then fd_fpos (fds s f) else st_size (de_xattr e)) + whence)"
  have "ramdisk_seek f whence md s =
     (if md \<noteq> 0 \<and> md \<noteq> 1 \<and> md \<noteq> 2 then Some (fd_fpos (fds s f), s)
      else if q < 0 \<or> q > st_size (de_xattr e) then Some (ERANGE, s) else Some (q, s\<lparr>fds := moved f q s\<rparr>))"
    using fd_view_check [OF v] fd_viewD(2,3) [OF v]
    by (simp add: ramdisk_seek_def fd_entry_def E_OK_def Let_def q_def set_fd_def)
  with that show thesis by (cases "q < 0 \<or> q > st_size (de_xattr e)") (auto split: if_splits)
qed

text \<open>C33: Seeking never leaves the file, for any offset (wrap-around of the 32 bit sum included) and any mode: it refuses with \<open>ERANGE\<close> and changes nothing, or the new position is the result and lies within the content.\<close>

theorem seek_keeps_bounds:
  assumes "fd_ok f s"
  shows "\<exists>r s'. ramdisk_seek f whence md s = Some (r, s') \<and> fd_ok f s' \<and> file_content f s' = file_content f s
           \<and> (r = ERANGE \<and> s' = s \<or> r = int (file_pos f s') \<and> r \<le> int (length (file_content f s)))"
proof -
  obtain p e bs where v: "fd_view f s p e bs" using assms by (rule fd_okE)
  show ?thesis
  proof (cases rule: seek_outcome [OF v, of whence md])
    case 1 with assms show ?thesis by blast
  next
    case 2 with assms fd_view_fpos [OF v] fd_view_pos [OF v] show ?thesis by auto
  next
    case (3 q)
    with fd_view_seek [OF v 3(1,2)] fd_view_length [OF v] show ?thesis
      by (auto simp: file_pos_def intro: fd_okI)
  qed
qed

theorem seek_keeps_bounds_witness:
  "\<exists>r s'. ramdisk_seek 4 (2 ^ 31 - 1) 1 (demo_at 1) = Some (r, s') \<and> fd_ok 4 s'
     \<and> (r = ERANGE \<and> s' = demo_at 1 \<or> r = int (file_pos 4 s') \<and> r \<le> 2)"
  using seek_keeps_bounds [of 4 "demo_at 1" "2 ^ 31 - 1" 1] by (auto simp: demo_fd_ok demo_content)

lemma read_loop_past_end:
  assumes "chain (heap s) a bs" "heap s 0 = None" "0 \<le> pos" "pos \<le> 4096"
    "4096 * int (length bs) < pos + count" "0 < count"
  shows "read_loop a pos (4096 - pos) count s = None"
  using assms
proof (induction bs arbitrary: a pos count)
  case Nil
  then show ?case by (subst read_loop.simps) (simp add: file_at_def Let_def)
next
  case (Cons b bs)
  obtain fb where fb: "heap s b = Some (FileBlk fb)" "chain (heap s) (fb_next fb) bs" "a = b"
    using Cons.prems by auto
  have "read_loop (fb_next fb) 0 (4096 - 0) (count - (4096 - pos)) s = None"
    by (rule Cons.IH [OF fb(2)]) (use Cons.prems in auto)
  moreover have "\<not> 4096 - pos > count" using Cons.prems by auto
  ultimately show ?case
    using Cons.prems fb
    by (subst read_loop.simps) (simp add: Let_def DEFAULTFILE_def file_at_heap [THEN iffD2])
qed

text \<open>C36: The sum of position and count is computed in 32 bits.  For the largest count and a position other than 0 it wraps, the count is not clipped, and the copy loop runs past the last block of the file, for every open file.\<close>

theorem read_count_overflow_faults:
  assumes "mem_inv live s" "fd_ok f s" "readable f s" "0 < fd_fpos (fds s f)"
  shows "ramdisk_read K f (2 ^ 31 - 1) s = None"
proof -
  obtain p e bs where v: "fd_view f s p e bs" using assms(2) by (rule fd_okE)
  let ?fp = "fd_fpos (fds s f)"
  have b: "0 \<le> ?fp" "?fp \<le> 4096 * int (length bs)" "4096 * int (length bs) < 2 ^ 31" "?fp \<le> st_size (de_xattr e)"
    and ch: "chain (heap s) (de_faddr e) bs" "bs \<noteq> []"
    using v by (auto simp: fd_view_def)
  obtain k where k: "k < length bs" "read_skip (de_faddr e) 0 ?fp s = Some (bs ! k, 4096 * int k)"
    "chain (heap s) (bs ! k) (drop k bs)" "4096 * int k \<le> ?fp" "?fp - 4096 * int k \<le> 4096"
    using read_skip_chain [OF ch, of ?fp 0] b by auto
  have "heap s 0 = None"
    using assms(1) by (auto simp: mem_inv_def root_blk_def root_de_blk_def dom_def)
  then have "read_loop (bs ! k) (?fp - 4096 * int k) (4096 - (?fp - 4096 * int k)) (2 ^ 31 - 1) s = None"
    by (intro read_loop_past_end [OF k(3)]) (use k b in auto)
  moreover have "s32 (?fp + (2 ^ 31 - 1)) = ?fp + (2 ^ 31 - 1) - 2 ^ 32"
    by (rule s32_overflow) (use assms(4) b in auto)
  ultimately show ?thesis
    using fd_view_check [OF v] fd_viewD(2,3) [OF v] assms(3) k(2) b
    by (simp add: ramdisk_read_def readable_def E_OK_def Let_def DEFAULTFILE_def)
qed

theorem read_count_overflow_faults_witness:
  "ramdisk_read demo_kern 4 (2 ^ 31 - 1) (demo_at 1) = None"
  by (rule read_count_overflow_faults [of set]) (simp_all add: demo_fd_ok demo_modes demo_pos)

subsection \<open>Characters and lines\<close>

lemma getc_view:
  assumes v: "fd_view f s p e bs" and md: "readable f s"
  defines "eof \<equiv> \<not> file_pos f s < length (file_content f s)"
  obtains s' e' where
    "ramdisk_getc K f s = Some (if eof then EOF_CODE else uint (file_content f s ! file_pos f s), s')"
    "fd_view f s' p e' bs" "readable f s'" "file_content f s' = file_content f s"
    "file_pos f s' = file_pos f s + (if eof then 0 else 1)"
proof -
  let ?d = "take (nat 1) (drop (file_pos f s) (file_content f s))"
  have lt: "fd_fpos (fds s f) + 1 < 2 ^ 31" using v by (auto simp: fd_view_def)
  obtain s' e' where r: "ramdisk_read K f 1 s = Some (int (length ?d), ?d, s')" "fd_view f s' p e' bs"
    "file_content f s' = file_content f s" "fds s' = moved f (fd_fpos (fds s f) + int (length ?d)) s"
    by (rule read_view [OF v md zero_le_one lt, of K])
  have d: "?d = (if eof then [] else [file_content f s ! file_pos f s])"
    by (auto simp: eof_def take_Suc_conv_app_nth hd_drop_conv_nth take_Suc)
  have "ramdisk_getc K f s = Some (if eof then EOF_CODE else uint (file_content f s ! file_pos f s), s')"
    using fd_view_check [OF v] r(1) unfolding d by (simp add: ramdisk_getc_def E_OK_def)
  moreover have "file_pos f s' = file_pos f s + (if eof then 0 else 1)"
    using moved_pos [OF r(4)] fd_view_fpos [OF v] unfolding d by (auto simp: nat_add_distrib)
  ultimately show thesis using that r(2,3) moved_modes [OF r(4)] md by blast
qed

text \<open>The line at the head of \<open>rest\<close>, for a buffer of \<open>k\<close> bytes: its length, what is stored,
  and how many bytes of the file are consumed.\<close>

fun scan_line :: "nat \<Rightarrow> byte list \<Rightarrow> nat \<times> byte list \<times> nat" where
  "scan_line 0 rest = (0, [], 0)"
| "scan_line (Suc k) [] = (0, [0], 0)"
| "scan_line (Suc k) (c # cs) =
     (if c = 13 then (0, [0], 1 + min 1 (length cs))
      else if c = 10 then (0, [0], 1)
      else (case scan_line k cs of (n, l, m) \<Rightarrow> (Suc n, c # l, Suc m)))"

definition not_eol :: "byte \<Rightarrow> bool" where "not_eol c \<longleftrightarrow> c \<noteq> 13 \<and> c \<noteq> 10"

lemma scan_line_result:
  "fst (scan_line k rest) = min k (length (takeWhile not_eol rest))"
  "fst (snd (scan_line k rest)) =
     take k (takeWhile not_eol rest) @ (if length (takeWhile not_eol rest) < k then [0] else [])"
  by (induction k rest rule: scan_line.induct) (auto simp: not_eol_def split: prod.splits)

lemma uint_byte_eqs:
  "uint (c :: byte) \<noteq> EOF_CODE" "uint c = 13 \<longleftrightarrow> c = 13" "uint c = 10 \<longleftrightarrow> c = 10"
proof -
  have "uint c < 256" using uint_bounded [of c] by simp
  then show "uint c \<noteq> EOF_CODE" by (simp add: EOF_CODE_def)
  show "uint c = 13 \<longleftrightarrow> c = 13" "uint c = 10 \<longleftrightarrow> c = 10"
    using word_uint_eq_iff [of c 13] word_uint_eq_iff [of c 10] by simp_all
qed

lemma getline_loop_spec:
  assumes "fd_view f s p e bs" "readable f s" "sz = count + int k"
    and "scan_line k (drop (file_pos f s) (file_content f s)) = (n, l, m)"
  shows "\<exists>s' e'. getline_loop K f sz count buf s = Some (count + int n, buf @ l, s')
           \<and> fd_view f s' p e' bs \<and> file_content f s' = file_content f s
           \<and> file_pos f s' = file_pos f s + m"
  using assms
proof (induction k arbitrary: s e count buf n l m)
  case 0
  then show ?case by (subst getline_loop.simps) auto
next
  case (Suc k)
  let ?C = "file_content f s" and ?p = "file_pos f s"
  obtain s1 e1 where g: "ramdisk_getc K f s = Some (if \<not> ?p < length ?C then EOF_CODE else uint (?C ! ?p), s1)"
    "fd_view f s1 p e1 bs" "readable f s1" "file_content f s1 = ?C"
    "file_pos f s1 = ?p + (if \<not> ?p < length ?C then 0 else 1)"
    by (rule getc_view [OF Suc.prems(1,2), of K])
  have go: "getline_loop K f sz count buf s = do {
        (c, s) \<leftarrow> ramdisk_getc K f s;
        if c = EOF_CODE then Some (count, buf @ [0], s)
        else if c = 0xd then do {
          (_, s) \<leftarrow> ramdisk_getc K f s;
          Some (count, buf @ [0], s) }
        else if c = 0xa then Some (count, buf @ [0], s)
        else getline_loop K f sz (count + 1) (buf @ [word_of_int c]) s }"
    using Suc.prems(3) by (subst getline_loop.simps) simp
  show ?case
  proof (cases "?p < length ?C")
    case False
    then show ?thesis using go g Suc.prems(4) by auto
  next
    case True
    define c where "c = ?C ! ?p"
    have rest: "drop ?p ?C = c # drop (Suc ?p) ?C" using True by (simp add: c_def Cons_nth_drop_Suc)
    have gc: "ramdisk_getc K f s = Some (uint c, s1)" "file_pos f s1 = Suc ?p" using g True by (auto simp: c_def)
    consider "c = 13" | "c = 10" | "c \<noteq> 13" "c \<noteq> 10" by blast
    then show ?thesis
    proof cases
      case 1
      obtain s2 e2 x where "ramdisk_getc K f s1 = Some (x, s2)" "fd_view f s2 p e2 bs"
        "file_content f s2 = ?C" "file_pos f s2 = Suc ?p + (if \<not> Suc ?p < length ?C then 0 else 1)"
        using getc_view [OF g(2,3), of K] g(4) gc(2) by metis
      then show ?thesis using go gc 1 Suc.prems(4) rest uint_byte_eqs [of c] by (auto simp: min_def)
    next
      case 2
      then show ?thesis using go gc g Suc.prems(4) rest uint_byte_eqs [of c] by auto
    next
      case 3
      obtain n' l' m' where sl: "scan_line k (drop (Suc ?p) ?C) = (n', l', m')" by (metis prod_cases3)
      then have eqs: "n = Suc n'" "l = c # l'" "m = Suc m'" using Suc.prems(4) rest 3 by auto
      have "\<exists>s' e'. getline_loop K f sz (count + 1) (buf @ [c]) s1 = Some (count + 1 + int n', (buf @ [c]) @ l', s')
           \<and> fd_view f s' p e' bs \<and> file_content f s' = file_content f s1 \<and> file_pos f s' = file_pos f s1 + m'"
        by (rule Suc.IH [OF g(2,3)]) (use Suc.prems(3) sl g(4) gc(2) in auto)
      then show ?thesis using go gc 3 eqs g(4) uint_byte_eqs [of c] by (auto simp: word_of_int_uint)
    qed
  qed
qed

text \<open>A line is delivered up to its end, cut at the size of the buffer and closed by a NUL byte
  when it is shorter; never more than \<open>size\<close> bytes are stored, and the call returns for every file.\<close>

theorem getline_delivers_line:
  assumes "fd_ok f s" "readable f s" "0 \<le> sz"
  shows "\<exists>s'. ramdisk_getline K f sz s =
     (let l = takeWhile not_eol (drop (file_pos f s) (file_content f s)) in
      Some (int (min (nat sz) (length l)),
            take (nat sz) l @ (if length l < nat sz then [0] else []), s'))
     \<and> fd_ok f s' \<and> file_content f s' = file_content f s"
proof -
  obtain p e bs where v: "fd_view f s p e bs" using assms(1) by (rule fd_okE)
  let ?r = "drop (file_pos f s) (file_content f s)"
  obtain n l m where sl: "scan_line (nat sz) ?r = (n, l, m)" by (metis prod_cases3)
  obtain s' e' where "getline_loop K f sz 0 [] s = Some (int n, l, s')" "fd_view f s' p e' bs"
    "file_content f s' = file_content f s"
    using getline_loop_spec [OF v assms(2) _ sl, of sz 0 K "[]"] assms(3) by auto
  moreover have "n = min (nat sz) (length (takeWhile not_eol ?r))"
    "l = take (nat sz) (takeWhile not_eol ?r) @ (if length (takeWhile not_eol ?r) < nat sz then [0] else [])"
    using scan_line_result [of "nat sz" ?r] sl by auto
  ultimately show ?thesis
    using fd_view_check [OF v] by (auto simp: ramdisk_getline_def E_OK_def Let_def intro: fd_okI)
qed

theorem getline_delivers_line_witness:
  "\<exists>s'. ramdisk_getline demo_kern 4 10 (demo_at 1) = Some (1, [105, 0], s')"
  using getline_delivers_line [of 4 "demo_at 1" 10 demo_kern]
  by (auto simp: demo_fd_ok demo_modes demo_content demo_pos not_eol_def)

end
