(* ===== verification/Ram_Keep.thy ===== *)
theory Ram_Keep
  imports Ram_Data Ram_Ops
begin

text \<open>
  What a change of attributes leaves alone (\<open>dir_keep\<close>), when a directory and a descriptor
  are well formed (\<open>dir_ok\<close>, \<open>dd_ok\<close>), and the contract \<open>entry_action\<close> between
  \<open>work_entry\<close> and the actions it is called with.
\<close>

subsection \<open>What changes of attributes leave alone\<close>

definition ftype :: "DIRENTRY \<Rightarrow> mode16" where
  "ftype e = mode_of e AND S_IFMT"

definition ent_keep :: "DIRENTRY \<Rightarrow> DIRENTRY \<Rightarrow> bool" where
  "ent_keep e e' \<longleftrightarrow>
     de_fname e' = de_fname e \<and> de_faddr e' = de_faddr e \<and> de_nr e' = de_nr e \<and> de_maxnr e' = de_maxnr e
     \<and> ftype e' = ftype e
     \<and> (is_dir (mode_of e) \<or> st_size (de_xattr e') = st_size (de_xattr e)
          \<and> st_blocks (de_xattr e') = st_blocks (de_xattr e))"

lemma types_ftype:
  "is_dir (mode_of e) \<longleftrightarrow> ftype e = S_IFDIR" "is_file (mode_of e) \<longleftrightarrow> ftype e = S_IFREG"
  "is_link (mode_of e) \<longleftrightarrow> ftype e = S_IFLNK"
  by (simp_all add: ftype_def is_dir_def is_file_def is_link_def)

lemma ent_keep_refl [simp]: "ent_keep e e"
  by (simp add: ent_keep_def)

lemma ent_keep_trans: "ent_keep e f \<Longrightarrow> ent_keep f g \<Longrightarrow> ent_keep e g"
  by (auto simp: ent_keep_def types_ftype)

lemma ent_keep_sym: "ent_keep e f \<Longrightarrow> ent_keep f e"
  by (auto simp: ent_keep_def types_ftype)

lemma ent_keepD:
  assumes "ent_keep e e'"
  shows "de_fname e' = de_fname e" "de_faddr e' = de_faddr e" "de_nr e' = de_nr e" "de_maxnr e' = de_maxnr e"
    "is_dir (mode_of e') = is_dir (mode_of e)" "is_file (mode_of e') = is_file (mode_of e)"
    "is_link (mode_of e') = is_link (mode_of e)"
  using assms by (simp_all add: ent_keep_def types_ftype)

lemma ent_keep_dir: "is_dir (mode_of e) \<Longrightarrow> is_dir (st_mode xa) \<Longrightarrow> ent_keep e (e\<lparr>de_xattr := xa\<rparr>)"
  by (simp add: ent_keep_def ftype_def is_dir_def)

fun obj_keep :: "hobj option \<Rightarrow> hobj option \<Rightarrow> bool" where
  "obj_keep (Some (DirBlk es)) (Some (DirBlk es')) \<longleftrightarrow> list_all2 ent_keep es es'"
| "obj_keep x y \<longleftrightarrow> x = y"

lemma obj_keep_refl [simp]: "obj_keep x x"
  by (cases "(x, x)" rule: obj_keep.cases) (auto simp: list_all2_refl)

lemma obj_keep_DirBlk: "obj_keep (Some (DirBlk es)) y \<longleftrightarrow> (\<exists>es'. y = Some (DirBlk es') \<and> list_all2 ent_keep es es')"
  by (cases "(Some (DirBlk es), y)" rule: obj_keep.cases) auto

lemma obj_keep_other: "(\<And>es. x \<noteq> Some (DirBlk es)) \<Longrightarrow> obj_keep x y \<longleftrightarrow> y = x"
  by (cases "(x, y)" rule: obj_keep.cases) auto

lemma obj_keep_trans: "obj_keep x y \<Longrightarrow> obj_keep y z \<Longrightarrow> obj_keep x z"
proof (cases "\<exists>es. x = Some (DirBlk es)")
  case True
  then show "obj_keep x y \<Longrightarrow> obj_keep y z \<Longrightarrow> obj_keep x z"
    by (auto simp: obj_keep_DirBlk list_all2_conv_all_nth) (meson ent_keep_trans)
next
  case False
  then show "obj_keep x y \<Longrightarrow> obj_keep y z \<Longrightarrow> obj_keep x z"
    using obj_keep_other [of x y] by blast
qed

text \<open>The memory after a change of attributes: the same objects, the same entries.\<close>

definition dir_keep :: "'m ram \<Rightarrow> 'm ram \<Rightarrow> bool" where
  "dir_keep s s' \<longleftrightarrow> mem_step s s' \<and> (\<forall>a. obj_keep (heap s a) (heap s' a))"

lemma dir_keep_refl [simp]: "dir_keep s s"
  by (simp add: dir_keep_def)

lemma dir_keep_mem [simp]: "dir_keep s (s\<lparr>mem := m\<rparr>)"
  by (simp add: dir_keep_def)

lemma dir_keep_trans: "dir_keep s t \<Longrightarrow> dir_keep t u \<Longrightarrow> dir_keep s u"
  by (auto simp: dir_keep_def intro: mem_step_trans obj_keep_trans)

lemma dir_keep_dom: "dir_keep s s' \<Longrightarrow> dom (heap s') = dom (heap s)"
proof -
  assume k: "dir_keep s s'"
  have "heap s' a = None \<longleftrightarrow> heap s a = None" for a
  proof -
    have "obj_keep (heap s a) (heap s' a)" using k by (simp add: dir_keep_def)
    then show ?thesis by (cases "(heap s a, heap s' a)" rule: obj_keep.cases) auto
  qed
  then show ?thesis by (simp add: dom_def)
qed

lemma dir_keep_dir_at:
  assumes "dir_keep s s'" "dir_at a s = Some es"
  obtains es' where "dir_at a s' = Some es'" "list_all2 ent_keep es es'"
  using assms
  by (auto simp: dir_keep_def dir_at_def obj_keep_DirBlk split: option.splits hobj.splits dest!: spec [of _ a])

lemma dir_keep_get_de:
  assumes "dir_keep s s'" "get_de p s = Some e"
  obtains e' where "get_de p s' = Some e'" "ent_keep e e'"
proof -
  obtain es where es: "dir_at (fst p) s = Some es" "snd p < length es" "e = es ! snd p"
    using assms(2) by (auto simp: get_de_def bind_eq_Some_conv split: if_splits)
  obtain es' where "dir_at (fst p) s' = Some es'" "list_all2 ent_keep es es'"
    using dir_keep_dir_at [OF assms(1) es(1)] .
  with es that show thesis by (auto simp: get_de_def list_all2_conv_all_nth)
qed

lemma put_de_keep:
  assumes "get_de p s = Some e" "ent_keep e e'"
  obtains s' where "put_de p e' s = Some s'" "dir_keep s s'" "get_de p s' = Some e'"
    "\<forall>q. q \<noteq> p \<longrightarrow> get_de q s' = get_de q s" "mem s' = mem s"
proof -
  obtain es where es: "put_de p e' s = Some (s\<lparr>heap := (heap s)(fst p \<mapsto> DirBlk (es[snd p := e']))\<rparr>)"
    "heap s (fst p) = Some (DirBlk es)" "snd p < length es" "e = es ! snd p"
    using put_de_Some [OF assms(1)] .
  let ?s = "s\<lparr>heap := (heap s)(fst p \<mapsto> DirBlk (es[snd p := e']))\<rparr>"
  have "dir_keep s ?s"
    using es assms(2) by (auto simp: dir_keep_def list_all2_conv_all_nth nth_list_update)
  moreover have "get_de p ?s = Some e'" using es by (simp add: get_de_def dir_at_def)
  moreover have "get_de q ?s = get_de q s" if "q \<noteq> p" for q
    using es that by (cases p; cases q) (auto simp: get_de_def dir_at_def)
  ultimately show thesis using that es(1) by simp
qed

subsection \<open>Directories and the entries that stand for them\<close>

text \<open>Every subdirectory has an entry \<open>..\<close>.\<close>

definition subdirs_ok :: "addr \<Rightarrow> 'm ram \<Rightarrow> bool" where
  "subdirs_ok a s \<longleftrightarrow> (\<forall>i e. 2 \<le> i \<longrightarrow> get_de (a, i) s = Some e \<longrightarrow> de_faddr e \<noteq> 0 \<longrightarrow> is_dir (mode_of e) \<longrightarrow>
     (\<exists>h. get_de (de_faddr e, 1) s = Some h \<and> is_dir (mode_of h)))"

lemma dir_keep_get_de_back:
  assumes "dir_keep s s'" "get_de p s' = Some e'"
  obtains e where "get_de p s = Some e" "ent_keep e e'"
proof -
  obtain es' where es': "heap s' (fst p) = Some (DirBlk es')" "snd p < length es'" "e' = es' ! snd p"
    using assms(2) by (auto simp: get_de_def dir_at_def bind_eq_Some_conv split: if_splits option.splits hobj.splits)
  have "obj_keep (heap s (fst p)) (Some (DirBlk es'))" using assms(1) es'(1) by (metis dir_keep_def)
  then obtain es where "heap s (fst p) = Some (DirBlk es)" "list_all2 ent_keep es es'"
    by (cases "(heap s (fst p), Some (DirBlk es'))" rule: obj_keep.cases) auto
  with es' that show thesis by (auto simp: get_de_def dir_at_def list_all2_conv_all_nth)
qed

lemma subdirs_ok_keep:
  assumes "subdirs_ok a s" "dir_keep s s'"
  shows "subdirs_ok a s'"
  unfolding subdirs_ok_def
proof (intro allI impI)
  fix i e' assume i: "2 \<le> i" "get_de (a, i) s' = Some e'" "de_faddr e' \<noteq> 0" "is_dir (mode_of e')"
  obtain e where e: "get_de (a, i) s = Some e" "ent_keep e e'" using dir_keep_get_de_back [OF assms(2) i(2)] .
  then have "\<exists>h. get_de (de_faddr e, 1) s = Some h \<and> is_dir (mode_of h)"
    using assms(1) i ent_keepD [OF e(2)] unfolding subdirs_ok_def by metis
  then show "\<exists>h. get_de (de_faddr e', 1) s' = Some h \<and> is_dir (mode_of h)"
    using dir_keep_get_de [OF assms(2)] ent_keepD [OF e(2)] ent_keepD(5) by metis
qed

lemma upd_children_total:
  assumes "subdirs_ok a s" "is_dir (st_mode new)" "\<forall>i \<in> set is. 2 \<le> i \<and> get_de (a, i) s \<noteq> None"
  shows "\<exists>s'. upd_children new a is s = Some s' \<and> dir_keep s s' \<and> mem s' = mem s
           \<and> (\<forall>q. snd q \<noteq> 1 \<longrightarrow> get_de q s' = get_de q s)
           \<and> (\<forall>q h. get_de q s = Some h \<longrightarrow> de_xattr h = new \<longrightarrow> get_de q s' = Some h)
           \<and> (\<forall>i \<in> set is. \<forall>e. get_de (a, i) s = Some e \<longrightarrow> de_faddr e \<noteq> 0 \<longrightarrow> is_dir (mode_of e) \<longrightarrow>
                (\<exists>h. get_de (de_faddr e, 1) s' = Some h \<and> de_xattr h = new))"
  using assms
proof (induction "is" arbitrary: s)
  case Nil then show ?case by simp
next
  case (Cons i "is")
  obtain e where e: "get_de (a, i) s = Some e" using Cons.prems(3) by auto
  obtain s1 where s1: "dir_keep s s1" "mem s1 = mem s" "\<forall>q. snd q \<noteq> 1 \<longrightarrow> get_de q s1 = get_de q s"
    "\<forall>q h. get_de q s = Some h \<longrightarrow> de_xattr h = new \<longrightarrow> get_de q s1 = Some h"
    "de_faddr e \<noteq> 0 \<longrightarrow> is_dir (mode_of e) \<longrightarrow> (\<exists>h. get_de (de_faddr e, 1) s1 = Some h \<and> de_xattr h = new)"
    "(if de_faddr e \<noteq> 0 \<and> is_dir (mode_of e)
      then do { h \<leftarrow> get_de (de_faddr e, 1) s; put_de (de_faddr e, 1) (h\<lparr>de_xattr := new\<rparr>) s }
      else Some s) = Some s1"
  proof (cases "de_faddr e \<noteq> 0 \<and> is_dir (mode_of e)")
    case True
    with Cons.prems(1,3) e obtain h where h: "get_de (de_faddr e, 1) s = Some h" "is_dir (mode_of h)"
      unfolding subdirs_ok_def by (metis list.set_intros(1))
    obtain t where t: "put_de (de_faddr e, 1) (h\<lparr>de_xattr := new\<rparr>) s = Some t" "dir_keep s t"
      "get_de (de_faddr e, 1) t = Some (h\<lparr>de_xattr := new\<rparr>)"
      "\<forall>q. q \<noteq> (de_faddr e, 1) \<longrightarrow> get_de q t = get_de q s" "mem t = mem s"
      using put_de_keep [OF h(1) ent_keep_dir [OF h(2) Cons.prems(2)]] .
    have "get_de q t = Some g" if "get_de q s = Some g" "de_xattr g = new" for q g
    proof (cases "q = (de_faddr e, 1)")
      case True with t(3) h(1) that show ?thesis by auto
    next
      case False with t(4) that show ?thesis by metis
    qed
    then show thesis using True h(1) t by (intro that [of t]) auto
  next
    case False with that [of s] show thesis by auto
  qed
  have "\<forall>i \<in> set is. 2 \<le> i \<and> get_de (a, i) s1 \<noteq> None"
    using Cons.prems(3) dir_keep_get_de [OF s1(1)] by (metis list.set_intros(2) option.distinct(1) option.exhaust)
  from Cons.IH [OF subdirs_ok_keep [OF Cons.prems(1) s1(1)] Cons.prems(2) this]
  obtain s2 where s2: "upd_children new a is s1 = Some s2" "dir_keep s1 s2" "mem s2 = mem s1"
    "\<forall>q. snd q \<noteq> 1 \<longrightarrow> get_de q s2 = get_de q s1"
    "\<forall>q h. get_de q s1 = Some h \<longrightarrow> de_xattr h = new \<longrightarrow> get_de q s2 = Some h"
    "\<forall>i \<in> set is. \<forall>e. get_de (a, i) s1 = Some e \<longrightarrow> de_faddr e \<noteq> 0 \<longrightarrow> is_dir (mode_of e) \<longrightarrow>
                (\<exists>h. get_de (de_faddr e, 1) s2 = Some h \<and> de_xattr h = new)" by blast
  have "upd_children new a (i # is) s = Some s2" using e s1(6) s2(1) by simp
  moreover have "\<exists>h. get_de (de_faddr e', 1) s2 = Some h \<and> de_xattr h = new"
    if "j \<in> set (i # is)" "get_de (a, j) s = Some e'" "de_faddr e' \<noteq> 0" "is_dir (mode_of e')" for j e'
  proof (cases "j = i")
    case True
    then have "e' = e" using that e by simp
    then show ?thesis using s1(5) s2(5) that(3,4) by blast
  next
    case False
    then have j: "j \<in> set is" "j \<noteq> 1" using that(1) Cons.prems(3) by fastforce+
    then have "get_de (a, j) s1 = Some e'" using s1(3) that(2) by simp
    with s2(6) j that(3,4) show ?thesis by blast
  qed
  ultimately show ?case
    using s1(2,3,4) s2(3,4,5) dir_keep_trans [OF s1(1) s2(2)] by (intro exI [of _ s2]) simp
qed

text \<open>A directory as \<open>prepare_dir\<close> sets it up: the entry \<open>.\<close> describes the block.\<close>

definition dir_ok :: "addr \<Rightarrow> 'm ram \<Rightarrow> bool" where
  "dir_ok a s \<longleftrightarrow> a \<noteq> 0 \<and> subdirs_ok a s \<and>
     (\<exists>es. dir_at a s = Some es \<and> 2 \<le> length es \<and> de_fname (es ! 0) = ''.'' \<and> de_faddr (es ! 0) = a \<and>
        is_dir (mode_of (es ! 0)) \<and> 2 \<le> de_maxnr (es ! 0) \<and> de_maxnr (es ! 0) = int (length es))"

definition dd_ok :: "RAMDISK_FD \<Rightarrow> 'm ram \<Rightarrow> bool" where
  "dd_ok dd s \<longleftrightarrow> fd_dmd dd = ramdisk_dmd s \<and>
     (\<exists>q d. fd_file dd = Some q \<and> get_de q s = Some d \<and> is_dir (mode_of d) \<and> de_fname d \<noteq> ''..'' \<and>
        dir_ok (de_faddr d) s)"

lemma dir_ok_keep:
  assumes "dir_ok a s" "dir_keep s s'"
  shows "dir_ok a s'"
proof -
  obtain es where es: "dir_at a s = Some es" "2 \<le> length es" "de_fname (es ! 0) = ''.''" "de_faddr (es ! 0) = a"
    "is_dir (mode_of (es ! 0))" "2 \<le> de_maxnr (es ! 0)" "de_maxnr (es ! 0) = int (length es)"
    using assms(1) by (auto simp: dir_ok_def)
  obtain es' where es': "dir_at a s' = Some es'" "list_all2 ent_keep es es'"
    using dir_keep_dir_at [OF assms(2) es(1)] .
  have l: "length es' = length es" using list_all2_lengthD [OF es'(2)] by simp
  have "ent_keep (es ! 0) (es' ! 0)" by (rule list_all2_nthD [OF es'(2)]) (use es(2) in auto)
  note ent_keepD [OF this]
  with es es' l subdirs_ok_keep [OF _ assms(2), of a] assms(1) show ?thesis
    unfolding dir_ok_def by auto
qed

lemma dd_ok_keep:
  assumes "dd_ok dd s" "dir_keep s s'"
  shows "dd_ok dd s'"
proof -
  obtain q d where q: "fd_dmd dd = ramdisk_dmd s" "fd_file dd = Some q" "get_de q s = Some d" "is_dir (mode_of d)"
    "de_fname d \<noteq> ''..''" "dir_ok (de_faddr d) s" using assms(1) by (auto simp: dd_ok_def)
  obtain d' where "get_de q s' = Some d'" "ent_keep d d'" using dir_keep_get_de [OF assms(2) q(3)] .
  moreover note ent_keepD [OF this(2)] dir_ok_keep [OF q(6) assms(2)]
  moreover have "ramdisk_dmd s' = ramdisk_dmd s" using assms(2) by (auto simp: dir_keep_def dest: mem_step_fields(3))
  ultimately show ?thesis using q unfolding dd_ok_def by auto
qed

subsection \<open>Touching a directory\<close>

lemma dd_okE:
  assumes "dd_ok dd s"
  obtains q d es where "fd_dmd dd = ramdisk_dmd s" "fd_file dd = Some q" "get_de q s = Some d"
    "is_dir (mode_of d)" "de_fname d \<noteq> ''..''" "dir_ok (de_faddr d) s"
    "dir_at (de_faddr d) s = Some es" "2 \<le> length es" "de_fname (es ! 0) = ''.''"
    "de_faddr (es ! 0) = de_faddr d" "is_dir (mode_of (es ! 0))" "de_maxnr (es ! 0) = int (length es)"
    "de_faddr d \<noteq> 0"
proof -
  from assms obtain q d where q: "fd_dmd dd = ramdisk_dmd s" "fd_file dd = Some q" "get_de q s = Some d"
    "is_dir (mode_of d)" "de_fname d \<noteq> ''..''" "dir_ok (de_faddr d) s"
    unfolding dd_ok_def by blast
  from q(6) show thesis unfolding dir_ok_def by (elim exE conjE) (rule that [OF q])
qed

lemma dd_ok_check: "dd_ok dd s \<Longrightarrow> check_dd dd s = Some E_OK"
  by (auto simp: dd_ok_def check_dd_def fd_entry_def)

text \<open>The entry \<open>.\<close> is always found first.\<close>

lemma scan_from_hit: "i < hi \<Longrightarrow> i < length xs \<Longrightarrow> P (xs ! i) \<Longrightarrow> scan_from P xs i hi = Some (Some i)"
  by (subst scan_from.simps) simp

lemma find_dot:
  assumes "es \<noteq> []" "0 < maxnr" "de_fname (es ! 0) = ''.''" "de_faddr (es ! 0) \<noteq> 0"
  shows "find_in d ''.'' 0 FF_SEARCH es maxnr = Some (Some 0)"
proof -
  have "scan_from (named ''.'') es 0 maxnr = Some (Some 0)"
    by (rule scan_from_hit) (use assms in \<open>auto simp: named_def\<close>)
  moreover have "take RAM_MAXFNAME ''.'' = ''.''" by (simp add: RAM_MAXFNAME_def)
  ultimately show ?thesis by (simp add: find_in_def)
qed

lemma findfile_dot:
  assumes "dd_ok dd s" "fd_entry dd s = Some d"
  shows "findfile K dd ''.'' 0 FF_SEARCH True s = Some (if xaccess d then Some (de_faddr d, 0) else None)"
proof -
  obtain q d' es where q: "fd_dmd dd = ramdisk_dmd s" "fd_file dd = Some q" "get_de q s = Some d'"
    "is_dir (mode_of d')" "de_fname d' \<noteq> ''..''" "dir_ok (de_faddr d') s"
    "dir_at (de_faddr d') s = Some es" "2 \<le> length es" "de_fname (es ! 0) = ''.''"
    "de_faddr (es ! 0) = de_faddr d'" "is_dir (mode_of (es ! 0))" "de_maxnr (es ! 0) = int (length es)"
    "de_faddr d' \<noteq> 0"
    using assms(1) by (rule dd_okE)
  have d: "d' = d" using q assms(2) by (simp add: fd_entry_def)
  have "find_in D ''.'' 0 FF_SEARCH es (length es) = Some (Some 0)" for D
    by (rule find_dot) (use q in auto)
  moreover have "get_de (de_faddr d, 0) s = Some (es ! 0)" using q d by (auto simp: get_de_def)
  ultimately show ?thesis
    using assms(2) q d by (simp add: findfile_def)
qed

text \<open>All entries that stand for the directory of \<open>dd\<close> hold the attributes \<open>xa\<close>.\<close>

definition same_xattr :: "de_ptr \<Rightarrow> addr \<Rightarrow> XATTR \<Rightarrow> 'm ram \<Rightarrow> bool" where
  "same_xattr q a xa s \<longleftrightarrow>
     (\<exists>e. get_de q s = Some e \<and> de_xattr e = xa) \<and>
     (\<exists>e. get_de (a, 0) s = Some e \<and> de_xattr e = xa) \<and>
     (\<forall>i e. 2 \<le> i \<longrightarrow> get_de (a, i) s = Some e \<longrightarrow> de_faddr e \<noteq> 0 \<longrightarrow> is_dir (mode_of e) \<longrightarrow>
        (\<exists>h. get_de (de_faddr e, 1) s = Some h \<and> de_xattr h = xa))"

lemma upd_children_same:
  assumes "dir_ok a s" "is_dir (st_mode xa)" "get_de q s = Some e" "de_xattr e = xa"
    and "get_de (a, 0) s = Some e0" "de_xattr e0 = xa"
  shows "\<exists>s'. upd_children xa a [2..<nat (de_maxnr e0)] s = Some s' \<and> dir_keep s s' \<and> mem s' = mem s
           \<and> same_xattr q a xa s'"
proof -
  obtain es where es: "dir_at a s = Some es" "2 \<le> length es" "de_maxnr (es ! 0) = int (length es)" and sub: "subdirs_ok a s"
    using assms(1) by (auto simp: dir_ok_def)
  then have e0: "e0 = es ! 0" using assms(5) by (auto simp: get_de_def split: if_splits)
  have "\<forall>i \<in> set [2..<nat (de_maxnr e0)]. 2 \<le> i \<and> get_de (a, i) s \<noteq> None"
    using es e0 by (auto simp: get_de_def)
  from upd_children_total [OF sub assms(2) this] obtain s' where s':
    "upd_children xa a [2..<nat (de_maxnr e0)] s = Some s'" "dir_keep s s'" "mem s' = mem s"
    and ne1: "\<forall>q. snd q \<noteq> 1 \<longrightarrow> get_de q s' = get_de q s"
    and kx: "\<forall>q h. get_de q s = Some h \<longrightarrow> de_xattr h = xa \<longrightarrow> get_de q s' = Some h"
    and ch: "\<forall>i \<in> set [2..<nat (de_maxnr e0)]. \<forall>e. get_de (a, i) s = Some e \<longrightarrow> de_faddr e \<noteq> 0 \<longrightarrow>
      is_dir (mode_of e) \<longrightarrow> (\<exists>h. get_de (de_faddr e, 1) s' = Some h \<and> de_xattr h = xa)" by blast
  have "\<exists>h. get_de (de_faddr f, 1) s' = Some h \<and> de_xattr h = xa"
    if "2 \<le> i" "get_de (a, i) s' = Some f" "de_faddr f \<noteq> 0" "is_dir (mode_of f)" for i f
  proof -
    have g: "get_de (a, i) s = Some f" using ne1 that(1,2) by simp
    then have "i < length es" using es(1) by (simp add: get_de_def split: if_splits)
    then have "i \<in> set [2..<nat (de_maxnr e0)]" using that(1) es(3) e0 by simp
    with ch g that(3,4) show ?thesis by blast
  qed
  with s' kx assms(3-6) show ?thesis unfolding same_xattr_def by blast
qed

lemma upd_representatives_total:
  assumes dd: "dd_ok dd s" "fd_entry dd s = Some d" "get_de (de_faddr d, 0) s = Some e0" "fd_file dd = Some q"
  shows "\<exists>s'. upd_representatives dd (de_faddr d, 0) s = Some s' \<and> dir_keep s s' \<and> mem s' = mem s
           \<and> same_xattr q (de_faddr d) (de_xattr e0) s'"
proof -
  obtain q' d' es where q: "fd_dmd dd = ramdisk_dmd s" "fd_file dd = Some q'" "get_de q' s = Some d'"
    "is_dir (mode_of d')" "de_fname d' \<noteq> ''..''" "dir_ok (de_faddr d') s"
    "dir_at (de_faddr d') s = Some es" "2 \<le> length es" "de_fname (es ! 0) = ''.''"
    "de_faddr (es ! 0) = de_faddr d'" "is_dir (mode_of (es ! 0))" "de_maxnr (es ! 0) = int (length es)"
    "de_faddr d' \<noteq> 0"
    using dd(1) by (rule dd_okE)
  have d: "d' = d" "q' = q" using q dd(2,4) by (simp_all add: fd_entry_def)
  have e0: "es ! 0 = e0" using q d dd(3) by (auto simp: get_de_def split: if_splits)
  let ?a = "de_faddr d" and ?new = "de_xattr e0"
  have isd: "is_dir (st_mode ?new)" using q e0 by simp
  obtain s1 where s1: "put_de q (d\<lparr>de_xattr := ?new\<rparr>) s = Some s1" "dir_keep s s1"
    "get_de q s1 = Some (d\<lparr>de_xattr := ?new\<rparr>)" "mem s1 = mem s"
    using put_de_keep [OF q(3) ent_keep_dir [OF q(4) isd]] d by metis
  obtain f0 where f0: "get_de (?a, 0) s1 = Some f0" "ent_keep e0 f0" using dir_keep_get_de [OF s1(2) dd(3)] .
  note fk = ent_keepD [OF f0(2)]
  have "is_dir (mode_of f0)" using fk(5) q(11) e0 by simp
  then obtain s2 where s2: "put_de (?a, 0) (f0\<lparr>de_xattr := ?new\<rparr>) s1 = Some s2" "dir_keep s1 s2"
    "get_de (?a, 0) s2 = Some (f0\<lparr>de_xattr := ?new\<rparr>)" "\<forall>p. p \<noteq> (?a, 0) \<longrightarrow> get_de p s2 = get_de p s1" "mem s2 = mem s1"
    using put_de_keep [OF f0(1) ent_keep_dir [OF _ isd]] by metis
  have k2: "dir_keep s s2" using s1(2) s2(2) by (rule dir_keep_trans)
  obtain e where e: "get_de q s2 = Some e" "de_xattr e = ?new"
  proof (cases "q = (?a, 0)")
    case True with s2(3) that show thesis by simp
  next
    case False
    then have "get_de q s2 = get_de q s1" using s2(4) by metis
    with s1(3) that show thesis by simp
  qed
  have "dir_ok ?a s2" using dir_ok_keep [OF q(6) k2] d by simp
  from upd_children_same [OF this isd e s2(3)] obtain s3 where s3:
    "upd_children ?new ?a [2..<nat (de_maxnr f0)] s2 = Some s3" "dir_keep s2 s3" "mem s3 = mem s2"
    "same_xattr q ?a ?new s3" by auto
  have "upd_representatives dd (?a, 0) s = Some s3"
    using q d e0 dd(3) s1(1) f0(1) s2(1) s3(1) by (simp add: upd_representatives_def Let_def)
  with s1 s2 s3 dir_keep_trans [OF k2 s3(2)] show ?thesis by auto
qed

lemma set_amtime_keep: "set_amtime b K e m = (r, e', m') \<Longrightarrow> ent_keep e e'"
  by (auto simp: set_amtime_def ent_keep_def ftype_def split: prod.splits if_splits)

lemma set_amtime_result: "\<exists>t. set_amtime b K e m = (E_OK, e\<lparr>de_xattr := (if b then (de_xattr e)\<lparr>st_atim := t\<rparr>
                           else (de_xattr e)\<lparr>st_mtim := t\<rparr>)\<rparr>, snd (now K m))"
  by (auto simp: set_amtime_def split: prod.splits)

lemma touch_dir_total:
  assumes "dd_ok dd s" "fd_entry dd s = Some d" "fd_file dd = Some q"
  shows "\<exists>s'. touch_dir K dd at s = Some s' \<and> dir_keep s s' \<and> dd_ok dd s'
     \<and> (if xaccess d then mem s' = snd (now K (mem s)) \<and> (\<exists>xa. same_xattr q (de_faddr d) xa s'
            \<and> (if at then st_atim xa else st_mtim xa) = fst (now K (mem s)))
        else s' = s)"
proof -
  obtain q' d' es where q: "fd_dmd dd = ramdisk_dmd s" "fd_file dd = Some q'" "get_de q' s = Some d'"
    "is_dir (mode_of d')" "de_fname d' \<noteq> ''..''" "dir_ok (de_faddr d') s"
    "dir_at (de_faddr d') s = Some es" "2 \<le> length es" "de_fname (es ! 0) = ''.''"
    "de_faddr (es ! 0) = de_faddr d'" "is_dir (mode_of (es ! 0))" "de_maxnr (es ! 0) = int (length es)"
    "de_faddr d' \<noteq> 0"
    using assms(1) by (rule dd_okE)
  have d: "d' = d" "q' = q" using q assms(2,3) by (simp_all add: fd_entry_def)
  have e0: "get_de (de_faddr d, 0) s = Some (es ! 0)" using q d by (auto simp: get_de_def)
  show ?thesis
  proof (cases "xaccess d")
    case False
    then show ?thesis
      using findfile_dot [OF assms(1,2), of K] dd_ok_check [OF assms(1)] assms
      by (auto simp: touch_dir_def work_entry_def E_OK_def)
  next
    case True
    define e1 where "e1 = (es ! 0)\<lparr>de_xattr := (if at then (de_xattr (es ! 0))\<lparr>st_atim := fst (now K (mem s))\<rparr>
                           else (de_xattr (es ! 0))\<lparr>st_mtim := fst (now K (mem s))\<rparr>)\<rparr>"
    have act: "set_amtime at K (es ! 0) (mem s) = (E_OK, e1, snd (now K (mem s)))"
      by (simp add: set_amtime_def e1_def split: prod.splits)
    have ek: "ent_keep (es ! 0) e1" by (rule set_amtime_keep [OF act])
    let ?s0 = "s\<lparr>mem := snd (now K (mem s))\<rparr>"
    have e0': "get_de (de_faddr d, 0) ?s0 = Some (es ! 0)" using e0 by (simp add: get_de_def dir_at_def)
    obtain s1 where s1: "put_de (de_faddr d, 0) e1 ?s0 = Some s1" "dir_keep ?s0 s1" "get_de (de_faddr d, 0) s1 = Some e1"
      "mem s1 = mem ?s0" using put_de_keep [OF e0' ek] by metis
    have k1: "dir_keep s s1" by (rule dir_keep_trans [OF dir_keep_mem s1(2)])
    have dd1: "dd_ok dd s1" by (rule dd_ok_keep [OF assms(1) k1])
    obtain d1 where d1: "get_de q s1 = Some d1" "ent_keep d d1" using dir_keep_get_de [OF k1] q(3) d by blast
    have f1: "fd_entry dd s1 = Some d1" "de_faddr d1 = de_faddr d" using d1 assms(3) ent_keepD(2) by (simp_all add: fd_entry_def)
    obtain s2 where s2: "upd_representatives dd (de_faddr d, 0) s1 = Some s2" "dir_keep s1 s2" "mem s2 = mem s1"
      "same_xattr q (de_faddr d) (de_xattr e1) s2"
      using upd_representatives_total [OF dd1 f1(1) _ assms(3), of e1] s1(3) f1(2) by auto
    have "is_dir (mode_of e1)" "\<not> is_link (mode_of (es ! 0))" using ent_keepD(5) [OF ek] q by (auto dest: file_type_exclusive)
    then have "touch_dir K dd at s = Some s2"
      using findfile_dot [OF assms(1,2), of K] dd_ok_check [OF assms(1)] True e0 assms(2) q d act s1(1) s2(1)
      by (simp add: touch_dir_def work_entry_def E_OK_def)
    moreover have "dir_keep s s2" by (rule dir_keep_trans [OF k1 s2(2)])
    moreover have "(if at then st_atim (de_xattr e1) else st_mtim (de_xattr e1)) = fst (now K (mem s))"
      by (simp add: e1_def)
    ultimately show ?thesis using dd_ok_keep [OF assms(1)] s1(4) s2(3,4) True by auto
  qed
qed

subsection \<open>The contract of an action\<close>

text \<open>
  What \<open>work_entry\<close> relies on: an action keeps what an entry is and where its data are,
  and it allocates nothing.
\<close>

locale entry_action =
  fixes act :: "'m action"
  assumes act_keep: "act K e m = (r, e', m') \<Longrightarrow> ent_keep e e'"
    and act_live: "kern_ok K live \<Longrightarrow> act K e m = (r, e', m') \<Longrightarrow> live m' = live m"
begin

lemma on_plain_entry:
  assumes dd: "dd_ok dd s" and d: "fd_entry dd s = Some d"
    and f: "findfile K dd name 0 FF_SEARCH True s = Some (Some p)" "get_de p s = Some e"
    and t: "\<not> is_dir (mode_of e)" "\<not> (is_link (mode_of e) \<and> wl)"
    and w: "wflag \<longrightarrow> de_faddr d = de_faddr e \<or> waccess d"
    and a: "act K e (mem s) = (r, e', m')"
  shows "\<exists>s'. work_entry K dd name wl wflag (Some act) s = Some (r, None, s') \<and> dir_keep s s'
           \<and> get_de p s' = Some e' \<and> (\<forall>q. q \<noteq> p \<longrightarrow> get_de q s' = get_de q s) \<and> mem s' = m'"
proof -
  have k: "ent_keep e e'" by (rule act_keep [OF a])
  let ?s0 = "s\<lparr>mem := m'\<rparr>"
  have "get_de p ?s0 = Some e" using f(2) by (simp add: get_de_def dir_at_def)
  then obtain s' where s': "put_de p e' ?s0 = Some s'" "dir_keep ?s0 s'" "get_de p s' = Some e'"
    "\<forall>q. q \<noteq> p \<longrightarrow> get_de q s' = get_de q ?s0" "mem s' = mem ?s0"
    using put_de_keep [OF _ k] by blast
  have "get_de q ?s0 = get_de q s" for q by (simp add: get_de_def dir_at_def)
  then have "\<forall>q. q \<noteq> p \<longrightarrow> get_de q s' = get_de q s" using s'(4) by simp
  moreover have "work_entry K dd name wl wflag (Some act) s = Some (r, None, s')"
    using dd_ok_check [OF dd] d f t w a s'(1) ent_keepD(5) [OF k]
    by (auto simp: work_entry_def E_OK_def)
  moreover have "dir_keep s s'" by (rule dir_keep_trans [OF dir_keep_mem s'(2)])
  ultimately show ?thesis using s'(3,5) by auto
qed

end

lemma set_amtime_live: "kern_ok K live \<Longrightarrow> set_amtime b K e m = (r, e', m') \<Longrightarrow> live m' = live m"
  by (auto simp: set_amtime_def dest: kern_ok_now split: prod.splits)

interpretation amtime: entry_action "set_amtime b" for b
  by unfold_locales (rule set_amtime_keep set_amtime_live; assumption)+

lemma type_bits:
  fixes m x :: mode16
  shows "(m AND NOT S_IWALL) AND S_IFMT = m AND S_IFMT"
    "(m OR S_IWALL) AND S_IFMT = m AND S_IFMT"
    "((m AND S_IFMT) OR (x AND 0xFFF)) AND S_IFMT = m AND S_IFMT"
proof -
  have "NOT S_IWALL AND S_IFMT = S_IFMT" by (simp add: mode_defs)
  then show "(m AND NOT S_IWALL) AND S_IFMT = m AND S_IFMT" by (simp add: and.assoc)
  have "S_IWALL AND S_IFMT = 0" by (simp add: mode_defs)
  then show "(m OR S_IWALL) AND S_IFMT = m AND S_IFMT" by (simp add: bit.conj_disj_distrib2)
  have "0xFFF AND S_IFMT = 0" by (simp add: mode_defs)
  then show "((m AND S_IFMT) OR (x AND 0xFFF)) AND S_IFMT = m AND S_IFMT"
    by (simp add: bit.conj_disj_distrib2 and.assoc)
qed

lemma attrib_action_keep: "attrib_action rw a K e m = (r, e', m') \<Longrightarrow> ent_keep e e' \<and> m' = m"
  by (auto simp: attrib_action_def ent_keep_def ftype_def Let_def type_bits)

lemma chmod_action_keep: "chmod_action (x AND 0xFFF) K e m = (r, e', m') \<Longrightarrow> ent_keep e e' \<and> m' = m"
  by (auto simp: chmod_action_def ent_keep_def ftype_def Let_def type_bits)

lemma dcntl_action_keep: "dcntl_action cmd arg K e m = (r, e', m') \<Longrightarrow> ent_keep e e'"
  by (auto simp: dcntl_action_def futime_def ent_keep_def ftype_def split: prod.splits if_splits option.splits)

lemma dcntl_action_live:
  "kern_ok K live \<Longrightarrow> dcntl_action cmd arg K e m = (r, e', m') \<Longrightarrow> live m' = live m"
  by (auto simp: dcntl_action_def dest: kern_ok_now split: prod.splits if_splits)

interpretation attrib: entry_action "attrib_action rw a" for rw a
  by unfold_locales (auto dest!: attrib_action_keep)

interpretation chmod: entry_action "chmod_action (x AND 0xFFF)" for x
  by unfold_locales (auto dest!: chmod_action_keep)

interpretation dcntl: entry_action "dcntl_action cmd arg" for cmd arg
  by unfold_locales (rule dcntl_action_keep dcntl_action_live; assumption)+

end
