(* ===== verification/Ram_Create.thy ===== *)
theory Ram_Create
  imports Ram_Keep
begin

text \<open>
  Creating and deleting files: \<open>new_file\<close>, the parts of \<open>ramdisk_fopen\<close> and
  \<open>ramdisk_fdelete\<close>, and what they leave well formed.
\<close>

subsection \<open>Storing an entry\<close>

lemma put_de_cases:
  assumes "get_de p s = Some e0"
  obtains s' where "put_de p e s = Some s'" "get_de p s' = Some e" "\<forall>q. q \<noteq> p \<longrightarrow> get_de q s' = get_de q s"
    "mem s' = mem s" "mem_step s s'" "dom (heap s') = dom (heap s)"
    "\<forall>a. a \<noteq> fst p \<longrightarrow> heap s' a = heap s a"
    "\<forall>es. dir_at (fst p) s = Some es \<longrightarrow> dir_at (fst p) s' = Some (es[snd p := e])"
proof -
  obtain es where es: "put_de p e s = Some (s\<lparr>heap := (heap s)(fst p \<mapsto> DirBlk (es[snd p := e]))\<rparr>)"
    "heap s (fst p) = Some (DirBlk es)" "snd p < length es" "e0 = es ! snd p"
    using put_de_Some [OF assms] .
  let ?s = "s\<lparr>heap := (heap s)(fst p \<mapsto> DirBlk (es[snd p := e]))\<rparr>"
  have "get_de p ?s = Some e" using es by (simp add: get_de_def dir_at_def)
  moreover have "get_de q ?s = get_de q s" if "q \<noteq> p" for q
    using es that by (cases p; cases q) (auto simp: get_de_def dir_at_def)
  moreover have "dir_at (fst p) s = Some es" using es by (simp add: dir_at_def)
  ultimately show thesis using es by (intro that [of ?s]) (auto simp: dir_at_def)
qed

lemma get_de_Some_iff: "get_de p s = Some e \<longleftrightarrow> (\<exists>es. dir_at (fst p) s = Some es \<and> snd p < length es \<and> e = es ! snd p)"
  by (auto simp: get_de_def bind_eq_Some_conv split: if_splits)

text \<open>An entry that is not a directory, in a slot behind \<open>..\<close>, leaves every directory intact.\<close>

lemma dir_ok_put:
  assumes ok: "dir_ok b s" and p: "put_de (a, i) e s = Some s'" "2 \<le> i" "de_faddr e = 0 \<or> \<not> is_dir (mode_of e)"
  shows "dir_ok b s'"
proof -
  obtain e0 where "get_de (a, i) s = Some e0" using p(1) by (auto simp: put_de_def get_de_def split: if_splits bind_splits)
  from put_de_cases [OF this, of e] p(1) have
    self: "get_de (a, i) s' = Some e" and oth: "\<And>q. q \<noteq> (a, i) \<Longrightarrow> get_de q s' = get_de q s"
    and hp: "\<And>x. x \<noteq> a \<Longrightarrow> heap s' x = heap s x"
    and da: "\<And>es. dir_at a s = Some es \<Longrightarrow> dir_at a s' = Some (es[i := e])"
    by (metis option.inject fst_conv snd_conv)+
  obtain es where es: "dir_at b s = Some es" "2 \<le> length es" "de_fname (es ! 0) = ''.''" "de_faddr (es ! 0) = b"
    "is_dir (mode_of (es ! 0))" "2 \<le> de_maxnr (es ! 0)" "de_maxnr (es ! 0) = int (length es)"
    and sub: "subdirs_ok b s" "b \<noteq> 0"
    using ok by (auto simp: dir_ok_def)
  have "\<exists>es'. dir_at b s' = Some es' \<and> length es' = length es \<and> es' ! 0 = es ! 0"
  proof (cases "b = a")
    case True with da es(1) p(2) show ?thesis by auto
  next
    case False with hp es(1) show ?thesis by (auto simp: dir_at_def)
  qed
  moreover have "subdirs_ok b s'"
    unfolding subdirs_ok_def
  proof (intro allI impI)
    fix j f assume j: "2 \<le> j" "get_de (b, j) s' = Some f" "de_faddr f \<noteq> 0" "is_dir (mode_of f)"
    then have "(b, j) \<noteq> (a, i)" using self p(3) by auto
    then have "get_de (b, j) s = Some f" using oth j(2) by metis
    then obtain h where "get_de (de_faddr f, 1) s = Some h" "is_dir (mode_of h)"
      using sub(1) j unfolding subdirs_ok_def by blast
    moreover have "(de_faddr f, 1) \<noteq> (a, i)" using p(2) by auto
    ultimately show "\<exists>h. get_de (de_faddr f, 1) s' = Some h \<and> is_dir (mode_of h)" using oth by metis
  qed
  ultimately show ?thesis using es sub(2) unfolding dir_ok_def by metis
qed

lemma dd_ok_put:
  assumes "dd_ok dd s" "put_de (a, i) e s = Some s'" "2 \<le> i" "de_faddr e = 0 \<or> \<not> is_dir (mode_of e)" "fd_file dd \<noteq> Some (a, i)"
  shows "dd_ok dd s'"
proof -
  obtain q d where q: "fd_dmd dd = ramdisk_dmd s" "fd_file dd = Some q" "get_de q s = Some d" "is_dir (mode_of d)"
    "de_fname d \<noteq> ''..''" "dir_ok (de_faddr d) s" using assms(1) by (auto simp: dd_ok_def)
  obtain e0 where "get_de (a, i) s = Some e0" using assms(2) by (auto simp: put_de_def get_de_def split: if_splits bind_splits)
  from put_de_cases [OF this, of e] assms(2) have "\<And>q. q \<noteq> (a, i) \<Longrightarrow> get_de q s' = get_de q s" "mem_step s s'"
    by (metis option.inject)+
  then have "get_de q s' = Some d" "ramdisk_dmd s' = ramdisk_dmd s"
    using q(2,3) assms(5) mem_step_fields(3) by metis+
  then show ?thesis using q dir_ok_put [OF q(6) assms(2-4)] unfolding dd_ok_def by metis
qed

text \<open>A new object at a fresh address, and the kernel's own state, do not touch directories.\<close>

lemma get_de_fresh: "heap s b = None \<Longrightarrow> get_de p s = Some e \<Longrightarrow> get_de p (s\<lparr>mem := m, heap := (heap s)(b \<mapsto> x)\<rparr>) = Some e"
  by (auto simp: get_de_Some_iff dir_at_def split: option.splits hobj.splits if_splits)

lemma get_de_fresh_back:
  "(\<And>es. x \<noteq> DirBlk es) \<Longrightarrow> heap s b = None \<Longrightarrow> get_de p (s\<lparr>mem := m, heap := (heap s)(b \<mapsto> x)\<rparr>) = Some e \<Longrightarrow> get_de p s = Some e"
  by (auto simp: get_de_Some_iff dir_at_def split: option.splits hobj.splits if_splits)

lemma dir_ok_fresh:
  assumes "dir_ok a s" "heap s b = None" "\<And>es. x \<noteq> DirBlk es"
  shows "dir_ok a (s\<lparr>mem := m, heap := (heap s)(b \<mapsto> x)\<rparr>)"
proof -
  let ?s = "s\<lparr>mem := m, heap := (heap s)(b \<mapsto> x)\<rparr>"
  have "subdirs_ok a ?s"
    using assms(1) get_de_fresh [OF assms(2), where m = m and x = x] get_de_fresh_back [OF assms(3,2), where m = m]
    unfolding dir_ok_def subdirs_ok_def by metis
  moreover have "dir_at a s = Some es \<Longrightarrow> dir_at a ?s = Some es" for es
    using assms(2) by (auto simp: dir_at_def split: option.splits hobj.splits)
  ultimately show ?thesis using assms(1) unfolding dir_ok_def by metis
qed

lemma dd_ok_fresh:
  assumes "dd_ok dd s" "heap s b = None" "\<And>es. x \<noteq> DirBlk es"
  shows "dd_ok dd (s\<lparr>mem := m, heap := (heap s)(b \<mapsto> x)\<rparr>)"
proof -
  obtain q d where q: "fd_dmd dd = ramdisk_dmd s" "fd_file dd = Some q" "get_de q s = Some d" "is_dir (mode_of d)"
    "de_fname d \<noteq> ''..''" "dir_ok (de_faddr d) s" using assms(1) by (auto simp: dd_ok_def)
  with get_de_fresh [OF assms(2) q(3), where m = m and x = x] dir_ok_fresh [OF q(6) assms(2,3)] show ?thesis
    unfolding dd_ok_def by auto
qed

lemma dd_ok_irrelevant: 
  "dd_ok dd (s\<lparr>fds := f\<rparr>) = dd_ok dd s" "dd_ok dd (s\<lparr>mem := m\<rparr>) = dd_ok dd s"
  by (simp_all add: dd_ok_def dir_ok_def subdirs_ok_def get_de_def dir_at_def)

lemma ops_fds_irrelevant [simp]:
  "get_de p (s\<lparr>fds := f\<rparr>) = get_de p s" "dir_at a (s\<lparr>fds := f\<rparr>) = dir_at a s"
  "get_de p (s\<lparr>mem := m\<rparr>) = get_de p s" "dir_at a (s\<lparr>mem := m\<rparr>) = dir_at a s"
  by (simp_all add: get_de_def dir_at_def)

subsection \<open>A new entry\<close>

lemma kern_ok_now_snd: "kern_ok K live \<Longrightarrow> live (snd (now K m)) = live m"
  using kern_ok_now [of K live m] by (metis prod.collapse)

lemma new_file_free_slot:
  assumes dd: "dd_ok dd s" "fd_entry dd s = Some d" and nm: "check_name (eight_bit s) name"
    and acc: "waccess d" "xaccess d"
    and es: "dir_at (de_faddr d) s = Some es" "2 \<le> k" "k < length es" "de_faddr (es ! k) = 0"
  obtains i s' where "2 \<le> i" "i < length es" "de_faddr (es ! i) = 0"
    "new_file K dd name s = Some (Some (de_faddr d, i), s')"
    "get_de (de_faddr d, i) s' = Some (blank_entry (stored_name K s name) i (ramdisk_drive s) (fst (now K (mem s))))"
    "\<forall>q. q \<noteq> (de_faddr d, i) \<longrightarrow> get_de q s' = get_de q s"
    "mem s' = snd (now K (mem s))" "mem_step s s'" "dom (heap s') = dom (heap s)" "dd_ok dd s'"
    "\<forall>a. a \<noteq> de_faddr d \<longrightarrow> heap s' a = heap s a"
proof -
  obtain q d' es' where q: "fd_dmd dd = ramdisk_dmd s" "fd_file dd = Some q" "get_de q s = Some d'"
    "is_dir (mode_of d')" "de_fname d' \<noteq> ''..''" "dir_ok (de_faddr d') s"
    "dir_at (de_faddr d') s = Some es'" "2 \<le> length es'" "de_fname (es' ! 0) = ''.''"
    "de_faddr (es' ! 0) = de_faddr d'" "is_dir (mode_of (es' ! 0))" "de_maxnr (es' ! 0) = int (length es')"
    "de_faddr d' \<noteq> 0"
    using dd(1) by (rule dd_okE)
  have d: "d' = d" "es' = es" using q dd(2) es(1) by (simp_all add: fd_entry_def)
  let ?a = "de_faddr d"
  have "scan_from (\<lambda>d. de_faddr d = 0) es 2 (length es) \<noteq> Some None"
    using es scan_from_None_iff [of "length es" es "\<lambda>d. de_faddr d = 0" 2] by auto
  moreover have "scan_from (\<lambda>d. de_faddr d = 0) es 2 (length es) \<noteq> None"
    by (rule scan_from_no_fault) simp
  ultimately obtain i where sc: "scan_from (\<lambda>d. de_faddr d = 0) es 2 (length es) = Some (Some i)"
    by (metis option.exhaust)
  then have i: "2 \<le> i" "i < length es" "de_faddr (es ! i) = 0"
    using scan_from_Some_iff [of "length es" es "\<lambda>d. de_faddr d = 0" 2 i] by auto
  define b where "b = blank_entry (stored_name K s name) i (ramdisk_drive s) (fst (now K (mem s)))"
  let ?s0 = "s\<lparr>mem := snd (now K (mem s))\<rparr>"
  have "get_de (?a, i) ?s0 = Some (es ! i)" using es(1) i(2) by (simp add: get_de_def)
  then obtain s' where s': "put_de (?a, i) b ?s0 = Some s'" "get_de (?a, i) s' = Some b"
    "\<forall>q. q \<noteq> (?a, i) \<longrightarrow> get_de q s' = get_de q ?s0" "mem s' = mem ?s0" "mem_step ?s0 s'"
    "dom (heap s') = dom (heap ?s0)" "\<forall>x. x \<noteq> fst (?a, i) \<longrightarrow> heap s' x = heap ?s0 x"
    by (rule put_de_cases [where e = b])
  have ne: "fd_file dd \<noteq> Some (?a, i)"
    using q(2,3,13) d i(2,3) es(1) by (auto simp: get_de_def)
  have dd': "dd_ok dd s'"
    by (rule dd_ok_put [OF _ s'(1) i(1) _ ne]) (use dd(1) in \<open>simp_all add: dd_ok_irrelevant b_def blank_entry_def zero_de_def\<close>)
  have "get_de (?a, 0) s = Some (es ! 0)" using es(1) q(8) d by (auto simp: get_de_def)
  then have "new_file K dd name s = Some (Some (?a, i), s')"
    using nm dd(2) acc es(1) q(12) d sc s'(1)
    by (auto simp: new_file_def fill_entry_def Let_def b_def split: prod.splits)
  moreover have "mem_step s s'" by (rule mem_step_trans [OF _ s'(5)]) simp
  ultimately show thesis
    using that i s' dd' by (simp add: b_def)
qed

lemma findfd_free:
  assumes "findfd None s = (Some i, s0)"
  shows "s0 = s\<lparr>fds := (fds s)(i := zero_fd)\<rparr>" "fd_file (fds s i) = None"
  using assms by (auto simp: findfd_def find_Some_iff split: option.splits)

lemma file_entry_is_file: "is_file (mode_of (file_entry exec attrib blk e))"
  by (simp add: file_entry_def is_file_def Let_def mode_defs)

lemma blank_entry_sel [simp]:
  "de_faddr (blank_entry n i dr t) = 0" "de_fname (blank_entry n i dr t) = n"
  by (simp_all add: blank_entry_def zero_de_def)

lemma fopen_create_spec:
  assumes ok: "kern_ok K live" "mem_inv live s"
    and dd: "dd_ok (fds s dd) s" "fd_entry (fds s dd) s = Some d" and nm: "check_name (eight_bit s) name"
      "name \<noteq> ''.''" "name \<noteq> ''..''"
    and acc: "waccess d" "xaccess d" and om: "omode AND O_CREAT = O_CREAT"
    and es: "dir_at (de_faddr d) s = Some es" "2 \<le> k" "k < length es" "de_faddr (es ! k) = 0"
  shows "\<exists>r s'. fopen_create K dd name omode attrib s = Some (r, s') \<and> mem_inv live s' \<and> mem_step s s' \<and>
     (r = Inl ENSMEM \<or> (\<exists>p e blk fb. r = Inr p \<and> get_de p s' = Some e \<and> is_file (mode_of e)
        \<and> de_fname e = stored_name K s name \<and> de_faddr e = blk \<and> blk \<noteq> 0 \<and> heap s' blk = Some (FileBlk fb)
        \<and> fb_next fb = 0 \<and> st_size (de_xattr e) = 0 \<and> st_blocks (de_xattr e) = 1))"
proof -
  obtain i s1 where i: "2 \<le> i" "i < length es" "de_faddr (es ! i) = 0"
    "new_file K (fds s dd) name s = Some (Some (de_faddr d, i), s1)"
    "get_de (de_faddr d, i) s1 = Some (blank_entry (stored_name K s name) i (ramdisk_drive s) (fst (now K (mem s))))"
    and s1: "mem s1 = snd (now K (mem s))" "mem_step s s1" "dom (heap s1) = dom (heap s)" "dd_ok (fds s dd) s1"
    by (rule new_file_free_slot [OF dd nm(1) acc es, of K])
  let ?p = "(de_faddr d, i)"
  have fds1: "fds s1 = fds s" using mem_step_fields(1) [OF s1(2)] .
  have inv1: "mem_inv live s1"
    using mem_inv_cong [of live s1 s] kern_ok_now_snd [OF ok(1)] s1 mem_step_fields(5) [OF s1(2)] ok(2) by simp
  obtain r s2 where al: "Kmalloc K sizeof_FILEBLOCK s1 = (r, s2)" by fastforce
  have post: "alloc_post live s1 r s2" by (rule Kmalloc_block [OF ok(1) inv1 al])
  have inv2: "mem_inv live s2" by (rule alloc_post_mem_inv [OF post inv1])
  have st2: "mem_step s s2" using post s1(2) by (auto simp: alloc_post_def intro: mem_step_trans)
  show ?thesis
  proof (cases "r = 0")
    case True
    then have "fopen_create K dd name omode attrib s = Some (Inl ENSMEM, s2)"
      using om nm i(4) al by (simp add: fopen_create_def)
    with inv2 st2 show ?thesis by auto
  next
    case False
    then obtain m where m: "s2 = s1\<lparr>mem := m\<rparr>" "3 < r" "nat r \<notin> live (mem s1)" "live m = insert (nat r) (live (mem s1))"
      using post by (auto simp: alloc_post_def)
    let ?b = "nat r" and ?fb = "\<lparr>fb_data = k_junk K m (nat r), fb_next = 0\<rparr>"
    let ?s3 = "s1\<lparr>mem := m, heap := (heap s1)(?b \<mapsto> FileBlk ?fb)\<rparr>"
    have fresh: "heap s1 ?b = None" by (rule mem_inv_fresh [OF inv1 m(3,2)])
    have dd3: "dd_ok (fds s dd) ?s3" by (rule dd_ok_fresh [OF s1(4) fresh]) simp
    obtain q d3 where q3: "fd_file (fds s dd) = Some q" "fd_entry (fds s dd) ?s3 = Some d3"
      using dd3 by (auto simp: dd_ok_def fd_entry_def)
    obtain s4 where s4: "touch_dir K (fds s dd) False ?s3 = Some s4" "dir_keep ?s3 s4"
      "(if xaccess d3 then mem s4 = snd (now K (mem ?s3)) else s4 = ?s3)"
      using touch_dir_total [OF dd3 q3(2,1), of K False] by auto
    have p3: "get_de ?p ?s3 = Some (blank_entry (stored_name K s name) i (ramdisk_drive s) (fst (now K (mem s))))"
      by (rule get_de_fresh [OF fresh i(5)])
    obtain e4 where e4: "get_de ?p s4 = Some e4" "ent_keep (blank_entry (stored_name K s name) i (ramdisk_drive s) (fst (now K (mem s)))) e4"
      using dir_keep_get_de [OF s4(2) p3] .
    define e5 where "e5 = file_entry (omode AND OM_EXEC \<noteq> 0 \<or> has_xext (Pdomain K s4) name) attrib ?b e4"
    obtain s5 where s5: "put_de ?p e5 s4 = Some s5" "get_de ?p s5 = Some e5" "mem s5 = mem s4" "mem_step s4 s5"
      "dom (heap s5) = dom (heap s4)" "\<forall>a. a \<noteq> fst ?p \<longrightarrow> heap s5 a = heap s4 a"
      using put_de_cases [OF e4(1), of e5] by metis
    have hb: "heap s4 ?b = Some (FileBlk ?fb)"
      using s4(2) obj_keep_other [of "Some (FileBlk ?fb)"] by (auto simp: dir_keep_def dest: spec [of _ ?b])
    moreover have "?b \<noteq> de_faddr d"
      using fresh i(5) by (auto simp: get_de_Some_iff dir_at_def split: option.splits hobj.splits)
    ultimately have hb5: "heap s5 ?b = Some (FileBlk ?fb)" using s5(6) by simp
    have run: "fopen_create K dd name omode attrib s = Some (Inr ?p, s5)"
      using om nm i(4) al False m(1) s4(1) e4(1) s5(1) fds1
      by (simp add: fopen_create_def e5_def Let_def)
    have st3: "mem_step s ?s3" by (rule mem_step_trans [OF s1(2)]) simp
    have st5: "mem_step s s5"
      using st3 s4(2) s5(4) by (meson dir_keep_def mem_step_trans)
    have "live (mem s4) = live m"
      using s4(3) kern_ok_now_snd [OF ok(1)] by (cases "xaccess d3") auto
    moreover have "dom (heap s5) = insert ?b (dom (heap s1))" using s5(5) dir_keep_dom [OF s4(2)] by auto
    ultimately have inv5: "mem_inv live s5"
      using inv1 m s5(3) mem_step_fields(5) [OF st5] mem_step_fields(5) [OF s1(2)]
      by (auto simp: mem_inv_def)
    have "is_file (mode_of e5)" "de_fname e5 = stored_name K s name" "de_faddr e5 = ?b" "st_size (de_xattr e5) = 0"
      "st_blocks (de_xattr e5) = 1"
      using file_entry_is_file ent_keepD(1) [OF e4(2)] by (simp_all add: e5_def) (simp_all add: file_entry_def Let_def)
    with run inv5 st5 s5(2) hb5 m(2) show ?thesis
      by (intro exI [of _ "Inr ?p"] exI [of _ s5] conjI disjI2) auto
  qed
qed

subsection \<open>Deleting\<close>

lemma find_in_range:
  assumes "find_in D n sp m es hi = Some (Some i)" "hi \<le> length es"
  shows "sp \<le> i" "i < hi" "de_faddr (es ! i) \<noteq> 0"
proof -
  have "\<exists>P. scan_from P es sp hi = Some (Some i) \<and> (\<forall>e. P e \<longrightarrow> de_faddr e \<noteq> 0)"
    using assms(1) unfolding find_in_def Let_def
    by (auto simp: bind_eq_Some_conv named_def tos_named_def split: if_splits)
  then show "sp \<le> i" "i < hi" "de_faddr (es ! i) \<noteq> 0"
    using scan_from_Some_iff [OF assms(2)] by metis+
qed

lemma findfile_range:
  assumes dd: "dd_ok dd s" "fd_entry dd s = Some d" and f: "findfile K dd name sp m False s = Some (Some p)"
    and e: "get_de p s = Some e"
  shows "fst p = de_faddr d" "sp \<le> snd p" "de_faddr e \<noteq> 0"
proof -
  obtain q d' es where q: "fd_file dd = Some q" "get_de q s = Some d'"
    "dir_at (de_faddr d') s = Some es" "2 \<le> length es" "de_maxnr (es ! 0) = int (length es)"
    using dd(1) by (rule dd_okE)
  have d: "d' = d" using q dd(2) by (simp add: fd_entry_def)
  obtain i where i: "find_in (Pdomain K s) name sp m es (length es) = Some (Some i)" "p = (de_faddr d, i)"
    using f dd(2) q d by (auto simp: findfile_def get_de_def bind_eq_Some_conv split: if_splits)
  note find_in_range [OF i(1)]
  with i(2) e q d show "fst p = de_faddr d" "sp \<le> snd p" "de_faddr e \<noteq> 0"
    by (auto simp: get_de_Some_iff)
qed

lemma free_blocks_chain:
  assumes ok: "kern_ok K live" and "chain (heap s) a bs" "set bs \<subseteq> live (mem s)"
  shows "\<exists>s'. free_blocks K a s = Some s' \<and> mem_step s s' \<and> live (mem s') = live (mem s) - set bs
           \<and> heap s' = (\<lambda>x. if x \<in> set bs then None else heap s x)"
  using assms(2,3)
proof (induction bs arbitrary: a s)
  case Nil
  then show ?case by (subst free_blocks.simps) simp
next
  case (Cons b bs)
  obtain fb where fb: "a = b" "b \<noteq> 0" "heap s b = Some (FileBlk fb)" "chain (heap s) (fb_next fb) bs"
    using Cons.prems(1) by auto
  have nin: "b \<notin> set bs" using chain_distinct [OF Cons.prems(1)] by simp
  have "b \<in> live (mem s)" using Cons.prems(2) by simp
  then obtain m where m: "Kfree K b s = s\<lparr>mem := m, heap := (heap s)(b := None)\<rparr>" "live m = live (mem s) - {b}"
    using Kfree_live [OF ok] by blast
  let ?s1 = "s\<lparr>mem := m, heap := (heap s)(b := None)\<rparr>"
  have "chain (heap ?s1) (fb_next fb) bs" by (rule chain_cong [OF fb(4)]) (use nin in auto)
  moreover have "set bs \<subseteq> live (mem ?s1)" using Cons.prems(2) nin m(2) by auto
  ultimately obtain s' where s': "free_blocks K (fb_next fb) ?s1 = Some s'" "mem_step ?s1 s'"
    "live (mem s') = live (mem ?s1) - set bs" "heap s' = (\<lambda>x. if x \<in> set bs then None else heap ?s1 x)"
    using Cons.IH by blast
  have "free_blocks K a s = Some s'"
    using fb s'(1) m(1) by (subst free_blocks.simps) (simp add: file_at_heap [THEN iffD2])
  moreover have "mem_step s s'" by (rule mem_step_trans [OF _ s'(2)]) simp
  moreover have "heap s' = (\<lambda>x. if x \<in> set (b # bs) then None else heap s x)" using s'(4) by auto
  moreover have "live (mem s') = live (mem s) - set (b # bs)" using s'(3) m(2) by auto
  ultimately show ?case by blast
qed

text \<open>Directories do not depend on anything else in memory.\<close>

lemma dirs_same:
  assumes "\<And>a. dir_at a s' = dir_at a s"
  shows "get_de p s' = get_de p s" "dir_ok a s' = dir_ok a s"
    "ramdisk_dmd s' = ramdisk_dmd s \<Longrightarrow> dd_ok dd s' = dd_ok dd s"
proof -
  show g: "get_de p s' = get_de p s" for p by (simp add: get_de_def assms)
  show k: "dir_ok a s' = dir_ok a s" for a by (simp add: dir_ok_def subdirs_ok_def assms g)
  show "ramdisk_dmd s' = ramdisk_dmd s \<Longrightarrow> dd_ok dd s' = dd_ok dd s" by (simp add: dd_ok_def g k)
qed

lemma release_file:
  assumes ok: "kern_ok K live" and e: "is_file (mode_of e)" "chain (heap s) (de_faddr e) bs" "bs \<noteq> []"
    and l: "set bs \<subseteq> live (mem s)"
  shows "\<exists>s'. release_data K e s = Some s' \<and> mem_step s s' \<and> live (mem s') = live (mem s) - set bs
           \<and> heap s' = (\<lambda>x. if x \<in> set bs then None else heap s x)"
proof -
  have nl: "\<not> is_link (mode_of e)" using e(1) by (auto dest: file_type_exclusive)
  obtain b cs fb where b: "bs = b # cs" "de_faddr e = b" "b \<noteq> 0" "heap s b = Some (FileBlk fb)"
    using e(2,3) by (cases bs) auto
  have "release_data K e s = free_blocks K (de_faddr e) s"
    using nl b by (subst free_blocks.simps) (simp add: release_data_def file_at_heap [THEN iffD2])
  with free_blocks_chain [OF ok e(2) l] show ?thesis by simp
qed

lemma findfd_unused:
  assumes "\<forall>j < MAX_FD. fd_file (fds s j) \<noteq> Some p" "findfd (Some p) s = (r, s')"
  shows "s' = s \<and> r = None \<or> (\<exists>j. r = Some j \<and> s' = s\<lparr>fds := (fds s)(j := zero_fd)\<rparr> \<and> fd_file (fds s j) = None)"
proof -
  have "find (\<lambda>i. fd_file (fds s i) = Some p) [0..<MAX_FD] = None"
    using assms(1) by (simp add: find_None_iff)
  with assms(2) show ?thesis by (auto simp: findfd_def find_Some_iff split: option.splits)
qed

end
