(* ===== verification/Ram_Entry_Props.thy ===== *)
theory Ram_Entry_Props
  imports Ram_Create Ram_File_Props
begin

text \<open>
  The properties of the operations on directory entries: creating, deleting, and changing
  attributes.
\<close>

subsection \<open>The demo directory\<close>

lemma demo_dir_at:
  "dir_at root_blk demo_ram = Some demo_root"
  "dir_at root_de_blk demo_ram = Some [\<lparr>de_fname = [], de_faddr = root_blk, de_nr = 1, de_maxnr = 0,
                                      de_xattr = demo_dir_xattr ROOT_DE\<rparr>]"
  by (simp_all add: dir_at_def demo_ram_def root_blk_def root_de_blk_def)

definition demo_d :: DIRENTRY where
  "demo_d = \<lparr>de_fname = [], de_faddr = root_blk, de_nr = 1, de_maxnr = 0, de_xattr = demo_dir_xattr ROOT_DE\<rparr>"

lemma demo_entry: "fd_entry (fds demo_ram 0) demo_ram = Some demo_d"
  by (simp add: fd_entry_def get_de_def demo_dir_at demo_d_def) (simp add: demo_defs get_de_def dir_at_def)

lemma demo_access: "waccess demo_d" "xaccess demo_d" "is_dir (mode_of demo_d)"
  by (simp_all add: demo_d_def demo_dir_xattr_def zero_xattr_def waccess_def xaccess_def is_dir_def mode_defs)

lemma demo_subdirs: "subdirs_ok root_blk demo_ram"
proof -
  have "\<not> is_dir (mode_of (demo_root ! i)) \<or> de_faddr (demo_root ! i) = 0" if "2 \<le> i" "i < 5" for i
  proof -
    have "i = 2 \<or> i = 3 \<or> i = 4" using that by linarith
    then show ?thesis
      by (auto simp: demo_root_def zero_de_def zero_xattr_def is_dir_def mode_defs)
  qed
  moreover have "length demo_root = 5" by (simp add: demo_root_def)
  ultimately show ?thesis
    unfolding subdirs_ok_def by (auto simp: get_de_Some_iff demo_dir_at)
qed

lemma demo_dd_ok: "dd_ok (fds demo_ram 0) demo_ram"
proof -
  have "dir_ok root_blk demo_ram"
    using demo_subdirs by (simp add: dir_ok_def demo_dir_at) (simp add: demo_defs is_dir_def mode_defs)
  moreover have "fds demo_ram 0 = zero_fd\<lparr>fd_dmd := 9, fd_refcnt := 1, fd_file := Some (root_de_blk, 0)\<rparr>"
    "ramdisk_dmd demo_ram = 9" by (simp_all add: demo_ram_def ROOT_def)
  moreover have "get_de (root_de_blk, 0) demo_ram = Some demo_d" by (simp add: get_de_def demo_dir_at demo_d_def)
  ultimately show ?thesis
    using demo_access by (simp add: dd_ok_def zero_fd_def demo_d_def)
qed

lemma demo_findfile:
  "findfile demo_kern (fds demo_ram 0) name sp m False demo_ram =
     map_option (map_option (Pair root_blk)) (find_in 1 name sp m demo_root 5)"
proof -
  have "is_dir (mode_of demo_d)" "xaccess demo_d" "de_faddr demo_d = root_blk" using demo_access by (auto simp: demo_d_def)
  moreover have "get_de (root_blk, 0) demo_ram = Some (demo_root ! 0)" "nat (de_maxnr (demo_root ! 0)) = 5"
    by (simp_all add: get_de_def demo_dir_at) (simp_all add: demo_root_def)
  moreover have "Pdomain demo_kern demo_ram = 1" by (simp add: Pdomain_def demo_kern_def)
  ultimately show ?thesis
    using demo_entry by (cases "find_in 1 name sp m demo_root 5") (simp_all add: findfile_def demo_dir_at)
qed

lemma demo_findfd: "findfd None demo_ram = (Some 1, demo_ram\<lparr>fds := (fds demo_ram)(1 := zero_fd)\<rparr>)"
proof -
  have "[0..<MAX_FD] = 0 # 1 # [2..<MAX_FD]" by (simp add: MAX_FD_def upt_rec numeral_eq_Suc)
  then have "find (\<lambda>i. fd_file (fds demo_ram i) = None) [0..<MAX_FD] = Some 1"
    by (simp add: demo_ram_def ROOT_def zero_fd_def)
  then show ?thesis by (simp add: findfd_def)
qed

lemma findfile_named: "name \<noteq> [] \<Longrightarrow> findfile K dd name sp m True s = findfile K dd name sp m False s"
  by (simp add: findfile_def cong: if_cong)

lemma findfile_fds [simp]:
  "findfile K dd name sp m md (s\<lparr>fds := f\<rparr>) = findfile K dd name sp m md s" "fd_entry dd (s\<lparr>fds := f\<rparr>) = fd_entry dd s"
  by (simp_all add: findfile_def fd_entry_def Pdomain_def cong: if_cong)

subsection \<open>Creating and deleting files\<close>

text \<open>C20: Opening a file that does not exist with \<open>O_CREAT\<close> in a well-formed directory with a free slot either reports \<open>ENSMEM\<close>, when no block is left, or delivers the free descriptor, which is that of an empty file whose entry carries the name in its stored form; no other descriptor changes and memory stays consistent.\<close>

theorem fopen_creates_empty_file:
  assumes ok: "kern_ok K live" "mem_inv live s"
    and dd: "dd_ok (fds s dd) s" "fd_entry (fds s dd) s = Some d" "waccess d" "xaccess d"
    and om: "omode AND O_CREAT = O_CREAT" "omode AND OM_WPERM = OM_WPERM"
    and nm: "check_name (eight_bit s) name" "name \<noteq> ''.''" "name \<noteq> ''..''"
    and nf: "\<forall>m. findfile K (fds s dd) name 2 m False s = Some None"
    and fr: "findfd None s = (Some i, s0)"
    and es: "dir_at (de_faddr d) s = Some es" "2 \<le> k" "k < length es" "de_faddr (es ! k) = 0"
  shows "\<exists>r s'. ramdisk_fopen K dd name omode attrib s = Some (r, s') \<and> mem_inv live s' \<and>
     (r = OErr ENSMEM \<or>
      r = OFd i \<and> fd_ok i s' \<and> file_content i s' = [] \<and> file_pos i s' = 0 \<and> writable i s'
      \<and> (\<exists>e. fd_entry (fds s' i) s' = Some e \<and> de_fname e = stored_name K s name)
      \<and> (\<forall>j. j \<noteq> i \<longrightarrow> fds s' j = fds s j))"
proof -
  note ff = findfd_free [OF fr]
  have "dd \<noteq> i" using ff(2) dd(1) by (auto simp: dd_ok_def)
  then have fdd: "fds s0 dd = fds s dd" and inv0: "mem_inv live s0" and dd0: "dd_ok (fds s0 dd) s0"
      "fd_entry (fds s0 dd) s0 = Some d" "dir_at (de_faddr d) s0 = Some es"
    and nm0: "check_name (eight_bit s0) name" and sn: "stored_name K s0 name = stored_name K s name"
    using ff(1) ok(2) dd es(1) nm by (simp_all add: mem_inv_def dd_ok_irrelevant fd_entry_def stored_name_def Pdomain_def)
  obtain r s1 where r: "fopen_create K dd name omode attrib s0 = Some (r, s1)" "mem_inv live s1" "mem_step s0 s1"
    and cases: "r = Inl ENSMEM \<or> (\<exists>p e blk fb. r = Inr p \<and> get_de p s1 = Some e \<and> is_file (mode_of e)
        \<and> de_fname e = stored_name K s0 name \<and> de_faddr e = blk \<and> blk \<noteq> 0 \<and> heap s1 blk = Some (FileBlk fb)
        \<and> fb_next fb = 0 \<and> st_size (de_xattr e) = 0 \<and> st_blocks (de_xattr e) = 1)"
    using fopen_create_spec [OF ok(1) inv0 dd0(1,2) nm0 nm(2,3) dd(3,4) om(1) dd0(3) es(2-4), of attrib] by blast
  have z: "fds s0 i = zero_fd" using ff(1) by simp
  have fop: "ramdisk_fopen K dd name omode attrib s = fopen_found K dd name omode attrib None s"
    using dd_ok_check [OF dd(1)] dd om nf by (simp add: ramdisk_fopen_def E_OK_def Let_def)
  show ?thesis
  proof (cases "r = Inl ENSMEM")
    case True
    then have "ramdisk_fopen K dd name omode attrib s = Some (OErr ENSMEM, s1)"
      using fop fr z r(1) by (simp add: fopen_found_def zero_fd_def)
    with r(2) show ?thesis by blast
  next
    case False
    with cases obtain p e blk fb where p: "r = Inr p" "get_de p s1 = Some e" "is_file (mode_of e)"
        "de_fname e = stored_name K s0 name" "de_faddr e = blk" "blk \<noteq> 0" "heap s1 blk = Some (FileBlk fb)"
        "fb_next fb = 0" "st_size (de_xattr e) = 0" "st_blocks (de_xattr e) = 1" by blast
    let ?x = "open_fd K omode p dd (fds s1 i) s1"
    let ?s2 = "set_fd i ?x s1"
    have run: "ramdisk_fopen K dd name omode attrib s = Some (OFd i, ?s2)"
      using fop fr z r(1) p(1) by (simp add: fopen_found_def zero_fd_def)
    have e2: "get_de p ?s2 = Some e" using p(2) by (simp add: set_fd_def)
    have "chain (heap ?s2) (de_faddr e) [blk]" using p by (simp add: set_fd_def)
    then have v: "fd_view i ?s2 p e [blk]"
      using p e2 unfolding fd_view_def by (simp add: set_fd_def open_fd_def)
    have "file_content i ?s2 = []" using fd_view_content [OF v] p by simp
    moreover have "file_pos i ?s2 = 0" "mem_inv live ?s2" "writable i ?s2"
      using r(2) om(2) by (simp_all add: file_pos_def set_fd_def open_fd_def mem_inv_def writable_def mode_defs)
    moreover have "fds ?s2 j = fds s j" if "j \<noteq> i" for j
      using that ff(1) mem_step_fields(1) [OF r(3)] by (simp add: set_fd_def)
    moreover have "fd_entry (fds ?s2 i) ?s2 = Some e"
      using e2 by (simp add: fd_entry_def set_fd_def open_fd_def)
    ultimately show ?thesis using run fd_okI [OF v] p(4) sn by auto
  qed
qed

theorem fopen_creates_empty_file_witness:
  "\<exists>r s'. ramdisk_fopen demo_kern 0 ''b'' (OM_WPERM OR O_CREAT) 0 demo_ram = Some (r, s') \<and> mem_inv set s' \<and>
     (r = OErr ENSMEM \<or> r = OFd 1 \<and> fd_ok 1 s' \<and> file_content 1 s' = [])"
proof -
  have om: "(OM_WPERM OR O_CREAT) AND O_CREAT = O_CREAT" "(OM_WPERM OR O_CREAT) AND OM_WPERM = OM_WPERM"
    by (simp_all add: mode_defs)
  have nm: "check_name (eight_bit demo_ram) ''b''" by (simp add: demo_ram_def) code_simp
  have "find_in 1 ''b'' 2 m demo_root 5 = Some None" for m
    by (simp add: find_in_def Let_def scan_from.simps named_def demo_root_def zero_de_def RAM_MAXFNAME_def)
  then have nf: "\<forall>m. findfile demo_kern (fds demo_ram 0) ''b'' 2 m False demo_ram = Some None"
    by (simp add: demo_findfile)
  have es: "dir_at (de_faddr demo_d) demo_ram = Some demo_root" "3 < length demo_root" "de_faddr (demo_root ! 3) = 0"
    by (simp_all add: demo_d_def demo_dir_at) (simp_all add: demo_root_def zero_de_def)
  show ?thesis
    using fopen_creates_empty_file [OF demo_kern_ok demo_mem_inv(1) demo_dd_ok demo_entry demo_access(1,2) om nm _ _ nf
        demo_findfd es(1) _ es(2,3), of 0] by auto
qed

text \<open>C23: Deleting a closed, writable file succeeds, gives exactly the blocks of its chain back to the kernel, removes them from memory, and leaves a free entry in a well-formed directory.\<close>

theorem fdelete_frees_file:
  assumes ok: "kern_ok K live" "mem_inv live s"
    and dd: "dd_ok (fds s dd) s" "fd_entry (fds s dd) s = Some d" "waccess d" "xaccess d"
    and f: "findfile K (fds s dd) name 2 FF_SEARCH False s = Some (Some p)" "get_de p s = Some e"
    and e: "is_file (mode_of e)" "waccess e" "chain (heap s) (de_faddr e) bs" "bs \<noteq> []" "set bs \<subseteq> live (mem s)"
    and closed: "\<forall>j < MAX_FD. fd_file (fds s j) \<noteq> Some p"
  shows "\<exists>s' e'. ramdisk_fdelete K dd name s = Some (E_OK, s') \<and> mem_inv live s'
           \<and> live (mem s') = live (mem s) - set bs \<and> (\<forall>b \<in> set bs. heap s' b = None)
           \<and> get_de p s' = Some e' \<and> de_faddr e' = 0 \<and> dd_ok (fds s' dd) s'"
proof -
  note rng = findfile_range [OF dd(1,2) f]
  obtain r s0 where r: "findfd (Some p) s = (r, s0)" by fastforce
  note unused = findfd_unused [OF closed r]
  have dfile: "fd_file (fds s dd) \<noteq> None" using dd(1) by (auto simp: dd_ok_def)
  have s0: "heap s0 = heap s" "mem s0 = mem s" "ramdisk_dmd s0 = ramdisk_dmd s" "fds s0 dd = fds s dd" "leave_free s0 = leave_free s"
    and notpar: "\<not> (case r of None \<Rightarrow> False | Some i \<Rightarrow> fd_parent (fds s0 i) \<noteq> None)"
    using unused dfile by (auto simp: zero_fd_def)
  have same0: "dir_at a s0 = dir_at a s" for a by (simp add: dir_at_def s0)
  obtain s1 where s1: "release_data K e s0 = Some s1" "mem_step s0 s1" "live (mem s1) = live (mem s) - set bs"
    "heap s1 = (\<lambda>x. if x \<in> set bs then None else heap s x)"
    using release_file [OF ok(1) e(1), of s0 bs] e unfolding s0 by metis
  have same1: "dir_at a s1 = dir_at a s" for a
    using chain_file [OF e(3), of a] s1(4) by (auto simp: dir_at_def)
  have fds1: "fds s1 dd = fds s dd" "ramdisk_dmd s1 = ramdisk_dmd s"
    using mem_step_fields(1,3) [OF s1(2)] s0 by simp_all
  have dd1: "dd_ok (fds s dd) s1" using dirs_same(3) [OF same1 fds1(2)] dd(1) by simp
  have e1: "get_de p s1 = Some e" using dirs_same(1) [OF same1] f(2) by simp
  obtain s2 where s2: "put_de p (e\<lparr>de_faddr := 0\<rparr>) s1 = Some s2" "get_de p s2 = Some (e\<lparr>de_faddr := 0\<rparr>)"
    "mem s2 = mem s1" "mem_step s1 s2" "dom (heap s2) = dom (heap s1)" "\<forall>a. a \<noteq> fst p \<longrightarrow> heap s2 a = heap s1 a"
    by (rule put_de_cases [OF e1, where e = "e\<lparr>de_faddr := 0\<rparr>"])
  have fds2: "fds s2 dd = fds s dd" using mem_step_fields(1) [OF s2(4)] fds1 by simp
  have ddp: "fd_file (fds s dd) \<noteq> Some p"
    using dd(1) f(2) e(1) by (auto simp: dd_ok_def dest: file_type_exclusive)
  have dd2: "dd_ok (fds s dd) s2"
    by (rule dd_ok_put [OF dd1, of "fst p" "snd p" "e\<lparr>de_faddr := 0\<rparr>"]) (use s2(1) rng(2) ddp in simp_all)
  obtain q d2 where q2: "fd_file (fds s dd) = Some q" "fd_entry (fds s dd) s2 = Some d2"
    using dd2 by (auto simp: dd_ok_def fd_entry_def)
  obtain s3 where s3: "touch_dir K (fds s dd) False s2 = Some s3" "dir_keep s2 s3" "dd_ok (fds s dd) s3"
    "(if xaccess d2 then mem s3 = snd (now K (mem s2)) else s3 = s2)"
    using touch_dir_total [OF dd2 q2(2,1), of K False] by auto
  obtain e3 where e3: "get_de p s3 = Some e3" "ent_keep (e\<lparr>de_faddr := 0\<rparr>) e3" using dir_keep_get_de [OF s3(2) s2(2)] .
  have l3: "live (mem s3) = live (mem s) - set bs"
    using s3(4) s2(3) s1(3) kern_ok_now_snd [OF ok(1)] by (cases "xaccess d2") auto
  have dom3: "dom (heap s3) = dom (heap s) - set bs"
    using dir_keep_dom [OF s3(2)] s2(5) s1(4) by (auto simp: dom_def split: if_splits)
  have st: "mem_step s0 s3" using s1(2) s2(4) s3(2) by (meson dir_keep_def mem_step_trans)
  have "mem_inv live s3"
    using ok(2) l3 dom3 mem_step_fields(5) [OF st] s0(5) by (auto simp: mem_inv_def)
  moreover have "\<forall>b \<in> set bs. heap s3 b = None" using dom3 by (metis DiffE domIff)
  moreover have "de_faddr e3 = 0" using ent_keepD(2) [OF e3(2)] by simp
  moreover have "fds s3 dd = fds s dd" using mem_step_fields(1) [OF st] s0 by simp
  moreover have "\<not> is_dir (mode_of e)" using e(1) by (auto dest: file_type_exclusive)
  then have "ramdisk_fdelete K dd name s = Some (E_OK, s3)"
    using dd_ok_check [OF dd(1)] dd f e(2) r notpar s1(1) e1 s2(1) s3(1) fds2
    by (simp add: ramdisk_fdelete_def E_OK_def)
  ultimately show ?thesis using l3 e3(1) s3(3) by auto
qed

theorem fdelete_frees_file_witness:
  "\<exists>s' e'. ramdisk_fdelete demo_kern 0 ''a.txt'' (demo_ram\<lparr>fds := (fds demo_ram)(4 := zero_fd)\<rparr>) = Some (E_OK, s')
     \<and> set (mem s') = {} \<and> heap s' 5 = None \<and> get_de (root_blk, 2) s' = Some e' \<and> de_faddr e' = 0"
proof -
  let ?s = "demo_ram\<lparr>fds := (fds demo_ram)(4 := zero_fd)\<rparr>"
  have fd0: "fds ?s 0 = fds demo_ram 0" by simp
  have inv: "mem_inv set ?s" using demo_mem_inv(1) by (simp add: mem_inv_def)
  have dd: "dd_ok (fds ?s 0) ?s" "fd_entry (fds ?s 0) ?s = Some demo_d"
    using demo_dd_ok demo_entry by (simp_all add: dd_ok_irrelevant)
  have "find_in 1 ''a.txt'' 2 FF_SEARCH demo_root 5 = Some (Some 2)"
    by (simp add: find_in_def Let_def scan_from.simps named_def demo_root_def RAM_MAXFNAME_def)
  then have f: "findfile demo_kern (fds ?s 0) ''a.txt'' 2 FF_SEARCH False ?s = Some (Some (root_blk, 2))"
    using demo_findfile by simp
  have g: "get_de (root_blk, 2) ?s = Some (demo_root ! 2)"
    by (simp add: get_de_def demo_dir_at) (simp add: demo_root_def)
  have e: "is_file (mode_of (demo_root ! 2))" "waccess (demo_root ! 2)" "de_faddr (demo_root ! 2) = 5"
    by (simp_all add: demo_root_def zero_xattr_def is_file_def waccess_def mode_defs)
  have "chain (heap ?s) 5 [5]" "set [5] \<subseteq> set (mem ?s)" by (simp_all add: demo_ram_def root_blk_def root_de_blk_def)
  moreover have "\<forall>j < MAX_FD. fd_file (fds ?s j) \<noteq> Some (root_blk, 2)"
    by (simp add: demo_ram_def ROOT_def zero_fd_def root_blk_def root_de_blk_def)
  moreover have "mem demo_ram = [5]" by (simp add: demo_ram_def)
  ultimately show ?thesis
    using fdelete_frees_file [OF demo_kern_ok inv dd demo_access(1,2) f g e(1,2), of "[5]"] e(3) by auto
qed

subsection \<open>Attributes\<close>

text \<open>C24: After \<open>work_entry\<close> has set the time of a directory, the entry in the parent directory, the entry \<open>.\<close> and the entry \<open>..\<close> of every subdirectory hold the same attributes, with the current time; nothing else about any entry has changed, and the call does not touch memory it does not own.\<close>

theorem touch_updates_representatives:
  assumes "dd_ok dd s" "fd_entry dd s = Some d" "xaccess d" "fd_file dd = Some q"
  shows "\<exists>s' xa. touch_dir K dd at s = Some s' \<and> same_xattr q (de_faddr d) xa s'
           \<and> (if at then st_atim xa else st_mtim xa) = fst (now K (mem s)) \<and> dir_keep s s'"
  using touch_dir_total [OF assms(1,2,4), of K at] assms(3) by (simp split del: if_split) blast

theorem touch_updates_representatives_witness:
  "\<exists>s' xa. touch_dir demo_kern (fds demo_ram 0) False demo_ram = Some s'
     \<and> same_xattr (root_de_blk, 0) root_blk xa s' \<and> st_mtim xa = (1000, 2000)"
proof -
  have "fd_file (fds demo_ram 0) = Some (root_de_blk, 0)" by (simp add: demo_ram_def ROOT_def)
  from touch_updates_representatives [OF demo_dd_ok demo_entry demo_access(2) this, of demo_kern False]
  show ?thesis by (auto simp: demo_d_def now_def demo_kern_def)
qed

text \<open>C25: Changing the access rights of a file sets exactly its permission bits, keeps it a file, keeps the attribute \<open>FA_RDONLY\<close> in step with the write permission, and changes no other entry.\<close>

theorem chmod_changes_named_file:
  assumes "dd_ok (fds s dd) s" "fd_entry (fds s dd) s = Some d" "waccess d"
    and "findfile K (fds s dd) name 0 FF_SEARCH True s = Some (Some p)" "get_de p s = Some e" "is_file (mode_of e)"
  shows "\<exists>s' e'. ramdisk_chmod K dd name (mode AND 0xFFF) s = Some (E_OK, None, s') \<and> get_de p s' = Some e'
           \<and> mode_of e' = (mode_of e AND S_IFMT) OR (mode AND 0xFFF) \<and> is_file (mode_of e')
           \<and> (st_attr (de_xattr e') AND FA_RDONLY = 0 \<longleftrightarrow> waccess e')
           \<and> (\<forall>q. q \<noteq> p \<longrightarrow> get_de q s' = get_de q s)"
proof -
  obtain e' where a: "chmod_action (mode AND 0xFFF) K e (mem s) = (E_OK, e', mem s)"
    by (simp add: chmod_action_def Let_def)
  have t: "\<not> is_dir (mode_of e)" "\<not> (is_link (mode_of e) \<and> True)" using assms(6) by (auto dest: file_type_exclusive)
  obtain s' where s': "work_entry K (fds s dd) name True True (Some (chmod_action (mode AND 0xFFF))) s = Some (E_OK, None, s')"
    "get_de p s' = Some e'" "\<forall>q. q \<noteq> p \<longrightarrow> get_de q s' = get_de q s"
    using chmod.on_plain_entry [OF assms(1,2,4,5) t _ a] assms(3) by blast
  have k: "ent_keep e e'" using chmod_action_keep [OF a] by simp
  have m: "mode_of e' = (mode_of e AND S_IFMT) OR (mode AND 0xFFF)"
    and r: "st_attr (de_xattr e') AND FA_RDONLY = 0 \<longleftrightarrow> waccess e'"
    using a by (auto simp: chmod_action_def Let_def waccess_def FA_RDONLY_def bit.conj_disj_distrib2 and.assoc split: if_splits)
  show ?thesis using s' m r ent_keepD(6) [OF k] assms(6) by (auto simp: ramdisk_chmod_def)
qed

theorem chmod_changes_named_file_witness:
  "\<exists>s' e'. ramdisk_chmod demo_kern 0 ''a.txt'' (0x16D AND 0xFFF) demo_ram = Some (E_OK, None, s')
     \<and> get_de (root_blk, 2) s' = Some e' \<and> mode_of e' = 0x816D \<and> \<not> waccess e'"
proof -
  have "find_in 1 ''a.txt'' 0 FF_SEARCH demo_root 5 = Some (Some 2)"
    by (simp add: find_in_def Let_def scan_from.simps named_def demo_root_def RAM_MAXFNAME_def)
  then have f: "findfile demo_kern (fds demo_ram 0) ''a.txt'' 0 FF_SEARCH True demo_ram = Some (Some (root_blk, 2))"
    by (simp add: demo_findfile findfile_named)
  have g: "get_de (root_blk, 2) demo_ram = Some (demo_root ! 2)" "is_file (mode_of (demo_root ! 2))"
    "mode_of (demo_root ! 2) = 0x81B6"
    by (simp_all add: get_de_def demo_dir_at) (simp_all add: demo_root_def zero_xattr_def is_file_def mode_defs)
  show ?thesis
    using chmod_changes_named_file [OF demo_dd_ok demo_entry demo_access(1) f g(1,2), of "0x16D"] g(3)
    by (auto simp: waccess_def mode_defs)
qed

text \<open>The mode is not masked: with the type bits of a symbolic link in it, \<open>chmod\<close> turns a regular file into a link, whose data block is then taken for a link target.\<close>

theorem chmod_changes_file_type:
  assumes "is_file (mode_of e)"
  shows "is_link (mode_of (fst (snd (chmod_action S_IFLNK K e m))))"
proof -
  have "mode_of e AND S_IFMT = S_IFREG" using assms by (simp add: is_file_def)
  then show ?thesis by (simp add: chmod_action_def Let_def is_link_def mode_defs)
qed

theorem chmod_changes_file_type_witness:
  "is_link (mode_of (fst (snd (chmod_action S_IFLNK demo_kern (demo_root ! 2) []))))"
  by (rule chmod_changes_file_type) (simp add: demo_root_def zero_xattr_def is_file_def mode_defs)

end
