(* ===== verification/Ram_Refs.thy ===== *)
theory Ram_Refs
  imports Ram_Create
begin

text \<open>
  The reference counts of directory descriptors.  \<open>fd_refcnt\<close> counts the references of the
  kernel, \<open>fd_is_parent\<close> the referenced descriptors below; \<open>refs_ok\<close> says so, and
  \<open>increase_refcnts\<close> and \<open>ramdisk_freeDD\<close> keep it.  Both walk along the parents; what such a
  walk does is proved once, in the locale \<open>parent_walk\<close>.
\<close>

subsection \<open>Chains of parents\<close>

definition dirfd :: "(nat \<Rightarrow> RAMDISK_FD) \<Rightarrow> nat \<Rightarrow> bool" where
  "dirfd f i \<longleftrightarrow> i < MAX_FD \<and> fd_file (f i) \<noteq> None \<and> \<not> fd_dev (f i)"

fun up :: "(nat \<Rightarrow> RAMDISK_FD) \<Rightarrow> nat option \<Rightarrow> nat list \<Rightarrow> bool" where
  "up f d [] \<longleftrightarrow> d = None"
| "up f d (i # is) \<longleftrightarrow> d = Some i \<and> up f (fd_parent (f i)) is"

lemma up_unique: "up f d xs \<Longrightarrow> up f d ys \<Longrightarrow> xs = ys"
proof (induction f d xs arbitrary: ys rule: up.induct)
  case (1 f d)
  then show ?case by (cases ys) auto
next
  case (2 f d i "is")
  then show ?case by (cases ys) auto
qed

lemma up_suffix: "up f d (xs @ i # ys) \<Longrightarrow> up f (Some i) (i # ys)"
  by (induction f d xs rule: up.induct) auto

lemma up_distinct: "up f d xs \<Longrightarrow> distinct xs"
proof (induction f d xs rule: up.induct)
  case (2 f d i "is")
  have "i \<notin> set is"
  proof
    assume "i \<in> set is"
    then obtain as bs where "is = as @ i # bs" by (meson split_list)
    moreover have "up f (fd_parent (f i)) is" using 2 by simp
    ultimately have "up f (Some i) (i # bs)" "up f (Some i) (i # as @ i # bs)"
      using up_suffix [of f _ as i bs] by auto
    then show False by (auto dest: up_unique)
  qed
  with 2 show ?case by simp
qed simp

lemma up_cong: "up f d xs \<Longrightarrow> (\<And>i. i \<in> set xs \<Longrightarrow> fd_parent (g i) = fd_parent (f i)) \<Longrightarrow> up g d xs"
  by (induction f d xs rule: up.induct) auto

locale parent_walk =
  fixes walk :: "nat option \<Rightarrow> (nat \<Rightarrow> RAMDISK_FD) \<Rightarrow> (nat \<Rightarrow> RAMDISK_FD) option"
    and change :: "RAMDISK_FD \<Rightarrow> RAMDISK_FD"
  assumes walk_None: "walk None f = Some f"
    and walk_Some: "walk (Some i) f = walk (fd_parent (f i)) (f(i := change (f i)))"
    and change_parent: "fd_parent (change x) = fd_parent x"
begin

lemma walk_up: "up f d is \<Longrightarrow> walk d f = Some (\<lambda>i. if i \<in> set is then change (f i) else f i)"
proof (induction "is" arbitrary: f d)
  case Nil
  then show ?case by (simp add: walk_None)
next
  case (Cons i "is")
  have "i \<notin> set is" using up_distinct [OF Cons.prems] by simp
  have d: "d = Some i" "up f (fd_parent (f i)) is" using Cons.prems by auto
  let ?f = "f(i := change (f i))"
  have "up ?f (fd_parent (f i)) is" by (rule up_cong [OF d(2)]) (simp add: change_parent)
  then have "walk d f = Some (\<lambda>j. if j \<in> set is then change (?f j) else ?f j)"
    unfolding d(1) walk_Some by (rule Cons.IH)
  also have "(\<lambda>j. if j \<in> set is then change (?f j) else ?f j)
      = (\<lambda>j. if j \<in> set (i # is) then change (f j) else f j)"
    using \<open>i \<notin> set is\<close> by (auto simp: fun_eq_iff)
  finally show ?case .
qed

end

interpretation incp: parent_walk inc_parents inc_is_parent
  by unfold_locales (simp_all add: inc_parents.simps inc_is_parent_def)

interpretation freec: parent_walk free_chain release_one
  by unfold_locales (simp_all add: free_chain.simps release_one_def Let_def)

subsection \<open>The counters\<close>

text \<open>The descriptors above \<open>d\<close>, and the referenced ones below \<open>i\<close>.\<close>

definition anc :: "(nat \<Rightarrow> RAMDISK_FD) \<Rightarrow> nat \<Rightarrow> nat set" where
  "anc f d = {i. \<exists>is. up f (fd_parent (f d)) is \<and> i \<in> set is}"

definition below :: "(nat \<Rightarrow> RAMDISK_FD) \<Rightarrow> nat \<Rightarrow> nat set" where
  "below f i = {d. dirfd f d \<and> fd_refcnt (f d) \<noteq> 0 \<and> i \<in> anc f d}"

definition refs_ok :: "(nat \<Rightarrow> RAMDISK_FD) \<Rightarrow> bool" where
  "refs_ok f \<longleftrightarrow> dirfd f ROOT \<and> fd_parent (f ROOT) = None \<and> 0 < fd_refcnt (f ROOT) \<and>
     (\<forall>d. dirfd f d \<longrightarrow> 0 \<le> fd_refcnt (f d) \<and> (\<exists>is. up f (Some d) is)
        \<and> (d \<noteq> ROOT \<longrightarrow> (\<exists>p. fd_parent (f d) = Some p \<and> dirfd f p))
        \<and> fd_is_parent (f d) = int (card (below f d)))"

lemma anc_up: "up f (fd_parent (f d)) is \<Longrightarrow> anc f d = set is"
  by (auto simp: anc_def dest: up_unique)

lemma anc_cong: "(\<And>i. fd_parent (g i) = fd_parent (f i)) \<Longrightarrow> anc g d = anc f d"
  unfolding anc_def by (metis up_cong)

lemma refs_okD:
  assumes "refs_ok f" "dirfd f d"
  shows "0 \<le> fd_refcnt (f d)" "\<exists>is. up f (Some d) is" "d \<noteq> ROOT \<Longrightarrow> \<exists>p. fd_parent (f d) = Some p \<and> dirfd f p"
    "fd_is_parent (f d) = int (card (below f d))"
  using assms by (auto simp: refs_ok_def)

lemma refs_ok_ROOT: "refs_ok f \<Longrightarrow> dirfd f ROOT \<and> fd_parent (f ROOT) = None \<and> 0 < fd_refcnt (f ROOT)"
  by (auto simp: refs_ok_def)

lemma up_dirfd:
  assumes "refs_ok f"
  shows "up f (Some d) is \<Longrightarrow> dirfd f d \<Longrightarrow> \<forall>i \<in> set is. dirfd f i"
proof (induction "is" arbitrary: d)
  case (Cons i "is")
  then have d: "d = i" "up f (fd_parent (f i)) is" by auto
  show ?case
  proof (cases "fd_parent (f i)")
    case None
    then show ?thesis using d Cons.prems by (cases "is") auto
  next
    case (Some p)
    moreover have "i \<noteq> ROOT" using Some assms by (auto simp: refs_ok_def)
    ultimately have "dirfd f p" using assms d(1) Cons.prems(2) by (auto simp: refs_ok_def)
    with Some d Cons show ?thesis by auto
  qed
qed simp

lemma anc_dirfd: "refs_ok f \<Longrightarrow> dirfd f d \<Longrightarrow> i \<in> anc f d \<Longrightarrow> dirfd f i"
proof -
  assume a: "refs_ok f" "dirfd f d" "i \<in> anc f d"
  then obtain "is" where "up f (fd_parent (f d)) is" "i \<in> set is" by (auto simp: anc_def)
  then have "up f (Some d) (d # is)" by simp
  with a \<open>i \<in> set is\<close> show "dirfd f i" using up_dirfd by fastforce
qed

lemma anc_irrefl: "d \<notin> anc f d"
proof
  assume "d \<in> anc f d"
  then obtain "is" where "up f (fd_parent (f d)) is" "d \<in> set is" by (auto simp: anc_def)
  then have "up f (Some d) (d # is)" by simp
  from up_distinct [OF this] \<open>d \<in> set is\<close> show False by simp
qed

lemma anc_trans: "i \<in> anc f d \<Longrightarrow> j \<in> anc f i \<Longrightarrow> j \<in> anc f d"
proof -
  assume "i \<in> anc f d" "j \<in> anc f i"
  then obtain xs ys where "up f (fd_parent (f d)) xs" "i \<in> set xs" "up f (fd_parent (f i)) ys" "j \<in> set ys"
    by (auto simp: anc_def)
  moreover from \<open>i \<in> set xs\<close> obtain as bs where "xs = as @ i # bs" by (meson split_list)
  ultimately have "up f (fd_parent (f i)) bs" "j \<in> set ys" "up f (fd_parent (f i)) ys"
    using up_suffix [of f _ as i bs] by auto
  then have "bs = ys" by (simp add: up_unique)
  with \<open>xs = _\<close> \<open>up f (fd_parent (f d)) xs\<close> \<open>j \<in> set ys\<close> show ?thesis by (auto simp: anc_def)
qed

lemma anc_parent: "refs_ok f \<Longrightarrow> dirfd f d \<Longrightarrow> fd_parent (f d) = Some p \<Longrightarrow> p \<in> anc f d \<and> (\<forall>i. i \<in> anc f d \<longleftrightarrow> i = p \<or> i \<in> anc f p)"
proof -
  assume a: "refs_ok f" "dirfd f d" "fd_parent (f d) = Some p"
  then obtain "is" where "up f (Some d) is" by (auto simp: refs_ok_def)
  then obtain "is" where "up f (Some p) is" using a(3) by (cases "is") auto
  then obtain js where js: "up f (Some p) (p # js)" "up f (fd_parent (f p)) js" by (cases "is") auto
  then show ?thesis using a(3) anc_up [of f p js] anc_up [of f d "p # js"] by auto
qed

lemma below_finite: "finite (below f i)" "card (below f i) \<le> 200"
proof -
  have s: "below f i \<subseteq> {0..<MAX_FD}" by (auto simp: below_def dirfd_def)
  then show "finite (below f i)" by (rule finite_subset) simp
  show "card (below f i) \<le> 200"
    using card_mono [OF _ s] by (simp add: MAX_FD_def)
qed

text \<open>\<open>g\<close> is \<open>f\<close> except for the two counters of each descriptor.\<close>

definition counters_only :: "(nat \<Rightarrow> RAMDISK_FD) \<Rightarrow> (nat \<Rightarrow> RAMDISK_FD) \<Rightarrow> bool" where
  "counters_only f g \<longleftrightarrow>
     (\<forall>i. (\<exists>r n. g i = (f i)\<lparr>fd_refcnt := r, fd_is_parent := n\<rparr>) \<and> (dirfd f i \<or> g i = f i))"

lemma counters_onlyD:
  assumes "counters_only f g"
  shows "fd_parent (g i) = fd_parent (f i)" "fd_file (g i) = fd_file (f i)" "fd_dev (g i) = fd_dev (f i)"
    "fd_dmd (g i) = fd_dmd (f i)" "dirfd g i = dirfd f i" "anc g i = anc f i"
proof -
  have *: "fd_parent (g i) = fd_parent (f i) \<and> fd_file (g i) = fd_file (f i) \<and> fd_dev (g i) = fd_dev (f i)
     \<and> fd_dmd (g i) = fd_dmd (f i)" for i
  proof -
    obtain r n where "g i = (f i)\<lparr>fd_refcnt := r, fd_is_parent := n\<rparr>" using assms unfolding counters_only_def by blast
    then show ?thesis by simp
  qed
  then show "fd_parent (g i) = fd_parent (f i)" "fd_file (g i) = fd_file (f i)" "fd_dev (g i) = fd_dev (f i)"
    "fd_dmd (g i) = fd_dmd (f i)" by auto
  show "dirfd g i = dirfd f i" using * by (simp add: dirfd_def)
  show "anc g i = anc f i" by (rule anc_cong) (use * in simp)
qed

lemma refs_ok_counters:
  assumes "refs_ok f" "counters_only f g" "0 < fd_refcnt (g ROOT)"
    and "\<And>d. dirfd f d \<Longrightarrow> 0 \<le> fd_refcnt (g d)"
    and "\<And>d. dirfd f d \<Longrightarrow> fd_is_parent (g d) = int (card (below g d))"
  shows "refs_ok g"
proof -
  note c = counters_onlyD [OF assms(2)]
  have "up g (Some d) is" if "up f (Some d) is" for d "is" by (rule up_cong [OF that]) (simp add: c)
  with assms(1,3-5) show ?thesis unfolding refs_ok_def c by blast
qed

lemma increase_refcnts_spec:
  assumes ok: "refs_ok (fds s)" and dd: "dirfd (fds s) dd" and small: "fd_refcnt (fds s dd) < 2 ^ 15 - 1"
  shows "\<exists>f. increase_refcnts dd s = Some (s\<lparr>fds := f\<rparr>) \<and> refs_ok f \<and> counters_only (fds s) f
           \<and> (\<forall>i. fd_refcnt (f i) = fd_refcnt (fds s i) + (if i = dd then 1 else 0))"
proof -
  let ?f = "fds s"
  let ?x = "(?f dd)\<lparr>fd_refcnt := fd_refcnt (?f dd) + 1\<rparr>"
  let ?f1 = "?f(dd := ?x)"
  note D = refs_okD [OF ok dd]
  obtain "is" where u: "up ?f (fd_parent (?f dd)) is" using D(2) by (metis up.simps neq_Nil_conv option.distinct(1) option.inject)
  have s16: "s16 (fd_refcnt (?f dd) + 1) = fd_refcnt (?f dd) + 1" using D(1) small by simp
  have an: "anc ?f dd = set is" by (rule anc_up [OF u])
  define g where "g = (if fd_refcnt (?f dd) = 0 then \<lambda>i. if i \<in> set is then inc_is_parent (?f1 i) else ?f1 i else ?f1)"
  have nin: "dd \<notin> set is" using u anc_irrefl [of dd ?f] by (auto simp: anc_def)
  have co: "counters_only ?f g"
    unfolding counters_only_def
  proof (intro allI conjI)
    fix i
    show "\<exists>r n. g i = (?f i)\<lparr>fd_refcnt := r, fd_is_parent := n\<rparr>"
      by (intro exI [of _ "fd_refcnt (g i)"] exI [of _ "fd_is_parent (g i)"]) (simp add: g_def inc_is_parent_def nin)
    show "dirfd ?f i \<or> g i = ?f i" using dd anc_dirfd [OF ok dd, of i] an by (auto simp: g_def)
  qed
  have run: "increase_refcnts dd s = Some (s\<lparr>fds := g\<rparr>)"
  proof (cases "fd_refcnt (?f dd) = 0")
    case True
    have "up ?f1 (fd_parent ?x) is" by (simp, rule up_cong [OF u]) simp
    from incp.walk_up [OF this] True show ?thesis
      by (simp add: increase_refcnts_def Let_def s16 g_def)
  qed (use D(1) in \<open>simp add: increase_refcnts_def Let_def s16 g_def\<close>)
  have rc: "fd_refcnt (g i) = fd_refcnt (?f i) + (if i = dd then 1 else 0)" for i
    by (simp add: g_def inc_is_parent_def)
  have bl: "below g i = (if i \<in> set is then insert dd (below ?f i) else below ?f i)" for i
    using dd D(1) an by (auto simp: below_def counters_onlyD [OF co] rc)
  have "fd_is_parent (g i) = int (card (below g i))" if "dirfd ?f i" for i
  proof -
    have n: "fd_is_parent (?f i) = int (card (below ?f i))" using refs_okD [OF ok that] by simp
    have "dd \<in> below ?f i \<longleftrightarrow> i \<in> set is \<and> fd_refcnt (?f dd) \<noteq> 0" using dd an by (auto simp: below_def)
    moreover have "fd_is_parent (g i) = (if fd_refcnt (?f dd) = 0 \<and> i \<in> set is then s16 (fd_is_parent (?f i) + 1)
        else fd_is_parent (?f i))" using nin by (auto simp: g_def inc_is_parent_def)
    ultimately show ?thesis using below_finite [of ?f i] by (auto simp: bl n insert_absorb)
  qed
  then have "refs_ok g"
    by (intro refs_ok_counters [OF ok co]) (use refs_ok_ROOT [OF ok] refs_okD(1) [OF ok] in \<open>auto simp: rc add_nonneg_pos\<close>)
  with run co rc show ?thesis by blast
qed


subsection \<open>Releasing a descriptor\<close>

text \<open>What the kernel does before it calls \<open>ramdisk_freeDD\<close>.\<close>

definition drop_ref :: "nat \<Rightarrow> 'm ram \<Rightarrow> 'm ram" where
  "drop_ref dd s = s\<lparr>fds := (fds s)(dd := (fds s dd)\<lparr>fd_refcnt := fd_refcnt (fds s dd) - 1\<rparr>)\<rparr>"

text \<open>The descriptors \<open>freeDD\<close> leaves: those a referenced one rests on.\<close>

definition needed :: "(nat \<Rightarrow> RAMDISK_FD) \<Rightarrow> nat \<Rightarrow> bool" where
  "needed f i \<longleftrightarrow> fd_refcnt (f i) \<noteq> 0 \<or> below f i \<noteq> {}"

lemma refs_ok_sweep:
  assumes ok: "refs_ok f" and g: "\<And>i. dirfd f i \<Longrightarrow> needed f i \<Longrightarrow> g i = f i"
    and g': "\<And>i. \<not> (dirfd f i \<and> needed f i) \<Longrightarrow> \<not> dirfd g i" and par: "\<And>i. fd_parent (g i) = fd_parent (f i)"
  shows "refs_ok g" "\<And>i. dirfd g i \<longleftrightarrow> dirfd f i \<and> needed f i" "\<And>i. below g i = below f i"
proof -
  show dg: "dirfd g i \<longleftrightarrow> dirfd f i \<and> needed f i" for i using g [of i] g' [of i] by (auto simp: dirfd_def)
  have an: "anc g = anc f" using anc_cong [of g f, OF par] by (simp add: fun_eq_iff)
  show bl: "below g i = below f i" for i
  proof -
    have "needed f d \<and> fd_refcnt (g d) \<noteq> 0 \<longleftrightarrow> fd_refcnt (f d) \<noteq> 0" if "dirfd f d" for d
    proof
      assume "needed f d \<and> fd_refcnt (g d) \<noteq> 0"
      with g [OF that] show "fd_refcnt (f d) \<noteq> 0" by simp
    next
      assume "fd_refcnt (f d) \<noteq> 0"
      moreover from this have "needed f d" by (simp add: needed_def)
      ultimately show "needed f d \<and> fd_refcnt (g d) \<noteq> 0" using g [OF that] by simp
    qed
    then show ?thesis unfolding below_def an dg by blast
  qed
  have up: "up g d is \<longleftrightarrow> up f d is" for d "is" using up_cong [of f d "is" g] up_cong [of g d "is" f] par by auto
  have parent: "needed f p" if nd: "needed f d" and dp: "fd_parent (f d) = Some p" and d: "dirfd f d" for d p
  proof -
    have p: "p \<in> anc f d" using anc_parent [OF ok d dp] by simp
    consider "fd_refcnt (f d) \<noteq> 0" | x where "x \<in> below f d" using nd unfolding needed_def by blast
    then show ?thesis
    proof cases
      case 1
      then have "d \<in> below f p" using p d by (simp add: below_def)
      then show ?thesis by (auto simp: needed_def)
    next
      case 2
      then have "x \<in> below f p" using anc_trans [OF _ p] by (auto simp: below_def)
      then show ?thesis by (auto simp: needed_def)
    qed
  qed
  have root: "needed f ROOT" using refs_ok_ROOT [OF ok] by (simp add: needed_def)
  show "refs_ok g"
    unfolding refs_ok_def
  proof (intro conjI allI impI)
    show "dirfd g ROOT" "fd_parent (g ROOT) = None" "0 < fd_refcnt (g ROOT)"
      using refs_ok_ROOT [OF ok] root dg g [of ROOT] by auto
  next
    fix d assume d: "dirfd g d"
    then have d': "dirfd f d" "needed f d" "g d = f d" using dg g by auto
    note D = refs_okD [OF ok d'(1)]
    show "0 \<le> fd_refcnt (g d)" using D(1) d'(3) by simp
    show "\<exists>is. up g (Some d) is" using D(2) up by simp
    show "\<exists>p. fd_parent (g d) = Some p \<and> dirfd g p" if "d \<noteq> ROOT"
      using D(3) [OF that] parent [OF d'(2) _ d'(1)] par dg by auto
    show "fd_is_parent (g d) = int (card (below g d))" using D(4) d'(3) bl by simp
  qed
qed

lemma drop_counters:
  assumes ok: "refs_ok f" and dd: "dirfd f dd" "dd \<noteq> ROOT" and last: "fd_refcnt (f dd) = 1"
  defines "g \<equiv> \<lambda>i. (f i)\<lparr>fd_refcnt := (if i = dd then 0 else fd_refcnt (f i)),
                         fd_is_parent := (if i \<in> anc f dd then fd_is_parent (f i) - 1 else fd_is_parent (f i))\<rparr>"
  shows "refs_ok g" "counters_only f g" "\<And>i. below g i = below f i - {dd}"
proof -
  show co: "counters_only f g" unfolding counters_only_def
  proof (intro allI conjI)
    fix i
    show "\<exists>r n. g i = (f i)\<lparr>fd_refcnt := r, fd_is_parent := n\<rparr>" unfolding g_def by blast
    show "dirfd f i \<or> g i = f i" using dd anc_dirfd [OF ok dd(1), of i] by (auto simp: g_def)
  qed
  have rc: "fd_refcnt (g i) = (if i = dd then 0 else fd_refcnt (f i))" for i by (simp add: g_def)
  show bl: "below g i = below f i - {dd}" for i
    by (auto simp: below_def counters_onlyD [OF co] rc)
  have "fd_is_parent (g i) = int (card (below g i))" if "dirfd f i" for i
  proof -
    have "dd \<in> below f i \<longleftrightarrow> i \<in> anc f dd" using dd last by (auto simp: below_def)
    moreover have "card (below f i) > 0" if "dd \<in> below f i" using that below_finite [of f i] by (auto simp: card_gt_0_iff)
    moreover have "fd_is_parent (g i) = (if i \<in> anc f dd then fd_is_parent (f i) - 1 else fd_is_parent (f i))"
      by (simp add: g_def)
    ultimately show ?thesis
      using refs_okD(4) [OF ok that] below_finite [of f i] by (auto simp: bl of_nat_diff)
  qed
  then show "refs_ok g"
    using refs_ok_ROOT [OF ok] refs_okD(1) [OF ok] dd(2)
    by (intro refs_ok_counters [OF ok co]) (auto simp: rc)
qed

lemma freeDD_spec:
  assumes ok: "refs_ok (fds s)" and dd: "dirfd (fds s) dd" "dd \<noteq> ROOT" and last: "fd_refcnt (fds s dd) = 1"
  shows "\<exists>f. ramdisk_freeDD dd (drop_ref dd s) = Some (s\<lparr>fds := f\<rparr>) \<and> refs_ok f
           \<and> (\<forall>i. dirfd f i \<longleftrightarrow> dirfd (fds s) i \<and> (i \<noteq> dd \<and> fd_refcnt (fds s i) \<noteq> 0 \<or> \<not> below (fds s) i \<subseteq> {dd}))
           \<and> (\<forall>i. f i = (fds s i)\<lparr>fd_refcnt := (if i = dd then 0 else fd_refcnt (fds s i)),
                                 fd_is_parent := fd_is_parent (f i), fd_file := fd_file (f i)\<rparr>
                  \<and> fd_file (f i) \<in> {fd_file (fds s i), None})
           \<and> (\<forall>i. \<not> dirfd (fds s) i \<longrightarrow> fd_refcnt (fds s i) \<noteq> 0 \<longrightarrow> f i = fds s i)"
proof -
  let ?f = "fds s"
  define g where "g = (\<lambda>i. (?f i)\<lparr>fd_refcnt := (if i = dd then 0 else fd_refcnt (?f i)),
      fd_is_parent := (if i \<in> anc ?f dd then fd_is_parent (?f i) - 1 else fd_is_parent (?f i))\<rparr>)"
  note g = drop_counters [OF ok dd last, folded g_def]
  note co = counters_onlyD [OF g(2)]
  let ?f1 = "?f(dd := (?f dd)\<lparr>fd_refcnt := 0\<rparr>)"
  let ?f2 = "?f1(dd := inc_is_parent (?f1 dd))"
  obtain "is" where u: "up ?f (Some dd) (dd # is)" using refs_okD(2) [OF ok dd(1)] by (metis up.simps neq_Nil_conv option.distinct(1) option.inject)
  have an: "anc ?f dd = set is" by (rule anc_up) (use u in simp)
  have nin: "dd \<notin> set is" using up_distinct [OF u] by simp
  have u2: "up ?f2 (Some dd) (dd # is)" by (rule up_cong [OF u]) (simp add: inc_is_parent_def)
  let ?h = "\<lambda>i. if i \<in> set (dd # is) then release_one (?f2 i) else ?f2 i"
  have run: "ramdisk_freeDD dd (drop_ref dd s) = Some (s\<lparr>fds := sweep_fds ?h\<rparr>)"
    using freec.walk_up [OF u2] last by (simp add: ramdisk_freeDD_def drop_ref_def)
  have n: "fd_is_parent (?f i) = int (card (below ?f i))" "fd_is_parent (g i) = int (card (below ?f i - {dd}))"
    if "dirfd ?f i" for i using that refs_okD(4) [OF ok that] refs_okD(4) [OF g(1)] by (auto simp: co g(3))
  have ipos: "fd_is_parent (?f i) \<noteq> 0" if "i \<in> set is" for i
  proof -
    have "dd \<in> below ?f i" using that dd last an by (simp add: below_def)
    then have "card (below ?f i) \<noteq> 0" using below_finite by auto
    moreover have "dirfd ?f i" using anc_dirfd [OF ok dd(1)] an that by simp
    ultimately show ?thesis using n by simp
  qed
  have g_eq: "g i = (?f i)\<lparr>fd_refcnt := (if i = dd then 0 else fd_refcnt (?f i)),
      fd_is_parent := (if i \<in> set is then fd_is_parent (?f i) - 1 else fd_is_parent (?f i))\<rparr>" for i
    by (simp add: g_def an)
  have h: "?h i = (if i \<in> set (dd # is) \<and> fd_is_parent (g i) = 0 \<and> fd_refcnt (g i) = 0
                   then (g i)\<lparr>fd_file := None\<rparr> else g i)" for i
  proof (cases "i \<in> set (dd # is)")
    case True
    then have "dirfd ?f i" using anc_dirfd [OF ok dd(1)] an dd by auto
    then have m: "0 \<le> fd_is_parent (?f i)" "fd_is_parent (?f i) \<le> 200" using n below_finite [of ?f i] by auto
    show ?thesis
    proof (cases "i = dd")
      case True
      with m nin show ?thesis by (auto simp: release_one_def inc_is_parent_def Let_def g_eq)
    next
      case False
      with True ipos [of i] m nin show ?thesis by (auto simp: release_one_def Let_def g_eq)
    qed
  qed (simp add: g_eq)
  define F where "F = sweep_fds ?h"
  have cnt: "needed g i \<longleftrightarrow> fd_refcnt (g i) \<noteq> 0 \<or> fd_is_parent (g i) \<noteq> 0" if "dirfd g i" for i
    using refs_okD(4) [OF g(1) that] below_finite(1) [of g i] by (auto simp: needed_def)
  have Fg: "F i = g i" if "dirfd g i" "needed g i" for i
    unfolding F_def sweep_fds_def h using that cnt by auto
  have Fn: "\<not> dirfd F i" if "\<not> (dirfd g i \<and> needed g i)" for i
  proof
    assume d: "dirfd F i"
    then have dg: "dirfd g i" unfolding F_def sweep_fds_def h by (auto simp: dirfd_def split: if_splits)
    with that have "fd_refcnt (g i) = 0" "fd_is_parent (g i) = 0" using cnt by auto
    moreover have "i \<noteq> ROOT" using refs_ok_ROOT [OF g(1)] calculation(1) by auto
    moreover have "i < MAX_FD" using dg by (simp add: dirfd_def)
    ultimately have "fd_file (F i) = None" unfolding F_def sweep_fds_def h by (cases "fd_file (g i)") (auto simp: ROOT_def)
    with d show False by (simp add: dirfd_def)
  qed
  have par: "fd_parent (F i) = fd_parent (g i)" for i unfolding F_def sweep_fds_def h by simp
  have R: "refs_ok F" "dirfd F i \<longleftrightarrow> dirfd g i \<and> needed g i" for i
    using refs_ok_sweep(1,2) [where f = g and g = F] g(1) Fg Fn par by blast+
  have "dirfd F i \<longleftrightarrow> dirfd ?f i \<and> (i \<noteq> dd \<and> fd_refcnt (?f i) \<noteq> 0 \<or> \<not> below ?f i \<subseteq> {dd})" for i
    unfolding R(2) co needed_def g(3) by (auto simp: g_eq)
  moreover have "F i = (?f i)\<lparr>fd_refcnt := (if i = dd then 0 else fd_refcnt (?f i)),
                              fd_is_parent := fd_is_parent (F i), fd_file := fd_file (F i)\<rparr>
                 \<and> fd_file (F i) \<in> {fd_file (?f i), None}" for i
    unfolding F_def sweep_fds_def h by (auto simp: g_eq)
  moreover have "F i = ?f i" if nd: "\<not> dirfd ?f i" and rc: "fd_refcnt (?f i) \<noteq> 0" for i
  proof -
    have "i \<notin> set (dd # is)" using nd dd anc_dirfd [OF ok dd(1), of i] an by auto
    then show ?thesis using rc unfolding F_def sweep_fds_def h by (auto simp: g_eq)
  qed
  ultimately show ?thesis using run R(1) unfolding F_def [symmetric] by blast
qed

end
