(* ===== verification/Ram_Path.thy ===== *)
theory Ram_Path
  imports Ram_Refs
begin

text \<open>
  Resolving paths.  \<open>resolve\<close> is what a path means on the tree of directories; \<open>ramdisk_path2DD\<close>
  computes it with descriptors and keeps the invariant \<open>sys_ok\<close>, which ties descriptors,
  counters and tree together.  \<open>dd_step\<close> is the use the kernel makes of descriptors.
\<close>

lemma parent_dirfd: "refs_ok f \<Longrightarrow> dirfd f d \<Longrightarrow> fd_parent (f d) = Some p \<Longrightarrow> dirfd f p"
  using refs_okD(3) [of f d] refs_ok_ROOT [of f] by (cases "d = ROOT") auto

subsection \<open>The tree of directories and the descriptors\<close>

text \<open>The places where the entry of a directory can stand: not \<open>.\<close> and \<open>..\<close>.\<close>

definition slot :: "de_ptr \<Rightarrow> bool" where
  "slot p \<longleftrightarrow> p = (root_de_blk, 0) \<or> 2 \<le> snd p"

definition dir_slot :: "de_ptr \<Rightarrow> DIRENTRY \<Rightarrow> 'm ram \<Rightarrow> bool" where
  "dir_slot p e s \<longleftrightarrow> slot p \<and> get_de p s = Some e \<and> de_faddr e \<noteq> 0 \<and> is_dir (mode_of e)"

definition tree_ok :: "'m ram \<Rightarrow> bool" where
  "tree_ok s \<longleftrightarrow>
     (\<forall>p e. dir_slot p e s \<longrightarrow> dir_ok (de_faddr e) s \<and> de_fname e \<noteq> ''..''
        \<and> (\<exists>e0. get_de (de_faddr e, 0) s = Some e0 \<and> mode_of e0 = mode_of e)
        \<and> (2 \<le> snd p \<longrightarrow> (\<exists>h. get_de (de_faddr e, 1) s = Some h \<and> de_faddr h = fst p)))
     \<and> (\<forall>p q e e'. dir_slot p e s \<longrightarrow> dir_slot q e' s \<longrightarrow> de_faddr e = de_faddr e' \<longrightarrow> p = q)"

definition dir_blk :: "'m ram \<Rightarrow> nat \<Rightarrow> addr" where
  "dir_blk s i = (case fd_entry (fds s i) s of Some e \<Rightarrow> de_faddr e | None \<Rightarrow> 0)"

definition fds_ok :: "'m ram \<Rightarrow> bool" where
  "fds_ok s \<longleftrightarrow>
     (\<forall>i < MAX_FD. \<forall>p. fd_file (fds s i) = Some p \<longrightarrow>
        slot p \<and> fd_dmd (fds s i) = ramdisk_dmd s
        \<and> (\<exists>e. get_de p s = Some e \<and> de_faddr e \<noteq> 0 \<and> is_dir (mode_of e) = (\<not> fd_dev (fds s i))))
     \<and> (\<forall>i < MAX_FD. \<forall>j < MAX_FD. \<forall>p. fd_file (fds s i) = Some p \<longrightarrow> fd_file (fds s j) = Some p \<longrightarrow> i = j)
     \<and> (\<forall>i p q. dirfd (fds s) i \<longrightarrow> fd_parent (fds s i) = Some p \<longrightarrow> fd_file (fds s i) = Some q \<longrightarrow>
          2 \<le> snd q \<and> fst q = dir_blk s p)
     \<and> fd_file (fds s ROOT) = Some (root_de_blk, 0) \<and> dir_blk s ROOT = root_blk"

definition sys_ok :: "'m ram \<Rightarrow> bool" where
  "sys_ok s \<longleftrightarrow> refs_ok (fds s) \<and> tree_ok s \<and> fds_ok s"

lemma fds_okD:
  assumes "fds_ok s"
  shows "i < MAX_FD \<Longrightarrow> fd_file (fds s i) = Some p \<Longrightarrow> slot p \<and> fd_dmd (fds s i) = ramdisk_dmd s
        \<and> (\<exists>e. get_de p s = Some e \<and> de_faddr e \<noteq> 0 \<and> is_dir (mode_of e) = (\<not> fd_dev (fds s i)))"
    and "i < MAX_FD \<Longrightarrow> j < MAX_FD \<Longrightarrow> fd_file (fds s i) = Some p \<Longrightarrow> fd_file (fds s j) = Some p \<Longrightarrow> i = j"
    and "dirfd (fds s) i \<Longrightarrow> fd_parent (fds s i) = Some k \<Longrightarrow> fd_file (fds s i) = Some p \<Longrightarrow> 2 \<le> snd p \<and> fst p = dir_blk s k"
    and "fd_file (fds s ROOT) = Some (root_de_blk, 0)" "dir_blk s ROOT = root_blk"
  using assms unfolding fds_ok_def by blast+

lemma fds_okI:
  assumes "\<And>i p. i < MAX_FD \<Longrightarrow> fd_file (fds s i) = Some p \<Longrightarrow> slot p \<and> fd_dmd (fds s i) = ramdisk_dmd s
        \<and> (\<exists>e. get_de p s = Some e \<and> de_faddr e \<noteq> 0 \<and> is_dir (mode_of e) = (\<not> fd_dev (fds s i)))"
    and "\<And>i j p. i < MAX_FD \<Longrightarrow> j < MAX_FD \<Longrightarrow> fd_file (fds s i) = Some p \<Longrightarrow> fd_file (fds s j) = Some p \<Longrightarrow> i = j"
    and "\<And>i k p. dirfd (fds s) i \<Longrightarrow> fd_parent (fds s i) = Some k \<Longrightarrow> fd_file (fds s i) = Some p \<Longrightarrow> 2 \<le> snd p \<and> fst p = dir_blk s k"
    and "fd_file (fds s ROOT) = Some (root_de_blk, 0)" "dir_blk s ROOT = root_blk"
  shows "fds_ok s"
  unfolding fds_ok_def using assms by blast

lemma dirfdE:
  assumes "sys_ok s" "dirfd (fds s) i"
  obtains q e where "fd_file (fds s i) = Some q" "fd_entry (fds s i) s = Some e" "dir_slot q e s"
    "dir_blk s i = de_faddr e" "dd_ok (fds s i) s"
proof -
  obtain q where q: "fd_file (fds s i) = Some q" "i < MAX_FD" "\<not> fd_dev (fds s i)"
    using assms(2) by (auto simp: dirfd_def)
  then obtain e where e: "slot q" "fd_dmd (fds s i) = ramdisk_dmd s" "get_de q s = Some e" "de_faddr e \<noteq> 0" "is_dir (mode_of e)"
    using assms(1) unfolding sys_ok_def fds_ok_def by blast
  then have d: "dir_slot q e s" by (simp add: dir_slot_def)
  moreover have "fd_entry (fds s i) s = Some e" using q e by (simp add: fd_entry_def)
  moreover have "dd_ok (fds s i) s"
    using assms(1) d q e unfolding sys_ok_def tree_ok_def dd_ok_def by blast
  ultimately show thesis using q(1) that by (simp add: dir_blk_def)
qed

lemma dir_blk_inj:
  assumes ok: "sys_ok s" and "dirfd (fds s) i" "dirfd (fds s) j" "dir_blk s i = dir_blk s j"
  shows "i = j"
proof -
  obtain p e where p: "fd_file (fds s i) = Some p" "dir_slot p e s" "dir_blk s i = de_faddr e" using ok assms(2) by (rule dirfdE)
  obtain q e' where q: "fd_file (fds s j) = Some q" "dir_slot q e' s" "dir_blk s j = de_faddr e'" using ok assms(3) by (rule dirfdE)
  have "p = q" using ok p q assms(4) unfolding sys_ok_def tree_ok_def by metis
  then show ?thesis using fds_okD(2) [of s i j p] ok p(1) q(1) assms(2,3) by (simp add: sys_ok_def dirfd_def)
qed

lemma dir_blk_ROOT:
  assumes "sys_ok s" "dirfd (fds s) i"
  shows "dir_blk s i = root_blk \<longleftrightarrow> i = ROOT"
  using dir_blk_inj [OF assms(1,2), of ROOT] assms(1) by (auto simp: sys_ok_def fds_ok_def refs_ok_def)

lemma dir_blk_cong: "(\<And>j. dirfd (fds s) j \<Longrightarrow> fd_file (f j) = fd_file (fds s j)) \<Longrightarrow> dirfd (fds s) i
   \<Longrightarrow> dir_blk (s\<lparr>fds := f\<rparr>) i = dir_blk s i"
  by (simp add: dir_blk_def fd_entry_def)

lemma dir_ok_fds [simp]: "dir_ok a (s\<lparr>fds := f\<rparr>) = dir_ok a s"
  by (rule dirs_same(2)) (simp add: dir_at_def)

lemma tree_ok_fds [simp]: "tree_ok (s\<lparr>fds := f\<rparr>) = tree_ok s"
  by (simp add: tree_ok_def dir_slot_def)

subsection \<open>Growing the set of descriptors\<close>

text \<open>Descriptors in use keep everything but their counters; open files keep those too.\<close>

definition grown :: "(nat \<Rightarrow> RAMDISK_FD) \<Rightarrow> (nat \<Rightarrow> RAMDISK_FD) \<Rightarrow> bool" where
  "grown f g \<longleftrightarrow> (\<forall>i. fd_file (f i) \<noteq> None \<longrightarrow>
     (\<exists>r n. g i = (f i)\<lparr>fd_refcnt := r, fd_is_parent := n\<rparr>) \<and> (dirfd f i \<or> g i = f i))"

definition refs :: "(nat \<Rightarrow> RAMDISK_FD) \<Rightarrow> nat \<Rightarrow> int" where
  "refs f i = (if dirfd f i then fd_refcnt (f i) else 0)"

lemma grownD:
  assumes "grown f g" "fd_file (f i) \<noteq> None"
  shows "fd_parent (g i) = fd_parent (f i)" "fd_file (g i) = fd_file (f i)" "fd_dev (g i) = fd_dev (f i)"
    "fd_dmd (g i) = fd_dmd (f i)" "dirfd g i = dirfd f i"
proof -
  obtain r n where "g i = (f i)\<lparr>fd_refcnt := r, fd_is_parent := n\<rparr>" using assms unfolding grown_def by blast
  then show "fd_parent (g i) = fd_parent (f i)" "fd_file (g i) = fd_file (f i)" "fd_dev (g i) = fd_dev (f i)"
    "fd_dmd (g i) = fd_dmd (f i)" "dirfd g i = dirfd f i" by (simp_all add: dirfd_def)
qed

lemma grown_refl [simp]: "grown f f"
  unfolding grown_def by (metis RAMDISK_FD.surjective RAMDISK_FD.update_convs(2,7))

lemma grown_trans:
  assumes "grown f g" "grown g h"
  shows "grown f h"
  unfolding grown_def
proof (intro allI impI conjI)
  fix i assume i: "fd_file (f i) \<noteq> None"
  note g = grownD [OF assms(1) i]
  obtain r n where 1: "g i = (f i)\<lparr>fd_refcnt := r, fd_is_parent := n\<rparr>" using assms(1) i unfolding grown_def by blast
  have gi: "fd_file (g i) \<noteq> None" using i g by simp
  obtain r' n' where 2: "h i = (g i)\<lparr>fd_refcnt := r', fd_is_parent := n'\<rparr>" using assms(2) gi unfolding grown_def by blast
  show "\<exists>r n. h i = (f i)\<lparr>fd_refcnt := r, fd_is_parent := n\<rparr>"
    using 1 2 by (intro exI [of _ r'] exI [of _ n']) simp
  show "dirfd f i \<or> h i = f i" using assms i gi g(5) unfolding grown_def by metis
qed

lemma grown_dirfd: "grown f g \<Longrightarrow> dirfd f i \<Longrightarrow> dirfd g i"
  using grownD(5) [of f g i] by (auto simp: dirfd_def)

lemma grown_dir_blk: "grown (fds s) f \<Longrightarrow> dirfd (fds s) i \<Longrightarrow> dir_blk (s\<lparr>fds := f\<rparr>) i = dir_blk s i"
  by (rule dir_blk_cong) (auto simp: dirfd_def dest: grownD(2))

text \<open>A descriptor for the directory in slot \<open>p\<close> of the directory of \<open>dd\<close>.\<close>

lemma refs_ok_new:
  assumes ok: "refs_ok f" and free: "fd_file (f i) = None" "i < MAX_FD" and dd: "dirfd f dd"
    and x: "x = zero_fd\<lparr>fd_dmd := d, fd_file := Some p, fd_parent := Some dd\<rparr>"
  shows "refs_ok (f(i := x))"
proof -
  let ?g = "f(i := x)"
  have ni: "\<not> dirfd f i" using free by (simp add: dirfd_def)
  have dg: "dirfd ?g j \<longleftrightarrow> j = i \<or> dirfd f j" for j using ni free x by (auto simp: dirfd_def zero_fd_def)
  have u: "up ?g (Some j) js" if "up f (Some j) js" "dirfd f j" for j js
    by (rule up_cong [OF that(1)]) (use up_dirfd [OF ok that] ni in auto)
  have an: "anc ?g j = anc f j" if j: "dirfd f j" for j
  proof -
    obtain js where "up f (Some j) js" using refs_okD(2) [OF ok j] by blast
    moreover from this u j have "up ?g (Some j) js" by blast
    ultimately obtain ks where "up f (fd_parent (f j)) ks" "up ?g (fd_parent (?g j)) ks" by (cases js) auto
    then show ?thesis by (simp add: anc_up)
  qed
  have bl: "below ?g j = below f j" for j
  proof -
    have "fd_refcnt (?g i) = 0" using x by (simp add: zero_fd_def)
    moreover have "?g d = f d" if "dirfd f d" for d using that ni by auto
    ultimately show ?thesis unfolding below_def dg using an by (metis ni)
  qed
  have bi: "below f i = {}" using anc_dirfd [OF ok] ni by (auto simp: below_def)
  obtain ds where ds: "up f (Some dd) ds" using refs_okD(2) [OF ok dd] by blast
  have "up ?g (Some i) (i # ds)" using u [OF ds dd] x by simp
  then have ui: "\<exists>is. up ?g (Some i) is" by blast
  have ri: "i \<noteq> ROOT" "0 \<le> fd_refcnt x" "fd_is_parent x = 0" "fd_parent x = Some dd"
    using refs_ok_ROOT [OF ok] ni x by (auto simp: zero_fd_def)
  show ?thesis
    unfolding refs_ok_def
  proof (intro conjI allI impI)
    show "dirfd ?g ROOT" "fd_parent (?g ROOT) = None" "0 < fd_refcnt (?g ROOT)"
      using refs_ok_ROOT [OF ok] dg ri(1) by auto
  next
    fix d assume d: "dirfd ?g d"
    show "0 \<le> fd_refcnt (?g d)" using d dg ri refs_okD(1) [OF ok, of d] by auto
    show "\<exists>is. up ?g (Some d) is" using d dg ui u refs_okD(2) [OF ok, of d] by (cases "d = i") blast+
    show "\<exists>p. fd_parent (?g d) = Some p \<and> dirfd ?g p" if "d \<noteq> ROOT"
      using d dg ri dd refs_okD(3) [OF ok _ that] by (cases "d = i") auto
    show "fd_is_parent (?g d) = int (card (below ?g d))"
      using d dg ri bl bi refs_okD(4) [OF ok, of d] by (cases "d = i") auto
  qed
qed

lemma fds_ok_counters:
  assumes "fds_ok s" "counters_only (fds s) f"
  shows "fds_ok (s\<lparr>fds := f\<rparr>)"
proof -
  note c = counters_onlyD [OF assms(2)] and D = fds_okD [OF assms(1)]
  have "fd_entry (f i) (s\<lparr>fds := f\<rparr>) = fd_entry (fds s i) s" for i by (simp add: fd_entry_def c)
  then have b: "dir_blk (s\<lparr>fds := f\<rparr>) = dir_blk s" by (simp add: dir_blk_def fun_eq_iff)
  show ?thesis by (rule fds_okI) (use D in \<open>simp_all add: c b\<close>)
qed

lemma increase_ok:
  assumes ok: "sys_ok s" and dd: "dirfd (fds s) dd" and small: "fd_refcnt (fds s dd) < 2 ^ 15 - 1"
  shows "\<exists>f. increase_refcnts dd s = Some (s\<lparr>fds := f\<rparr>) \<and> sys_ok (s\<lparr>fds := f\<rparr>) \<and> grown (fds s) f
           \<and> refs f = (refs (fds s))(dd := refs (fds s) dd + 1)"
proof -
  obtain f where f: "increase_refcnts dd s = Some (s\<lparr>fds := f\<rparr>)" "refs_ok f" "counters_only (fds s) f"
    "\<forall>i. fd_refcnt (f i) = fd_refcnt (fds s i) + (if i = dd then 1 else 0)"
    using increase_refcnts_spec [OF _ dd small] ok by (auto simp: sys_ok_def)
  have "sys_ok (s\<lparr>fds := f\<rparr>)" using f ok fds_ok_counters [of s f] by (simp add: sys_ok_def)
  moreover have "refs f = (refs (fds s))(dd := refs (fds s) dd + 1)"
    using f(4) dd by (auto simp: refs_def fun_eq_iff counters_onlyD [OF f(3)])
  moreover have "grown (fds s) f" using f(3) unfolding grown_def counters_only_def by blast
  ultimately show ?thesis using f(1) by blast
qed

lemma find_least: "find P [0..<n] = Some i \<Longrightarrow> i < n \<and> P i"
  by (auto simp: find_Some_iff)

lemma findfd_dir:
  assumes ok: "sys_ok s" and dd: "dirfd (fds s) dd" and p: "dir_slot p e s" "2 \<le> snd p" "fst p = dir_blk s dd"
    and i: "findfd (Some p) s = (Some i, s1)"
  defines "x \<equiv> (fds s1 i)\<lparr>fd_dmd := ramdisk_dmd s1, fd_file := Some p, fd_parent := Some dd\<rparr>"
  shows "\<exists>f. s1\<lparr>fds := (fds s1)(i := x)\<rparr> = s\<lparr>fds := f\<rparr> \<and> sys_ok (s\<lparr>fds := f\<rparr>) \<and> grown (fds s) f
           \<and> refs f = refs (fds s) \<and> dirfd f i \<and> dir_blk (s\<lparr>fds := f\<rparr>) i = de_faddr e"
proof (cases "find (\<lambda>i. fd_file (fds s i) = Some p) [0..<MAX_FD]")
  case (Some j)
  have D: "fds_ok s" using ok by (simp add: sys_ok_def)
  have j: "j < MAX_FD" "fd_file (fds s j) = Some p" "i = j" "s1 = s"
    using i find_least [OF Some] Some by (auto simp: findfd_def)
  have dm: "fd_dmd (fds s j) = ramdisk_dmd s" "\<not> fd_dev (fds s j)"
    using fds_okD(1) [OF D j(1,2)] p(1) by (auto simp: dir_slot_def)
  then have dj: "dirfd (fds s) j" using j by (simp add: dirfd_def)
  have "j \<noteq> ROOT" using fds_okD(4) [OF D] j p(2) by auto
  then obtain k where k: "fd_parent (fds s j) = Some k" "dirfd (fds s) k"
    using ok dj by (auto simp: sys_ok_def refs_ok_def)
  have "dir_blk s k = dir_blk s dd" using fds_okD(3) [OF D dj k(1) j(2)] p(3) by simp
  then have "k = dd" by (rule dir_blk_inj [OF ok k(2) dd])
  then have "x = (fds s j)\<lparr>fd_dmd := fd_dmd (fds s j), fd_file := fd_file (fds s j), fd_parent := fd_parent (fds s j)\<rparr>"
    using j k by (simp only: x_def dm(1))
  then have "x = fds s j" by simp
  moreover have "dir_blk s j = de_faddr e" using j p(1) by (simp add: dir_blk_def fd_entry_def dir_slot_def)
  ultimately show ?thesis using ok dj j by (intro exI [of _ "fds s"]) simp
next
  case None
  have D: "fds_ok s" using ok by (simp add: sys_ok_def)
  have fr: "i < MAX_FD" "fd_file (fds s i) = None" "s1 = s\<lparr>fds := (fds s)(i := zero_fd)\<rparr>"
    using i None by (auto simp: findfd_def split: option.splits dest: find_least)
  let ?f = "(fds s)(i := x)"
  have x: "x = zero_fd\<lparr>fd_dmd := ramdisk_dmd s, fd_file := Some p, fd_parent := Some dd\<rparr>"
    using fr by (simp add: x_def)
  have r: "refs_ok ?f" using refs_ok_new [OF _ fr(2,1) dd x] ok by (simp add: sys_ok_def)
  have ni: "\<not> dirfd (fds s) i" using fr by (simp add: dirfd_def)
  have dg: "dirfd ?f j \<longleftrightarrow> j = i \<or> dirfd (fds s) j" for j using ni fr x by (auto simp: dirfd_def zero_fd_def)
  have gr: "grown (fds s) ?f" using fr(2) grown_refl [of "fds s"] unfolding grown_def by auto
  have un: "fd_file (fds s j) \<noteq> Some p" if "j < MAX_FD" for j using None that by (auto simp: find_None_iff)
  have bi: "dir_blk (s\<lparr>fds := ?f\<rparr>) i = de_faddr e" using p(1) x by (simp add: dir_blk_def fd_entry_def dir_slot_def)
  have bl: "dir_blk (s\<lparr>fds := ?f\<rparr>) j = dir_blk s j" if "dirfd (fds s) j" for j by (rule grown_dir_blk [OF gr that])
  have f: "fds_ok (s\<lparr>fds := ?f\<rparr>)"
  proof (rule fds_okI, goal_cases)
    case (1 j q)
    then show ?case using fds_okD(1) [OF D, of j q] p(1,2) x by (cases "j = i") (auto simp: dir_slot_def slot_def zero_fd_def)
  next
    case (2 j k q)
    then show ?case using fds_okD(2) [OF D, of j k q] un x by (cases "j = i"; cases "k = i") auto
  next
    case (3 j k q)
    show ?case
    proof (cases "j = i")
      case True
      then show ?thesis using 3 p x bl [OF dd] by simp
    next
      case False
      then have j: "dirfd (fds s) j" "fd_parent (fds s j) = Some k" "fd_file (fds s j) = Some q" using 3 dg by auto
      moreover have "dirfd (fds s) k" using j ok by (auto simp: sys_ok_def intro: parent_dirfd)
      ultimately show ?thesis using fds_okD(3) [OF D j] bl by simp
    qed
  next
    case 4
    then show ?case using fds_okD(4) [OF D] fr(2) by auto
  next
    case 5
    then show ?case using fds_okD(5) [OF D] bl [of ROOT] ok by (simp add: sys_ok_def refs_ok_def)
  qed
  have "fd_refcnt x = 0" by (simp add: x zero_fd_def)
  then have "refs ?f = refs (fds s)" unfolding refs_def dg fun_eq_iff using ni by auto
  with r f gr bi ok fr(3) dg show ?thesis by (intro exI [of _ ?f]) (simp add: sys_ok_def)
qed


subsection \<open>Resolving a path\<close>

text \<open>
  What a path means, on the blocks of the tree: the components of the path, and the directory
  they lead to when every directory on the way may be searched.
\<close>

function split_path :: "bool \<Rightarrow> string \<Rightarrow> string list \<times> string" where
  "split_path dirlookup path =
     (let p = dropWhile is_bs path in
      if p = [] then ([], [])
      else if \<not> list_ex is_bs p \<and> \<not> dirlookup then ([], p)
      else let (cs, lst) = split_path dirlookup (path_rest p) in (path_current p # cs, lst))"
  by pat_completeness auto
termination
proof (relation "measure (\<lambda>(d, p). length p)", goal_cases)
  case (2 d path p)
  have "length (path_rest p) < length p" using 2 by (intro path_rest_shorter) (auto simp: hd_dropWhile)
  also have "\<dots> \<le> length path" using 2 by (simp add: length_dropWhile_le)
  finally show ?case by simp
qed simp

declare split_path.simps [simp del]

definition enter :: "'m kern \<Rightarrow> 'm ram \<Rightarrow> addr \<Rightarrow> string \<Rightarrow> addr option" where
  "enter K s a c = do {
     e0 \<leftarrow> get_de (a, 0) s;
     if \<not> xaccess e0 then None
     else if c = ''..'' then (if a = root_blk then None else map_option de_faddr (get_de (a, 1) s))
     else if c = ''.'' then Some a
     else do {
       es \<leftarrow> dir_at a s;
       r \<leftarrow> find_in (Pdomain K s) c 2 FF_SEARCH es (length es);
       i \<leftarrow> r;
       if is_dir (mode_of (es ! i)) then Some (de_faddr (es ! i)) else None } }"

fun resolve :: "'m kern \<Rightarrow> 'm ram \<Rightarrow> addr \<Rightarrow> string list \<Rightarrow> string \<Rightarrow> addr option" where
  "resolve K s a [] lst =
     (if lst = [] then Some a else do { e0 \<leftarrow> get_de (a, 0) s; if xaccess e0 then Some a else None })"
| "resolve K s a (c # cs) lst = do { b \<leftarrow> enter K s a c; resolve K s b cs lst }"

text \<open>The result of a call: the state, the descriptor that got a reference, the meaning.\<close>

definition held :: "path_result \<Rightarrow> nat option" where
  "held r = (case r of PDD d _ \<Rightarrow> Some d | PLink _ d (Some _) \<Rightarrow> Some d | _ \<Rightarrow> None)"

lemma resolve_fds [simp]: "enter K (s\<lparr>fds := f\<rparr>) = enter K s" "resolve K (s\<lparr>fds := f\<rparr>) a cs lst = resolve K s a cs lst"
proof -
  have g: "get_de p (s\<lparr>fds := f\<rparr>) = get_de p s" "dir_at a (s\<lparr>fds := f\<rparr>) = dir_at a s"
    "Pdomain K (s\<lparr>fds := f\<rparr>) = Pdomain K s" for p a by (simp_all add: get_de_def dir_at_def Pdomain_def)
  show e: "enter K (s\<lparr>fds := f\<rparr>) = enter K s" unfolding enter_def g ..
  have g: "get_de p (s\<lparr>fds := f\<rparr>) = get_de p s" for p by (rule g)
  show "resolve K (s\<lparr>fds := f\<rparr>) a cs lst = resolve K s a cs lst"
    by (induction cs arbitrary: a) (simp_all only: resolve.simps e g)
qed

lemma find_in_total: "hi \<le> length es \<Longrightarrow> \<exists>r. find_in D n sp m es hi = Some r"
proof -
  assume h: "hi \<le> length es"
  have "\<exists>r. scan_from P es sp hi = Some r" for P using scan_from_no_fault [OF h] by blast
  then obtain a b c where "scan_from (named (take RAM_MAXFNAME n)) es sp hi = Some a"
    "scan_from (named (strlwr (take RAM_MAXFNAME n))) es sp hi = Some b"
    "scan_from (tos_named (tostrunc n False)) es sp hi = Some c" by metis
  then show ?thesis by (simp add: find_in_def Let_def)
qed


lemma dirfd_enter:
  assumes ok: "sys_ok s" and dd: "dirfd (fds s) dd"
  obtains e e0 es where "fd_entry (fds s dd) s = Some e" "dir_blk s dd = de_faddr e" "is_dir (mode_of e)"
    "dir_at (dir_blk s dd) s = Some es" "get_de (dir_blk s dd, 0) s = Some e0" "xaccess e0 = xaccess e"
    "e0 = es ! 0" "de_maxnr e0 = int (length es)"
proof -
  obtain q e where q: "fd_entry (fds s dd) s = Some e" "dir_slot q e s" "dir_blk s dd = de_faddr e" "dd_ok (fds s dd) s"
    using ok dd by (rule dirfdE)
  obtain e0 where e0: "get_de (de_faddr e, 0) s = Some e0" "mode_of e0 = mode_of e"
    using ok q(2) unfolding sys_ok_def tree_ok_def by blast
  obtain es where es: "dir_at (de_faddr e) s = Some es" "de_maxnr (es ! 0) = int (length es)"
    using q(1,4) by (auto simp: fd_entry_def elim!: dd_okE)
  have "e0 = es ! 0" using e0(1) es by (auto simp: get_de_Some_iff)
  with q e0 es that [of e es e0] show thesis by (simp add: dir_slot_def xaccess_def)
qed

lemma path_enter_ok:
  assumes ok: "sys_ok s" and dd: "dirfd (fds s) dd" and small: "\<forall>d. refs (fds s) d < 2 ^ 15 - 1"
    and x: "fd_entry (fds s dd) s = Some d" "xaccess d" and c: "c \<noteq> ''.''" "c \<noteq> ''..''"
  shows "\<exists>r f. path_enter K dd c rest s = Some (r, s\<lparr>fds := f\<rparr>) \<and> sys_ok (s\<lparr>fds := f\<rparr>) \<and> grown (fds s) f
     \<and> (case r of
          Inr (rest', i) \<Rightarrow> rest' = rest \<and> dirfd f i \<and> refs f = refs (fds s)
            \<and> enter K s (dir_blk s dd) c = Some (dir_blk (s\<lparr>fds := f\<rparr>) i)
        | Inl (PErr e) \<Rightarrow> refs f = refs (fds s) \<and> (e = ENSMEM \<or> e = EPTHNF \<and> enter K s (dir_blk s dd) c = None)
        | Inl (PLink rest' i l) \<Rightarrow> i = dd \<and> l \<noteq> None \<and> rest' = rest \<and> refs f = (refs (fds s))(dd := refs (fds s) dd + 1)
            \<and> enter K s (dir_blk s dd) c = None
        | _ \<Rightarrow> False)"
proof -
  obtain e e0 es where e: "fd_entry (fds s dd) s = Some e" "dir_blk s dd = de_faddr e" "is_dir (mode_of e)"
    "dir_at (dir_blk s dd) s = Some es" "get_de (dir_blk s dd, 0) s = Some e0" "xaccess e0 = xaccess e"
    "e0 = es ! 0" "de_maxnr e0 = int (length es)" using ok dd by (rule dirfd_enter)
  have de: "d = e" using e(1) x(1) by simp
  obtain r where r: "find_in (Pdomain K s) c 2 FF_SEARCH es (length es) = Some r" using find_in_total by blast
  have ff: "findfile K (fds s dd) c 2 FF_SEARCH False s = Some (map_option (Pair (de_faddr e)) r)"
    using e x(2) de r by (simp add: findfile_def)
  have en: "enter K s (dir_blk s dd) c = (case r of None \<Rightarrow> None | Some i \<Rightarrow>
      if is_dir (mode_of (es ! i)) then Some (de_faddr (es ! i)) else None)"
    using e x(2) de r c by (simp add: enter_def split: option.splits)
  show ?thesis
  proof (cases r)
    case None
    then show ?thesis using ff en ok by (intro exI [of _ "Inl (PErr EPTHNF)"] exI [of _ "fds s"]) (simp add: path_enter_def)
  next
    case (Some i)
    note rg = find_in_range [OF r [unfolded Some]]
    let ?p = "(de_faddr e, i)" and ?e = "es ! i"
    have g: "get_de ?p s = Some ?e" using e rg by (simp add: get_de_def)
    have run: "path_enter K dd c rest s =
      (if is_link (mode_of ?e) then do { s \<leftarrow> increase_refcnts dd s; Some (Inl (PLink rest dd (Some (de_faddr ?e))), s) }
       else if \<not> is_dir (mode_of ?e) then Some (Inl (PErr EPTHNF), s)
       else (case findfd (Some ?p) s of
              (None, s) \<Rightarrow> Some (Inl (PErr ENSMEM), s)
            | (Some i, s) \<Rightarrow>
                Some (Inr (rest, i), s\<lparr>fds := (fds s)(i := (fds s i)\<lparr>fd_dmd := ramdisk_dmd s,
                                         fd_file := Some ?p, fd_parent := Some dd\<rparr>)\<rparr>)))"
      using ff Some g by (simp add: path_enter_def)
    consider (link) "is_link (mode_of ?e)"
      | (plain) "\<not> is_link (mode_of ?e) \<and> \<not> is_dir (mode_of ?e)"
      | (none) s1 where "\<not> is_link (mode_of ?e)" "is_dir (mode_of ?e)" "findfd (Some ?p) s = (None, s1)"
      | (subdir) j s1 where "\<not> is_link (mode_of ?e)" "is_dir (mode_of ?e)" "findfd (Some ?p) s = (Some j, s1)"
      by (metis option.exhaust surj_pair)
    then show ?thesis
    proof cases
      case link
      then have "\<not> is_dir (mode_of ?e)" by (auto dest: file_type_exclusive)
      moreover obtain f where "increase_refcnts dd s = Some (s\<lparr>fds := f\<rparr>)" "sys_ok (s\<lparr>fds := f\<rparr>)" "grown (fds s) f"
        "refs f = (refs (fds s))(dd := refs (fds s) dd + 1)"
        using increase_ok [OF ok dd] small dd by (metis refs_def)
      ultimately show ?thesis using run link en Some
        by (intro exI [of _ "Inl (PLink rest dd (Some (de_faddr ?e)))"] exI [of _ f]) simp
    next
      case plain
      then show ?thesis using run en Some ok by (intro exI [of _ "Inl (PErr EPTHNF)"] exI [of _ "fds s"]) simp
    next
      case none
      then have "s1 = s" by (auto simp: findfd_def split: option.splits)
      with none show ?thesis using run ok by (intro exI [of _ "Inl (PErr ENSMEM)"] exI [of _ "fds s"]) simp
    next
      case subdir
      have ds: "dir_slot ?p ?e s" using g rg subdir by (simp add: dir_slot_def slot_def)
      obtain f where f: "s1\<lparr>fds := (fds s1)(j := (fds s1 j)\<lparr>fd_dmd := ramdisk_dmd s1, fd_file := Some ?p, fd_parent := Some dd\<rparr>)\<rparr>
          = s\<lparr>fds := f\<rparr>" "sys_ok (s\<lparr>fds := f\<rparr>)" "grown (fds s) f" "refs f = refs (fds s)" "dirfd f j"
          "dir_blk (s\<lparr>fds := f\<rparr>) j = de_faddr ?e"
        using findfd_dir [OF ok dd ds _ _ subdir(3)] rg(1) e(2) by auto
      have "path_enter K dd c rest s = Some (Inr (rest, j), s\<lparr>fds := f\<rparr>)" using run subdir f(1) by simp
      then show ?thesis using f en Some subdir by (intro exI [of _ "Inr (rest, j)"] exI [of _ f]) simp
    qed
  qed
qed


text \<open>What a call that ended with \<open>r\<close> and the descriptors \<open>f\<close> has done.\<close>

definition path_done :: "'m kern \<Rightarrow> bool \<Rightarrow> string \<Rightarrow> nat \<Rightarrow> 'm ram \<Rightarrow> path_result \<Rightarrow> (nat \<Rightarrow> RAMDISK_FD) \<Rightarrow> bool" where
  "path_done K dirlookup path dd s r f \<longleftrightarrow>
     (let (cs, lst) = split_path dirlookup path; b = resolve K s (dir_blk s dd) cs lst in
      refs f = (case held r of None \<Rightarrow> refs (fds s) | Some d \<Rightarrow> (refs (fds s))(d := refs (fds s) d + 1)) \<and>
      (case r of
         PDD d l \<Rightarrow> dirfd f d \<and> l = lst \<and> b = Some (dir_blk (s\<lparr>fds := f\<rparr>) d)
       | PLink rest d l \<Rightarrow> dirfd f d \<and> b = None
       | PErr e \<Rightarrow> e = ENSMEM \<or> e \<in> {EACCDN, EPTHNF} \<and> b = None))"

lemma path_done_split:
  assumes "split_path dirlookup path = (cs, lst)"
  shows "path_done K dirlookup path dd s r f \<longleftrightarrow>
      refs f = (case held r of None \<Rightarrow> refs (fds s) | Some d \<Rightarrow> (refs (fds s))(d := refs (fds s) d + 1)) \<and>
      (case r of
         PDD d l \<Rightarrow> dirfd f d \<and> l = lst \<and> resolve K s (dir_blk s dd) cs lst = Some (dir_blk (s\<lparr>fds := f\<rparr>) d)
       | PLink rest d l \<Rightarrow> dirfd f d \<and> resolve K s (dir_blk s dd) cs lst = None
       | PErr e \<Rightarrow> e = ENSMEM \<or> e \<in> {EACCDN, EPTHNF} \<and> resolve K s (dir_blk s dd) cs lst = None)"
  by (simp add: path_done_def assms Let_def)

lemma enter_parent:
  assumes ok: "sys_ok s" and dd: "dirfd (fds s) dd" and i: "fd_parent (fds s dd) = Some i"
  shows "dirfd (fds s) i" "dd \<noteq> ROOT" "\<exists>h. get_de (dir_blk s dd, 1) s = Some h \<and> de_faddr h = dir_blk s i"
proof -
  have r: "refs_ok (fds s)" and f: "fds_ok s" and t: "tree_ok s" using ok by (auto simp: sys_ok_def)
  show "dirfd (fds s) i" by (rule parent_dirfd [OF r dd i])
  show "dd \<noteq> ROOT" using refs_ok_ROOT [OF r] i by auto
  obtain q e where q: "fd_file (fds s dd) = Some q" "dir_slot q e s" "dir_blk s dd = de_faddr e" using ok dd by (rule dirfdE)
  show "\<exists>h. get_de (dir_blk s dd, 1) s = Some h \<and> de_faddr h = dir_blk s i"
    using fds_okD(3) [OF f dd i q(1)] q(2,3) t unfolding tree_ok_def by metis
qed

lemma path_step_ok:
  fixes path :: string
  assumes ok: "sys_ok s" and dd: "dirfd (fds s) dd" and small: "\<forall>d. refs (fds s) d < 2 ^ 15 - 1"
  defines "p \<equiv> dropWhile is_bs path"
  shows "\<exists>r f. path_step K dirlookup path dd s = Some (r, s\<lparr>fds := f\<rparr>) \<and> sys_ok (s\<lparr>fds := f\<rparr>) \<and> grown (fds s) f
     \<and> (case r of
          Inl r \<Rightarrow> path_done K dirlookup path dd s r f
        | Inr (rest, i) \<Rightarrow> rest = path_rest p \<and> dirfd f i \<and> refs f = refs (fds s)
            \<and> p \<noteq> [] \<and> (list_ex is_bs p \<or> dirlookup)
            \<and> enter K s (dir_blk s dd) (path_current p) = Some (dir_blk (s\<lparr>fds := f\<rparr>) i))"
proof -
  obtain e e0 es where e: "fd_entry (fds s dd) s = Some e" "dir_blk s dd = de_faddr e" "is_dir (mode_of e)"
    "dir_at (dir_blk s dd) s = Some es" "get_de (dir_blk s dd, 0) s = Some e0" "xaccess e0 = xaccess e"
    "e0 = es ! 0" "de_maxnr e0 = int (length es)" using ok dd by (rule dirfd_enter)
  obtain fi where fi: "increase_refcnts dd s = Some (s\<lparr>fds := fi\<rparr>)" "sys_ok (s\<lparr>fds := fi\<rparr>)" "grown (fds s) fi"
    "refs fi = (refs (fds s))(dd := refs (fds s) dd + 1)"
    using increase_ok [OF ok dd] small dd by (metis refs_def)
  note di = grown_dirfd [OF fi(3) dd] grown_dir_blk [OF fi(3) dd]
  obtain cs lst where sp: "split_path dirlookup path = (cs, lst)" by fastforce
  note sp' = split_path.simps [of dirlookup path, unfolded sp Let_def, folded p_def]
  note pd = path_done_split [OF sp]
  let ?c = "path_current p"
  show ?thesis
  proof (cases "p = []")
    case True
    then have "cs = []" "lst = []" using sp' by auto
    with True fi di show ?thesis
      by (intro exI [of _ "Inl (PDD dd [])"] exI [of _ fi]) (simp add: path_step_def p_def [symmetric] pd held_def)
  next
    case ne: False
    show ?thesis
    proof (cases "xaccess e")
      case False
      have "cs = [] \<and> lst \<noteq> [] \<or> (\<exists>cs'. cs = ?c # cs')" using sp' ne by (auto split: if_splits prod.splits)
      then have "resolve K s (dir_blk s dd) cs lst = None" using e False by (auto simp: enter_def)
      then show ?thesis using ok False ne e
        by (intro exI [of _ "Inl (PErr EACCDN)"] exI [of _ "fds s"])
           (simp add: path_step_def p_def [symmetric] pd held_def)
    next
      case x: True
      show ?thesis
      proof (cases "\<not> list_ex is_bs p \<and> \<not> dirlookup")
        case True
        then have "cs = []" "lst = p" using sp' ne by auto
        then have "path_done K dirlookup path dd s (PDD dd p) fi" unfolding pd using fi(4) di e x by (simp add: held_def)
        with True ne fi e x show ?thesis
          by (intro exI [of _ "Inl (PDD dd p)"] exI [of _ fi]) (simp add: path_step_def p_def [symmetric])
      next
        case more: False
        then obtain cs' where cs: "cs = ?c # cs'" using sp' ne by (auto split: prod.splits)
        have start: "path_step K dirlookup path dd s =
          (if ?c = ''..'' then (if dd = ROOT then Some (Inl (PLink (path_rest p) dd None), s)
             else case fd_parent (fds s dd) of None \<Rightarrow> None | Some i \<Rightarrow> Some (Inr (path_rest p, i), s))
           else if ?c = ''.'' then Some (Inr (path_rest p, dd), s)
           else path_enter K dd ?c (path_rest p) s)"
          using ne x e more by (simp add: path_step_def p_def [symmetric] Let_def if_not_P [OF more] del: de_Morgan_conj not_not)
        show ?thesis
        proof (cases "?c = ''..''")
          case dots: True
          show ?thesis
          proof (cases "dd = ROOT")
            case True
            have "dir_blk s dd = root_blk" using dir_blk_ROOT [OF ok dd] True by simp
            then have "resolve K s (dir_blk s dd) cs lst = None" using cs dots e x by (simp add: enter_def)
            then show ?thesis using start dots True ok dd
              by (intro exI [of _ "Inl (PLink (path_rest p) dd None)"] exI [of _ "fds s"])
                 (simp add: pd held_def)
          next
            case False
            obtain i where i: "fd_parent (fds s dd) = Some i"
              using refs_okD(3) [OF _ dd False] ok by (auto simp: sys_ok_def)
            obtain h where h: "get_de (dir_blk s dd, 1) s = Some h" "de_faddr h = dir_blk s i"
              using enter_parent(3) [OF ok dd i] by blast
            have "enter K s (dir_blk s dd) ?c = Some (dir_blk s i)"
              using dots e(5,6) x h dir_blk_ROOT [OF ok dd] False by (simp add: enter_def)
            then show ?thesis using start dots False i ok ne more enter_parent(1) [OF ok dd i]
              by (intro exI [of _ "Inr (path_rest p, i)"] exI [of _ "fds s"]) simp
          qed
        next
          case nd: False
          show ?thesis
          proof (cases "?c = ''.''")
            case True
            then have "enter K s (dir_blk s dd) ?c = Some (dir_blk s dd)" using e x by (simp add: enter_def)
            then show ?thesis using start True ok ne more dd
              by (intro exI [of _ "Inr (path_rest p, dd)"] exI [of _ "fds s"]) simp
          next
            case False
            obtain r f where rf: "path_enter K dd ?c (path_rest p) s = Some (r, s\<lparr>fds := f\<rparr>)" "sys_ok (s\<lparr>fds := f\<rparr>)"
              "grown (fds s) f" and cr: "case r of
                Inr (rest', i) \<Rightarrow> rest' = path_rest p \<and> dirfd f i \<and> refs f = refs (fds s)
                  \<and> enter K s (dir_blk s dd) ?c = Some (dir_blk (s\<lparr>fds := f\<rparr>) i)
              | Inl (PErr e) \<Rightarrow> refs f = refs (fds s) \<and> (e = ENSMEM \<or> e = EPTHNF \<and> enter K s (dir_blk s dd) ?c = None)
              | Inl (PLink rest' i l) \<Rightarrow> i = dd \<and> l \<noteq> None \<and> rest' = path_rest p
                  \<and> refs f = (refs (fds s))(dd := refs (fds s) dd + 1) \<and> enter K s (dir_blk s dd) ?c = None
              | _ \<Rightarrow> False"
              using path_enter_ok [OF ok dd small e(1) x False nd, of K "path_rest p"] by blast
            have run: "path_step K dirlookup path dd s = Some (r, s\<lparr>fds := f\<rparr>)" using start nd False rf(1) by simp
            have "case r of Inl r \<Rightarrow> path_done K dirlookup path dd s r f
              | Inr (rest, i) \<Rightarrow> rest = path_rest p \<and> dirfd f i \<and> refs f = refs (fds s)
                  \<and> p \<noteq> [] \<and> (list_ex is_bs p \<or> dirlookup)
                  \<and> enter K s (dir_blk s dd) ?c = Some (dir_blk (s\<lparr>fds := f\<rparr>) i)"
              using cr ne more grown_dirfd [OF rf(3) dd] cs
              by (auto simp: pd held_def split: sum.splits path_result.splits)
            with run rf(2,3) show ?thesis by blast
          qed
        qed
      qed
    qed
  qed
qed


lemma path2DD_loop_ok:
  assumes "sys_ok s" "dirfd (fds s) dd" "\<forall>d. refs (fds s) d < 2 ^ 15 - 1"
  shows "\<exists>r f. path2DD_loop K dirlookup path dd s = Some (r, s\<lparr>fds := f\<rparr>) \<and> sys_ok (s\<lparr>fds := f\<rparr>)
           \<and> grown (fds s) f \<and> path_done K dirlookup path dd s r f"
  using assms
proof (induction path arbitrary: dd s rule: length_induct)
  case (1 path)
  let ?p = "dropWhile is_bs path"
  obtain r f where st: "path_step K dirlookup path dd s = Some (r, s\<lparr>fds := f\<rparr>)" "sys_ok (s\<lparr>fds := f\<rparr>)" "grown (fds s) f"
    and cr: "case r of
          Inl r \<Rightarrow> path_done K dirlookup path dd s r f
        | Inr (rest, i) \<Rightarrow> rest = path_rest ?p \<and> dirfd f i \<and> refs f = refs (fds s)
            \<and> ?p \<noteq> [] \<and> (list_ex is_bs ?p \<or> dirlookup)
            \<and> enter K s (dir_blk s dd) (path_current ?p) = Some (dir_blk (s\<lparr>fds := f\<rparr>) i)"
    using path_step_ok [OF 1(2,3,4), of K dirlookup path] by blast
  show ?case
  proof (cases r)
    case (Inl a)
    then show ?thesis using st cr by (subst path2DD_loop.simps) auto
  next
    case (Inr b)
    then obtain i where b: "r = Inr (path_rest ?p, i)" using cr by (cases b) auto
    with cr have i: "dirfd f i" "refs f = refs (fds s)" "?p \<noteq> []" "list_ex is_bs ?p \<or> dirlookup"
      "enter K s (dir_blk s dd) (path_current ?p) = Some (dir_blk (s\<lparr>fds := f\<rparr>) i)" by auto
    let ?s = "s\<lparr>fds := f\<rparr>"
    have "length (path_rest ?p) < length path" by (rule path_step_shorter) (use st(1) b in auto)
    then obtain r' g where g: "path2DD_loop K dirlookup (path_rest ?p) i ?s = Some (r', s\<lparr>fds := g\<rparr>)"
      "sys_ok (s\<lparr>fds := g\<rparr>)" "grown f g" "path_done K dirlookup (path_rest ?p) i ?s r' g"
      using 1(1) [rule_format, of "path_rest ?p" ?s i] st(2) i(1,2) 1(4) by auto
    have "path2DD_loop K dirlookup path dd s = Some (r', s\<lparr>fds := g\<rparr>)"
      using st(1) b g(1) by (subst path2DD_loop.simps) simp
    moreover have "grown (fds s) g" by (rule grown_trans [OF st(3) g(3)])
    moreover have "path_done K dirlookup path dd s r' g"
    proof -
      obtain cs lst where r: "split_path dirlookup (path_rest ?p) = (cs, lst)" by fastforce
      then have "split_path dirlookup path = (path_current ?p # cs, lst)"
        using i by (subst split_path.simps) (auto simp: Let_def)
      then show ?thesis using g(4) i(2,5) unfolding path_done_split [OF r]
        by (cases r'; cases "held r'") (simp_all add: path_done_split)
    qed
    ultimately show ?thesis using g(2) by blast
  qed
qed

lemma fds_ok_shrink:
  assumes D: "fds_ok s" and same: "\<And>i. fd_file (f i) \<in> {fd_file (fds s i), None} \<and> fd_parent (f i) = fd_parent (fds s i)
        \<and> fd_dev (f i) = fd_dev (fds s i) \<and> fd_dmd (f i) = fd_dmd (fds s i)"
    and par: "\<And>i p. dirfd f i \<Longrightarrow> fd_parent (f i) = Some p \<Longrightarrow> dirfd f p" and root: "dirfd f ROOT"
  shows "fds_ok (s\<lparr>fds := f\<rparr>)"
proof -
  have ff: "fd_file (fds s i) = Some p" if "fd_file (f i) = Some p" for i p using same [of i] that by auto
  have bl: "dir_blk (s\<lparr>fds := f\<rparr>) i = dir_blk s i" if d: "dirfd f i" for i
  proof -
    obtain p where "fd_file (f i) = Some p" using d by (auto simp: dirfd_def)
    with ff [OF this] show ?thesis by (simp add: dir_blk_def fd_entry_def)
  qed
  have d: "dirfd (fds s) i" if d: "dirfd f i" for i
  proof -
    obtain p where "fd_file (f i) = Some p" using d by (auto simp: dirfd_def)
    with ff [OF this] d same [of i] show ?thesis by (simp add: dirfd_def)
  qed
  show ?thesis
  proof (rule fds_okI, goal_cases)
    case (1 i p) then show ?case using fds_okD(1) [OF D, of i p] ff same by simp
  next
    case (2 i j p) then show ?case using fds_okD(2) [OF D, of i j p] ff by simp
  next
    case (3 i k p) then show ?case using fds_okD(3) [OF D d, of i k p] ff [of i p] same [of i] bl [OF par [of i k]] by simp
  next
    case 4 then show ?case using fds_okD(4) [OF D] root same [of ROOT] by (auto simp: dirfd_def)
  next
    case 5 then show ?case using fds_okD(5) [OF D] bl [OF root] by simp
  qed
qed

text \<open>The kernel gives a reference back.\<close>

lemma release_ok:
  assumes ok: "sys_ok s" and dd: "dirfd (fds s) dd" and more: "dd = ROOT \<Longrightarrow> 1 < refs (fds s) ROOT" and pos: "0 < refs (fds s) dd"
  shows "\<exists>f. ramdisk_freeDD dd (drop_ref dd s) = Some (s\<lparr>fds := f\<rparr>) \<and> sys_ok (s\<lparr>fds := f\<rparr>)
           \<and> refs f = (refs (fds s))(dd := refs (fds s) dd - 1)
           \<and> (\<forall>i. dirfd f i \<longrightarrow> dirfd (fds s) i \<and> fd_file (f i) = fd_file (fds s i) \<and> fd_parent (f i) = fd_parent (fds s i))
           \<and> (\<forall>i. fd_dev (fds s i) \<longrightarrow> fd_refcnt (fds s i) \<noteq> 0 \<longrightarrow> f i = fds s i)
           \<and> (refs (fds s) dd = 1 \<longrightarrow> (\<forall>i. dirfd f i \<longrightarrow> needed f i))"
proof (cases "refs (fds s) dd = 1")
  case True
  then have l: "fd_refcnt (fds s dd) = 1" and nr: "dd \<noteq> ROOT" using dd more by (auto simp: refs_def)
  obtain f where f: "ramdisk_freeDD dd (drop_ref dd s) = Some (s\<lparr>fds := f\<rparr>)" "refs_ok f"
    "\<And>i. dirfd f i \<longleftrightarrow> dirfd (fds s) i \<and> (i \<noteq> dd \<and> fd_refcnt (fds s i) \<noteq> 0 \<or> \<not> below (fds s) i \<subseteq> {dd})"
    "\<And>i. f i = (fds s i)\<lparr>fd_refcnt := (if i = dd then 0 else fd_refcnt (fds s i)),
                        fd_is_parent := fd_is_parent (f i), fd_file := fd_file (f i)\<rparr>
                  \<and> fd_file (f i) \<in> {fd_file (fds s i), None}"
    "\<And>i. \<not> dirfd (fds s) i \<Longrightarrow> fd_refcnt (fds s i) \<noteq> 0 \<Longrightarrow> f i = fds s i"
    using freeDD_spec [OF _ dd nr l] ok by (auto simp: sys_ok_def)
  have sel: "fd_refcnt (f i) = (if i = dd then 0 else fd_refcnt (fds s i))" "fd_parent (f i) = fd_parent (fds s i)"
    "fd_dev (f i) = fd_dev (fds s i)" "fd_dmd (f i) = fd_dmd (fds s i)" for i
    by (subst f(4) [THEN conjunct1], simp)+
  have f4: "fd_file (f i) \<in> {fd_file (fds s i), None}" for i using f(4) by blast
  have ff: "fd_file (f i) = fd_file (fds s i)" if "dirfd f i" for i using that f4 [of i] by (auto simp: dirfd_def)
  have "fds_ok (s\<lparr>fds := f\<rparr>)"
  proof (rule fds_ok_shrink)
    show "fds_ok s" using ok by (simp add: sys_ok_def)
    show "dirfd f ROOT" using refs_ok_ROOT [OF f(2)] by simp
    show "fd_file (f i) \<in> {fd_file (fds s i), None} \<and> fd_parent (f i) = fd_parent (fds s i)
        \<and> fd_dev (f i) = fd_dev (fds s i) \<and> fd_dmd (f i) = fd_dmd (fds s i)" for i using f4 sel by simp
    show "dirfd f p" if "dirfd f i" "fd_parent (f i) = Some p" for i p by (rule parent_dirfd [OF f(2) that])
  qed
  then have "sys_ok (s\<lparr>fds := f\<rparr>)" using ok f(2) by (simp add: sys_ok_def)
  moreover have "refs f = (refs (fds s))(dd := refs (fds s) dd - 1)"
  proof
    fix i show "refs f i = ((refs (fds s))(dd := refs (fds s) dd - 1)) i"
      using l dd f(3) [of i] sel(1) [of i] unfolding refs_def by (cases "i = dd"; cases "dirfd f i"; cases "dirfd (fds s) i") auto
  qed
  moreover have "needed f i" if di: "dirfd f i" for i
  proof -
    consider "i \<noteq> dd \<and> fd_refcnt (fds s i) \<noteq> 0" | x where "x \<in> below (fds s) i" "x \<noteq> dd" using di f(3) by blast
    then show ?thesis
    proof cases
      case 1 then show ?thesis by (simp add: needed_def sel)
    next
      case 2
      then have "x \<in> below f i" using anc_cong [of f "fds s" x] by (auto simp: below_def f(3) sel)
      then show ?thesis by (auto simp: needed_def)
    qed
  qed
  moreover have "f i = fds s i" if "fd_dev (fds s i)" "fd_refcnt (fds s i) \<noteq> 0" for i
    using f(5) [of i] that by (simp add: dirfd_def)
  ultimately show ?thesis using f(1,3) ff sel(2) by blast
next
  case False
  let ?f = "(fds s)(dd := (fds s dd)\<lparr>fd_refcnt := fd_refcnt (fds s dd) - 1\<rparr>)"
  have p: "1 < fd_refcnt (fds s dd)" using False pos dd by (simp add: refs_def)
  have run: "ramdisk_freeDD dd (drop_ref dd s) = Some (s\<lparr>fds := ?f\<rparr>)" using p by (simp add: ramdisk_freeDD_def drop_ref_def)
  have co: "counters_only (fds s) ?f"
    unfolding counters_only_def
  proof (intro allI conjI)
    fix i
    show "\<exists>r n. ?f i = (fds s i)\<lparr>fd_refcnt := r, fd_is_parent := n\<rparr>"
      by (intro exI [of _ "fd_refcnt (?f i)"] exI [of _ "fd_is_parent (fds s i)"]) simp
    show "dirfd (fds s) i \<or> ?f i = fds s i" using dd by simp
  qed
  note c = counters_onlyD [OF co]
  have bl: "below ?f i = below (fds s) i" for i using p by (auto simp: below_def c)
  have ok': "refs_ok (fds s)" using ok by (simp add: sys_ok_def)
  have "refs_ok ?f"
    by (rule refs_ok_counters [OF ok' co])
       (use p refs_ok_ROOT [OF ok'] refs_okD(1,4) [OF ok'] in \<open>auto simp: bl simp del: fun_upd_apply\<close>, auto)
  then have "sys_ok (s\<lparr>fds := ?f\<rparr>)" using ok fds_ok_counters [OF _ co] by (simp add: sys_ok_def)
  moreover have "refs ?f = (refs (fds s))(dd := refs (fds s) dd - 1)" using dd by (auto simp: refs_def fun_eq_iff c)
  moreover have "?f i = fds s i" if "fd_dev (fds s i)" for i using that dd by (auto simp: dirfd_def)
  ultimately show ?thesis using run False c by (intro exI [of _ ?f]) auto
qed


subsection \<open>The kernel's use of descriptors\<close>

text \<open>The kernel resolves paths relative to descriptors it holds, and gives references back.\<close>

inductive dd_step :: "'m kern \<Rightarrow> 'm ram \<Rightarrow> 'm ram \<Rightarrow> bool" for K :: "'m kern" where
  acquire: "dirfd (fds s) dd \<Longrightarrow> \<forall>d. refs (fds s) d < 2 ^ 15 - 1 \<Longrightarrow>
    ramdisk_path2DD K dd path mode s = Some (r, s') \<Longrightarrow> dd_step K s s'"
| release: "dirfd (fds s) dd \<Longrightarrow> (if dd = ROOT then 1 else 0) < refs (fds s) dd \<Longrightarrow>
    ramdisk_freeDD dd (drop_ref dd s) = Some s' \<Longrightarrow> dd_step K s s'"

lemma path2DD_ok:
  assumes "sys_ok s" "dirfd (fds s) dd" "\<forall>d. refs (fds s) d < 2 ^ 15 - 1"
  shows "\<exists>r f. ramdisk_path2DD K dd (Some path) mode s = Some (r, s\<lparr>fds := f\<rparr>) \<and> sys_ok (s\<lparr>fds := f\<rparr>)
           \<and> grown (fds s) f \<and> path_done K mode path dd s r f"
proof -
  have "dd_ok (fds s dd) s" using assms(1,2) by (rule dirfdE)
  then have "check_dd (fds s dd) s = Some E_OK" by (rule dd_ok_check)
  then show ?thesis using path2DD_loop_ok [OF assms] by (simp add: ramdisk_path2DD_def E_OK_def)
qed

lemma dd_step_ok:
  assumes "dd_step K s s'" "sys_ok s"
  shows "sys_ok s' \<and> heap s' = heap s \<and> (\<forall>i. 0 < refs (fds s) i \<longrightarrow> 0 < refs (fds s') i \<longrightarrow>
           fd_file (fds s' i) = fd_file (fds s i) \<and> fd_parent (fds s' i) = fd_parent (fds s i))"
  using assms(1)
proof cases
  case a: (acquire dd path mode r)
  show ?thesis
  proof (cases path)
    case None
    have "dd_ok (fds s dd) s" using assms(2) a(1) by (rule dirfdE)
    then have "check_dd (fds s dd) s = Some E_OK" by (rule dd_ok_check)
    then have "s' = s" using a(3) None by (simp add: ramdisk_path2DD_def E_OK_def)
    then show ?thesis using assms(2) by simp
  next
    case (Some p)
    then obtain f where "s' = s\<lparr>fds := f\<rparr>" "sys_ok (s\<lparr>fds := f\<rparr>)" "grown (fds s) f"
      using path2DD_ok [OF assms(2) a(1,2), of K p mode] a(3) by auto
    then show ?thesis using grownD(1,2) [of "fds s" f] by (auto simp: refs_def dirfd_def split: if_splits)
  qed
next
  case a: (release dd)
  then obtain f where "s' = s\<lparr>fds := f\<rparr>" "sys_ok (s\<lparr>fds := f\<rparr>)"
    "\<forall>i. dirfd f i \<longrightarrow> dirfd (fds s) i \<and> fd_file (f i) = fd_file (fds s i) \<and> fd_parent (f i) = fd_parent (fds s i)"
    using release_ok [OF assms(2) a(1)] by (auto split: if_splits)
  then show ?thesis by (auto simp: refs_def split: if_splits)
qed

end
