(* ===== verification/Ram_Path_Name.thy ===== *)
theory Ram_Path_Name
  imports Ram_Path
begin

text \<open>
  The first opening of the drive establishes the invariant, and \<open>ramdisk_DD2name\<close> delivers a
  path that leads back to the descriptor.
\<close>

subsection \<open>Opening the drive\<close>

lemma dot_entry_sel:
  assumes "dot_entry K dir n b drv m = (e, m')"
  shows "de_fname e = ''.''" "de_faddr e = dir" "de_nr e = 0" "de_maxnr e = n" "mode_of e = dir_mode"
    "kern_ok K live \<Longrightarrow> live m' = live m"
  using assms kern_ok_now_snd [of K live] by (auto simp: dot_entry_def split: prod.splits) (metis snd_conv)+

lemma root_dotdot_sel:
  assumes "root_dotdot K start drv m = (e, m')"
  shows "de_fname e = ''..''" "de_faddr e = root_de_blk" "mode_of e = dir_mode"
    "kern_ok K live \<Longrightarrow> live m' = live m"
  using assms kern_ok_now_snd [of K live] by (auto simp: root_dotdot_def split: prod.splits) (metis snd_conv)+

lemma is_dir_mode [simp]: "is_dir dir_mode" "dir_mode AND S_IXUSR \<noteq> 0"
  by (simp_all add: is_dir_def dir_mode_def mode_defs)

lemma root_neq [simp]: "root_blk \<noteq> root_de_blk" "root_de_blk \<noteq> root_blk" "0 < root_blk" "0 < root_de_blk" "root_blk \<noteq> ROOT_DE"
  by (simp_all add: root_blk_def root_de_blk_def ROOT_DE_def)

lemma first_open_run:
  assumes h: "heap s root_de_blk = Some (DirBlk [x])"
  shows "\<exists>m e0 e1 s'. first_open K dp s = Some s' \<and>
     heap s' = (heap s)(root_blk \<mapsto> DirBlk (e0 # e1 # replicate 98 zero_de),
                        root_de_blk \<mapsto> DirBlk [e1\<lparr>de_fname := [], de_faddr := root_blk\<rparr>]) \<and>
     fds s' = (\<lambda>i. if i < MAX_FD then zero_fd else fds s i)
       (ROOT := zero_fd\<lparr>fd_dmd := dp, fd_file := Some (root_de_blk, 0), fd_parent := None, fd_refcnt := 1\<rparr>) \<and>
     ramdisk_dmd s' = dp \<and> mem s' = m \<and> leave_free s' = leave_free s \<and> (\<forall>live. kern_ok K live \<longrightarrow> live m = live (mem s))
     \<and> de_fname e0 = ''.'' \<and> de_faddr e0 = root_blk \<and> de_maxnr e0 = 100 \<and> mode_of e0 = dir_mode \<and> mode_of e1 = dir_mode"
proof -
  let ?s = "s\<lparr>opened_once := True, heap := (heap s)(root_blk \<mapsto> DirBlk (replicate ROOTSIZE zero_de))\<rparr>"
  obtain e0 m0 where e0: "dot_entry K root_blk 100 0 (ramdisk_drive s) (mem s) = (e0, m0)" by fastforce
  obtain e1 m1 where e1: "root_dotdot K (starttime s, startdate s) (ramdisk_drive s) m0 = (e1, m1)" by fastforce
  have r: "replicate 100 zero_de = zero_de # zero_de # replicate 98 zero_de"
    by (simp add: numeral_eq_Suc)
  have p: "prepare_dir K root_blk ROOTSIZE ROOT_DE ?s =
     Some (?s\<lparr>mem := m1, heap := (heap s)(root_blk \<mapsto> DirBlk (e0 # e1 # replicate 98 zero_de))\<rparr>)"
    using e0 e1 by (simp add: prepare_dir_def ROOTSIZE_def dir_at_def put_de_def Let_def r)
  have live: "live m1 = live (mem s)" if "kern_ok K live" for live
    using that dot_entry_sel(6) [OF e0] root_dotdot_sel(4) [OF e1] by metis
  show ?thesis
    by (rule exI [of _ m1], rule exI [of _ e0], rule exI [of _ e1])
       (use p h live dot_entry_sel [OF e0] root_dotdot_sel [OF e1] in
         \<open>simp add: first_open_def get_de_def put_de_def dir_at_def ROOT_def Let_def cong: if_cong\<close>)
qed

lemma drv_open_ok:
  assumes h: "heap s root_de_blk = Some (DirBlk [x])" and nodirs: "\<forall>a es. heap s a = Some (DirBlk es) \<longrightarrow> a \<in> {root_blk, root_de_blk}"
    and d: "d_xfs d = 0" "d_drive d = ramdisk_drive s" "\<not> opened_once s"
  shows "\<exists>d' s'. ramdisk_drv_open K dp d s = Some (E_OK, d', s') \<and> d_root d' = Some ROOT \<and> sys_ok s'
           \<and> (\<forall>i. refs (fds s') i = (if i = ROOT then 1 else 0))
           \<and> (\<forall>live. kern_ok K live \<longrightarrow> mem_inv live s \<longrightarrow> mem_inv live s')"
proof -
  obtain m e0 e1 s' where s': "first_open K dp s = Some s'"
     "heap s' = (heap s)(root_blk \<mapsto> DirBlk (e0 # e1 # replicate 98 zero_de),
                        root_de_blk \<mapsto> DirBlk [e1\<lparr>de_fname := [], de_faddr := root_blk\<rparr>])"
     "fds s' = (\<lambda>i. if i < MAX_FD then zero_fd else fds s i)
       (ROOT := zero_fd\<lparr>fd_dmd := dp, fd_file := Some (root_de_blk, 0), fd_parent := None, fd_refcnt := 1\<rparr>)"
     "ramdisk_dmd s' = dp" "mem s' = m" "leave_free s' = leave_free s" "\<forall>live. kern_ok K live \<longrightarrow> live m = live (mem s)"
     "de_fname e0 = ''.''" "de_faddr e0 = root_blk" "de_maxnr e0 = 100" "mode_of e0 = dir_mode" "mode_of e1 = dir_mode"
    using first_open_run [OF h] by blast
  let ?f = "fds s'"
  have df: "dirfd ?f i \<longleftrightarrow> i = ROOT" for i using s'(3) by (auto simp: dirfd_def zero_fd_def ROOT_def MAX_FD_def)
  have fR: "?f ROOT = zero_fd\<lparr>fd_dmd := dp, fd_file := Some (root_de_blk, 0), fd_parent := None, fd_refcnt := 1\<rparr>" using s'(3) by simp
  have ff: "fd_file (?f i) = None" if "i < MAX_FD" "i \<noteq> ROOT" for i using that s'(3) by (simp add: zero_fd_def)
  have "below ?f ROOT = {}" using anc_irrefl by (auto simp: below_def df)
  moreover have "up ?f (Some ROOT) [ROOT]" using fR by simp
  ultimately have "refs_ok ?f" unfolding refs_ok_def df using fR by (auto simp: zero_fd_def intro: exI [of _ "[ROOT]"])
  have dir: "dir_at a s' = (if a = root_blk then Some (e0 # e1 # replicate 98 zero_de)
      else if a = root_de_blk then Some [e1\<lparr>de_fname := [], de_faddr := root_blk\<rparr>] else None)" for a
    using nodirs by (auto simp: dir_at_def s'(2) split: option.splits hobj.splits)
  have slots: "dir_slot p e s' \<longleftrightarrow> p = (root_de_blk, 0) \<and> e = e1\<lparr>de_fname := [], de_faddr := root_blk\<rparr>" for p e
  proof -
    have "de_faddr ((e0 # e1 # replicate 98 zero_de) ! j) = 0" if "2 \<le> j" "j < 100" for j
      using that by (simp add: nth_Cons' zero_de_def)
    then show ?thesis using s'(12)
      by (cases p) (auto simp: dir_slot_def slot_def get_de_Some_iff dir split: if_splits)
  qed
  have g0: "get_de (root_blk, 0) s' = Some e0" by (simp add: get_de_def dir)
  have dok: "dir_ok root_blk s'"
  proof -
    have "subdirs_ok root_blk s'" unfolding subdirs_ok_def
    proof (intro allI impI)
      fix i e assume "2 \<le> i" "get_de (root_blk, i) s' = Some e" "de_faddr e \<noteq> 0" "is_dir (mode_of e)"
      then have "dir_slot (root_blk, i) e s'" by (simp add: dir_slot_def slot_def)
      then show "\<exists>h. get_de (de_faddr e, 1) s' = Some h \<and> is_dir (mode_of h)" by (simp add: slots)
    qed
    with s' show ?thesis by (simp add: dir_ok_def dir)
  qed
  have t: "tree_ok s'"
    unfolding tree_ok_def slots using dok g0 s'(11,12) by auto
  have bR: "dir_blk s' ROOT = root_blk" by (simp add: dir_blk_def fd_entry_def fR get_de_def dir)
  have "fds_ok s'"
  proof (rule fds_okI, goal_cases)
    case (1 i p)
    then have "i = ROOT" using ff by force
    then show ?case using 1 fR s'(4,12) by (auto simp: slot_def get_de_def dir zero_fd_def)
  next
    case (2 i j p) then show ?case using ff [of i] ff [of j] by force
  next
    case (3 i k p) then show ?case using df fR by simp
  qed (simp_all add: fR bR)
  with t \<open>refs_ok ?f\<close> have "sys_ok s'" by (simp add: sys_ok_def)
  moreover have "refs ?f i = (if i = ROOT then 1 else 0)" for i using fR by (simp add: refs_def df)
  moreover have "mem_inv live s'" if "kern_ok K live" "mem_inv live s" for live
    using that s'(2,5,6,7) by (auto simp: mem_inv_def split: if_splits)
  ultimately show ?thesis using s'(1) d by (simp add: ramdisk_drv_open_def)
qed

subsection \<open>From a descriptor to a path and back\<close>

definition name_ok :: "string \<Rightarrow> bool" where
  "name_ok n \<longleftrightarrow> n \<noteq> [] \<and> length n \<le> RAM_MAXFNAME \<and> list_all (\<lambda>c. \<not> is_bs c) n \<and> n \<noteq> ''.'' \<and> n \<noteq> ''..''"

definition names_ok :: "'m ram \<Rightarrow> bool" where
  "names_ok s \<longleftrightarrow> (\<forall>a i e. 2 \<le> i \<longrightarrow> get_de (a, i) s = Some e \<longrightarrow> de_faddr e \<noteq> 0 \<longrightarrow>
     name_ok (de_fname e) \<and>
     (\<forall>j e'. 2 \<le> j \<longrightarrow> get_de (a, j) s = Some e' \<longrightarrow> de_faddr e' \<noteq> 0 \<longrightarrow> de_fname e' = de_fname e \<longrightarrow> j = i))"

definition fd_name :: "'m ram \<Rightarrow> nat \<Rightarrow> string" where
  "fd_name s i = (case fd_entry (fds s i) s of Some e \<Rightarrow> de_fname e | None \<Rightarrow> [])"

lemma split_path_skip: "split_path d (dropWhile is_bs p) = split_path d p"
  by (subst (1 2) split_path.simps) simp

lemma no_bs:
  assumes "list_all (\<lambda>c. \<not> is_bs c) n"
  shows "dropWhile is_bs n = n" "takeWhile (\<lambda>c. \<not> is_bs c) n = n" "\<not> list_ex is_bs n" "dropWhile (\<lambda>c. \<not> is_bs c) n = []"
  using assms by (induction n) auto

lemma no_bs_append:
  assumes "list_all (\<lambda>c. \<not> is_bs c) n"
  shows "dropWhile (\<lambda>c. \<not> is_bs c) (n @ m) = dropWhile (\<lambda>c. \<not> is_bs c) m"
    "takeWhile (\<lambda>c. \<not> is_bs c) (n @ m) = n @ takeWhile (\<lambda>c. \<not> is_bs c) m"
  using assms by (induction n) auto

lemma split_path_names:
  assumes "\<forall>n \<in> set ns. name_ok n"
  shows "split_path True (concat (map (\<lambda>n. backslash # n) ns)) = (ns, [])"
  using assms
proof (induction ns)
  case Nil
  then show ?case by (subst split_path.simps) simp
next
  case (Cons n ns)
  let ?r = "concat (map (\<lambda>n. backslash # n) ns)"
  have n: "n \<noteq> []" "length n \<le> RAM_MAXFNAME" "list_all (\<lambda>c. \<not> is_bs c) n" using Cons.prems by (auto simp: name_ok_def)
  note nb = no_bs [OF n(3)]
  have d: "dropWhile is_bs (backslash # n @ ?r) = n @ ?r"
    using n(1,3) by (cases n) (auto simp: is_bs_def)
  have r: "?r = [] \<or> (\<exists>t. ?r = backslash # t)" by (cases ns) auto
  have "path_current (n @ ?r) = n \<and> path_rest (n @ ?r) = dropWhile is_bs ?r"
    using r
  proof
    assume e: "?r = []"
    have "path_rest n = []" unfolding path_rest_def nb(4) by simp
    then show ?thesis unfolding e using nb(3) by (simp add: path_current_def)
  next
    assume "\<exists>t. ?r = backslash # t"
    then obtain t where t: "?r = backslash # t" by blast
    show ?thesis unfolding t using n(2)
      by (simp add: path_current_def path_rest_def no_bs_append [OF n(3)] is_bs_def [of backslash])
  qed
  then show ?case
    using Cons n(1) d split_path_skip [of True ?r] by (subst split_path.simps) (simp add: Let_def)
qed

lemma resolve_append: "resolve K s a (xs @ ys) lst = do { b \<leftarrow> resolve K s a xs []; resolve K s b ys lst }"
  by (induction xs arbitrary: a) auto

lemma enter_name:
  assumes ok: "sys_ok s" "names_ok s" and dom: "Pdomain K s = 1" and i: "dirfd (fds s) i" "fd_parent (fds s i) = Some p"
    and x: "get_de (dir_blk s p, 0) s = Some e0" "xaccess e0"
  shows "enter K s (dir_blk s p) (fd_name s i) = Some (dir_blk s i)" "name_ok (fd_name s i)"
proof -
  obtain q e where q: "fd_file (fds s i) = Some q" "fd_entry (fds s i) s = Some e" "dir_slot q e s" "dir_blk s i = de_faddr e"
    using ok(1) i(1) by (rule dirfdE)
  have q2: "2 \<le> snd q" "fst q = dir_blk s p" using fds_okD(3) [OF _ i q(1)] ok(1) by (auto simp: sys_ok_def)
  have nm: "fd_name s i = de_fname e" using q(2) by (simp add: fd_name_def)
  have qe: "get_de (dir_blk s p, snd q) s = Some e" "de_faddr e \<noteq> 0" "is_dir (mode_of e)"
    using q(3) q2(2) prod.collapse [of q] by (auto simp: dir_slot_def)
  have n: "name_ok (de_fname e)" and
    uniq: "\<And>j e'. 2 \<le> j \<Longrightarrow> get_de (dir_blk s p, j) s = Some e' \<Longrightarrow> de_faddr e' \<noteq> 0 \<Longrightarrow> de_fname e' = de_fname e \<Longrightarrow> j = snd q"
    using ok(2) q2(1) qe(1,2) unfolding names_ok_def by blast+
  obtain es where es: "dir_at (dir_blk s p) s = Some es" "snd q < length es" "es ! snd q = e"
    using qe(1) by (auto simp: get_de_Some_iff)
  have t: "take RAM_MAXFNAME (de_fname e) = de_fname e" using n by (simp add: name_ok_def)
  have "scan_from (named (de_fname e)) es 2 (length es) = Some (Some (snd q))"
  proof -
    have "\<not> named (de_fname e) (es ! j)" if "2 \<le> j" "j < snd q" for j
      using uniq [of j "es ! j"] that es by (auto simp: named_def get_de_Some_iff)
    then show ?thesis using q2(1) es qe(2) by (subst scan_from_Some_iff) (auto simp: named_def)
  qed
  then have "find_in 1 (de_fname e) 2 FF_SEARCH es (length es) = Some (Some (snd q))"
    by (simp add: find_in_def Let_def t)
  then show "enter K s (dir_blk s p) (fd_name s i) = Some (dir_blk s i)"
    using x es n dom qe(3) q(4) nm by (simp add: enter_def name_ok_def)
  show "name_ok (fd_name s i)" using n nm by simp
qed

lemma resolve_chain:
  assumes ok: "sys_ok s" "names_ok s" and dom: "Pdomain K s = 1"
    and x: "\<forall>p e0. dirfd (fds s) p \<longrightarrow> get_de (dir_blk s p, 0) s = Some e0 \<longrightarrow> xaccess e0"
  shows "up (fds s) (Some d) ds \<Longrightarrow> dirfd (fds s) d \<Longrightarrow>
     resolve K s root_blk (map (fd_name s) (rev (butlast ds))) [] = Some (dir_blk s d)
     \<and> (\<forall>i \<in> set (butlast ds). name_ok (fd_name s i))"
proof (induction ds arbitrary: d)
  case (Cons i ds)
  then have i: "i = d" "up (fds s) (fd_parent (fds s d)) ds" by auto
  show ?case
  proof (cases "fd_parent (fds s d)")
    case None
    then have "d = ROOT" using refs_okD(3) [of "fds s" d] ok(1) Cons.prems(2) by (auto simp: sys_ok_def)
    moreover have "ds = []" using i None by (cases ds) auto
    ultimately show ?thesis using dir_blk_ROOT [OF ok(1) Cons.prems(2)] by simp
  next
    case (Some p)
    then have dp: "dirfd (fds s) p" using enter_parent(1) [OF ok(1) Cons.prems(2)] by simp
    obtain e0 where e0: "get_de (dir_blk s p, 0) s = Some e0" using ok(1) dp by (rule dirfd_enter)
    note en = enter_name [OF ok dom Cons.prems(2) Some e0]
    have u: "up (fds s) (Some p) ds" and "ds \<noteq> []" using i Some by auto
    then show ?thesis
      using Cons.IH [OF u dp] en x dp e0 i(1) by (auto simp: resolve_append)
  qed
qed simp

lemma DD2name_loop_chain:
  assumes ok: "sys_ok s" and dom: "Pdomain K s = 1" and bs: "bufsize < 2 ^ 15"
  shows "up (fds s) (Some d) ds \<Longrightarrow> dirfd (fds s) d \<Longrightarrow>
    int (length acc + (\<Sum>i \<leftarrow> butlast ds. length (fd_name s i) + 1)) < bufsize \<Longrightarrow>
    DD2name_loop K bufsize d acc s = Some (E_OK, acc @ concat (map (\<lambda>i. rev (fd_name s i) @ [backslash]) (butlast ds)))"
proof (induction ds arbitrary: d acc)
  case (Cons i ds)
  then have i: "i = d" "up (fds s) (fd_parent (fds s d)) ds" by auto
  show ?case
  proof (cases "fd_parent (fds s d)")
    case None
    moreover have "ds = []" using i None by (cases ds) auto
    ultimately show ?thesis by (subst DD2name_loop.simps) simp
  next
    case (Some p)
    have u: "up (fds s) (Some p) ds" and ne: "ds \<noteq> []" using i Some by auto
    have dp: "dirfd (fds s) p" using enter_parent(1) [OF ok Cons.prems(2) Some] .
    obtain e where e: "fd_entry (fds s d) s = Some e" using ok Cons.prems(2) by (rule dirfdE)
    then have nm: "fd_name s d = de_fname e" by (simp add: fd_name_def)
    let ?acc = "acc @ rev (fd_name s d) @ [backslash]"
    have l: "int (length acc + length (fd_name s d) + 1) < bufsize"
      "int (length ?acc + (\<Sum>i \<leftarrow> butlast ds. length (fd_name s i) + 1)) < bufsize"
      using Cons.prems(3) i(1) ne by auto
    have "DD2name_loop K bufsize d acc s = DD2name_loop K bufsize p ?acc s"
      using Some e dom l(1) bs nm by (subst DD2name_loop.simps) (simp add: Let_def)
    with Cons.IH [OF u dp l(2)] i(1) ne show ?thesis by simp
  qed
qed simp

lemma DD2name_ok:
  assumes ok: "sys_ok s" and dom: "Pdomain K s = 1" and bs: "bufsize < 2 ^ 15"
    and d: "up (fds s) (Some d) ds" "dirfd (fds s) d" "int (\<Sum>i \<leftarrow> butlast ds. length (fd_name s i) + 1) < bufsize"
  shows "ramdisk_DD2name K d bufsize s = Some (E_OK, concat (map (\<lambda>n. backslash # n) (map (fd_name s) (rev (butlast ds)))))"
proof -
  have "dd_ok (fds s d) s" using ok d(2) by (rule dirfdE)
  then have c: "check_dd (fds s d) s = Some E_OK" by (rule dd_ok_check)
  have "DD2name_loop K bufsize d [] s = Some (E_OK, [] @ concat (map (\<lambda>i. rev (fd_name s i) @ [backslash]) (butlast ds)))"
    by (rule DD2name_loop_chain [OF ok dom bs d(1,2)]) (use d(3) in simp)
  moreover have "rev (concat (map (\<lambda>i. rev (fd_name s i) @ [backslash]) xs)) = concat (map (\<lambda>n. backslash # n) (map (fd_name s) (rev xs)))" for xs
    by (induction xs) simp_all
  ultimately show ?thesis using c d(3) by (simp add: ramdisk_DD2name_def E_OK_def)
qed

end
