(* ===== verification/Ram_Path_Props.thy ===== *)
theory Ram_Path_Props
  imports Ram_Path_Name Ram_Entry_Props
begin

text \<open>
  Properties of opening the drive, of path lookup and of the reference counts, and a small tree
  on which they are applied.
\<close>

subsection \<open>A small tree\<close>


text \<open>The disk of \<open>Ram_Demo\<close> with a directory \<open>sub\<close> beside the file.\<close>

definition demo_sub :: "DIRENTRY list" where
  "demo_sub =
     [\<lparr>de_fname = ''.'', de_faddr = 6, de_nr = 0, de_maxnr = 3, de_xattr = demo_dir_xattr 6\<rparr>,
      \<lparr>de_fname = ''..'', de_faddr = root_blk, de_nr = 1, de_maxnr = 0, de_xattr = demo_dir_xattr root_blk\<rparr>,
      zero_de]"

definition demo_tree :: "nat list ram" where
  "demo_tree = demo_ram\<lparr>mem := [5, 6],
     heap := (heap demo_ram)(
       root_blk \<mapsto> DirBlk (demo_root[3 := \<lparr>de_fname = ''sub'', de_faddr = 6, de_nr = 3, de_maxnr = 0,
                                           de_xattr = demo_dir_xattr 6\<rparr>]),
       6 \<mapsto> DirBlk demo_sub)\<rparr>"

lemma demo_tree_dirs: "dir_at a demo_tree =
   (if a = root_blk then Some (demo_root[3 := \<lparr>de_fname = ''sub'', de_faddr = 6, de_nr = 3, de_maxnr = 0, de_xattr = demo_dir_xattr 6\<rparr>])
    else if a = 6 then Some demo_sub
    else if a = root_de_blk then Some [\<lparr>de_fname = [], de_faddr = root_blk, de_nr = 1, de_maxnr = 0, de_xattr = demo_dir_xattr ROOT_DE\<rparr>]
    else None)"
  by (simp add: demo_tree_def demo_ram_def dir_at_def root_blk_def root_de_blk_def)

lemma demo_dir_modes [simp]: "is_dir 0x41FF" "\<not> is_dir 0x81B6" "\<not> is_dir 0"
  by (simp_all add: is_dir_def mode_defs)

lemma small_nat: "i < (5::nat) \<longleftrightarrow> i = 0 \<or> i = 1 \<or> i = 2 \<or> i = 3 \<or> i = 4" "i < (3::nat) \<longleftrightarrow> i = 0 \<or> i = 1 \<or> i = 2"
  by presburger+

lemma demo_tree_entries:
  "get_de (a, i) demo_tree = Some e \<Longrightarrow> 2 \<le> i \<Longrightarrow> de_faddr e \<noteq> 0 \<Longrightarrow>
     a = root_blk \<and> (i = 2 \<and> e = demo_root ! 2 \<or>
       i = 3 \<and> e = \<lparr>de_fname = ''sub'', de_faddr = 6, de_nr = 3, de_maxnr = 0, de_xattr = demo_dir_xattr 6\<rparr>)"
proof -
  assume a: "get_de (a, i) demo_tree = Some e" "2 \<le> i" "de_faddr e \<noteq> 0"
  have l: "length demo_root = 5" "length demo_sub = 3" by (simp_all add: demo_root_def demo_sub_def)
  have "a = root_blk \<and> i < 5 \<or> a = 6 \<and> i < 3"
    using a(1,2) by (auto simp: get_de_Some_iff demo_tree_dirs l split: if_splits)
  then have "a = root_blk \<and> (i = 2 \<or> i = 3 \<or> i = 4) \<or> a = 6 \<and> i = 2" using a(2) small_nat by auto
  then show ?thesis
    using a(1,3) by (auto simp: get_de_def demo_tree_dirs demo_root_def demo_sub_def zero_de_def root_blk_def split: if_splits)
qed

lemma demo_tree_get:
  "get_de (root_de_blk, 0) demo_tree = Some \<lparr>de_fname = [], de_faddr = root_blk, de_nr = 1, de_maxnr = 0, de_xattr = demo_dir_xattr ROOT_DE\<rparr>"
  "get_de (root_blk, 3) demo_tree = Some \<lparr>de_fname = ''sub'', de_faddr = 6, de_nr = 3, de_maxnr = 0, de_xattr = demo_dir_xattr 6\<rparr>"
  "get_de (root_blk, 0) demo_tree = Some (demo_root ! 0)" "get_de (6, 0) demo_tree = Some (demo_sub ! 0)"
  "get_de (6, 1) demo_tree = Some (demo_sub ! 1)" "get_de (root_blk, 2) demo_tree = Some (demo_root ! 2)"
  by (simp_all add: get_de_def demo_tree_dirs demo_root_def demo_sub_def root_blk_def root_de_blk_def)

lemmas demo_tree_get' = demo_tree_get demo_tree_get(5) [unfolded One_nat_def]

lemma demo_tree_slots: "dir_slot p e demo_tree \<longleftrightarrow>
   p = (root_de_blk, 0) \<and> e = \<lparr>de_fname = [], de_faddr = root_blk, de_nr = 1, de_maxnr = 0, de_xattr = demo_dir_xattr ROOT_DE\<rparr>
   \<or> p = (root_blk, 3) \<and> e = \<lparr>de_fname = ''sub'', de_faddr = 6, de_nr = 3, de_maxnr = 0, de_xattr = demo_dir_xattr 6\<rparr>"
proof -
  have "mode_of (demo_root ! 2) = 0x81B6" by (simp add: demo_root_def zero_xattr_def)
  then show ?thesis
    using demo_tree_entries [of "fst p" "snd p" e] demo_tree_get
    by (cases p) (auto simp: dir_slot_def slot_def demo_dir_xattr_def zero_xattr_def)
qed

lemma demo_tree_subdirs: "subdirs_ok a demo_tree"
  unfolding subdirs_ok_def
proof (intro allI impI)
  fix i e assume e: "2 \<le> i" "get_de (a, i) demo_tree = Some e" "de_faddr e \<noteq> 0" "is_dir (mode_of e)"
  then have "dir_slot (a, i) e demo_tree" by (simp add: dir_slot_def slot_def)
  then show "\<exists>h. get_de (de_faddr e, 1) demo_tree = Some h \<and> is_dir (mode_of h)"
    using e(1) by (auto simp: demo_tree_slots demo_tree_get' demo_sub_def demo_dir_xattr_def zero_xattr_def)
qed

lemma demo_tree_dir_ok: "dir_ok root_blk demo_tree" "dir_ok 6 demo_tree"
  by (simp_all add: dir_ok_def demo_tree_subdirs demo_tree_dirs demo_root_def demo_sub_def demo_dir_xattr_def zero_xattr_def root_blk_def)

lemma demo_tree_ok: "tree_ok demo_tree"
  unfolding tree_ok_def demo_tree_slots
  by (auto simp: demo_tree_dir_ok demo_tree_get' demo_root_def demo_sub_def demo_dir_xattr_def) (auto simp: root_blk_def)

lemma demo_tree_fds: "fds demo_tree = fds demo_ram" "ramdisk_dmd demo_tree = 9"
  by (simp_all add: demo_tree_def demo_ram_def)

lemma demo_dirfd: "dirfd (fds demo_ram) i \<longleftrightarrow> i = ROOT"
  by (auto simp: dirfd_def demo_ram_def ROOT_def zero_fd_def MAX_FD_def)

lemma demo_refs_ok: "refs_ok (fds demo_ram)"
proof -
  have "below (fds demo_ram) ROOT = {}" using anc_irrefl by (auto simp: below_def demo_dirfd)
  moreover have "up (fds demo_ram) (Some ROOT) [ROOT]" by (simp add: demo_ram_def zero_fd_def ROOT_def)
  ultimately show ?thesis unfolding refs_ok_def demo_dirfd
    by (auto simp: demo_ram_def zero_fd_def ROOT_def intro: exI [of _ "[ROOT]"])
qed

lemma demo_sys_ok: "sys_ok demo_tree"
proof -
  have bR: "dir_blk demo_tree ROOT = root_blk"
    by (simp add: dir_blk_def fd_entry_def demo_tree_fds demo_tree_get) (simp add: demo_ram_def ROOT_def demo_tree_get)
  have "fds_ok demo_tree"
  proof (rule fds_okI, goal_cases)
    case (1 i p)
    then have "i = ROOT \<and> p = (root_de_blk, 0) \<or> i = 4 \<and> p = (root_blk, 2)"
      by (auto simp: demo_tree_fds demo_ram_def zero_fd_def split: if_splits)
    then show ?case
      by (auto simp: slot_def demo_tree_fds demo_tree_get demo_ram_def zero_fd_def ROOT_def demo_dir_xattr_def zero_xattr_def demo_root_def)
  next
    case (2 i j p) then show ?case by (auto simp: demo_tree_fds demo_ram_def zero_fd_def split: if_splits)
  next
    case (3 i k p)
    then have "i = ROOT" by (simp add: demo_tree_fds demo_dirfd)
    with 3 show ?case by (simp add: demo_tree_fds demo_ram_def zero_fd_def ROOT_def)
  next
    case 4 then show ?case by (simp add: demo_tree_fds demo_ram_def ROOT_def)
  qed (rule bR)
  then show ?thesis using demo_refs_ok demo_tree_ok by (simp add: sys_ok_def demo_tree_fds)
qed

lemma demo_refs: "refs (fds demo_tree) i = (if i = ROOT then 1 else 0)"
  by (simp add: refs_def demo_tree_fds demo_dirfd) (simp add: demo_ram_def ROOT_def)


lemma demo_names_ok: "names_ok demo_tree"
proof -
  have "name_ok ''a.txt''" "name_ok ''sub''" by (simp_all add: name_ok_def is_bs_def RAM_MAXFNAME_def)
  moreover have "de_fname (demo_root ! 2) = ''a.txt''" by (simp add: demo_root_def)
  ultimately show ?thesis unfolding names_ok_def by (auto dest!: demo_tree_entries)
qed

lemma demo_split: "split_path False (''sub'' @ [backslash] @ ''x'') = ([''sub''], ''x'')"
  by (simp add: split_path.simps [of False "_ # _"] path_current_def path_rest_def is_bs_def Let_def RAM_MAXFNAME_def)

lemma demo_resolve: "resolve demo_kern demo_tree root_blk [''sub''] ''x'' = Some 6"
proof -
  let ?es = "demo_root[3 := \<lparr>de_fname = ''sub'', de_faddr = 6, de_nr = 3, de_maxnr = 0, de_xattr = demo_dir_xattr 6\<rparr>]"
  have "scan_from (named ''sub'') ?es 2 5 = Some (Some 3)"
    by (subst scan_from_Some_iff) (auto simp: demo_root_def named_def numeral_eq_Suc le_Suc_eq)
  then have "find_in 1 ''sub'' 2 FF_SEARCH ?es 5 = Some (Some 3)" by (simp add: find_in_def Let_def RAM_MAXFNAME_def)
  moreover have "Pdomain demo_kern demo_tree = 1" by (simp add: Pdomain_def demo_kern_def)
  moreover have "length demo_root = 5" "?es ! 3 = \<lparr>de_fname = ''sub'', de_faddr = 6, de_nr = 3, de_maxnr = 0, de_xattr = demo_dir_xattr 6\<rparr>"
    by (simp_all add: demo_root_def)
  moreover have "xaccess (demo_root ! 0)" "xaccess (demo_sub ! 0)"
    by (simp_all add: xaccess_def demo_root_def demo_sub_def demo_dir_xattr_def mode_defs)
  moreover have "is_dir (mode_of \<lparr>de_fname = ''sub'', de_faddr = 6, de_nr = 3, de_maxnr = 0, de_xattr = demo_dir_xattr 6\<rparr>)"
    by (simp add: demo_dir_xattr_def)
  ultimately show ?thesis by (simp add: enter_def demo_tree_get demo_tree_dirs)
qed

text \<open>The same disk while the kernel holds a descriptor of \<open>sub\<close>.\<close>

definition demo_busy :: "nat list ram" where
  "demo_busy = demo_tree\<lparr>fds := (fds demo_ram)(
     5 := zero_fd\<lparr>fd_dmd := 9, fd_refcnt := 1, fd_file := Some (root_blk, 3), fd_parent := Some ROOT\<rparr>,
     ROOT := (fds demo_ram ROOT)\<lparr>fd_is_parent := 1\<rparr>)\<rparr>"

lemma busy_fds: "fds demo_busy ROOT = zero_fd\<lparr>fd_dmd := 9, fd_refcnt := 1, fd_file := Some (root_de_blk, 0), fd_is_parent := 1\<rparr>"
  "fds demo_busy 5 = zero_fd\<lparr>fd_dmd := 9, fd_refcnt := 1, fd_file := Some (root_blk, 3), fd_parent := Some ROOT\<rparr>"
  "i \<noteq> 5 \<Longrightarrow> i \<noteq> ROOT \<Longrightarrow> fds demo_busy i = fds demo_ram i"
  by (simp_all add: demo_busy_def demo_ram_def ROOT_def)

lemma busy_dirfd: "dirfd (fds demo_busy) i \<longleftrightarrow> i = ROOT \<or> i = 5"
proof (cases "i = ROOT \<or> i = 5")
  case True
  then show ?thesis by (auto simp: dirfd_def busy_fds MAX_FD_def zero_fd_def) (simp_all add: ROOT_def)
next
  case False
  then have "dirfd (fds demo_busy) i = dirfd (fds demo_ram) i" by (simp add: dirfd_def busy_fds)
  with False show ?thesis by (simp add: demo_dirfd)
qed

lemma busy_up: "up (fds demo_busy) (Some 5) [5, ROOT]" "up (fds demo_busy) (Some ROOT) [ROOT]"
  by (simp_all add: busy_fds zero_fd_def)

lemma busy_refs_ok: "refs_ok (fds demo_busy)"
proof -
  have a: "anc (fds demo_busy) 5 = {ROOT}" "anc (fds demo_busy) ROOT = {}"
    using anc_up [of "fds demo_busy" 5 "[ROOT]"] anc_up [of "fds demo_busy" ROOT "[]"] by (simp_all add: busy_fds zero_fd_def)
  have "below (fds demo_busy) ROOT = {5}" "below (fds demo_busy) 5 = {}"
    using a by (auto simp: below_def busy_dirfd busy_fds zero_fd_def)
  then show ?thesis unfolding refs_ok_def busy_dirfd
    by (auto simp: busy_fds zero_fd_def intro: busy_up [THEN exI [of "up _ _"]])
qed

lemma busy_gets: "get_de p demo_busy = get_de p demo_tree" "dir_slot p e demo_busy = dir_slot p e demo_tree"
  by (simp_all add: demo_busy_def dir_slot_def)

lemma busy_blk: "dir_blk demo_busy ROOT = root_blk" "dir_blk demo_busy 5 = 6"
  by (simp_all add: dir_blk_def fd_entry_def busy_fds busy_gets demo_tree_get)

lemma busy_sys_ok: "sys_ok demo_busy"
proof -
  have c: "i = ROOT \<and> p = (root_de_blk, 0) \<or> i = 5 \<and> p = (root_blk, 3) \<or> i = 4 \<and> p = (root_blk, 2)"
    if "fd_file (fds demo_busy i) = Some p" for i p
    using that by (cases "i = ROOT"; cases "i = 5"; cases "i = 4") (auto simp: busy_fds, auto simp: demo_ram_def zero_fd_def)
  have f4: "fds demo_busy 4 = fds demo_ram 4" by (rule busy_fds(3)) (simp_all add: ROOT_def)
  have "fds_ok demo_busy"
  proof (rule fds_okI, goal_cases)
    case (1 i p)
    have "ramdisk_dmd demo_busy = 9" by (simp add: demo_busy_def demo_tree_def demo_ram_def)
    with c [OF 1(2)] show ?case
      by (elim disjE) (auto simp: busy_fds f4 slot_def busy_gets demo_tree_get zero_fd_def demo_dir_xattr_def zero_xattr_def,
        auto simp: demo_ram_def zero_fd_def demo_root_def zero_xattr_def)
  next
    case (2 i j p) then show ?case using c [of i p] c [of j p] by auto
  next
    case (3 i k p)
    then have "i = 5" by (auto simp: busy_dirfd busy_fds zero_fd_def)
    with 3 show ?case by (auto simp: busy_fds zero_fd_def busy_blk)
  qed (simp_all add: busy_fds busy_blk)
  moreover have "tree_ok demo_busy" using demo_tree_ok by (simp add: demo_busy_def)
  ultimately show ?thesis using busy_refs_ok by (simp add: sys_ok_def)
qed

lemma busy_refs: "refs (fds demo_busy) i = (if i = ROOT \<or> i = 5 then 1 else 0)"
  by (auto simp: refs_def busy_dirfd busy_fds)

lemma busy_names_ok: "names_ok demo_busy"
  using demo_names_ok unfolding names_ok_def busy_gets .

subsection \<open>Properties\<close>





text \<open>C13: Giving a reference back never releases a descriptor that is still needed.  The system stays consistent, exactly one reference is gone, what remains keeps its directory and its parents, open files are untouched, and after the last reference to a descriptor only those descriptors remain on which a referenced one rests.\<close>

theorem freeDD_keeps_referenced:
  assumes "sys_ok s" "dirfd (fds s) dd" "(if dd = ROOT then 1 else 0) < refs (fds s) dd"
  shows "\<exists>f. ramdisk_freeDD dd (drop_ref dd s) = Some (s\<lparr>fds := f\<rparr>) \<and> sys_ok (s\<lparr>fds := f\<rparr>)
           \<and> refs f = (refs (fds s))(dd := refs (fds s) dd - 1)
           \<and> (\<forall>i. dirfd f i \<longrightarrow> dirfd (fds s) i \<and> fd_file (f i) = fd_file (fds s i) \<and> fd_parent (f i) = fd_parent (fds s i))
           \<and> (\<forall>i. fd_dev (fds s i) \<longrightarrow> fd_refcnt (fds s i) \<noteq> 0 \<longrightarrow> f i = fds s i)
           \<and> (refs (fds s) dd = 1 \<longrightarrow> (\<forall>i. dirfd f i \<longrightarrow> needed f i))"
  by (rule release_ok [OF assms(1,2)]) (use assms(3) in \<open>auto split: if_splits\<close>)


theorem freeDD_keeps_referenced_witness:
  "\<exists>f. ramdisk_freeDD 5 (drop_ref 5 demo_busy) = Some (demo_busy\<lparr>fds := f\<rparr>) \<and> sys_ok (demo_busy\<lparr>fds := f\<rparr>)
     \<and> refs f 5 = 0 \<and> refs f ROOT = 1"
proof -
  have p: "(if (5::nat) = ROOT then 1 else 0) < refs (fds demo_busy) 5" by (simp add: busy_refs ROOT_def)
  have "dirfd (fds demo_busy) 5" by (simp add: busy_dirfd)
  from freeDD_keeps_referenced [OF busy_sys_ok this p]
  obtain f where "ramdisk_freeDD 5 (drop_ref 5 demo_busy) = Some (demo_busy\<lparr>fds := f\<rparr>)" "sys_ok (demo_busy\<lparr>fds := f\<rparr>)"
    "refs f = (refs (fds demo_busy))(5 := refs (fds demo_busy) 5 - 1)" by blast
  then show ?thesis by (auto simp: busy_refs ROOT_def)
qed





end
