(* ===== verification/Vf_Text.thy ===== *)
theory Vf_Text
  imports RD_Prelude
begin

text \<open>
  The character sets of the VFAT file system (\<open>kernel/dos/vfat.c\<close>): the two tables between
  the Atari character set and Unicode, the search in the second one, and the conversion of
  strings in both directions.  Strings are lists of bytes.  A two byte character is stored low
  byte first (Intel order).
\<close>

subsection \<open>The tables\<close>

definition map_ascii_Unicode :: "nat list" where
  "map_ascii_Unicode = [
   0x0000, 0x25B2, 0x25BC, 0x25BA, 0x25C4, 0x2022, 0x00D7, 0x221E, 0x00A4, 0x0074,
   0x266B, 0x266A, 0x2191, 0x2193, 0x2192, 0x2190, 0x0030, 0x0031, 0x0032, 0x0033,
   0x0034, 0x0035, 0x0036, 0x0037, 0x0038, 0x0039, 0x0065, 0x0045, 0x003F, 0x003F,
   0x003F, 0x25CF, 0x0020, 0x0021, 0x0022, 0x0023, 0x0024, 0x0025, 0x0026, 0x0027,
   0x0028, 0x0029, 0x002A, 0x002B, 0x002C, 0x002D, 0x002E, 0x002F, 0x0030, 0x0031,
   0x0032, 0x0033, 0x0034, 0x0035, 0x0036, 0x0037, 0x0038, 0x0039, 0x003A, 0x003B,
   0x003C, 0x003D, 0x003E, 0x003F, 0x0040, 0x0041, 0x0042, 0x0043, 0x0044, 0x0045,
   0x0046, 0x0047, 0x0048, 0x0049, 0x004A, 0x004B, 0x004C, 0x004D, 0x004E, 0x004F,
   0x0050, 0x0051, 0x0052, 0x0053, 0x0054, 0x0055, 0x0056, 0x0057, 0x0058, 0x0059,
   0x005A, 0x005B, 0x005C, 0x005D, 0x005E, 0x005F, 0x0060, 0x0061, 0x0062, 0x0063,
   0x0064, 0x0065, 0x0066, 0x0067, 0x0068, 0x0069, 0x006A, 0x006B, 0x006C, 0x006D,
   0x006E, 0x006F, 0x0070, 0x0071, 0x0072, 0x0073, 0x0074, 0x0075, 0x0076, 0x0077,
   0x0078, 0x0079, 0x007A, 0x007B, 0x007C, 0x007D, 0x007E, 0x2206, 0x00C7, 0x00FC,
   0x00E9, 0x00E2, 0x00E4, 0x00E0, 0x00E5, 0x00E7, 0x00EA, 0x00EB, 0x00E8, 0x00EF,
   0x00EE, 0x00EC, 0x00C4, 0x00C5, 0x00C9, 0x00E6, 0x00C6, 0x00F4, 0x00F6, 0x00F2,
   0x00FB, 0x00F9, 0x00FF, 0x00D6, 0x00DC, 0x00A2, 0x00A3, 0x00A5, 0x00DF, 0x0192,
   0x00E1, 0x00ED, 0x00F3, 0x00FA, 0x00F1, 0x00D1, 0x00AA, 0x00BA, 0x00BF, 0x2310,
   0x00AC, 0x00BD, 0x00BC, 0x00A1, 0x00AB, 0x00BB, 0x00E3, 0x00F5, 0x00D8, 0x00F8,
   0x0153, 0x0152, 0x00C0, 0x00C3, 0x00D5, 0x00A8, 0x00B4, 0x2020, 0x00B6, 0x00A9,
   0x00AE, 0x2122, 0x00C2, 0x00C1, 0x00CA, 0x00CB, 0x00C8, 0x00CE, 0x00CF, 0x00CC,
   0x00CD, 0x00D4, 0x00D2, 0x00D3, 0x00DB, 0x00D9, 0x00DA, 0x201E, 0x201C, 0x201D,
   0x201A, 0x2018, 0x2039, 0x203A, 0x2013, 0x2014, 0x2019, 0x2191, 0x2193, 0x2192,
   0x2190, 0x00A7, 0x2030, 0x221E, 0x03B1, 0x03B2, 0x0393, 0x03C0, 0x2211, 0x03C3,
   0x00B5, 0x03C4, 0x03A6, 0x0398, 0x2126, 0x03B4, 0x222B, 0x03C6, 0x2208, 0x220F,
   0x2261, 0x00B1, 0x2265, 0x2264, 0x2320, 0x2321, 0x00F7, 0x2248, 0x00B0, 0x2022,
   0x00B7, 0x221A, 0x207F, 0x00B2, 0x00B3, 0x00AF]"

text \<open>The second table in the order of the source, two words per character.\<close>

definition unicode_pairs :: "(nat \<times> nat) list" where
  "unicode_pairs = [
   (0x00A1, 173), (0x00A2, 155), (0x00A3, 156), (0x00A5, 157), (0x00A7, 221), (0x00A8, 185),
   (0x00A9, 189), (0x00AA, 166), (0x00AB, 174), (0x00AC, 170), (0x00AE, 190), (0x00AF, 255),
   (0x00B0, 248), (0x00B1, 241), (0x00B2, 253), (0x00B3, 254), (0x00B4, 186), (0x00B5, 230),
   (0x00B6, 188), (0x00B7, 250), (0x00BA, 167), (0x00BB, 175), (0x00BC, 172), (0x00BD, 171),
   (0x00BF, 168), (0x00C0, 182), (0x00C1, 193), (0x00C2, 192), (0x00C3, 183), (0x00C4, 142),
   (0x00C5, 143), (0x00C6, 146), (0x00C7, 128), (0x00C8, 196), (0x00C9, 144), (0x00CA, 194),
   (0x00CB, 195), (0x00CC, 199), (0x00CD, 200), (0x00CE, 197), (0x00CF, 198), (0x00D1, 165),
   (0x00D2, 202), (0x00D3, 203), (0x00D4, 201), (0x00D5, 184), (0x00D6, 153), (0x00D8, 178),
   (0x00D9, 205), (0x00DA, 206), (0x00DB, 204), (0x00DC, 154), (0x00DF, 158), (0x00E0, 133),
   (0x00E1, 160), (0x00E2, 131), (0x00E3, 176), (0x00E4, 132), (0x00E5, 134), (0x00E6, 145),
   (0x00E7, 135), (0x00E8, 138), (0x00E9, 130), (0x00EA, 136), (0x00EB, 137), (0x00EC, 141),
   (0x00ED, 161), (0x00EE, 140), (0x00EF, 139), (0x00F1, 164), (0x00F2, 149), (0x00F3, 162),
   (0x00F4, 147), (0x00F5, 177), (0x00F6, 148), (0x00F7, 246), (0x00F8, 179), (0x00F9, 151),
   (0x00FA, 163), (0x00FB, 150), (0x00FC, 129), (0x00FF, 152), (0x0152, 181), (0x0153, 180),
   (0x0192, 159), (0x0393, 226), (0x0398, 233), (0x03A6, 232), (0x03B1, 224), (0x03B2, 225),
   (0x03B4, 235), (0x03C0, 227), (0x03C3, 229), (0x03C4, 231), (0x03C6, 237), (0x2013, 214),
   (0x2014, 215), (0x2018, 211), (0x2019, 216), (0x201A, 210), (0x201C, 208), (0x201D, 209),
   (0x201E, 207), (0x2020, 187), (0x2022, 249), (0x2030, 222), (0x2039, 212), (0x203A, 213),
   (0x207F, 252), (0x2122, 191), (0x2126, 234), (0x2190, 220), (0x2191, 217), (0x2192, 219),
   (0x2193, 218), (0x2206, 127), (0x2208, 238), (0x220F, 239), (0x2211, 228), (0x221A, 251),
   (0x221E, 223), (0x222B, 236), (0x2248, 247), (0x2261, 240), (0x2264, 243), (0x2265, 242),
   (0x2310, 169), (0x2320, 244), (0x2321, 245)]"

definition map_Unicode_ascii :: "nat list" where
  "map_Unicode_ascii = concat (map (\<lambda>(u, c). [u, c]) unicode_pairs)"

subsection \<open>Conversion\<close>

text \<open>
  The search loop of \<open>unic2ibm\<close>; \<open>low\<close>, \<open>high\<close> and \<open>test\<close> are indices, \<open>None\<close> is an access
  outside the table, and \<open>0xbc\<close> stands for a character without counterpart.
\<close>

function search_loop :: "nat list \<Rightarrow> nat \<Rightarrow> nat \<Rightarrow> nat \<Rightarrow> nat \<Rightarrow> nat option" where
  "search_loop t wchar low high nitems =
     (let test = low + nitems div 2 div 2 * 2 in
      if length t \<le> test + 1 \<or> high < test then None
      else if wchar < t ! test then
        (if low \<noteq> test \<and> test - low + 2 < nitems then search_loop t wchar low test (test - low + 2) else Some 0xbc)
      else if wchar > t ! test then
        (if test \<noteq> high \<and> high - test + 2 < nitems then search_loop t wchar test high (high - test + 2) else Some 0xbc)
      else Some (t ! (test + 1)))"
  by pat_completeness auto
termination
  by (relation "measure (\<lambda>(t, w, low, high, nitems). nitems)") auto

declare search_loop.simps [simp del]

definition unic_search :: "nat \<Rightarrow> nat option" where
  "unic_search wchar =
     search_loop map_Unicode_ascii wchar 0 (length map_Unicode_ascii - 2) (length map_Unicode_ascii)"

text \<open>The characters \<open>unic2ibm\<close> stores for at most \<open>len\<close> two byte characters.\<close>

fun unic2ibm :: "nat \<Rightarrow> byte list \<Rightarrow> byte list option" where
  "unic2ibm 0 us = Some []"
| "unic2ibm (Suc len) (lo # hi # us) =
     (let wchar = unat lo + unat hi * 256 in
      if 0x20 \<le> wchar \<and> wchar < 0x7f then map_option ((#) (of_nat wchar)) (unic2ibm len us)
      else if wchar = 0 \<or> wchar = 0xffff then Some []
      else do {
        c \<leftarrow> unic_search wchar;
        map_option ((#) (of_nat c)) (unic2ibm len us) })"
| "unic2ibm (Suc len) us = None"

text \<open>
  \<open>ibm2unic\<close> reads a closed string: the bytes stored and the string behind the last byte read.
\<close>

fun ibm2unic :: "nat \<Rightarrow> byte list \<Rightarrow> (byte list \<times> byte list) option" where
  "ibm2unic len [] = None"
| "ibm2unic len (c # s) =
     (let ww = map_ascii_Unicode ! unat c; u = [of_nat (ww mod 256), of_nat (ww div 256)] in
      if 1 < len \<and> c \<noteq> 0 then map_option (\<lambda>(us, s). (u @ us, s)) (ibm2unic (len - 1) s)
      else Some (u, s))"

subsection \<open>The search finds what is there\<close>

text \<open>
  A table of \<open>n\<close> ascending keys with their values.  The search looks at every entry but the
  first: it never tests its lower bound.
\<close>

definition table_ok :: "nat list \<Rightarrow> nat \<Rightarrow> bool" where
  "table_ok t n \<longleftrightarrow> length t = 2 * n \<and> (\<forall>i j. i < j \<longrightarrow> j < n \<longrightarrow> t ! (2 * i) < t ! (2 * j))"

definition table_value :: "nat list \<Rightarrow> nat \<Rightarrow> nat \<Rightarrow> nat" where
  "table_value t n w = (case find (\<lambda>k. t ! (2 * k) = w) [1..<n] of Some k \<Rightarrow> t ! (2 * k + 1) | None \<Rightarrow> 0xbc)"

lemma table_okD: "table_ok t n \<Longrightarrow> i < j \<Longrightarrow> j < n \<Longrightarrow> t ! (2 * i) < t ! (2 * j)"
  by (simp add: table_ok_def)

lemma table_value_hit:
  assumes "table_ok t n" "1 \<le> k" "k < n"
  shows "table_value t n (t ! (2 * k)) = t ! (2 * k + 1)"
proof -
  obtain j where j: "find (\<lambda>j. t ! (2 * j) = t ! (2 * k)) [1..<n] = Some j"
    using assms(2,3) by (cases "find (\<lambda>j. t ! (2 * j) = t ! (2 * k)) [1..<n]") (auto simp: find_None_iff)
  then have "j < n" "t ! (2 * j) = t ! (2 * k)" by (auto simp: find_Some_iff)
  then have "j = k" using assms unfolding table_ok_def by (metis nat_neq_iff)
  with j show ?thesis by (simp add: table_value_def)
qed

lemma table_value_miss: "(\<And>k. 1 \<le> k \<Longrightarrow> k < n \<Longrightarrow> t ! (2 * k) \<noteq> w) \<Longrightarrow> table_value t n w = 0xbc"
  by (simp add: table_value_def find_None_iff [THEN iffD2])

lemma search_loop_ok:
  assumes t: "table_ok t n"
  shows "l < h \<Longrightarrow> h < n \<Longrightarrow> l = 0 \<or> t ! (2 * l) < w \<Longrightarrow> h = n - 1 \<or> w < t ! (2 * h) \<Longrightarrow>
     search_loop t w (2 * l) (2 * h) (2 * (h - l) + 2) = Some (table_value t n w)"
proof (induction "h - l" arbitrary: l h rule: less_induct)
  case less
  have len: "length t = 2 * n" and asc: "\<And>i j. i < j \<Longrightarrow> j < n \<Longrightarrow> t ! (2 * i) < t ! (2 * j)"
    using t by (auto simp: table_ok_def)
  define q where "q = (h - l + 1) div 2"
  have q: "1 \<le> q" "l + q \<le> h" "q < h - l \<or> (h = l + 1 \<and> q = 1)" using less.prems(1) by (auto simp: q_def)
  let ?k = "l + q"
  have test: "2 * l + (2 * (h - l) + 2) div 2 div 2 * 2 = 2 * ?k" by (simp add: q_def)
  have step: "search_loop t w (2 * l) (2 * h) (2 * (h - l) + 2) =
      (if w < t ! (2 * ?k) then (if q < h - l then search_loop t w (2 * l) (2 * ?k) (2 * q + 2) else Some 0xbc)
       else if w > t ! (2 * ?k) then
         (if ?k \<noteq> h then search_loop t w (2 * ?k) (2 * h) (2 * (h - ?k) + 2) else Some 0xbc)
       else Some (t ! (2 * ?k + 1)))"
  proof -
    have e: "2 * ?k - 2 * l + 2 = 2 * q + 2" "2 * h - 2 * ?k + 2 = 2 * (h - ?k) + 2" by simp_all
    have c: "(2 * l \<noteq> 2 * ?k \<and> 2 * q + 2 < 2 * (h - l) + 2) = (q < h - l)"
      "(2 * ?k \<noteq> 2 * h \<and> 2 * (h - ?k) + 2 < 2 * (h - l) + 2) = (?k \<noteq> h)" using q(1,2) by auto
    have b: "\<not> (length t \<le> 2 * ?k + 1 \<or> 2 * h < 2 * ?k)" using len q(2) less.prems(2) by auto
    show ?thesis by (subst search_loop.simps) (simp only: test Let_def b e c if_False)
  qed
  consider "w < t ! (2 * ?k)" | "w > t ! (2 * ?k)" | "w = t ! (2 * ?k)" by linarith
  then show ?case
  proof cases
    case 1
    show ?thesis
    proof (cases "q < h - l")
      case True
      then show ?thesis using 1 step q less.hyps [of ?k l] less.prems by auto
    next
      case False
      then have h: "h = l + 1" "?k = h" using q by auto
      have "t ! (2 * k) \<noteq> w" if "1 \<le> k" "k < n" for k
      proof (cases "k \<le> l")
        case True
        then have "t ! (2 * l) < w" using that less.prems(3) by auto
        moreover have "t ! (2 * k) \<le> t ! (2 * l)" using asc [of k l] True less.prems by (cases "k = l") auto
        ultimately show ?thesis by simp
      next
        case False
        have "t ! (2 * h) \<le> t ! (2 * k)" using asc [of h k] False h(1) that by (cases "k = h") auto
        then show ?thesis using 1 h(2) by simp
      qed
      then show ?thesis using 1 step False by (simp add: table_value_miss)
    qed
  next
    case 2
    show ?thesis
    proof (cases "?k = h")
      case False
      then show ?thesis using 2 step q less.hyps [of h ?k] less.prems by auto
    next
      case True
      then have "h = n - 1" using 2 less.prems(4) by auto
      then have "t ! (2 * k) \<noteq> w" if "1 \<le> k" "k < n" for k
      proof -
        have "k = h \<or> k < h" using that \<open>h = n - 1\<close> by linarith
        then show ?thesis using asc [of k h] 2 True less.prems(2) by auto
      qed
      then show ?thesis using 2 step True by (simp add: table_value_miss)
    qed
  next
    case 3
    then show ?thesis using step table_value_hit [OF t, of ?k] q less.prems(2) by simp
  qed
qed


fun ascending :: "nat list \<Rightarrow> bool" where
  "ascending (x # y # xs) \<longleftrightarrow> x < y \<and> ascending (y # xs)"
| "ascending _ \<longleftrightarrow> True"

lemma ascending_sorted: "ascending xs \<Longrightarrow> sorted_wrt (<) xs"
  by (induction xs rule: ascending.induct) (auto intro: less_trans)

lemma flat_nth:
  "i < length ps \<Longrightarrow> concat (map (\<lambda>(u, c). [u, c]) ps) ! (2 * i) = fst (ps ! i)"
  "i < length ps \<Longrightarrow> concat (map (\<lambda>(u, c). [u, c]) ps) ! (2 * i + 1) = snd (ps ! i)"
  "length (concat (map (\<lambda>(u, c). [u, c]) ps)) = 2 * length ps"
proof -
  show "i < length ps \<Longrightarrow> concat (map (\<lambda>(u, c). [u, c]) ps) ! (2 * i) = fst (ps ! i)"
    by (induction ps arbitrary: i) (auto simp: nth_Cons split: nat.splits)
  show "i < length ps \<Longrightarrow> concat (map (\<lambda>(u, c). [u, c]) ps) ! (2 * i + 1) = snd (ps ! i)"
    by (induction ps arbitrary: i) (auto simp: nth_Cons split: nat.splits)
  show "length (concat (map (\<lambda>(u, c). [u, c]) ps)) = 2 * length ps"
    by (induction ps) auto
qed

lemma pairs_len: "length unicode_pairs = 129"
  by (simp add: unicode_pairs_def)

lemma first_pair: "unicode_pairs ! 0 = (0xA1, 173)"
  by (simp add: unicode_pairs_def)

lemma pairs_ascending: "ascending (map fst unicode_pairs)"
  by (simp add: unicode_pairs_def)

lemma pairs_distinct: "distinct (map fst unicode_pairs)"
  using strict_sorted_iff ascending_sorted [OF pairs_ascending] by auto

lemma pairs_min: "list_all (\<lambda>(w, c). 0xA1 \<le> w) unicode_pairs"
  by (simp add: unicode_pairs_def)

lemma unicode_table_ok: "table_ok map_Unicode_ascii 129"
proof -
  have "map fst unicode_pairs ! i < map fst unicode_pairs ! j" if "i < j" "j < 129" for i j
    using sorted_wrt_nth_less [OF ascending_sorted [OF pairs_ascending] that(1)] that by (simp add: pairs_len)
  then show ?thesis
    by (simp add: table_ok_def map_Unicode_ascii_def flat_nth pairs_len)
qed

text \<open>What the table says, by linear search.\<close>

definition table_lookup :: "nat \<Rightarrow> nat" where
  "table_lookup w = (case map_of unicode_pairs w of Some c \<Rightarrow> c | None \<Rightarrow> 0xbc)"

lemma unic_search_eq: "unic_search w = Some (if w = 0xA1 then 0xbc else table_lookup w)"
proof -
  note nth = flat_nth [where ps = unicode_pairs, folded map_Unicode_ascii_def, unfolded pairs_len]
  have "unic_search w = Some (table_value map_Unicode_ascii 129 w)"
    using search_loop_ok [OF unicode_table_ok, of 0 128 w] by (simp add: unic_search_def nth(3))
  also have "table_value map_Unicode_ascii 129 w = (if w = 0xA1 then 0xbc else table_lookup w)"
  proof (cases "\<exists>k. 1 \<le> k \<and> k < 129 \<and> fst (unicode_pairs ! k) = w")
    case True
    then obtain k where k: "1 \<le> k" "k < 129" "fst (unicode_pairs ! k) = w" by blast
    have "table_value map_Unicode_ascii 129 w = snd (unicode_pairs ! k)"
      using table_value_hit [OF unicode_table_ok k(1,2)] k nth(1,2) [of k] by simp
    moreover have "map_of unicode_pairs w = Some (snd (unicode_pairs ! k))"
      using pairs_distinct k pairs_len by (metis map_of_eq_Some_iff nth_mem prod.collapse)
    moreover have "fst (unicode_pairs ! 0) < fst (unicode_pairs ! k)"
      using table_okD [OF unicode_table_ok, of 0 k] k(1,2) nth(1) [of 0] nth(1) [of k] by simp
    then have "w \<noteq> 0xA1" using k(3) first_pair by simp
    ultimately show ?thesis by (simp add: table_lookup_def)
  next
    case False
    then have "table_value map_Unicode_ascii 129 w = 0xbc" by (intro table_value_miss) (auto simp: nth)
    moreover have "w = 0xA1" if m: "map_of unicode_pairs w = Some c" for c
    proof -
      obtain k where k: "k < 129" "unicode_pairs ! k = (w, c)" using map_of_SomeD [OF m] by (metis in_set_conv_nth pairs_len)
      have "\<not> 1 \<le> k"
      proof
        assume "1 \<le> k"
        with k have "\<exists>k. 1 \<le> k \<and> k < 129 \<and> fst (unicode_pairs ! k) = w" by (intro exI [of _ k]) simp
        with False show False by blast
      qed
      then have "k = 0" by simp
      then show ?thesis using k(2) first_pair by simp
    qed
    ultimately show ?thesis by (auto simp: table_lookup_def split: option.splits)
  qed
  finally show ?thesis .
qed

subsection \<open>Characters there and back\<close>

text \<open>What becomes of a character that is written to the disk and read again.\<close>

definition reread :: "nat \<Rightarrow> nat" where
  "reread c = (let w = map_ascii_Unicode ! c in
     if 0x20 \<le> w \<and> w < 0x7f then w else if w = 0xA1 then 0xbc else table_lookup w)"

lemma ascii_len: "length map_ascii_Unicode = 256"
  by (simp add: map_ascii_Unicode_def)

lemma pairs_inverse: "list_all (\<lambda>(w, c). 127 \<le> c \<and> c < 256 \<and> map_ascii_Unicode ! c = w) unicode_pairs"
  by (simp add: unicode_pairs_def map_ascii_Unicode_def)

lemma ascii_same: "list_all (\<lambda>c. map_ascii_Unicode ! c = c) [32..<127]"
  by (simp add: upt_rec_numeral map_ascii_Unicode_def)

lemma ascii_plain: "32 \<le> c \<Longrightarrow> c < 127 \<Longrightarrow> map_ascii_Unicode ! c = c"
  by (rule bspec [OF ascii_same [unfolded list_all_iff]]) (simp only: set_upt atLeastLessThan_iff)

text \<open>The characters behind the ASCII ones are exactly the second components of the pairs.\<close>

lemma pair_of_char:
  assumes "127 \<le> c" "c < 256"
  shows "(map_ascii_Unicode ! c, c) \<in> set unicode_pairs"
proof -
  have inv: "127 \<le> c \<and> c < 256 \<and> map_ascii_Unicode ! c = w" if "(w, c) \<in> set unicode_pairs" for w c
    using pairs_inverse that by (auto simp: list_all_iff)
  have "inj_on snd (set unicode_pairs)"
    by (rule inj_onI) (metis inv prod.collapse)
  then have "card (snd ` set unicode_pairs) = card {127..<256::nat}"
    using distinct_map pairs_distinct pairs_len by (simp add: card_image distinct_card distinct_map)
  moreover have "snd ` set unicode_pairs \<subseteq> {127..<256}" using inv by auto
  ultimately have "snd ` set unicode_pairs = {127..<256}" by (intro card_subset_eq) auto
  then have "c \<in> snd ` set unicode_pairs" using assms by simp
  then obtain w where "(w, c) \<in> set unicode_pairs" by auto
  then show ?thesis using inv by blast
qed

lemma reread_id:
  assumes "32 \<le> c" "c < 256" "c \<noteq> 173"
  shows "reread c = c"
proof (cases "c < 127")
  case True
  then show ?thesis using assms ascii_plain by (simp add: reread_def)
next
  case False
  let ?w = "map_ascii_Unicode ! c"
  have p: "(?w, c) \<in> set unicode_pairs" using pair_of_char False assms(2) by simp
  then have l: "table_lookup ?w = c" using map_of_is_SomeI [OF pairs_distinct p] by (simp add: table_lookup_def)
  have "0xA1 \<le> ?w" using pairs_min p by (force simp: list_all_iff)
  moreover have "?w \<noteq> 0xA1" using l assms(3) by (auto simp: table_lookup_def unicode_pairs_def)
  ultimately show ?thesis using l by (simp add: reread_def)
qed

end
