(* ===== verification/Vf_Dir.thy ===== *)
theory Vf_Dir
  imports Vf_Text Ram_State
begin

text \<open>
  Directories with long names (\<open>kernel/dos/vfat.c\<close>).  A directory is a file of entries of 32 bytes.
  A main entry (\<open>DIR\<close>) holds a name of 8+3 characters; the entries with attribute 15 before it
  (\<open>LDIR\<close>) hold the pieces of a long name, the last piece first, and the check sum of the short
  name they belong to.  An entry is a list of 32 bytes, since the code looks at one through both
  structures; C strings are byte lists without the closing EOS.  The file behind the descriptor
  (\<open>p_fread\<close>, \<open>p_fwrite\<close>, \<open>p_fseek\<close>, \<open>p_extfd\<close>) and the directory descriptors of the DOS file system
  (\<open>reopen_FD\<close>, \<open>get_DD\<close>, \<open>close_DD\<close>) are parameters.
\<close>

subsection \<open>Entries\<close>


lemmas vf_errs = err_defs EINTRN_def E_CHNG_def

definition OM_RDENY :: mode16 where "OM_RDENY = 16"
definition MAXFOLDERNAME :: nat where "MAXFOLDERNAME = 64"

datatype find_mode = FINDDIR | FINDXDIR | FINDNDIR | FINDALL | FINDLABL

abbreviation dir_name :: "byte list \<Rightarrow> byte list" where "dir_name d \<equiv> take 11 d"
abbreviation dir_attr :: "byte list \<Rightarrow> byte" where "dir_attr d \<equiv> d ! 11"
abbreviation ldir_head :: "byte list \<Rightarrow> byte" where "ldir_head d \<equiv> d ! 0"
abbreviation ldir_chksum :: "byte list \<Rightarrow> byte" where "ldir_chksum d \<equiv> d ! 13"

definition vf_subdir :: byte where "vf_subdir = 0x10"
definition vf_volume :: byte where "vf_volume = 0x08"
definition vf_symlink :: byte where "vf_symlink = 0x40"

text \<open>The assembly part: check sum of a short name, readable form of it, comparison without case.\<close>

definition vf_chksum :: "byte list \<Rightarrow> byte" where
  "vf_chksum n = fold (\<lambda>b d. (drop_bit 1 d OR push_bit 7 d) + b) (take 11 n) 0"

definition ext_8_3 :: "byte list \<Rightarrow> byte list" where
  "ext_8_3 n =
     (let base = take 8 n; e = takeWhile (\<lambda>c. c \<noteq> 0 \<and> c \<noteq> 32) (take 3 (drop 8 n)) in
      filter (\<lambda>c. c \<noteq> 32) (takeWhile (\<lambda>c. c \<noteq> 0) base) @ (if 0 \<in> set base \<or> e = [] then [] else 46 # e))"

definition sonder_s :: "(byte \<times> byte) list" where
  "sonder_s = zip
     [0x84, 0x94, 0x81, 0x82, 0x85, 0x86, 0x87, 0x91, 0xa4, 0xb0, 0xb1, 0xb3, 0xb4, 0xc0]
     [0x8e, 0x99, 0x9a, 0x90, 0xb6, 0x8f, 0x80, 0x92, 0xa5, 0xb7, 0xb8, 0xb2, 0xb5, 0xc1]"

definition vf_toupper :: "byte \<Rightarrow> byte" where
  "vf_toupper c =
     (if c < 97 then c else if c \<le> 122 then c AND NOT 32
      else case map_of sonder_s c of Some u \<Rightarrow> u | None \<Rightarrow> c)"

fun vf_stricmp :: "byte list \<Rightarrow> byte list \<Rightarrow> int" where
  "vf_stricmp [] [] = 0"
| "vf_stricmp [] (b # bs) = 0 - sint (vf_toupper b)"
| "vf_stricmp (a # as) [] = sint (vf_toupper a)"
| "vf_stricmp (a # as) (b # bs) =
     (if vf_toupper a = vf_toupper b then vf_stricmp as bs else sint (vf_toupper a) - sint (vf_toupper b))"

subsection \<open>The directory as a file\<close>

text \<open>\<open>p_fread\<close> delivers an error code or 0 at the end of the file, or the entry read.\<close>

record 'f dosio =
  p_fread :: "'f \<Rightarrow> (int + byte list) \<times> 'f"
  p_fwrite :: "byte list \<Rightarrow> 'f \<Rightarrow> int \<times> 'f"
  p_fseek :: "int \<Rightarrow> 'f \<Rightarrow> int \<times> 'f"
  p_extfd :: "'f \<Rightarrow> int \<times> 'f"
  fpos_of :: "'f \<Rightarrow> int"

subsection \<open>Reading a directory\<close>

text \<open>
  The variables of the loop: the long name put together so far (from \<open>nxt_longname\<close> on), the
  number of the piece read last, the check sum, and the position of the first entry.
\<close>

record rd_state =
  rd_long :: "byte list"
  longcount :: int
  act_chksum :: byte
  startpos :: int

definition rd_init :: rd_state where
  "rd_init = \<lparr>rd_long = [], longcount = -1, act_chksum = 0, startpos = -1\<rparr>"

definition rd_none :: "rd_state \<Rightarrow> rd_state" where
  "rd_none r = r\<lparr>longcount := -1, startpos := -1\<rparr>"

definition ldir_text :: "byte list \<Rightarrow> byte list option" where
  "ldir_text d = do {
     a \<leftarrow> unic2ibm 5 (take 10 (drop 1 d));
     b \<leftarrow> unic2ibm 6 (take 12 (drop 14 d));
     c \<leftarrow> unic2ibm 2 (take 4 (drop 28 d));
     Some (a @ b @ c) }"

text \<open>The buffer of the long name has 300 bytes and is filled from its end.\<close>

definition rd_piece :: "byte list \<Rightarrow> rd_state \<Rightarrow> (int + rd_state) option" where
  "rd_piece d r = do {
     t \<leftarrow> ldir_text d;
     Some (if 299 < length (rd_long r) + length t then Inl EINTRN
           else Inr (r\<lparr>rd_long := t @ rd_long r, longcount := longcount r - 1\<rparr>)) }"

definition rd_ldir :: "byte list \<Rightarrow> int \<Rightarrow> rd_state \<Rightarrow> (int + rd_state) option" where
  "rd_ldir d pos r =
     (let reldirnr = uint (ldir_head d AND 0x1f) in
      if ldir_head d AND 0x40 \<noteq> 0 then
        rd_piece d (r\<lparr>rd_long := [], longcount := reldirnr, startpos := s32 (pos - 32),
                      act_chksum := ldir_chksum d\<rparr>)
      else if longcount r \<le> 0 \<or> reldirnr \<noteq> longcount r \<or> act_chksum r \<noteq> ldir_chksum d then
        Some (Inr (rd_none r))
      else rd_piece d r)"

definition rd_dir :: "byte list \<Rightarrow> rd_state \<Rightarrow> rd_state" where
  "rd_dir d r = (if 0 \<le> longcount r \<and> vf_chksum (dir_name d) \<noteq> act_chksum r then rd_none r else r)"

definition wanted :: "find_mode \<Rightarrow> byte list \<Rightarrow> bool" where
  "wanted fmode d =
     (let vol = dir_attr d AND vf_volume \<noteq> 0; sub = dir_attr d AND vf_subdir \<noteq> 0 in
      case fmode of
        FINDLABL \<Rightarrow> vol \<and> \<not> sub
      | FINDDIR \<Rightarrow> sub
      | FINDXDIR \<Rightarrow> dir_attr d AND (vf_subdir + vf_symlink) \<noteq> 0
      | FINDNDIR \<Rightarrow> \<not> vol \<and> \<not> sub
      | FINDALL \<Rightarrow> \<not> vol)"

text \<open>The loop, up to the label \<open>fertig\<close>.\<close>

partial_function (option) rd_loop ::
  "'f dosio \<Rightarrow> find_mode \<Rightarrow> rd_state \<Rightarrow> 'f \<Rightarrow> ((int + byte list) \<times> rd_state \<times> 'f) option" where
  "rd_loop io fmode r f =
     (case p_fread io f of
        (Inl e, f) \<Rightarrow> Some (Inl e, r, f)
      | (Inr d, f) \<Rightarrow>
          if d ! 0 = 0 then Some (Inl E_OK, r, f)
          else if d ! 0 = 0xe5 then rd_loop io fmode r f
          else if dir_attr d = 0x0f then
            (case rd_ldir d (fpos_of io f) r of
               None \<Rightarrow> None
             | Some (Inl e) \<Rightarrow> Some (Inl e, r, f)
             | Some (Inr r) \<Rightarrow> rd_loop io fmode r f)
          else if wanted fmode d then Some (Inr d, rd_dir d r, f)
          else rd_loop io fmode (rd_dir d r) f)"

text \<open>
  \<open>lbuf\<close> is the length of the buffer for the long name, \<open>None\<close> for the NULL pointer, \<open>short\<close> tells
  whether there is a buffer for the short name.  The result is an error code or 0, or the entry
  with what was stored in the two buffers.
\<close>

definition vf_readdir1 ::
  "'f dosio \<Rightarrow> int option \<Rightarrow> bool \<Rightarrow> find_mode \<Rightarrow> 'f \<Rightarrow>
     ((int + byte list \<times> byte list option \<times> byte list option) \<times> int \<times> 'f) option" where
  "vf_readdir1 io lbuf short fmode f = do {
     (res, r, f) \<leftarrow> rd_loop io fmode rd_init f;
     case res of
       Inl e \<Rightarrow> Some (Inl e, startpos r, f)
     | Inr d \<Rightarrow>
         (let sname = (if short then Some (ext_8_3 (dir_name d)) else None) in
          Some (case lbuf of
                  None \<Rightarrow> Inr (d, None, sname)
                | Some lbuflen \<Rightarrow>
                    if 0 \<le> longcount r then
                      (if s16 (int (length (rd_long r)) + 1) > lbuflen then Inl ERANGE
                       else Inr (d, Some (rd_long r), sname))
                    else if \<not> short then
                      (if 13 > lbuflen then Inl ERANGE else Inr (d, Some (ext_8_3 (dir_name d)), None))
                    else Inr (d, Some [], sname), startpos r, f)) }"

text \<open>Searching a name; \<open>*.ext\<close> stands for the first file with that extension.\<close>

definition vf_star :: "byte list \<Rightarrow> byte list \<Rightarrow> bool" where
  "vf_star fname sname \<longleftrightarrow>
     take 2 fname = [42, 46] \<and>
     list_ex (\<lambda>i. sname ! i = 46 \<and> vf_stricmp (drop (i + 1) sname) (drop 2 fname) = 0) [0..<length sname]"

partial_function (option) dirsrch_loop ::
  "'f dosio \<Rightarrow> byte list \<Rightarrow> find_mode \<Rightarrow> 'f \<Rightarrow> ((int + byte list \<times> int \<times> int) \<times> 'f) option" where
  "dirsrch_loop io fname fmode f = do {
     (res, lpos, f) \<leftarrow> vf_readdir1 io (Some 300) True fmode f;
     case res of
       Inl e \<Rightarrow> Some (Inl (if e = 0 then EFILNF else e), f)
     | Inr (d, l, n) \<Rightarrow>
         if vf_stricmp (the l) fname = 0 \<or> vf_stricmp (the n) fname = 0 \<or> fmode = FINDLABL \<or> vf_star fname (the n)
         then Some (Inr (d, s32 (fpos_of io f - 32), lpos), f)
         else dirsrch_loop io fname fmode f }"

definition vf_dirsrch ::
  "'f dosio \<Rightarrow> byte list \<Rightarrow> find_mode \<Rightarrow> 'f \<Rightarrow> ((int + byte list \<times> int \<times> int) \<times> 'f) option" where
  "vf_dirsrch io fname fmode f =
     (if fname = [] then Some (Inl EFILNF, f) else dirsrch_loop io fname fmode f)"

definition vf_rlabel :: "'f dosio \<Rightarrow> int \<Rightarrow> 'f \<Rightarrow> (int \<times> byte list option \<times> 'f) option" where
  "vf_rlabel io buflen f = do {
     (res, lpos, f) \<leftarrow> vf_readdir1 io (Some buflen) False FINDLABL f;
     Some (case res of
             Inl e \<Rightarrow> (if e = 0 then EFILNF else e, None, f)
           | Inr (d, l, n) \<Rightarrow> (E_OK, l, f)) }"

text \<open>
  \<open>Dreaddir\<close>.  \<open>index\<close> is \<open>vf_d2i\<close> (4 bytes), \<open>xattr\<close> is \<open>_xattr\<close> if attributes are asked for.  The
  result has what is stored in the buffer and the result of \<open>_xattr\<close>.
\<close>

definition vf_readdir ::
  "'f dosio \<Rightarrow> (byte list \<Rightarrow> 'f \<Rightarrow> byte list) \<Rightarrow> (byte list \<Rightarrow> 'f \<Rightarrow> 'x) option \<Rightarrow> bool \<Rightarrow> int \<Rightarrow> 'f \<Rightarrow>
     (int \<times> byte list option \<times> 'x option \<times> 'f) option" where
  "vf_readdir io index xattr unixmode buflen f = do {
     (res, dummy, f) \<leftarrow> (if unixmode then vf_readdir1 io (Some (s16 (buflen - 4))) False FINDALL f
                         else vf_readdir1 io None True FINDALL f);
     Some (case res of
             Inl e \<Rightarrow> (if e = 0 then ENMFIL else e, None, None, f)
           | Inr (d, l, n) \<Rightarrow>
               (E_OK, Some (if unixmode then index d f @ the l else the n), map_option (\<lambda>x. x d f) xattr, f)) }"

subsection \<open>Opening a subdirectory\<close>

text \<open>A descriptor of the list \<open>fd_children\<close>.\<close>

record 'd vf_child =
  c_fd :: 'd
  c_longname :: "byte list option"
  c_name :: "byte list"
  c_owner :: bool
  c_mode :: mode16

text \<open>\<open>get_DD\<close> delivers an error code or a descriptor, and the value of \<open>*link\<close>.\<close>

record ('f, 'd, 'l) ddio =
  reopen_FD :: "'f \<Rightarrow> mode16 \<Rightarrow> int + 'f"
  close_DD :: "'f \<Rightarrow> 'f"
  get_DD :: "byte list \<Rightarrow> int \<Rightarrow> byte list option \<Rightarrow> 'f \<Rightarrow> ((int + 'd) \<times> 'l) \<times> 'f"

definition child_hit :: "byte list \<Rightarrow> 'd vf_child \<Rightarrow> bool" where
  "child_hit pathelem c \<longleftrightarrow>
     (\<exists>l. c_longname c = Some l \<and> vf_stricmp pathelem l = 0) \<or> vf_stricmp pathelem (ext_8_3 (c_name c)) = 0"

partial_function (option) vf_path2DD_loop ::
  "'f dosio \<Rightarrow> ('f, 'd, 'l) ddio \<Rightarrow> byte list \<Rightarrow> 'f \<Rightarrow> (((int + 'd) \<times> 'l option) \<times> 'f) option" where
  "vf_path2DD_loop io dd pathelem f = do {
     (res, lpos, f) \<leftarrow> vf_readdir1 io (Some (int MAXFOLDERNAME + 1)) True FINDXDIR f;
     case res of
       Inl e \<Rightarrow> Some ((Inl e, None), f)
     | Inr (d, l, n) \<Rightarrow>
         if vf_stricmp (the l) pathelem = 0 \<or> vf_stricmp (the n) pathelem = 0 then
           (case get_DD dd d (s32 (fpos_of io f - 32)) (if the l \<noteq> [] then Some (the l) else None) f of
              ((r, k), f) \<Rightarrow> Some ((r, Some k), f))
         else vf_path2DD_loop io dd pathelem f }"

definition vf_path2DD ::
  "'f dosio \<Rightarrow> ('f, 'd, 'l) ddio \<Rightarrow> 'd vf_child list \<Rightarrow> byte list \<Rightarrow> nat \<Rightarrow> 'f \<Rightarrow> (((int + 'd) \<times> 'l option) \<times> 'f) option" where
  "vf_path2DD io dd children path len f =
     (if 64 < len then Some ((Inl EPTHNF, None), f)
      else
        let pathelem = takeWhile (\<lambda>c. c \<noteq> 0) (take len path) in
        case find (child_hit pathelem) children of
          Some c \<Rightarrow> Some ((if c_owner c \<and> c_mode c AND OM_RDENY \<noteq> 0 then Inl EACCDN else Inr (c_fd c), None), f)
        | None \<Rightarrow>
            (case reopen_FD dd f OM_RPERM of
               Inl e \<Rightarrow> Some ((Inl e, None), f)
             | Inr f \<Rightarrow> do {
                 ((r, k), f) \<leftarrow> vf_path2DD_loop io dd pathelem f;
                 let r = (if r = Inl 0 then Inl EPTHNF else r);
                 Some ((r, k), if r = Inl E_CHNG \<or> r = Inl EDRIVE then f else close_DD dd f) }))"

end
