(* ===== verification/Vf_Create.thy ===== *)
theory Vf_Create
  imports Vf_Dir
begin

text \<open>
  Creating entries with long names (\<open>kernel/dos/vfat.c\<close>): \<open>vf_crnam\<close> writes the pieces of a long name
  and the main entry, \<open>vf_ffree\<close> looks for room for them and makes a unique short name.
\<close>

subsection \<open>Writing an entry\<close>

text \<open>An \<open>LDIR\<close> as \<open>vf_crnam\<close> sets it up: all characters \<open>0xffff\<close>.\<close>

definition new_ldir :: "nat \<Rightarrow> byte \<Rightarrow> byte list" where
  "new_ldir ndirs chk =
     [0x40 + of_nat ndirs] @ replicate 10 0xff @ [0x0f, 0, chk] @ replicate 12 0xff @ [0, 0] @ replicate 4 0xff"

text \<open>One piece of the name; \<open>i\<close> is the number of characters that remain, the closing EOS included.\<close>

definition ldir_put :: "byte list \<Rightarrow> int \<Rightarrow> byte list \<Rightarrow> byte list option" where
  "ldir_put nxts i l = do {
     (u1, s) \<leftarrow> ibm2unic 5 nxts;
     let l = overwrite 1 u1 l;
     if i - 5 > 0 then do {
       (u2, s) \<leftarrow> ibm2unic 6 s;
       let l = overwrite 14 u2 l;
       if i - 5 - 6 > 0 then do {
         (u3, s) \<leftarrow> ibm2unic 2 s;
         Some (overwrite 28 u3 l) }
       else Some l }
     else Some l }"

text \<open>\<open>str\<close> is the long name with its EOS, the first argument counts the pieces that are left.\<close>

fun crnam_loop :: "nat \<Rightarrow> 'f dosio \<Rightarrow> byte list \<Rightarrow> byte list \<Rightarrow> 'f \<Rightarrow> ((int + unit) \<times> 'f) option" where
  "crnam_loop 0 io str l f = Some (Inr (), f)"
| "crnam_loop (Suc n) io str l f = do {
     l \<leftarrow> ldir_put (drop (n * 13) str) (int (length str) - int (n * 13)) l;
     case p_fwrite io l f of
       (e, f) \<Rightarrow> if e < E_OK then Some (Inl e, f)
                 else crnam_loop n io str (l[0 := of_nat n]) f }"

definition vf_crnam :: "'f dosio \<Rightarrow> byte list \<Rightarrow> byte list option \<Rightarrow> 'f \<Rightarrow> (int \<times> 'f) option" where
  "vf_crnam io newdir longname f =
     (if fpos_of io f mod 32 \<noteq> 0 then Some (EINTRN, f)
      else do {
        (r, f) \<leftarrow> (case longname of
           None \<Rightarrow> Some (Inr (), f)
         | Some l \<Rightarrow>
             let ndirs = (length l + 12) div 13 in
             crnam_loop ndirs io (l @ [0]) (new_ldir ndirs (vf_chksum (dir_name newdir))) f);
        Some (case r of Inl e \<Rightarrow> (e, f) | Inr _ \<Rightarrow> p_fwrite io newdir f) })"

subsection \<open>Short names that are taken\<close>

text \<open>The flags \<open>used[200]\<close>, one bit for each number; \<open>None\<close> is an index outside the array.\<close>

definition mark_used :: "int \<Rightarrow> byte list \<Rightarrow> byte list option" where
  "mark_used number used =
     (let i = number div 8 in
      if 0 \<le> i \<and> i < int (length used) then
        Some (used[nat i := used ! nat i OR push_bit (nat (number mod 8)) 1])
      else None)"

text \<open>The number behind a \<open>~\<close>, up to a blank or the end of the 8 characters, in 16 bit arithmetic.\<close>

fun alias_number :: "byte list \<Rightarrow> int \<Rightarrow> int option" where
  "alias_number [] number = Some number"
| "alias_number (u # us) number =
     (if u = 32 then Some number
      else if 48 \<le> u \<and> u \<le> 57 then alias_number us (s16 (s16 (number * 10) + (uint u - 48)))
      else None)"

text \<open>Comparison of the rest of the 8 characters of the new name and of an entry.\<close>

fun alias_scan :: "byte list \<Rightarrow> byte list \<Rightarrow> byte list \<Rightarrow> byte list option" where
  "alias_scan (s # ss) (t # ts) used =
     (let weiter2 = (if s \<noteq> t then Some used else alias_scan ss ts used) in
      if t = 126 then
        (case alias_number ts 0 of
           None \<Rightarrow> weiter2
         | Some number \<Rightarrow> if 1600 \<le> number then weiter2 else mark_used number used)
      else weiter2)"
| "alias_scan _ _ used = mark_used 0 used"

definition alias_check :: "byte list \<Rightarrow> byte list \<Rightarrow> byte list \<Rightarrow> byte list option" where
  "alias_check new d used =
     (if take 3 (drop 8 new) \<noteq> take 3 (drop 8 d) \<or> new ! 0 \<noteq> d ! 0 then Some used
      else alias_scan (take 7 (drop 1 new)) (take 7 (drop 1 d)) used)"

definition free_number :: "byte list \<Rightarrow> nat option" where
  "free_number used = find (\<lambda>n. \<not> bit (used ! (n div 8)) (n mod 8)) [0..<1600]"

text \<open>Writing the number: back over the blanks, then the digits from the right.\<close>

fun skip_blanks :: "byte list \<Rightarrow> nat \<Rightarrow> nat option" where
  "skip_blanks n 0 = (if n ! 0 = 32 then None else Some 0)"
| "skip_blanks n (Suc s) = (if n ! Suc s = 32 then skip_blanks n s else Some (Suc s))"

fun put_digits :: "nat \<Rightarrow> nat \<Rightarrow> byte list \<Rightarrow> nat \<times> byte list" where
  "put_digits number s n =
     (if number = 0 then (s, n) else put_digits (number div 10) (s - 1) (n[s := of_nat (number mod 10) + 48]))"

declare put_digits.simps [simp del]

definition alias_len :: "nat \<Rightarrow> nat" where
  "alias_len number = (if number > 9 then if number > 99 then if number > 999 then 5 else 4 else 3 else 2)"

definition put_alias :: "nat \<Rightarrow> byte list \<Rightarrow> byte list option" where
  "put_alias number n =
     (if number = 0 then Some n
      else do {
        s \<leftarrow> skip_blanks n (7 - alias_len number);
        let (s, n) = put_digits number (s + alias_len number) n;
        Some (n[s := 126]) })"

subsection \<open>Looking for room\<close>

record ff_state =
  gap_pos :: int
  gap_len :: int
  ff_found :: bool
  ff_used :: "byte list"

datatype ff_step = FRet int | FPos int | FBreak ff_state | FNext ff_state

text \<open>The end of the file.\<close>

definition ffree_eof :: "'f dosio \<Rightarrow> int \<Rightarrow> ff_state \<Rightarrow> 'f \<Rightarrow> ff_step \<times> 'f" where
  "ffree_eof io actpos r f =
     (if ff_found r then (FBreak r, f)
      else
        let r = (if gap_pos r < 0 then r\<lparr>gap_pos := actpos\<rparr> else r) in
        case p_extfd io f of (e, f) \<Rightarrow> if e < E_OK then (FRet e, f) else (FBreak r, f))"

text \<open>The end mark: the entries behind it are made sure of one by one; the last argument is \<open>len\<close>.\<close>

function ffree_room :: "'f dosio \<Rightarrow> int \<Rightarrow> int \<Rightarrow> 'f \<Rightarrow> int \<Rightarrow> (int + unit) \<times> 'f" where
  "ffree_room io gap ndirs f len =
     (if len < ndirs then
        (case p_fseek io (s32 (s32 (gap + s16 (len * 32)) + 1)) f of
           (e, f) \<Rightarrow>
             (case if e = ERANGE then p_extfd io f else (e, f) of
                (e, f) \<Rightarrow> if e < E_OK then (Inl e, f) else ffree_room io gap ndirs f (len + 1)))
      else (Inr (), f))"
  by pat_completeness auto
termination
  by (relation "measure (\<lambda>(io, gap, ndirs, f, len). nat (ndirs - len))") auto

declare ffree_room.simps [simp del]

definition open_gap :: "int \<Rightarrow> ff_state \<Rightarrow> ff_state" where
  "open_gap actpos r =
     (if gap_pos r < 0 then r\<lparr>gap_pos := actpos, gap_len := 1\<rparr> else r\<lparr>gap_len := gap_len r + 1\<rparr>)"

definition ffree_end :: "'f dosio \<Rightarrow> int \<Rightarrow> int \<Rightarrow> ff_state \<Rightarrow> 'f \<Rightarrow> ff_step \<times> 'f" where
  "ffree_end io ndirs actpos r f =
     (if ff_found r then (FBreak r, f)
      else
        let r = open_gap actpos r in
        case ffree_room io (gap_pos r) ndirs f (gap_len r) of
          (Inl e, f) \<Rightarrow> (FRet e, f) | (Inr _, f) \<Rightarrow> (FBreak r, f))"

text \<open>A deleted entry or one that counts as deleted, then an entry in use.\<close>

definition ffree_gap :: "bool \<Rightarrow> int \<Rightarrow> int \<Rightarrow> ff_state \<Rightarrow> ff_step" where
  "ffree_gap long ndirs actpos r =
     (if \<not> long then FPos actpos
      else if ff_found r then FNext r
      else let r = open_gap actpos r in FNext (if gap_len r \<ge> ndirs then r\<lparr>ff_found := True\<rparr> else r))"

definition ffree_entry :: "bool \<Rightarrow> int \<Rightarrow> byte list \<Rightarrow> byte list \<Rightarrow> int \<Rightarrow> ff_state \<Rightarrow> ff_state option" where
  "ffree_entry long specialpos new d actpos r =
     (if \<not> long then Some r
      else
        let r = (if ff_found r then r else r\<lparr>gap_pos := -1\<rparr>) in
        if dir_attr d \<noteq> 0x0f \<and> actpos \<noteq> specialpos then do {
          u \<leftarrow> alias_check new d (ff_used r);
          Some (r\<lparr>ff_used := u\<rparr>) }
        else Some r)"

definition special_entry :: "int \<Rightarrow> int \<Rightarrow> int \<Rightarrow> bool" where
  "special_entry specialpos specialfirst actpos \<longleftrightarrow> actpos \<le> specialpos \<and> actpos \<ge> specialfirst"

partial_function (option) ffree_loop ::
  "'f dosio \<Rightarrow> bool \<Rightarrow> int \<Rightarrow> int \<Rightarrow> int \<Rightarrow> byte list \<Rightarrow> ff_state \<Rightarrow> 'f \<Rightarrow> (ff_step \<times> 'f) option" where
  "ffree_loop io long ndirs specialpos specialfirst new r f =
     (let actpos = fpos_of io f in
      case p_fread io f of
        (Inl e, f) \<Rightarrow> Some (if e < E_OK then (FRet e, f) else ffree_eof io actpos r f)
      | (Inr d, f) \<Rightarrow>
          if d ! 0 = 0 then Some (ffree_end io ndirs actpos r f)
          else if d ! 0 = 0xe5 \<or> special_entry specialpos specialfirst actpos then
            (case ffree_gap long ndirs actpos r of
               FNext r \<Rightarrow> ffree_loop io long ndirs specialpos specialfirst new r f
             | x \<Rightarrow> Some (x, f))
          else
            (case ffree_entry long specialpos new d actpos r of
               None \<Rightarrow> None
             | Some r \<Rightarrow> ffree_loop io long ndirs specialpos specialfirst new r f))"

text \<open>
  The space the name needs: whether it is stored as a long name, the number of entries and the
  flags; \<open>None\<close> if the name is too long.  \<open>flags\<close> tells whether the drive takes long names.
\<close>

definition ffree_need :: "bool \<Rightarrow> byte list \<Rightarrow> byte list \<Rightarrow> (bool \<times> int \<times> byte list) option" where
  "ffree_need flags name new =
     (let sname = ext_8_3 (dir_name new) in
      if \<not> flags \<or> sname = name then Some (False, 1, replicate 200 0)
      else if MAXFOLDERNAME < length name then None
      else Some (True, int ((length name + 12) div 13) + 1,
                 if vf_stricmp sname name \<noteq> 0 then (replicate 200 0)[0 := 1] else replicate 200 0))"

definition special_first :: "int \<Rightarrow> int \<Rightarrow> int \<Rightarrow> int" where
  "special_first specialpos specialfirst ndirs =
     (if specialpos \<ge> 0 then
        let p = (if specialfirst < 0 then specialpos else specialfirst) in
        if ndirs \<noteq> (specialpos - p) div 32 + 1 then 0x7fffffff else p
      else specialfirst)"

text \<open>
  The result is an error code, or the position of the main entry, that of the first entry, the
  new main entry, and whether there is a long name.
\<close>

definition vf_ffree ::
  "'f dosio \<Rightarrow> bool \<Rightarrow> int \<Rightarrow> int \<Rightarrow> byte list \<Rightarrow> byte list \<Rightarrow> 'f \<Rightarrow>
     ((int + int \<times> int \<times> byte list \<times> bool) \<times> 'f) option" where
  "vf_ffree io flags specialpos specialfirstpos name new f =
     (case p_fseek io 0 f of
        (e, f) \<Rightarrow>
          if e < E_OK then Some (Inl e, f)
          else case ffree_need flags name new of
            None \<Rightarrow> Some (Inl ERANGE, f)
          | Some (long, ndirs, used) \<Rightarrow> do {
              (x, f) \<leftarrow> ffree_loop io long ndirs specialpos (special_first specialpos specialfirstpos ndirs) new
                 \<lparr>gap_pos = -1, gap_len = 0, ff_found = False, ff_used = used\<rparr> f;
              case x of
                FRet e \<Rightarrow> Some (Inl e, f)
              | FPos p \<Rightarrow> Some (Inr (p, p, new, long), f)
              | FBreak r \<Rightarrow>
                  (let ret = (\<lambda>new. Some (if gap_pos r < 0 then Inl (gap_pos r)
                                          else Inr (gap_pos r + (ndirs - 1) * 32, gap_pos r, new, long), f)) in
                   if \<not> long then ret new
                   else case free_number (ff_used r) of
                     None \<Rightarrow> Some (Inl EINTRN, f)
                   | Some n \<Rightarrow> do { new \<leftarrow> put_alias n new; ret new })
              | FNext r \<Rightarrow> None })"

end
