(* ===== verification/Vf_Chain.thy ===== *)
theory Vf_Chain
  imports Vf_Create
begin

text \<open>
  The entries of a long name.  \<open>piece\<close> and \<open>long_chain\<close> say what \<open>vf_crnam\<close> writes, \<open>rd_scan\<close> is the loop of
  \<open>_vf_readdir\<close> over a list of entries; the two meet in \<open>rd_scan_chain\<close>: the name is read back.
\<close>

subsection \<open>Two byte characters\<close>

definition utf :: "byte list \<Rightarrow> byte list" where
  "utf cs = concat (map (\<lambda>c. let w = map_ascii_Unicode ! unat c in [of_nat (w mod 256), of_nat (w div 256)]) cs)"

definition rr :: "byte \<Rightarrow> byte" where "rr c = of_nat (reread (unat c))"

definition padw :: "nat \<Rightarrow> byte list \<Rightarrow> byte list" where
  "padw n cs = utf cs @ replicate (2 * n - 2 * length cs) 0xff"

lemma utf_simps [simp]:
  "utf [] = []" "utf (c # cs) = (let w = map_ascii_Unicode ! unat c in [of_nat (w mod 256), of_nat (w div 256)]) @ utf cs"
  "utf (a @ b) = utf a @ utf b"
  by (simp_all add: utf_def)

lemma length_utf [simp]: "length (utf cs) = 2 * length cs"
  by (induction cs) (auto simp: Let_def)

lemma length_padw [simp]: "length cs \<le> n \<Longrightarrow> length (padw n cs) = 2 * n"
  by (simp add: padw_def)

lemma ibm2unic_eq:
  assumes "0 \<notin> set l"
  shows "l @ [0] \<noteq> [] \<Longrightarrow> ibm2unic (Suc n) (l @ [0]) = Some (utf (take (Suc n) (l @ [0])), drop (Suc n) (l @ [0]))"
  using assms
proof (induction l arbitrary: n)
  case (Cons c l)
  then show ?case by (cases n) (auto simp: Let_def)
qed (simp add: Let_def)

lemma ascii_words:
  "list_all (\<lambda>w. w < 0xffff) map_ascii_Unicode" "list_all (\<lambda>w. w \<noteq> 0) (tl map_ascii_Unicode)"
  "map_ascii_Unicode ! 0 = 0"
  by (simp_all add: map_ascii_Unicode_def)

lemma ascii_word: "map_ascii_Unicode ! unat (c :: byte) < 0xffff" "c \<noteq> 0 \<Longrightarrow> map_ascii_Unicode ! unat c \<noteq> 0"
proof -
  have u: "unat c < length map_ascii_Unicode" using unsigned_less [where ?'a = nat, of c] by (simp add: ascii_len)
  show "map_ascii_Unicode ! unat c < 0xffff"
    using ascii_words(1) u by (simp add: list_all_length)
  assume "c \<noteq> 0"
  then have "0 < unat c" by (simp add: unat_gt_0)
  then show "map_ascii_Unicode ! unat c \<noteq> 0"
    using ascii_words(2) u by (auto simp: list_all_length nth_tl dest!: spec [of _ "unat c - 1"])
qed

lemma wchar_back: "w < 65536 \<Longrightarrow> unat (of_nat (w mod 256) :: byte) + unat (of_nat (w div 256) :: byte) * 256 = w"
  by (simp add: unat_of_nat less_mult_imp_div_less)

lemma unic2ibm_word:
  assumes "c \<noteq> 0"
  shows "unic2ibm (Suc n) (utf [c] @ us) = map_option ((#) (rr c)) (unic2ibm n us)"
proof -
  let ?w = "map_ascii_Unicode ! unat c"
  have w: "unat (of_nat (?w mod 256) :: byte) + unat (of_nat (?w div 256) :: byte) * 256 = ?w"
    using ascii_word(1) [of c] by (intro wchar_back) simp
  show ?thesis
    using ascii_word [of c] assms w
    by (simp add: Let_def unic_search_eq rr_def reread_def cong: if_cong)
qed

lemma unic2ibm_padw:
  "length cs \<le> n \<Longrightarrow> unic2ibm n (padw n cs) = Some (map rr (takeWhile (\<lambda>c. c \<noteq> 0) cs))"
proof (induction cs arbitrary: n)
  case Nil
  then show ?case by (cases n) (auto simp: padw_def)
next
  case (Cons c cs)
  then obtain m where n: "n = Suc m" by (cases n) auto
  have "padw n (c # cs) = utf [c] @ padw m cs" by (simp add: padw_def n)
  show ?case
  proof (cases "c = 0")
    case True
    then show ?thesis by (simp add: n padw_def Let_def ascii_words(3))
  next
    case False
    then show ?thesis using Cons unic2ibm_word [OF False, of m "padw m cs"] \<open>padw n (c # cs) = _\<close> by (simp add: n)
  qed
qed

lemma rr_id: "32 \<le> c \<Longrightarrow> c \<noteq> 173 \<Longrightarrow> rr c = c"
proof -
  assume "32 \<le> c" "c \<noteq> 173"
  moreover have "unat c < 256" using unsigned_less [where ?'a = nat, of c] by simp
  moreover have "unat c \<noteq> 173" using \<open>c \<noteq> 173\<close> by (auto simp: word_unat_eq_iff)
  ultimately show ?thesis by (simp add: rr_def reread_id word_le_nat_alt)
qed

subsection \<open>What \<open>vf_crnam\<close> writes\<close>

definition ldir_of :: "byte \<Rightarrow> byte \<Rightarrow> byte list \<Rightarrow> byte list" where
  "ldir_of head chk s =
     [head] @ padw 5 (take 5 s) @ [0x0f, 0, chk] @ padw 6 (take 6 (drop 5 s)) @ [0, 0] @ padw 2 (take 2 (drop 11 s))"

definition pieces :: "byte list \<Rightarrow> nat" where "pieces l = (length l + 12) div 13"

definition piece_head :: "nat \<Rightarrow> nat \<Rightarrow> byte" where
  "piece_head n k = (if Suc k = n then 0x40 + of_nat n else of_nat (Suc k))"

definition piece :: "byte list \<Rightarrow> byte \<Rightarrow> nat \<Rightarrow> byte list" where
  "piece l chk k = ldir_of (piece_head (pieces l) k) chk (drop (k * 13) (l @ [0]))"

definition long_chain :: "byte list \<Rightarrow> byte \<Rightarrow> byte list list" where
  "long_chain l chk = map (piece l chk) (rev [0..<pieces l])"

definition name_chain :: "byte list option \<Rightarrow> byte list \<Rightarrow> byte list list" where
  "name_chain lo d = (case lo of None \<Rightarrow> [] | Some l \<Rightarrow> long_chain l (vf_chksum (dir_name d))) @ [d]"

lemma length_ldir_of [simp]: "length (ldir_of h c s) = 32"
  by (simp add: ldir_of_def)

text \<open>An entry in which the characters that the next piece leaves alone are still \<open>0xffff\<close>.\<close>

definition ldir_pre :: "byte list \<Rightarrow> byte \<Rightarrow> byte \<Rightarrow> nat \<Rightarrow> bool" where
  "ldir_pre l head chk m \<longleftrightarrow> (\<exists>a b c. l = [head] @ a @ [0x0f, 0, chk] @ b @ [0, 0] @ c
     \<and> length a = 10 \<and> length b = 12 \<and> length c = 4
     \<and> (m < 13 \<longrightarrow> a = replicate 10 0xff \<and> b = replicate 12 0xff \<and> c = replicate 4 0xff))"

lemma ldir_pre_new: "ldir_pre (new_ldir n chk) (0x40 + of_nat n) chk m"
  unfolding ldir_pre_def new_ldir_def
  by (intro exI [of _ "replicate 10 0xff"] exI [of _ "replicate 12 0xff"] exI [of _ "replicate 4 0xff"]) simp

lemma ldir_pre_of: "13 \<le> m \<Longrightarrow> ldir_pre ((ldir_of h chk s)[0 := h']) h' chk m"
  unfolding ldir_pre_def ldir_of_def
  by (intro exI [of _ "padw 5 (take 5 s)"] exI [of _ "padw 6 (take 6 (drop 5 s))"] exI [of _ "padw 2 (take 2 (drop 11 s))"]) simp

lemma over_pad:
  assumes "length a = 2 * n" "length cs \<le> n" "length cs = n \<or> a = replicate (2 * n) 0xff"
  shows "overwrite 0 (utf cs) a = padw n cs"
  using assms by (auto simp: overwrite_def padw_def)

lemma overwrite_mid:
  assumes "length p = k" "length u \<le> length a"
  shows "overwrite k u (p @ a @ q) = p @ overwrite 0 u a @ q"
  using assms by (simp add: overwrite_def)

lemma ldir_put_eq:
  assumes z: "0 \<notin> set m" and s: "s = m @ [0]" and pre: "ldir_pre l head chk (length m)"
  shows "ldir_put s (int (length s)) l = Some (ldir_of head chk s)"
proof -
  obtain a b c where l: "l = [head] @ a @ [0x0f, 0, chk] @ b @ [0, 0] @ c" and len: "length a = 10" "length b = 12" "length c = 4"
    and ff: "length m < 13 \<longrightarrow> a = replicate 10 0xff \<and> b = replicate 12 0xff \<and> c = replicate 4 0xff"
    using pre unfolding ldir_pre_def by blast
  define l1 where "l1 = [head] @ padw 5 (take 5 s) @ [0x0f, 0, chk] @ b @ [0, 0] @ c"
  define l2 where "l2 = [head] @ padw 5 (take 5 s) @ [0x0f, 0, chk] @ padw 6 (take 6 (drop 5 s)) @ [0, 0] @ c"
  have f: "length (take 5 s) = 5 \<or> a = replicate (2 * 5) 0xff" "length (take 6 (drop 5 s)) = 6 \<or> b = replicate (2 * 6) 0xff"
      "length (take 2 (drop 11 s)) = 2 \<or> c = replicate (2 * 2) 0xff"
  proof -
    show "length (take 5 s) = 5 \<or> a = replicate (2 * 5) 0xff" using ff by (cases "length m < 13") (simp_all add: s)
    show "length (take 6 (drop 5 s)) = 6 \<or> b = replicate (2 * 6) 0xff" using ff by (cases "length m < 13") (simp_all add: s)
    show "length (take 2 (drop 11 s)) = 2 \<or> c = replicate (2 * 2) 0xff" using ff by (cases "length m < 13") (simp_all add: s)
  qed
  have p: "overwrite 0 (utf (take 5 s)) a = padw 5 (take 5 s)" "overwrite 0 (utf (take 6 (drop 5 s))) b = padw 6 (take 6 (drop 5 s))"
      "overwrite 0 (utf (take 2 (drop 11 s))) c = padw 2 (take 2 (drop 11 s))"
    by (rule over_pad [OF _ _ f(1)] over_pad [OF _ _ f(2)] over_pad [OF _ _ f(3)]; simp add: len)+
  have o1: "overwrite 1 (utf (take 5 s)) l = l1"
    unfolding l l1_def p(1) [symmetric] by (rule overwrite_mid) (simp_all add: len)
  have o2: "overwrite 14 (utf (take 6 (drop 5 s))) l1 = l2"
    using overwrite_mid [of "[head] @ padw 5 (take 5 s) @ [0x0f, 0, chk]" 14 "utf (take 6 (drop 5 s))" b "[0, 0] @ c"] len
    unfolding l1_def l2_def p(2) by simp
  have o3: "overwrite 28 (utf (take 2 (drop 11 s))) l2 = ldir_of head chk s"
    using overwrite_mid [of "[head] @ padw 5 (take 5 s) @ [0x0f, 0, chk] @ padw 6 (take 6 (drop 5 s)) @ [0, 0]" 28 "utf (take 2 (drop 11 s))" c "[]"] len
    unfolding l2_def ldir_of_def p(3) by simp
  have i: "ibm2unic (Suc n) (drop k s) = Some (utf (take (Suc n) (drop k s)), drop (Suc n + k) s)" if k: "k < length s" for n k
  proof -
    have d: "drop k s = drop k m @ [0]" using k by (simp add: s)
    have "0 \<notin> set (drop k m)" using z by (auto dest: in_set_dropD)
    then show ?thesis unfolding d drop_drop [symmetric] by (intro ibm2unic_eq) simp_all
  qed
  have i1: "ibm2unic 5 s = Some (utf (take 5 s), drop 5 s)" using i [of 0 4] by (simp add: s)
  have i2: "ibm2unic 6 (drop 5 s) = Some (utf (take 6 (drop 5 s)), drop 11 s)" if "5 < length s"
    using i [of 5 5] that by simp
  have i3: "ibm2unic 2 (drop 11 s) = Some (utf (take 2 (drop 11 s)), drop 13 s)" if "11 < length s"
    using i [of 11 1] that by (simp add: numeral_2_eq_2)
  have e2: "take 6 (drop 5 s) = []" "take 2 (drop 11 s) = []" if "length s \<le> 5" using that by simp_all
  have e3: "take 2 (drop 11 s) = []" if "length s \<le> 11" using that by simp
  show ?thesis
  proof (cases "5 < length s")
    case False
    then show ?thesis using i1 o1 o2 o3 e2 by (simp add: ldir_put_def)
  next
    case True
    show ?thesis
    proof (cases "11 < length s")
      case False
      then show ?thesis using True i1 i2 o1 o2 o3 e3 by (simp add: ldir_put_def)
    next
      case t: True
      then show ?thesis using True i1 i2 i3 o1 o2 o3 by (simp add: ldir_put_def)
    qed
  qed
qed

subsection \<open>Reading a piece\<close>

lemma ldir_of_text:
  assumes "0 \<notin> set m" "s = m @ r" "r = [0] \<or> 13 \<le> length m"
  shows "ldir_text (ldir_of h chk s) = Some (map rr (take 13 m))"
proof -
  have t: "takeWhile (\<lambda>c. c \<noteq> 0) (take k (drop j s)) = take k (drop j m)" if jk: "j + k \<le> 13" for j k
  proof -
    have z: "c \<noteq> 0" if "c \<in> set (take k (drop j m))" for c using that assms(1) by (metis in_set_dropD in_set_takeD)
    consider "j + k \<le> length m" | "r = [0]" "length m < j + k" using assms(3) jk by linarith
    then show ?thesis
    proof cases
      case 1
      then show ?thesis using z by (simp add: assms(2) takeWhile_eq_all_conv)
    next
      case 2
      then show ?thesis using z by (cases "j \<le> length m") (auto simp: assms(2) takeWhile_append take_Cons' takeWhile_eq_all_conv)
    qed
  qed
  have "take 10 (drop 1 (ldir_of h chk s)) = padw 5 (take 5 s)"
    "take 12 (drop 14 (ldir_of h chk s)) = padw 6 (take 6 (drop 5 s))"
    "take 4 (drop 28 (ldir_of h chk s)) = padw 2 (take 2 (drop 11 s))"
    by (simp_all add: ldir_of_def)
  moreover have "take 13 m = take 5 m @ take 6 (drop 5 m) @ take 2 (drop 11 m)"
    using take_add [of 5 8 m] take_add [of 6 2 "drop 5 m"] by simp
  ultimately show ?thesis
    using t [of 0 5] t [of 5 6] t [of 11 2] by (simp add: ldir_text_def unic2ibm_padw)
qed

end
