(* ===== verification/Vf_Scan.thy ===== *)
theory Vf_Scan
  imports Vf_Chain
begin

text \<open>
  A directory as a list of entries.  \<open>dir_io\<close> is the contract of the file below: it delivers,
  replaces and appends entries of a list.  Under it the loop of \<open>_vf_readdir\<close> is a recursion over that
  list, so that it ends, and \<open>vf_crnam\<close> replaces a part of the list.
\<close>

subsection \<open>The contract of the file\<close>

definition zero_entry :: "byte list" where "zero_entry = replicate 32 0"

definition dir_io :: "'f dosio \<Rightarrow> ('f \<Rightarrow> byte list list) \<Rightarrow> bool" where
  "dir_io io es \<longleftrightarrow>
     (\<forall>f i. i < length (es f) \<longrightarrow> fpos_of io f = 32 * int i \<longrightarrow>
        (\<exists>f'. p_fread io f = (Inr (es f ! i), f') \<and> es f' = es f \<and> fpos_of io f' = 32 * (int i + 1)))
   \<and> (\<forall>f. fpos_of io f = 32 * int (length (es f)) \<longrightarrow>
        (\<exists>f'. p_fread io f = (Inl 0, f') \<and> es f' = es f \<and> fpos_of io f' = fpos_of io f))
   \<and> (\<forall>f p. 0 \<le> p \<longrightarrow> (\<exists>e f'. p_fseek io p f = (e, f') \<and> es f' = es f \<and>
        (if p \<le> 32 * int (length (es f)) then 0 \<le> e \<and> fpos_of io f' = p else e = ERANGE)))
   \<and> (\<forall>f i d. i < length (es f) \<longrightarrow> fpos_of io f = 32 * int i \<longrightarrow> length d = 32 \<longrightarrow>
        (\<exists>e f'. p_fwrite io d f = (e, f') \<and> 0 \<le> e \<and> es f' = (es f)[i := d] \<and> fpos_of io f' = 32 * (int i + 1)))
   \<and> (\<forall>f. \<exists>e f' k. p_extfd io f = (e, f') \<and>
        (e < 0 \<and> es f' = es f \<or> 0 \<le> e \<and> 16 \<le> k \<and> es f' = es f @ replicate k zero_entry))"

lemma dir_read:
  assumes "dir_io io es" "i < length (es f)" "fpos_of io f = 32 * int i"
  obtains f' where "p_fread io f = (Inr (es f ! i), f')" "es f' = es f" "fpos_of io f' = 32 * (int i + 1)"
  using assms unfolding dir_io_def by blast

lemma dir_eof:
  assumes "dir_io io es" "fpos_of io f = 32 * int (length (es f))"
  obtains f' where "p_fread io f = (Inl 0, f')" "es f' = es f" "fpos_of io f' = fpos_of io f"
  using assms unfolding dir_io_def by blast

lemma dir_write:
  assumes "dir_io io es" "i < length (es f)" "fpos_of io f = 32 * int i" "length d = 32"
  obtains e f' where "p_fwrite io d f = (e, f')" "0 \<le> e" "es f' = (es f)[i := d]" "fpos_of io f' = 32 * (int i + 1)"
  using assms unfolding dir_io_def by blast

lemma dir_seek:
  assumes "dir_io io es" "0 \<le> p"
  obtains e f' where "p_fseek io p f = (e, f')" "es f' = es f"
    "if p \<le> 32 * int (length (es f)) then 0 \<le> e \<and> fpos_of io f' = p else e = ERANGE"
  using assms unfolding dir_io_def by blast

lemma dir_extend:
  assumes "dir_io io es"
  obtains e f' k where "p_extfd io f = (e, f')" "e < 0 \<and> es f' = es f \<or> 0 \<le> e \<and> 16 \<le> k \<and> es f' = es f @ replicate k zero_entry"
  using assms unfolding dir_io_def by blast

subsection \<open>The loop of \<open>_vf_readdir\<close> over a list\<close>

fun rd_scan :: "find_mode \<Rightarrow> rd_state \<Rightarrow> nat \<Rightarrow> byte list list \<Rightarrow> ((int + byte list) \<times> rd_state \<times> nat) option" where
  "rd_scan fmode r i [] = Some (Inl 0, r, i)"
| "rd_scan fmode r i (d # ds) =
     (if d ! 0 = 0 then Some (Inl E_OK, r, Suc i)
      else if d ! 0 = 0xe5 then rd_scan fmode r (Suc i) ds
      else if dir_attr d = 0x0f then
        (case rd_ldir d (32 * (int i + 1)) r of
           None \<Rightarrow> None
         | Some (Inl e) \<Rightarrow> Some (Inl e, r, Suc i)
         | Some (Inr r) \<Rightarrow> rd_scan fmode r (Suc i) ds)
      else if wanted fmode d then Some (Inr d, rd_dir d r, Suc i)
      else rd_scan fmode (rd_dir d r) (Suc i) ds)"

lemma rd_loop_scan:
  assumes io: "dir_io io es"
  shows "i \<le> length (es f) \<Longrightarrow> fpos_of io f = 32 * int i \<Longrightarrow> rd_scan fmode r i (drop i (es f)) = Some (x, r', j) \<Longrightarrow>
    \<exists>f'. rd_loop io fmode r f = Some (x, r', f') \<and> es f' = es f \<and> fpos_of io f' = 32 * int j"
proof (induction "length (es f) - i" arbitrary: i f r)
  case 0
  then have i: "i = length (es f)" by simp
  then have p: "fpos_of io f = 32 * int (length (es f))" using 0 by simp
  obtain g where g: "p_fread io f = (Inl 0, g)" "es g = es f" "fpos_of io g = fpos_of io f" using dir_eof [OF io p] .
  show ?case using 0 g by (subst rd_loop.simps) (auto simp: i)
next
  case (Suc n)
  then have i: "i < length (es f)" by simp
  obtain g where g: "p_fread io f = (Inr (es f ! i), g)" "es g = es f" "fpos_of io g = 32 * (int i + 1)"
    using dir_read [OF io i Suc.prems(2)] .
  let ?d = "es f ! i"
  have dr: "drop i (es f) = ?d # drop (Suc i) (es f)" using i by (simp add: Cons_nth_drop_Suc)
  have IH: "\<exists>f'. rd_loop io fmode q g = Some (x, r', f') \<and> es f' = es f \<and> fpos_of io f' = 32 * int j"
    if "rd_scan fmode q (Suc i) (drop (Suc i) (es f)) = Some (x, r', j)" for q
    using Suc.hyps(1) [of g "Suc i" q] Suc.hyps(2) i g that by auto
  show ?case
    using Suc.prems(3) g IH
    by (subst rd_loop.simps) (auto simp: dr split: if_splits option.splits sum.splits)
qed

lemma unic2ibm_total: "2 * n \<le> length us \<Longrightarrow> \<exists>t. unic2ibm n us = Some t \<and> length t \<le> n"
proof (induction n arbitrary: us)
  case (Suc n)
  then obtain lo hi vs where us: "us = lo # hi # vs" by (cases us rule: list.exhaust; cases "tl us") auto
  then obtain t where "unic2ibm n vs = Some t" "length t \<le> n" using Suc by fastforce
  then show ?case by (auto simp: Let_def unic_search_eq us)
qed simp

lemma ldir_text_total: "length d = 32 \<Longrightarrow> \<exists>t. ldir_text d = Some t \<and> length t \<le> 13"
  using unic2ibm_total [of 5 "take 10 (drop 1 d)"] unic2ibm_total [of 6 "take 12 (drop 14 d)"]
    unic2ibm_total [of 2 "take 4 (drop 28 d)"]
  by (auto simp: ldir_text_def)

lemma rd_ldir_total: "length d = 32 \<Longrightarrow> \<exists>y. rd_ldir d p r = Some y \<and> (\<forall>e. y = Inl e \<longrightarrow> e = EINTRN)"
  using ldir_text_total [of d] by (auto simp: rd_ldir_def rd_piece_def Let_def)

lemma rd_scan_total:
  "\<forall>d \<in> set ds. length d = 32 \<Longrightarrow> \<exists>x r' j. rd_scan fmode r i ds = Some (x, r', j) \<and> i \<le> j \<and> j \<le> i + length ds
     \<and> (case x of Inl e \<Rightarrow> e = 0 \<or> e = EINTRN | Inr d \<Rightarrow> i < j \<and> ds ! (j - 1 - i) = d \<and> wanted fmode d)"
proof (induction ds arbitrary: r i)
  case (Cons d ds)
  obtain y where y: "rd_ldir d (32 * (int i + 1)) r = Some y" "\<forall>e. y = Inl e \<longrightarrow> e = EINTRN"
    using rd_ldir_total [of d] Cons.prems by fastforce
  have IH: "\<exists>x r' j. rd_scan fmode q (Suc i) ds = Some (x, r', j) \<and> i \<le> j \<and> j \<le> i + length (d # ds)
     \<and> (case x of Inl e \<Rightarrow> e = 0 \<or> e = EINTRN | Inr d' \<Rightarrow> i < j \<and> (d # ds) ! (j - 1 - i) = d' \<and> wanted fmode d')" for q
  proof -
    obtain x r' j where *: "rd_scan fmode q (Suc i) ds = Some (x, r', j)" "Suc i \<le> j" "j \<le> Suc i + length ds"
      "case x of Inl e \<Rightarrow> e = 0 \<or> e = EINTRN | Inr d' \<Rightarrow> Suc i < j \<and> ds ! (j - 1 - Suc i) = d' \<and> wanted fmode d'"
      using Cons.IH [of q "Suc i"] Cons.prems by auto
    moreover have "(d # ds) ! (j - 1 - i) = ds ! (j - 1 - Suc i)" if "Suc i < j"
      using that by (auto simp: nth_Cons split: nat.splits intro: arg_cong [of _ _ "(!) ds"])
    ultimately show ?thesis by (intro exI [of _ x] exI [of _ r'] exI [of _ j]) (auto split: sum.splits)
  qed
  show ?case
    using y IH by (auto simp: E_OK_def split: sum.splits)
qed auto

subsection \<open>Reading back a long name\<close>

definition long_ok :: "byte list \<Rightarrow> bool" where
  "long_ok l \<longleftrightarrow> l \<noteq> [] \<and> length l \<le> MAXFOLDERNAME \<and> 0 \<notin> set l"

lemma pieces_bounds: "long_ok l \<Longrightarrow> 1 \<le> pieces l \<and> pieces l \<le> 5 \<and> length l \<le> 13 * pieces l"
  by (cases l) (auto simp: long_ok_def pieces_def MAXFOLDERNAME_def)

lemma piece_not_last: "long_ok l \<Longrightarrow> Suc k < pieces l \<Longrightarrow> 13 \<le> length (drop (k * 13) l)"
  by (auto simp: pieces_def)

lemma drop_piece: "long_ok l \<Longrightarrow> k < pieces l \<Longrightarrow> drop (k * 13) (l @ [0]) = drop (k * 13) l @ [0]"
  by (auto simp: pieces_def)

lemma small_upto5: "n \<le> 5 \<Longrightarrow> n = 0 \<or> n = 1 \<or> n = 2 \<or> n = 3 \<or> n = 4 \<or> n = (5 :: nat)"
  by auto

lemma heads:
  assumes "k < n" "n \<le> 5"
  shows "piece_head n k \<noteq> 0" "piece_head n k \<noteq> 0xe5" "uint (piece_head n k AND 0x1f) = int (Suc k)"
    "piece_head n k AND 0x40 \<noteq> 0 \<longleftrightarrow> Suc k = n"
proof -
  have "k \<in> {0, 1, 2, 3, 4}" "n = Suc k \<or> n \<noteq> Suc k" using assms by auto
  then show "piece_head n k \<noteq> 0" "piece_head n k \<noteq> 0xe5" "uint (piece_head n k AND 0x1f) = int (Suc k)"
    "piece_head n k AND 0x40 \<noteq> 0 \<longleftrightarrow> Suc k = n"
    by (auto simp: piece_head_def)
qed

lemma ldir_of_fields: "ldir_of h c s ! 0 = h" "ldir_of h c s ! 11 = 0x0f" "ldir_of h c s ! 13 = c"
  by (simp_all add: ldir_of_def nth_append)

lemma piece_text: "long_ok l \<Longrightarrow> k < pieces l \<Longrightarrow> ldir_text (piece l chk k) = Some (map rr (take 13 (drop (k * 13) l)))"
  unfolding piece_def drop_piece by (rule ldir_of_text) (auto simp: long_ok_def dest: in_set_dropD)

text \<open>The state of the reader in front of piece \<open>n\<close>, from the end of the name.\<close>

definition rd_at :: "byte list \<Rightarrow> byte \<Rightarrow> int \<Rightarrow> nat \<Rightarrow> rd_state" where
  "rd_at l chk p n = \<lparr>rd_long = map rr (drop (n * 13) l), longcount = int n, act_chksum = chk, startpos = p\<rparr>"

lemma rd_ldir_piece:
  assumes l: "long_ok l" "k < pieces l" and r: "Suc k = pieces l \<or> r = rd_at l chk p (Suc k)"
  shows "rd_ldir (piece l chk k) q r =
    Some (Inr (rd_at l chk (if Suc k = pieces l then s32 (q - 32) else p) k))"
proof -
  note b = pieces_bounds [OF l(1)]
  note h = heads [OF l(2)] piece_text [OF l] ldir_of_fields
  have hd: "piece l chk k ! 0 = piece_head (pieces l) k" "piece l chk k ! 13 = chk" by (simp_all add: piece_def ldir_of_fields)
  have c: "take 13 (drop (k * 13) l) @ drop (Suc k * 13) l = drop (k * 13) l"
    by (metis append_take_drop_id drop_drop mult_Suc)
  have d: "take 13 (drop (k * 13) l) = drop (k * 13) l" if "Suc k = pieces l" using b that [symmetric] by auto
  have n: "length l \<le> 64" using l(1) by (simp add: long_ok_def MAXFOLDERNAME_def)
  show ?thesis
  proof (cases "Suc k = pieces l")
    case True
    then show ?thesis using h b hd d n by (simp add: rd_ldir_def rd_piece_def rd_at_def Let_def)
  next
    case False
    then have "r = rd_at l chk p (Suc k)" using r by simp
    then show ?thesis using False h b hd n
      by (simp add: rd_ldir_def rd_piece_def rd_at_def Let_def) (simp add: map_append [symmetric] c [simplified] del: map_append)
  qed
qed

lemma rd_scan_pieces:
  assumes l: "long_ok l"
  shows "n \<le> pieces l \<Longrightarrow> n = pieces l \<or> r = rd_at l chk p n \<Longrightarrow> 0 < n \<Longrightarrow>
    rd_scan fmode r i (map (piece l chk) (rev [0..<n]) @ ds) =
      rd_scan fmode (rd_at l chk (if n = pieces l then s32 (32 * int i) else p) 0) (i + n) ds"
proof (induction n arbitrary: r i p)
  case (Suc k)
  note b = pieces_bounds [OF l] and h = heads [of k "pieces l"]
  let ?p = "if Suc k = pieces l then s32 (32 * int i) else p"
  have hd: "piece l chk k ! 0 \<noteq> 0" "piece l chk k ! 0 \<noteq> 0xe5" "piece l chk k ! 11 = 0x0f"
    using h b Suc.prems(1) by (simp_all add: piece_def ldir_of_fields)
  have rd: "rd_ldir (piece l chk k) (32 * (int i + 1)) r = Some (Inr (rd_at l chk ?p k))"
    using rd_ldir_piece [OF l, of k r chk p "32 * (int i + 1)"] Suc.prems by (simp add: distrib_left)
  have step: "rd_scan fmode r i (map (piece l chk) (rev [0..<Suc k]) @ ds) =
    rd_scan fmode (rd_at l chk ?p k) (Suc i) (map (piece l chk) (rev [0..<k]) @ ds)"
    using hd rd by simp
  show ?case
  proof (cases "k = 0")
    case True
    then show ?thesis using step by simp
  next
    case False
    then have "k \<noteq> pieces l" using Suc.prems(1) by simp
    then show ?thesis unfolding step using Suc.IH [of "rd_at l chk ?p k" ?p "Suc i"] Suc.prems(1) False by simp
  qed
qed simp

lemma rd_scan_chain:
  assumes "long_ok l"
  shows "rd_scan fmode r i (long_chain l chk @ ds) = rd_scan fmode (rd_at l chk (s32 (32 * int i)) 0) (i + pieces l) ds"
  using rd_scan_pieces [OF assms, of "pieces l" r chk undefined] pieces_bounds [OF assms] by (simp add: long_chain_def)

end
