(* ===== verification/Vf_Lookup.thy ===== *)
theory Vf_Lookup
  imports Vf_Scan
begin

text \<open>
  The abstract directory: a list of files with their long names, and of deleted entries.  Writing a
  name adds a file to it, and searching is a search in the list.
\<close>

subsection \<open>Writing a long name\<close>

lemma overwrite_Cons: "i < length xs \<Longrightarrow> overwrite (Suc i) ys (xs[i := y]) = overwrite i (y # ys) xs"
  by (simp add: overwrite_def take_Suc_conv_app_nth)

lemma crnam_loop_ok:
  assumes io: "dir_io io es" and l: "long_ok l"
  shows "n \<le> pieces l \<Longrightarrow> (0 < n \<Longrightarrow> ldir_pre L (piece_head (pieces l) (n - 1)) chk (length (drop ((n - 1) * 13) l))) \<Longrightarrow>
    i + n \<le> length (es f) \<Longrightarrow> fpos_of io f = 32 * int i \<Longrightarrow>
    \<exists>f'. crnam_loop n io (l @ [0]) L f = Some (Inr (), f')
       \<and> es f' = overwrite i (map (piece l chk) (rev [0..<n])) (es f) \<and> fpos_of io f' = 32 * int (i + n)"
proof (induction n arbitrary: L i f)
  case (Suc k)
  have k: "k < pieces l" using Suc.prems by simp
  let ?m = "drop (k * 13) l"
  have s: "drop (k * 13) (l @ [0]) = ?m @ [0]" by (rule drop_piece [OF l k])
  have "k * 13 \<le> length l" using k by (auto simp: pieces_def)
  then have len: "int (length (l @ [0])) - int (k * 13) = int (length (?m @ [0]))" by simp
  have z: "0 \<notin> set ?m" using l by (auto simp: long_ok_def dest: in_set_dropD)
  have put: "ldir_put (?m @ [0]) (int (length (?m @ [0]))) L = Some (piece l chk k)"
    using ldir_put_eq [OF z refl] Suc.prems(2) unfolding piece_def s by simp
  obtain e g where g: "p_fwrite io (piece l chk k) f = (e, g)" "0 \<le> e" "es g = (es f)[i := piece l chk k]"
      "fpos_of io g = 32 * (int i + 1)"
    using dir_write [OF io, of i f "piece l chk k"] Suc.prems(3,4) by (auto simp: piece_def)
  have pre: "ldir_pre ((piece l chk k)[0 := of_nat k]) (piece_head (pieces l) (k - 1)) chk (length (drop ((k - 1) * 13) l))"
    if "0 < k"
  proof -
    have "piece_head (pieces l) (k - 1) = of_nat k" using that k by (simp add: piece_head_def)
    moreover have "13 \<le> length (drop ((k - 1) * 13) l)" using piece_not_last [OF l, of "k - 1"] that k by simp
    ultimately show ?thesis using ldir_pre_of by (simp add: piece_def)
  qed
  obtain h where h: "crnam_loop k io (l @ [0]) ((piece l chk k)[0 := of_nat k]) g = Some (Inr (), h)"
      "es h = overwrite (Suc i) (map (piece l chk) (rev [0..<k])) (es g)" "fpos_of io h = 32 * int (Suc i + k)"
    using Suc.IH [of "(piece l chk k)[0 := of_nat k]" "Suc i" g] pre k Suc.prems(3) g by auto
  have "\<not> e < E_OK" using g(2) by (simp add: E_OK_def)
  then show ?case using h put g Suc.prems(3) overwrite_Cons [of i "es f"]
    by (simp only: crnam_loop.simps s len Option.bind.simps) simp
qed simp

lemma length_long_chain [simp]: "length (long_chain l chk) = pieces l"
  by (simp add: long_chain_def)

lemma length_name_chain [simp]: "length (name_chain lo d) = (case lo of None \<Rightarrow> 0 | Some l \<Rightarrow> pieces l) + 1"
  by (cases lo) (simp_all add: name_chain_def)

lemma overwrite_snoc: "i + length ys < length xs \<Longrightarrow> (overwrite i ys xs)[i + length ys := y] = overwrite i (ys @ [y]) xs"
  by (simp add: overwrite_def list_update_append min_absorb2 Cons_nth_drop_Suc [symmetric])

lemma crnam_ok:
  assumes io: "dir_io io es" and l: "\<And>l. lo = Some l \<Longrightarrow> long_ok l" and d: "length d = 32"
    and f: "i + length (name_chain lo d) \<le> length (es f)" "fpos_of io f = 32 * int i"
  shows "\<exists>e f'. vf_crnam io d lo f = Some (e, f') \<and> 0 \<le> e \<and> es f' = overwrite i (name_chain lo d) (es f)
     \<and> fpos_of io f' = 32 * int (i + length (name_chain lo d))"
proof -
  let ?chk = "vf_chksum (dir_name d)"
  let ?L = "case lo of None \<Rightarrow> [] | Some l \<Rightarrow> long_chain l ?chk"
  have "\<exists>g. (case lo of None \<Rightarrow> Some (Inr (), f)
         | Some l \<Rightarrow> let ndirs = (length l + 12) div 13 in crnam_loop ndirs io (l @ [0]) (new_ldir ndirs ?chk) f) = Some (Inr (), g)
      \<and> es g = overwrite i ?L (es f) \<and> fpos_of io g = 32 * int (i + length ?L)"
  proof (cases lo)
    case (Some l)
    have h: "piece_head (pieces l) (pieces l - 1) = 0x40 + of_nat (pieces l)"
      using pieces_bounds [OF l [OF Some]] by (simp add: piece_head_def)
    have pre: "ldir_pre (new_ldir (pieces l) ?chk) (piece_head (pieces l) (pieces l - 1)) ?chk m" for m
      unfolding h by (rule ldir_pre_new)
    show ?thesis
      using crnam_loop_ok [OF io l [OF Some] order_refl pre, of i f] f
      by (simp add: Some pieces_def [symmetric] long_chain_def Let_def)
  qed (use f in simp)
  then obtain g where g: "(case lo of None \<Rightarrow> Some (Inr (), f)
         | Some l \<Rightarrow> let ndirs = (length l + 12) div 13 in crnam_loop ndirs io (l @ [0]) (new_ldir ndirs ?chk) f) = Some (Inr (), g)"
      "es g = overwrite i ?L (es f)" "fpos_of io g = 32 * int (i + length ?L)" by blast
  have n: "name_chain lo d = ?L @ [d]" by (simp add: name_chain_def)
  have lt: "i + length ?L < length (es f)" using f(1) unfolding n by simp
  then have "i + length ?L < length (es g)" by (simp add: g(2) length_overwrite)
  then obtain e h where h: "p_fwrite io d g = (e, h)" "0 \<le> e" "es h = (es g)[i + length ?L := d]"
      "fpos_of io h = 32 * (int (i + length ?L) + 1)"
    using dir_write [OF io _ g(3) d] by blast
  have m: "fpos_of io f mod 32 = 0" using f(2) by simp
  show ?thesis
    unfolding vf_crnam_def n using m g h overwrite_snoc [OF lt, of d] by (simp only: g) simp
qed

subsection \<open>The abstract directory\<close>

datatype vf_item = Gone "byte list" | Entry "byte list option" "byte list"

fun item_entries :: "vf_item \<Rightarrow> byte list list" where
  "item_entries (Gone d) = [d]"
| "item_entries (Entry lo d) = name_chain lo d"

fun item_ok :: "vf_item \<Rightarrow> bool" where
  "item_ok (Gone d) \<longleftrightarrow> length d = 32 \<and> d ! 0 = 0xe5"
| "item_ok (Entry lo d) \<longleftrightarrow> length d = 32 \<and> d ! 0 \<noteq> 0 \<and> d ! 0 \<noteq> 0xe5 \<and> dir_attr d \<noteq> 0x0f
     \<and> (case lo of None \<Rightarrow> True | Some l \<Rightarrow> long_ok l)"

definition entries_of :: "vf_item list \<Rightarrow> byte list list" where
  "entries_of xs = concat (map item_entries xs)"

text \<open>What is behind the last item: nothing, or the end mark.\<close>

definition end_of_dir :: "byte list list \<Rightarrow> bool" where
  "end_of_dir rest \<longleftrightarrow> rest = [] \<or> hd rest ! 0 = 0"

definition sum_free :: "byte \<Rightarrow> vf_item list \<Rightarrow> bool" where
  "sum_free chk xs \<longleftrightarrow> list_all (\<lambda>y. case y of Entry None b \<Rightarrow> vf_chksum (dir_name b) \<noteq> chk | _ \<Rightarrow> True) xs"

text \<open>
  A file with a long name that the search mode skips leaves its name behind; \<open>quiet\<close> excludes
  that a later file without long name and with the same check sum takes it over.
\<close>

fun quiet :: "find_mode \<Rightarrow> vf_item list \<Rightarrow> bool" where
  "quiet fmode [] \<longleftrightarrow> True"
| "quiet fmode (x # xs) \<longleftrightarrow> quiet fmode xs \<and>
     (case x of Entry (Some l) a \<Rightarrow> wanted fmode a \<or> sum_free (vf_chksum (dir_name a)) xs | _ \<Rightarrow> True)"

text \<open>The next file of a mode: its names, its index, and the items behind it.\<close>

fun next_file :: "find_mode \<Rightarrow> nat \<Rightarrow> vf_item list \<Rightarrow> (byte list option \<times> byte list \<times> nat \<times> vf_item list) option" where
  "next_file fmode i [] = None"
| "next_file fmode i (x # xs) =
     (case x of
        Gone d \<Rightarrow> next_file fmode (i + 1) xs
      | Entry lo d \<Rightarrow> if wanted fmode d then Some (lo, d, i, xs) else next_file fmode (i + length (item_entries x)) xs)"

lemma next_file_split:
  "next_file fmode i xs = Some (lo, d, k, ys) \<Longrightarrow>
     \<exists>zs. xs = zs @ Entry lo d # ys \<and> k = i + length (entries_of zs) \<and> wanted fmode d \<and> next_file fmode i zs = None"
proof (induction xs arbitrary: i)
  case (Cons x xs)
  show ?case
  proof (cases "\<exists>l a. x = Entry l a \<and> wanted fmode a")
    case True
    then show ?thesis using Cons.prems by (intro exI [of _ "[]"]) (auto simp: entries_of_def)
  next
    case False
    then have "next_file fmode (i + length (item_entries x)) xs = Some (lo, d, k, ys)"
      using Cons.prems by (auto split: vf_item.splits)
    from Cons.IH [OF this] obtain zs where z: "xs = zs @ Entry lo d # ys" "k = i + length (item_entries x) + length (entries_of zs)"
      "wanted fmode d" "next_file fmode (i + length (item_entries x)) zs = None" by blast
    then have "next_file fmode i (x # zs) = None" using False by (cases x) auto
    then show ?thesis using z by (intro exI [of _ "x # zs"]) (simp add: entries_of_def)
  qed
qed simp

text \<open>The state of the reader with respect to the items that follow.\<close>

definition rd_clean :: "rd_state \<Rightarrow> vf_item list \<Rightarrow> bool" where
  "rd_clean r xs \<longleftrightarrow> (longcount r < 0 \<longrightarrow> startpos r = -1) \<and>
     (0 \<le> longcount r \<longrightarrow> sum_free (act_chksum r) xs)"

definition rd_result :: "byte list option \<Rightarrow> byte list \<Rightarrow> nat \<Rightarrow> rd_state \<Rightarrow> bool" where
  "rd_result lo d i r \<longleftrightarrow> (case lo of
      None \<Rightarrow> longcount r < 0 \<and> startpos r = -1
    | Some l \<Rightarrow> r = rd_at l (vf_chksum (dir_name d)) (s32 (32 * int i)) 0)"

lemma rd_dir_none: "rd_clean r (Entry None d # xs) \<Longrightarrow> rd_result None d i (rd_dir d r) \<and> rd_clean (rd_dir d r) xs"
  by (auto simp: rd_clean_def rd_dir_def rd_none_def rd_result_def sum_free_def)

lemma rd_scan_items:
  assumes "end_of_dir rest"
  shows "list_all item_ok xs \<Longrightarrow> quiet fmode xs \<Longrightarrow> rd_clean r xs \<Longrightarrow>
    \<exists>x r' j. rd_scan fmode r i (entries_of xs @ rest) = Some (x, r', j) \<and>
      (case next_file fmode i xs of
         None \<Rightarrow> x = Inl 0
       | Some (lo, d, k, ys) \<Rightarrow> x = Inr d \<and> rd_result lo d k r' \<and> j = k + length (name_chain lo d))"
proof (induction xs arbitrary: r i)
  case Nil
  then show ?case using assms by (cases rest) (auto simp: entries_of_def end_of_dir_def E_OK_def)
next
  case (Cons x xs)
  have es: "entries_of (x # xs) @ rest = item_entries x @ entries_of xs @ rest" by (simp add: entries_of_def)
  have IH: "rd_clean q xs \<Longrightarrow> \<exists>x r' j. rd_scan fmode q i (entries_of xs @ rest) = Some (x, r', j) \<and>
      (case next_file fmode i xs of
         None \<Rightarrow> x = Inl 0
       | Some (lo, d, k, ys) \<Rightarrow> x = Inr d \<and> rd_result lo d k r' \<and> j = k + length (name_chain lo d))" for q i
    using Cons.IH [of q i] Cons.prems by simp
  show ?case
  proof (cases x)
    case (Gone d)
    have "rd_clean r xs" using Cons.prems(3) by (simp add: rd_clean_def sum_free_def)
    then show ?thesis unfolding es using IH [of r "Suc i"] Cons.prems(1) by (simp add: Gone)
  next
    case (Entry lo d)
    have d: "d ! 0 \<noteq> 0" "d ! 0 \<noteq> 0xe5" "dir_attr d \<noteq> 0x0f" using Cons.prems(1) by (auto simp: Entry)
    show ?thesis
    proof (cases lo)
      case None
      have c: "rd_result None d i (rd_dir d r)" "rd_clean (rd_dir d r) xs"
        using rd_dir_none Cons.prems(3) Entry None by blast+
      show ?thesis unfolding es using d c IH [of "rd_dir d r" "Suc i"] by (simp add: Entry None name_chain_def)
    next
      case (Some l)
      let ?chk = "vf_chksum (dir_name d)" and ?r = "rd_at l (vf_chksum (dir_name d)) (s32 (32 * int i)) 0"
      have l: "long_ok l" using Cons.prems(1) by (simp add: Entry Some)
      have rd: "rd_dir d ?r = ?r" by (simp add: rd_dir_def rd_at_def)
      have sc: "rd_scan fmode r i (entries_of (x # xs) @ rest) =
          (if wanted fmode d then Some (Inr d, ?r, Suc (i + pieces l)) else rd_scan fmode ?r (Suc (i + pieces l)) (entries_of xs @ rest))"
        unfolding es using d rd_scan_chain [OF l, of fmode r i ?chk "d # entries_of xs @ rest"]
        by (simp add: Entry Some name_chain_def rd)
      show ?thesis
      proof (cases "wanted fmode d")
        case True
        then show ?thesis unfolding sc by (simp add: Entry Some rd_result_def)
      next
        case False
        then have "rd_clean ?r xs" using Cons.prems(2) by (simp add: Entry Some rd_clean_def rd_at_def)
        then show ?thesis unfolding sc using IH [of ?r "Suc (i + pieces l)"] False by (simp add: Entry Some)
      qed
    qed
  qed
qed

subsection \<open>One call of \<open>_vf_readdir\<close>\<close>

lemma rd_clean_init: "rd_clean rd_init xs"
  by (simp add: rd_clean_def rd_init_def)

text \<open>The results for a file: the contents of the buffers.\<close>

definition file_out :: "int option \<Rightarrow> bool \<Rightarrow> byte list option \<Rightarrow> byte list \<Rightarrow> int + byte list \<times> byte list option \<times> byte list option" where
  "file_out lbuf short lo d =
     (let sname = ext_8_3 (dir_name d); sout = (if short then Some sname else None) in
      case lbuf of
        None \<Rightarrow> Inr (d, None, sout)
      | Some n \<Rightarrow>
          (case lo of
             Some l \<Rightarrow> if int (length l) + 1 > n then Inl ERANGE else Inr (d, Some (map rr l), sout)
           | None \<Rightarrow> if short then Inr (d, Some [], sout) else if 13 > n then Inl ERANGE else Inr (d, Some sname, None)))"

lemma readdir1_items:
  assumes io: "dir_io io es" and xs: "list_all item_ok xs" "quiet fmode xs" "end_of_dir rest"
    and f: "es f = pre @ entries_of xs @ rest" "fpos_of io f = 32 * int (length pre)"
    and small: "32 * int (length (es f)) < 2 ^ 31"
  shows "\<exists>p f'. es f' = es f \<and>
     (case next_file fmode (length pre) xs of
        None \<Rightarrow> vf_readdir1 io lbuf short fmode f = Some (Inl 0, p, f')
      | Some (lo, d, k, ys) \<Rightarrow> vf_readdir1 io lbuf short fmode f = Some (file_out lbuf short lo d, p, f')
          \<and> p = (if lo = None then -1 else 32 * int k) \<and> fpos_of io f' = 32 * int (k + length (name_chain lo d))
          \<and> k + length (name_chain lo d) \<le> length (es f))"
proof -
  have i: "length pre \<le> length (es f)" using f(1) by simp
  obtain x r' j where s: "rd_scan fmode rd_init (length pre) (entries_of xs @ rest) = Some (x, r', j)"
    and c: "case next_file fmode (length pre) xs of None \<Rightarrow> x = Inl 0
       | Some (lo, d, k, ys) \<Rightarrow> x = Inr d \<and> rd_result lo d k r' \<and> j = k + length (name_chain lo d)"
    using rd_scan_items [OF xs(3,1,2) rd_clean_init, of "length pre"] by blast
  have "drop (length pre) (es f) = entries_of xs @ rest" using f(1) by simp
  then obtain g where g: "rd_loop io fmode rd_init f = Some (x, r', g)" "es g = es f" "fpos_of io g = 32 * int j"
    using rd_loop_scan [OF io i f(2), of fmode rd_init x r' j] s by auto
  show ?thesis
  proof (cases "next_file fmode (length pre) xs")
    case None
    then show ?thesis using c g by (intro exI [of _ "startpos r'"] exI [of _ g]) (simp add: vf_readdir1_def)
  next
    case (Some q)
    obtain lo d k ys where q: "q = (lo, d, k, ys)" by (cases q) auto
    obtain zs where z: "xs = zs @ Entry lo d # ys" "k = length pre + length (entries_of zs)"
      using next_file_split [of fmode "length pre" xs lo d k ys] Some q by auto
    have k: "k + length (name_chain lo d) \<le> length (es f)" by (simp add: f(1) z entries_of_def)
    have s: "s16 (int (length l) + 1) = int (length l) + 1" if "lo = Some l" for l
      using xs(1) that by (simp add: z long_ok_def MAXFOLDERNAME_def)
    have r: "x = Inr d" "rd_result lo d k r'" "j = k + length (name_chain lo d)" using c Some q by auto
    show ?thesis using Some q g r k small s
      by (intro exI [of _ "startpos r'"] exI [of _ g])
         (auto simp: vf_readdir1_def file_out_def rd_result_def rd_at_def Let_def split: option.splits)
  qed
qed

subsection \<open>Searching\<close>

text \<open>
  Two functions call \<open>_vf_readdir\<close> until an entry pleases them, \<open>vf_dirsrch\<close> and \<open>vf_path2DD\<close>.  The locale
  is that loop; \<open>stop\<close> is the test on the long name and the short name.
\<close>

fun first_stop :: "(byte list \<Rightarrow> byte list \<Rightarrow> bool) \<Rightarrow> find_mode \<Rightarrow> nat \<Rightarrow> vf_item list \<Rightarrow> (byte list option \<times> byte list \<times> nat) option" where
  "first_stop stop fmode i [] = None"
| "first_stop stop fmode i (x # xs) =
     (case x of
        Gone d \<Rightarrow> first_stop stop fmode (i + 1) xs
      | Entry lo d \<Rightarrow>
          if wanted fmode d \<and> stop (case lo of None \<Rightarrow> [] | Some l \<Rightarrow> map rr l) (ext_8_3 (dir_name d)) then Some (lo, d, i)
          else first_stop stop fmode (i + length (name_chain lo d)) xs)"

lemma first_stop_next:
  "first_stop stop fmode i xs =
     (case next_file fmode i xs of
        None \<Rightarrow> None
      | Some (lo, d, k, ys) \<Rightarrow>
          if stop (case lo of None \<Rightarrow> [] | Some l \<Rightarrow> map rr l) (ext_8_3 (dir_name d)) then Some (lo, d, k)
          else first_stop stop fmode (k + length (name_chain lo d)) ys)"
  by (induction xs arbitrary: i) (auto split: vf_item.splits)

lemma quiet_append: "quiet fmode (xs @ ys) \<Longrightarrow> quiet fmode ys"
  by (induction xs) auto

locale readdir_loop =
  fixes io :: "'f dosio" and loop :: "'f \<Rightarrow> 'r option" and lbuflen :: int and fmode :: find_mode
    and stop :: "byte list \<Rightarrow> byte list \<Rightarrow> bool" and miss :: "int \<Rightarrow> 'f \<Rightarrow> 'r"
    and found :: "byte list \<Rightarrow> byte list \<Rightarrow> int \<Rightarrow> 'f \<Rightarrow> 'r"
  assumes loop_step: "loop f = do {
      (res, lpos, f) \<leftarrow> vf_readdir1 io (Some lbuflen) True fmode f;
      case res of
        Inl e \<Rightarrow> Some (miss e f)
      | Inr (d, l, n) \<Rightarrow> if stop (the l) (the n) then Some (found d (the l) lpos f) else loop f }"
    and lbuflen: "65 \<le> lbuflen"
begin

lemma loop_items:
  assumes io: "dir_io io es"
  shows "list_all item_ok xs \<Longrightarrow> quiet fmode xs \<Longrightarrow> end_of_dir rest \<Longrightarrow>
     es f = pre @ entries_of xs @ rest \<Longrightarrow> fpos_of io f = 32 * int (length pre) \<Longrightarrow> 32 * int (length (es f)) < 2 ^ 31 \<Longrightarrow>
     \<exists>f'. es f' = es f \<and>
       (case first_stop stop fmode (length pre) xs of
          None \<Rightarrow> loop f = Some (miss 0 f')
        | Some (lo, d, k) \<Rightarrow>
            loop f = Some (found d (case lo of None \<Rightarrow> [] | Some l \<Rightarrow> map rr l) (if lo = None then -1 else 32 * int k) f')
            \<and> s32 (fpos_of io f' - 32) = 32 * int (k + length (name_chain lo d) - 1))"
proof (induction xs arbitrary: f pre rule: length_induct)
  case (1 xs)
  note rd = readdir1_items [OF io "1.prems"(1-6), of "Some lbuflen" True]
  show ?case
  proof (cases "next_file fmode (length pre) xs")
    case None
    then obtain p g where g: "es g = es f" "vf_readdir1 io (Some lbuflen) True fmode f = Some (Inl 0, p, g)" using rd by auto
    have "loop f = Some (miss 0 g)" by (subst loop_step) (simp add: g)
    then show ?thesis using g(1) None by (subst first_stop_next) auto
  next
    case (Some q)
    obtain lo d k ys where q: "q = (lo, d, k, ys)" by (cases q) auto
    let ?j = "k + length (name_chain lo d)" and ?L = "case lo of None \<Rightarrow> [] | Some l \<Rightarrow> map rr l"
    from rd Some q obtain p g where g: "es g = es f" "vf_readdir1 io (Some lbuflen) True fmode f = Some (file_out (Some lbuflen) True lo d, p, g)"
      "p = (if lo = None then -1 else 32 * int k)" "fpos_of io g = 32 * int ?j" "?j \<le> length (es f)" by auto
    obtain zs where z: "xs = zs @ Entry lo d # ys" "k = length pre + length (entries_of zs)"
      using next_file_split [of fmode "length pre" xs lo d k ys] Some q by auto
    have fo: "file_out (Some lbuflen) True lo d = Inr (d, Some ?L, Some (ext_8_3 (dir_name d)))"
      using "1.prems"(1) lbuflen by (cases lo) (auto simp: file_out_def z long_ok_def MAXFOLDERNAME_def)
    have st: "loop f = (if stop ?L (ext_8_3 (dir_name d)) then Some (found d ?L p g) else loop g)"
      by (subst loop_step) (simp add: g(2) fo)
    show ?thesis
    proof (cases "stop ?L (ext_8_3 (dir_name d))")
      case True
      have "s32 (fpos_of io g - 32) = 32 * int (?j - 1)" using g(4,5) "1.prems"(6) by (cases lo) auto
      then show ?thesis using True st g(1,3) Some q by (subst first_stop_next) auto
    next
      case False
      have es': "es g = (pre @ entries_of zs @ name_chain lo d) @ entries_of ys @ rest"
        using g(1) "1.prems"(4) by (simp add: z entries_of_def)
      let ?pre = "pre @ entries_of zs @ name_chain lo d"
      have fs: "first_stop stop fmode (length pre) xs = first_stop stop fmode (length ?pre) ys"
        using False Some q z(2) by (subst first_stop_next) (simp add: add.assoc)
      have lg: "loop f = loop g" using st False by simp
      have ys: "list_all item_ok ys" "quiet fmode ys" "length ys < length xs"
        using "1.prems"(1,2) z(1) quiet_append [of fmode "zs @ [Entry lo d]" ys] by simp_all
      have fp: "fpos_of io g = 32 * int (length ?pre)" using g(4) z(2) by (simp add: add.assoc)
      have sm: "32 * int (length (es g)) < 2 ^ 31" using "1.prems"(6) g(1) by simp
      show ?thesis unfolding fs lg g(1) [symmetric]
        by (rule "1.IH" [rule_format, OF ys(3,1,2) "1.prems"(3) es' fp sm])
    qed
  qed
qed

end

definition dirsrch_stop :: "byte list \<Rightarrow> find_mode \<Rightarrow> byte list \<Rightarrow> byte list \<Rightarrow> bool" where
  "dirsrch_stop fname fmode l n \<longleftrightarrow>
     vf_stricmp l fname = 0 \<or> vf_stricmp n fname = 0 \<or> fmode = FINDLABL \<or> vf_star fname n"

interpretation dirsrch: readdir_loop io "dirsrch_loop io fname fmode" 300 fmode "dirsrch_stop fname fmode"
    "\<lambda>e f. (Inl (if e = 0 then EFILNF else e), f)" "\<lambda>d l lpos f. (Inr (d, s32 (fpos_of io f - 32), lpos), f)"
  for io :: "'f dosio" and fname fmode
  by (unfold_locales, unfold dirsrch_stop_def, rule dirsrch_loop.simps, simp)

definition path2DD_stop :: "byte list \<Rightarrow> byte list \<Rightarrow> byte list \<Rightarrow> bool" where
  "path2DD_stop pathelem l n \<longleftrightarrow> vf_stricmp l pathelem = 0 \<or> vf_stricmp n pathelem = 0"

interpretation path2DD: readdir_loop io "vf_path2DD_loop io dd pathelem" 65 FINDXDIR "path2DD_stop pathelem"
    "\<lambda>e f. ((Inl e, None), f)"
    "\<lambda>d l lpos f. case get_DD dd d (s32 (fpos_of io f - 32)) (if l \<noteq> [] then Some l else None) f of ((r, k), f) \<Rightarrow> ((r, Some k), f)"
  for io :: "'f dosio" and dd :: "('f, 'd, 'l) ddio" and pathelem
proof (unfold_locales, unfold path2DD_stop_def)
  fix f
  show "vf_path2DD_loop io dd pathelem f = do {
      (res, lpos, f) \<leftarrow> vf_readdir1 io (Some 65) True FINDXDIR f;
      case res of
        Inl e \<Rightarrow> Some ((Inl e, None), f)
      | Inr (d, l, n) \<Rightarrow>
          if vf_stricmp (the l) pathelem = 0 \<or> vf_stricmp (the n) pathelem = 0
          then Some (case get_DD dd d (s32 (fpos_of io f - 32)) (if the l \<noteq> [] then Some (the l) else None) f of ((r, k), f) \<Rightarrow> ((r, Some k), f))
          else vf_path2DD_loop io dd pathelem f }"
    by (subst vf_path2DD_loop.simps)
       (cases "vf_readdir1 io (Some 65) True FINDXDIR f", simp_all add: MAXFOLDERNAME_def split: prod.splits sum.splits)
qed simp

text \<open>The first file of the mode with the name: its entry, the position of the entry and of the long name.\<close>

definition hit :: "byte list \<Rightarrow> find_mode \<Rightarrow> byte list option \<Rightarrow> byte list \<Rightarrow> bool" where
  "hit fname fmode lo d \<longleftrightarrow>
     (case lo of None \<Rightarrow> False | Some l \<Rightarrow> vf_stricmp (map rr l) fname = 0)
     \<or> vf_stricmp (ext_8_3 (dir_name d)) fname = 0 \<or> fmode = FINDLABL \<or> vf_star fname (ext_8_3 (dir_name d))"

fun vf_lookup :: "byte list \<Rightarrow> find_mode \<Rightarrow> nat \<Rightarrow> vf_item list \<Rightarrow> (byte list \<times> int \<times> int) option" where
  "vf_lookup fname fmode i [] = None"
| "vf_lookup fname fmode i (x # xs) =
     (case x of
        Gone d \<Rightarrow> vf_lookup fname fmode (i + 1) xs
      | Entry lo d \<Rightarrow>
          if wanted fmode d \<and> hit fname fmode lo d
          then Some (d, 32 * int (i + length (name_chain lo d) - 1), if lo = None then -1 else 32 * int i)
          else vf_lookup fname fmode (i + length (name_chain lo d)) xs)"

lemma toupper_nonzero: "c \<noteq> 0 \<Longrightarrow> vf_toupper c \<noteq> 0"
proof -
  assume c: "c \<noteq> 0"
  have "c AND NOT 32 \<noteq> 0" if "97 \<le> c"
  proof
    assume z: "c AND NOT 32 = 0"
    have "c = (c AND NOT 32) OR (c AND 32)" by (rule bit_word_eqI) (auto simp: bit_simps)
    then have "c \<le> 32" using z by (metis or.left_neutral word_and_le1)
    then show False using that by (simp add: word_le_nat_alt)
  qed
  moreover have "map_of sonder_s c = Some u \<Longrightarrow> u \<noteq> 0" for u
    by (auto simp: sonder_s_def split: if_splits)
  ultimately show ?thesis using c by (auto simp: vf_toupper_def not_less split: option.splits)
qed

lemma stricmp_Nil: "fname \<noteq> [] \<Longrightarrow> 0 \<notin> set fname \<Longrightarrow> vf_stricmp [] fname \<noteq> 0"
  using toupper_nonzero [of "hd fname"] by (cases fname) (auto simp: signed_eq_0_iff)

lemma lookup_first_stop:
  assumes "fname \<noteq> []" "0 \<notin> set fname"
  shows "vf_lookup fname fmode i xs =
    map_option (\<lambda>(lo, d, k). (d, 32 * int (k + length (name_chain lo d) - 1), if lo = None then -1 else 32 * int k))
      (first_stop (dirsrch_stop fname fmode) fmode i xs)"
proof (induction xs arbitrary: i)
  case (Cons x xs)
  have "dirsrch_stop fname fmode (case lo of None \<Rightarrow> [] | Some l \<Rightarrow> map rr l) (ext_8_3 (dir_name d)) = hit fname fmode lo d" for lo d
    using stricmp_Nil [OF assms] by (cases lo) (auto simp: hit_def dirsrch_stop_def)
  then show ?case using Cons by (simp split: vf_item.splits)
qed simp

lemma dirsrch_items:
  assumes "dir_io io es" "fname \<noteq> []" "0 \<notin> set fname" "list_all item_ok xs" "quiet fmode xs" "end_of_dir rest"
    and "es f = pre @ entries_of xs @ rest" "fpos_of io f = 32 * int (length pre)" "32 * int (length (es f)) < 2 ^ 31"
  shows "\<exists>f'. dirsrch_loop io fname fmode f =
            Some (case vf_lookup fname fmode (length pre) xs of None \<Rightarrow> Inl EFILNF | Some y \<Rightarrow> Inr y, f') \<and> es f' = es f"
  using dirsrch.loop_items [OF assms(1,4-9), where fname = fname] lookup_first_stop [OF assms(2,3), of fmode "length pre" xs]
  by (cases "first_stop (dirsrch_stop fname fmode) fmode (length pre) xs") auto

end
