(* ===== verification/Vf_Alias.thy ===== *)
theory Vf_Alias
  imports Vf_Lookup
begin

text \<open>
  The short name \<open>vf_ffree\<close> makes.  \<open>taken\<close> is the number that an existing short name occupies; the name
  built with a free number differs from all existing ones, since the scan would have recorded its
  number.
\<close>

subsection \<open>The number a short name occupies\<close>

fun scan_takes :: "byte list \<Rightarrow> byte list \<Rightarrow> int option" where
  "scan_takes (s # ss) (t # ts) =
     (let weiter2 = (if s \<noteq> t then None else scan_takes ss ts) in
      if t = 126 then
        (case alias_number ts 0 of None \<Rightarrow> weiter2 | Some n \<Rightarrow> if 1600 \<le> n then weiter2 else Some n)
      else weiter2)"
| "scan_takes _ _ = Some 0"

definition taken :: "byte list \<Rightarrow> byte list \<Rightarrow> int option" where
  "taken new d =
     (if take 3 (drop 8 new) \<noteq> take 3 (drop 8 d) \<or> new ! 0 \<noteq> d ! 0 then None
      else scan_takes (take 7 (drop 1 new)) (take 7 (drop 1 d)))"

lemma alias_scan_takes:
  "alias_scan ss ts used = (case scan_takes ss ts of None \<Rightarrow> Some used | Some n \<Rightarrow> mark_used n used)"
  by (induction ss ts used rule: alias_scan.induct) (auto simp: Let_def split: option.splits)

lemma alias_check_taken: "alias_check new d used = (case taken new d of None \<Rightarrow> Some used | Some n \<Rightarrow> mark_used n used)"
  by (simp add: alias_check_def taken_def alias_scan_takes)

lemma scan_takes_small: "scan_takes ss ts = Some n \<Longrightarrow> n < 1600"
  by (induction ss ts rule: scan_takes.induct) (auto simp: Let_def split: if_splits option.splits)

lemma taken_small: "taken new d = Some n \<Longrightarrow> n < 1600"
  using scan_takes_small by (auto simp: taken_def split: if_splits)

text \<open>A number is marked in the flags.\<close>

definition marked :: "byte list \<Rightarrow> int \<Rightarrow> bool" where
  "marked used n \<longleftrightarrow> bit (used ! nat (n div 8)) (nat (n mod 8))"

lemma mark_used_ok:
  assumes "length used = 200" "0 \<le> n" "n < 1600"
  shows "\<exists>u. mark_used n used = Some u \<and> length u = 200 \<and> marked u n \<and> (\<forall>k. marked used k \<longrightarrow> marked u k)"
proof -
  have i: "0 \<le> n div 8" "n div 8 < int (length used)" using assms by auto
  let ?u = "used[nat (n div 8) := used ! nat (n div 8) OR push_bit (nat (n mod 8)) 1]"
  have "mark_used n used = Some ?u" using i by (simp add: mark_used_def Let_def)
  moreover have "marked ?u n" using i by (simp add: marked_def bit_or_iff bit_exp_iff nat_less_iff possible_bit_word)
  moreover have "marked ?u k" if "marked used k" for k
    using that i by (cases "nat (k div 8) = nat (n div 8)") (auto simp: marked_def bit_or_iff)
  ultimately show ?thesis using assms(1) by (intro exI [of _ ?u]) auto
qed

lemma free_number_unmarked:
  assumes "free_number used = Some n"
  shows "n < 1600" "\<not> marked used (int n)"
proof -
  have "n < 1600 \<and> \<not> bit (used ! (n div 8)) (n mod 8)" using assms by (auto simp: free_number_def find_Some_iff)
  then show "n < 1600" "\<not> marked used (int n)"
    by (auto simp: marked_def zdiv_int [symmetric] zmod_int [symmetric] nat_int nat_div_distrib nat_mod_distrib)
qed

subsection \<open>The name with a number\<close>

fun digs :: "nat \<Rightarrow> byte list" where
  "digs n = (if n = 0 then [] else digs (n div 10) @ [of_nat (n mod 10) + 48])"

declare digs.simps [simp del]

lemma digs_len: "n < 10 \<Longrightarrow> 0 < n \<Longrightarrow> length (digs n) = 1" "9 < n \<Longrightarrow> length (digs n) = Suc (length (digs (n div 10)))"
  by (simp_all add: digs.simps [of n] digs.simps [of 0])

lemma alias_len_digs: "0 < n \<Longrightarrow> n < 1600 \<Longrightarrow> alias_len n = Suc (length (digs n))"
proof -
  assume n: "0 < n" "n < 1600"
  have l: "length (digs n) = (if n > 9 then if n > 99 then if n > 999 then 4 else 3 else 2 else 1)"
  proof -
    consider "n < 10" | "9 < n" "n < 100" | "99 < n" "n < 1000" | "999 < n" by linarith
    then show ?thesis
      by cases (use n digs_len [of n] digs_len [of "n div 10"] digs_len [of "n div 10 div 10"] digs_len [of "n div 10 div 10 div 10"] in auto)
  qed
  show ?thesis by (simp add: l alias_len_def)
qed

lemma put_digits_eq:
  "length (digs n) \<le> s \<Longrightarrow> s < length x \<Longrightarrow>
     put_digits n s x = (s - length (digs n), overwrite (Suc s - length (digs n)) (digs n) x)"
proof (induction n s x rule: put_digits.induct)
  case (1 n s x)
  show ?case
  proof (cases "n = 0")
    case True
    then show ?thesis by (simp add: put_digits.simps [of 0] digs.simps [of 0])
  next
    case False
    let ?c = "of_nat (n mod 10) + 48 :: byte" and ?m = "digs (n div 10)"
    have dg: "digs n = ?m @ [?c]" using False by (simp add: digs.simps [of n])
    have "put_digits n s x = put_digits (n div 10) (s - 1) (x[s := ?c])" using False by (simp add: put_digits.simps [of n])
    also have "\<dots> = (s - 1 - length ?m, overwrite (Suc (s - 1) - length ?m) ?m (x[s := ?c]))"
      using 1 False dg by (intro "1.IH") auto
    also have "overwrite (Suc (s - 1) - length ?m) ?m (x[s := ?c]) = overwrite (Suc s - length (digs n)) (digs n) x"
      using 1(2,3) by (simp add: dg overwrite_def drop_update_swap take_update_swap upd_conv_take_nth_drop)
    finally show ?thesis by (simp add: dg)
  qed
qed

lemma skip_blanks_eq:
  "skip_blanks x s = Some p \<Longrightarrow> p \<le> s \<and> x ! p \<noteq> 32 \<and> (\<forall>k. p < k \<longrightarrow> k \<le> s \<longrightarrow> x ! k = 32)"
proof (induction s)
  case (Suc s)
  then show ?case by (auto split: if_splits simp: le_Suc_eq)
qed (auto split: if_splits)

lemma skip_blanks_total: "x ! 0 \<noteq> 32 \<Longrightarrow> \<exists>p. skip_blanks x s = Some p"
  by (induction s) auto

text \<open>
  A short name: 11 characters, the first 8 a name without blanks, filled up with blanks.
\<close>

definition base_ok :: "byte list \<Rightarrow> bool" where
  "base_ok x \<longleftrightarrow> 11 \<le> length x \<and> (\<exists>m. 0 < m \<and> m \<le> 8 \<and> (\<forall>k < 8. x ! k = 32 \<longleftrightarrow> m \<le> k))"

lemma put_alias_eq:
  assumes x: "base_ok x" and n: "0 < n" "n < 1600"
  shows "\<exists>p. 0 < p \<and> p + Suc (length (digs n)) \<le> 8 \<and> 32 \<notin> set (take p x)
     \<and> put_alias n x = Some (take p x @ 126 # digs n @ drop (p + Suc (length (digs n))) x)
     \<and> (\<forall>k < 8. p + Suc (length (digs n)) \<le> k \<longrightarrow> x ! k = 32)"
proof -
  obtain m where m: "0 < m" "m \<le> 8" "\<forall>k < 8. x ! k = 32 \<longleftrightarrow> m \<le> k" and len: "11 \<le> length x" using x unfolding base_ok_def by blast
  let ?L = "Suc (length (digs n))"
  have al: "alias_len n = ?L" using alias_len_digs n by simp
  have L: "?L \<le> 5" unfolding al [symmetric] by (simp add: alias_len_def)
  have "x ! 0 \<noteq> 32" using m by auto
  then obtain s where s: "skip_blanks x (7 - ?L) = Some s" using skip_blanks_total by blast
  note sb = skip_blanks_eq [OF s]
  have sL: "s + ?L \<le> 7" using sb L by linarith
  have sm: "s < m"
  proof (rule ccontr)
    assume "\<not> s < m"
    then have "x ! s = 32" using m(3) sL by auto
    then show False using sb by simp
  qed
  have end': "x ! k = 32" if k: "k < 8" "Suc s + ?L \<le> k" for k
  proof (cases "s = 7 - ?L")
    case False
    then have "x ! Suc s = 32" using sb by auto
    then have "m \<le> Suc s" using m(3) sL by auto
    then show ?thesis using m(3) k by auto
  qed (use k L in auto)
  have pd: "put_digits n (s + ?L) x = (Suc s, overwrite (Suc (Suc s)) (digs n) x)"
    using put_digits_eq [of n "s + ?L" x] sL len by simp
  have "(overwrite (Suc (Suc s)) (digs n) x)[Suc s := 126] = take (Suc s) x @ 126 # digs n @ drop (Suc s + ?L) x"
    using sL len by (simp add: overwrite_def list_update_append take_Suc_conv_app_nth [of "Suc s"] add.commute)
  then have "put_alias n x = Some (take (Suc s) x @ 126 # digs n @ drop (Suc s + ?L) x)"
    using n s pd by (simp add: put_alias_def al)
  moreover have "32 \<notin> set (take (Suc s) x)"
    using m(3) sm sL by (auto simp: in_set_conv_nth)
  ultimately show ?thesis using sL end' by (intro exI [of _ "Suc s"]) simp
qed

subsection \<open>The scan sees the name\<close>

lemma alias_number_tilde: "32 \<notin> set cs \<Longrightarrow> alias_number (cs @ 126 # ys) k = None"
  by (induction cs arbitrary: k) (auto simp: word_le_nat_alt)

lemma alias_number_digs: "n < 2 ^ 15 \<Longrightarrow> alias_number (digs n @ ys) 0 = alias_number ys (int n)"
proof (induction n arbitrary: ys rule: digs.induct)
  case (1 n)
  show ?case
  proof (cases "n = 0")
    case False
    let ?c = "of_nat (n mod 10) + 48 :: byte"
    have u: "unat ?c = n mod 10 + 48" by (simp add: unat_word_ariths unat_of_nat)
    then have c: "48 \<le> ?c" "?c \<le> 57" by (simp_all add: word_le_nat_alt)
    have c32: "?c \<noteq> 32" using arg_cong [of ?c 32 unat] u by fastforce
    have i: "uint ?c - 48 = int (n mod 10)" using u by (simp add: uint_nat)
    have "alias_number (digs n @ ys) 0 = alias_number (?c # ys) (int (n div 10))"
      using 1 False by (simp add: digs.simps [of n])
    also have "\<dots> = alias_number ys (int n)"
      using c c32 i 1(2) by (simp add: zdiv_int zmod_int)
    finally show ?thesis .
  qed (simp add: digs.simps [of 0])
qed

lemma scan_takes_alias:
  "32 \<notin> set cs \<Longrightarrow> n < 1600 \<Longrightarrow> (bl = [] \<or> hd bl = 32) \<Longrightarrow> ss \<noteq> [] \<Longrightarrow>
     scan_takes (cs @ ss) (cs @ 126 # digs n @ bl) = Some (int n)"
proof (induction cs)
  case Nil
  have "alias_number (digs n @ bl) 0 = Some (int n)" using alias_number_digs [of n bl] Nil by (cases bl) auto
  then show ?case using Nil by (cases ss) simp_all
next
  case (Cons c cs)
  then show ?case using alias_number_tilde [of cs "digs n @ bl" 0] by (simp add: Let_def)
qed

text \<open>The name with number \<open>n\<close> occupies \<open>n\<close>, and a name without a tilde occupies 0.\<close>

lemma taken_alias:
  assumes x: "base_ok x" and n: "0 < n" "n < 1600" and y: "put_alias n x = Some y" and d: "take 11 d = take 11 y"
  shows "taken x d = Some (int n)"
proof -
  obtain p where p: "0 < p" "p + Suc (length (digs n)) \<le> 8" "32 \<notin> set (take p x)"
    "y = take p x @ 126 # digs n @ drop (p + Suc (length (digs n))) x"
    "\<forall>k < 8. p + Suc (length (digs n)) \<le> k \<longrightarrow> x ! k = 32"
    using put_alias_eq [OF x n] y by auto
  let ?e = "p + Suc (length (digs n))"
  have len: "11 \<le> length x" using x by (simp add: base_ok_def)
  have dk: "drop k (take 11 d) = drop k (take 11 y)" for k using d by simp
  have "take 3 (drop 8 d) = take 3 (drop 8 y)" using dk [of 8] by (simp add: drop_take)
  also have "drop 8 y = drop 8 x"
    using p(2) len drop_append [of 8 "take p x @ 126 # digs n" "drop ?e x"] by (simp add: p(4))
  finally have ext: "take 3 (drop 8 d) = take 3 (drop 8 x)" .
  have "take 7 (drop 1 d) = take 7 (drop 1 y)" using arg_cong [OF dk [of 1], of "take 7"] by (simp add: drop_take)
  also have "\<dots> = take 7 (drop 1 (take p x) @ 126 # digs n @ drop ?e x)" using p(1) len by (simp add: p(4))
  also have "\<dots> = drop 1 (take p x) @ 126 # digs n @ take (8 - ?e) (drop ?e x)"
    using p(1,2) len take_append [of 7 "drop 1 (take p x) @ 126 # digs n" "drop ?e x"] by simp
  finally have t: "take 7 (drop 1 d) = drop 1 (take p x) @ 126 # digs n @ take (8 - ?e) (drop ?e x)" .
  have s: "take 7 (drop 1 x) = drop 1 (take p x) @ take (8 - p) (drop p x)"
    using take_add [of "p - 1" "8 - p" "drop 1 x"] p(1,2) by (simp add: drop_take)
  have "take p x ! 0 = x ! 0" "y ! 0 = x ! 0" using p(1,2) len by (simp_all add: p(4) nth_append)
  moreover have "d ! 0 = y ! 0" using arg_cong [OF d, of "\<lambda>z. z ! 0"] by simp
  ultimately have "x ! 0 = d ! 0" by simp
  moreover have "take (8 - ?e) (drop ?e x) = [] \<or> hd (take (8 - ?e) (drop ?e x)) = 32"
    using p(5) len by (cases "?e = 8") (auto simp: hd_conv_nth)
  moreover have "32 \<notin> set (drop 1 (take p x))" using p(3) by (metis in_set_dropD)
  moreover have "take (8 - p) (drop p x) \<noteq> []" using p(2) len by simp
  ultimately have "scan_takes (take 7 (drop 1 x)) (take 7 (drop 1 d)) = Some (int n)" "x ! 0 = d ! 0"
    unfolding t s by (auto intro!: scan_takes_alias n(2) simp del: drop_take take_eq_Nil drop_eq_Nil)
  then show ?thesis using ext by (simp add: taken_def)
qed

lemma scan_takes_same: "126 \<notin> set cs \<Longrightarrow> scan_takes cs cs = Some 0"
  by (induction cs) auto

lemma taken_self: "126 \<notin> set (take 8 x) \<Longrightarrow> take 11 d = take 11 x \<Longrightarrow> taken x d = Some 0"
proof -
  assume t: "126 \<notin> set (take 8 x)" and d: "take 11 d = take 11 x"
  have dk: "drop k (take 11 d) = drop k (take 11 x)" for k using d by simp
  have "take 3 (drop 8 d) = take 3 (drop 8 x)" using dk [of 8] by (simp add: drop_take)
  moreover have "take 7 (drop 1 d) = take 7 (drop 1 x)" using arg_cong [OF dk [of 1], of "take 7"] by (simp add: drop_take)
  moreover have "d ! 0 = x ! 0" using arg_cong [OF d, of "\<lambda>z. z ! 0"] by simp
  moreover have "126 \<notin> set (take 7 (drop 1 x))" using t by (auto simp: take_drop dest: in_set_dropD)
  ultimately show ?thesis by (simp add: taken_def scan_takes_same)
qed

end
