(* ===== verification/Vf_Free.thy ===== *)
theory Vf_Free
  imports Vf_Alias
begin

text \<open>
  What \<open>vf_ffree\<close> finds: a run of entries that are free, long enough for the name, and flags that
  record the numbers of all short names in use.
\<close>

subsection \<open>Free entries\<close>

definition free_slot :: "int \<Rightarrow> int \<Rightarrow> byte list list \<Rightarrow> nat \<Rightarrow> bool" where
  "free_slot sp sf E j \<longleftrightarrow> (\<exists>m \<le> j. E ! m ! 0 = 0) \<or> E ! j ! 0 = 0xe5 \<or> special_entry sp sf (32 * int j)"

text \<open>The short names that count: main entries before the end mark, without the one that is renamed.\<close>

definition counts :: "int \<Rightarrow> int \<Rightarrow> byte list list \<Rightarrow> nat \<Rightarrow> bool" where
  "counts sp sf E j \<longleftrightarrow> (\<forall>m \<le> j. E ! m ! 0 \<noteq> 0) \<and> E ! j ! 0 \<noteq> 0xe5 \<and> \<not> special_entry sp sf (32 * int j)
     \<and> dir_attr (E ! j) \<noteq> 0x0f \<and> 32 * int j \<noteq> sp"

definition no_end :: "byte list list \<Rightarrow> nat \<Rightarrow> bool" where
  "no_end E i \<longleftrightarrow> (\<forall>m < i. E ! m ! 0 \<noteq> 0)"

lemma no_end_Suc: "no_end E (Suc i) \<longleftrightarrow> no_end E i \<and> E ! i ! 0 \<noteq> 0"
  by (auto simp: no_end_def less_Suc_eq)

lemma no_end_append: "i \<le> length E \<Longrightarrow> no_end (E @ zs) i = no_end E i"
  by (simp add: no_end_def nth_append)

text \<open>A run of free entries, with no end mark before it.\<close>

definition room :: "int \<Rightarrow> int \<Rightarrow> byte list list \<Rightarrow> nat \<Rightarrow> nat \<Rightarrow> bool" where
  "room sp sf E g n \<longleftrightarrow> g + n \<le> length E \<and> no_end E g \<and> (\<forall>j. g \<le> j \<longrightarrow> j < g + n \<longrightarrow> free_slot sp sf E j)"

definition noted :: "int \<Rightarrow> int \<Rightarrow> byte list list \<Rightarrow> byte list \<Rightarrow> nat \<Rightarrow> byte list \<Rightarrow> bool" where
  "noted sp sf E new i used \<longleftrightarrow> length used = 200
     \<and> (\<forall>j < i. \<forall>n. counts sp sf E j \<longrightarrow> taken new (E ! j) = Some n \<longrightarrow> marked used n)"

text \<open>The state of the loop in front of entry \<open>i\<close>.\<close>

definition ff_inv :: "bool \<Rightarrow> nat \<Rightarrow> int \<Rightarrow> int \<Rightarrow> byte list list \<Rightarrow> byte list \<Rightarrow> nat \<Rightarrow> ff_state \<Rightarrow> bool" where
  "ff_inv long n sp sf E new i r \<longleftrightarrow>
     (if ff_found r then \<exists>g. gap_pos r = 32 * int g \<and> room sp sf E g n
      else gap_pos r = -1 \<or> (\<exists>g < i. gap_pos r = 32 * int g \<and> gap_len r = int (i - g) \<and> room sp sf E g (i - g)))
   \<and> (if long then noted sp sf E new i (ff_used r) else \<not> ff_found r \<and> gap_pos r = -1)
   \<and> no_end E i"

lemma free_slot_ext:
  assumes "j < length E"
  shows "free_slot sp sf (E @ zs) j = free_slot sp sf E j"
proof -
  have "(E @ zs) ! m = E ! m" if "m \<le> j" for m using assms that by (simp add: nth_append)
  then have "(\<exists>m \<le> j. (E @ zs) ! m ! 0 = 0) = (\<exists>m \<le> j. E ! m ! 0 = 0)" "(E @ zs) ! j = E ! j" by (metis, blast)
  then show ?thesis by (simp add: free_slot_def)
qed

lemma free_slot_zero:
  assumes "length E \<le> j" "j < length E + k"
  shows "free_slot sp sf (E @ replicate k zero_entry) j"
proof -
  have "(E @ replicate k zero_entry) ! j ! 0 = 0" using assms by (simp add: nth_append zero_entry_def)
  then show ?thesis unfolding free_slot_def by blast
qed

lemma room_ext:
  assumes "room sp sf E g m" "m \<le> n" "g + n \<le> length E + k" "n = m \<or> g + m = length E"
  shows "room sp sf (E @ replicate k zero_entry) g n"
proof -
  have "free_slot sp sf (E @ replicate k zero_entry) j" if "g \<le> j" "j < g + n" for j
    using assms that by (cases "j < length E") (auto simp: room_def free_slot_ext free_slot_zero)
  then show ?thesis using assms by (simp add: room_def no_end_append)
qed

lemma room_mono: "room sp sf E g n \<Longrightarrow> room sp sf (E @ zs) g n"
  by (auto simp: room_def free_slot_ext no_end_append)

lemma room_end:
  assumes "room sp sf E g m" "E ! (g + m) ! 0 = 0" "g + n \<le> length E"
  shows "room sp sf E g n"
proof -
  have "free_slot sp sf E j" if "g \<le> j" "j < g + n" for j
    using assms that by (cases "j < g + m") (auto simp: room_def free_slot_def not_less)
  then show ?thesis using assms by (simp add: room_def)
qed

subsection \<open>The cases of the loop\<close>

lemma ffree_room_ok:
  assumes io: "dir_io io es" and small: "32 * (int g + int n) < 2 ^ 31 - 1" "n \<le> 16"
  shows "g + len \<le> length (es f) \<Longrightarrow>
    \<exists>y f' k. ffree_room io (32 * int g) (int n) f (int len) = (y, f') \<and> es f' = es f @ replicate k zero_entry \<and>
      (case y of Inl e \<Rightarrow> e < 0 | Inr _ \<Rightarrow> len < n \<longrightarrow> g + n \<le> length (es f'))"
proof (induction "n - len" arbitrary: len f)
  case 0
  then show ?case by (subst ffree_room.simps) (auto intro!: exI [of _ 0])
next
  case (Suc m)
  have lt: "len < n" and m: "m = n - Suc len" using Suc.hyps(2) by simp_all
  have p: "s32 (s32 (32 * int g + s16 (int len * 32)) + 1) = 32 * int (g + len) + 1"
    using lt small by simp
  obtain e h where h: "p_fseek io (32 * int (g + len) + 1) f = (e, h)" "es h = es f"
    "if 32 * int (g + len) + 1 \<le> 32 * int (length (es f)) then 0 \<le> e \<and> fpos_of io h = 32 * int (g + len) + 1 else e = ERANGE"
    using dir_seek [OF io, of "32 * int (g + len) + 1" f] by auto
  have "\<exists>e' h' k. (if e = ERANGE then p_extfd io h else (e, h)) = (e', h') \<and> es h' = es f @ replicate k zero_entry
      \<and> (0 \<le> e' \<longrightarrow> Suc (g + len) \<le> length (es h'))"
  proof (cases "e = ERANGE")
    case True
    obtain e' h' k where "p_extfd io h = (e', h')" "e' < 0 \<and> es h' = es h \<or> 0 \<le> e' \<and> 16 \<le> k \<and> es h' = es h @ replicate k zero_entry"
      using dir_extend [OF io] by blast
    then show ?thesis using True h(2) Suc.prems by (cases "e' < 0") (auto intro: exI [of _ 0])
  next
    case False
    then show ?thesis using h by (auto simp: split: if_splits intro!: exI [of _ 0])
  qed
  then obtain e' h' k where h': "(if e = ERANGE then p_extfd io h else (e, h)) = (e', h')" "es h' = es f @ replicate k zero_entry"
      "0 \<le> e' \<longrightarrow> Suc (g + len) \<le> length (es h')" by blast
  have un: "ffree_room io (32 * int g) (int n) f (int len) =
      (if e' < 0 then (Inl e', h') else ffree_room io (32 * int g) (int n) h' (int (Suc len)))"
    using lt p h(1) h'(1) by (subst ffree_room.simps) (simp add: E_OK_def add.commute)
  show ?case
  proof (cases "e' < 0")
    case True
    then show ?thesis using un h'(2) by auto
  next
    case False
    then have l: "Suc (g + len) \<le> length (es h')" using h'(3) by simp
    obtain y f' k' where y: "ffree_room io (32 * int g) (int n) h' (int (Suc len)) = (y, f')" "es f' = es h' @ replicate k' zero_entry"
      "case y of Inl e \<Rightarrow> e < 0 | Inr _ \<Rightarrow> Suc len < n \<longrightarrow> g + n \<le> length (es f')"
      using Suc.hyps(1) [OF m, of h'] l by auto
    have "es f' = es f @ replicate (k + k') zero_entry" using y(2) h'(2) by (simp add: replicate_add)
    moreover have "Suc len = n \<longrightarrow> g + n \<le> length (es f')" using l y(2) by simp
    moreover have "ffree_room io (32 * int g) (int n) f (int len) = (y, f')" using un y(1) False by simp
    ultimately show ?thesis using y(3) lt
      by (intro exI [of _ y] exI [of _ f'] exI [of _ "k + k'"]) (cases y, auto)
  qed
qed

text \<open>What the loop leaves behind.\<close>

definition ff_done :: "bool \<Rightarrow> nat \<Rightarrow> int \<Rightarrow> int \<Rightarrow> byte list list \<Rightarrow> byte list \<Rightarrow> byte list list \<Rightarrow> ff_step \<Rightarrow> bool" where
  "ff_done long n sp sf E new E' x \<longleftrightarrow>
     (case x of
        FRet e \<Rightarrow> e < 0
      | FPos p \<Rightarrow> \<not> long \<and> (\<exists>g. p = 32 * int g \<and> room sp sf E g 1)
      | FBreak r \<Rightarrow> (\<exists>g. gap_pos r = 32 * int g \<and> room sp sf E' g n) \<and> (long \<longrightarrow> noted sp sf E new (length E) (ff_used r))
      | FNext r \<Rightarrow> False)"

lemma noted_end:
  assumes "noted sp sf E new i used" "E ! i ! 0 = 0 \<or> i = length E"
  shows "noted sp sf E new (length E) used"
proof -
  have "j < i" if "counts sp sf E j" "j < length E" for j
    using assms(2) that unfolding counts_def by (meson not_less)
  then show ?thesis using assms(1) unfolding noted_def by blast
qed

lemma ffree_eof_ok:
  assumes io: "dir_io io es" and inv: "ff_inv long n sp sf (es f) new (length (es f)) r" and n: "n \<le> 16"
  shows "\<exists>x f' k. ffree_eof io (32 * int (length (es f))) r f = (x, f') \<and> es f' = es f @ replicate k zero_entry
           \<and> ff_done long n sp sf (es f) new (es f') x"
proof (cases "ff_found r")
  case True
  then show ?thesis using inv by (auto simp: ffree_eof_def ff_done_def ff_inv_def intro!: exI [of _ 0] split: if_splits)
next
  case False
  let ?E = "es f"
  obtain e f' k where x: "p_extfd io f = (e, f')" "e < 0 \<and> es f' = ?E \<or> 0 \<le> e \<and> 16 \<le> k \<and> es f' = ?E @ replicate k zero_entry"
    using dir_extend [OF io] by blast
  show ?thesis
  proof (cases "e < 0")
    case True
    then show ?thesis using x False by (auto simp: ffree_eof_def ff_done_def E_OK_def intro!: exI [of _ 0])
  next
    case e: False
    let ?r = "if gap_pos r < 0 then r\<lparr>gap_pos := 32 * int (length ?E)\<rparr> else r"
    obtain g where g: "gap_pos ?r = 32 * int g" "g \<le> length ?E" "room sp sf ?E g (length ?E - g)"
      using inv False by (auto simp: ff_inv_def room_def split: if_splits)
    have nt: "long \<longrightarrow> noted sp sf ?E new (length ?E) (ff_used r)" using inv by (simp add: ff_inv_def)
    have k: "16 \<le> k" "es f' = ?E @ replicate k zero_entry" using x(2) e by auto
    have "room sp sf (es f') g n"
    proof (cases "length ?E - g \<le> n")
      case True
      then show ?thesis unfolding k(2) using g k(1) n by (intro room_ext [OF g(3)]) auto
    next
      case False
      then have "room sp sf ?E g n" using g by (auto simp: room_def)
      then show ?thesis unfolding k(2) by (rule room_mono)
    qed
    moreover have "ffree_eof io (32 * int (length ?E)) r f = (FBreak ?r, f')"
      using False e x(1) by (simp add: ffree_eof_def E_OK_def Let_def)
    ultimately show ?thesis using g(1) nt k(2)
      by (intro exI [of _ "FBreak ?r"] exI [of _ f'] exI [of _ k]) (auto simp: ff_done_def)
  qed
qed

lemma open_gap_inv:
  assumes inv: "ff_inv long n sp sf E new i r" and nf: "\<not> ff_found r" and i: "i < length E" "free_slot sp sf E i"
  obtains g where "g \<le> i" "gap_pos (open_gap (32 * int i) r) = 32 * int g" "gap_len (open_gap (32 * int i) r) = int (Suc i - g)"
    "room sp sf E g (Suc i - g)"
proof (cases "gap_pos r < 0")
  case True
  have "room sp sf E i 1" using i inv by (auto simp: room_def ff_inv_def less_Suc_eq_le)
  then show ?thesis using that [of i] True by (simp add: open_gap_def)
next
  case False
  then obtain g where g: "g < i" "gap_pos r = 32 * int g" "gap_len r = int (i - g)" "room sp sf E g (i - g)"
    using inv nf by (auto simp: ff_inv_def split: if_splits)
  then have "room sp sf E g (Suc i - g)" using i by (auto simp: room_def less_Suc_eq)
  then show ?thesis using that [of g] False g by (simp add: open_gap_def)
qed

lemma ffree_end_ok:
  assumes io: "dir_io io es" and inv: "ff_inv long n sp sf (es f) new i r" and n: "n \<le> 16"
    and i: "i < length (es f)" "es f ! i ! 0 = 0" and small: "32 * (int (length (es f)) + 16) < 2 ^ 31 - 1"
  shows "\<exists>x f' k. ffree_end io (int n) (32 * int i) r f = (x, f') \<and> es f' = es f @ replicate k zero_entry
           \<and> ff_done long n sp sf (es f) new (es f') x"
proof (cases "ff_found r")
  case True
  then show ?thesis using inv i noted_end [of sp sf "es f" new i "ff_used r"]
    by (auto simp: ffree_end_def ff_done_def ff_inv_def intro!: exI [of _ 0] split: if_splits)
next
  case False
  let ?E = "es f" and ?r = "open_gap (32 * int i) r"
  have fs: "free_slot sp sf ?E i" using i(2) by (auto simp: free_slot_def)
  obtain g where g: "g \<le> i" "gap_pos ?r = 32 * int g" "gap_len ?r = int (Suc i - g)" "room sp sf ?E g (Suc i - g)"
    using open_gap_inv [OF inv False i(1) fs] .
  obtain y f' k where y: "ffree_room io (32 * int g) (int n) f (int (Suc i - g)) = (y, f')" "es f' = ?E @ replicate k zero_entry"
      "case y of Inl e \<Rightarrow> e < 0 | Inr _ \<Rightarrow> Suc i - g < n \<longrightarrow> g + n \<le> length (es f')"
    using ffree_room_ok [OF io _ n, of g "Suc i - g" f] g(1) i(1) n small by auto
  have en: "ffree_end io (int n) (32 * int i) r f = (case y of Inl e \<Rightarrow> FRet e | Inr _ \<Rightarrow> FBreak ?r, f')"
    using False y(1) g(2,3) by (simp add: ffree_end_def Let_def split: sum.splits)
  have "long \<longrightarrow> noted sp sf ?E new (length ?E) (ff_used ?r)"
    using inv i(2) noted_end [of sp sf ?E new i] by (auto simp: ff_inv_def open_gap_def split: if_splits)
  moreover have "room sp sf (es f') g n" if "y = Inr ()"
  proof -
    have len: "g + n \<le> length (es f')" using y(2,3) that g(1) i(1) by (cases "Suc i - g < n") auto
    have "room sp sf ?E g (i - g)" using g(1,4) by (auto simp: room_def)
    then have "room sp sf (es f') g (i - g)" unfolding y(2) by (rule room_mono)
    then show ?thesis using len g(1) i y(2) by (intro room_end [of sp sf "es f'" g "i - g" n]) (auto simp: nth_append)
  qed
  ultimately show ?thesis unfolding en using y(2,3) g(2) by (cases y) (auto simp: ff_done_def)
qed

lemma ffree_gap_inv:
  assumes inv: "ff_inv True n sp sf E new i r" and i: "i < length E" "free_slot sp sf E i" "\<not> counts sp sf E i"
      "E ! i ! 0 \<noteq> 0" and n: "0 < n"
  shows "\<exists>r'. ffree_gap True (int n) (32 * int i) r = FNext r' \<and> ff_inv True n sp sf E new (Suc i) r'"
proof -
  have nt: "noted sp sf E new (Suc i) (ff_used r)"
    using inv i(3) by (auto simp: ff_inv_def noted_def less_Suc_eq)
  have ne: "no_end E (Suc i)" using inv i(4) by (simp add: ff_inv_def no_end_Suc)
  show ?thesis
  proof (cases "ff_found r")
    case True
    then show ?thesis using inv nt ne by (simp add: ffree_gap_def ff_inv_def)
  next
    case False
    obtain g where g: "g \<le> i" "gap_pos (open_gap (32 * int i) r) = 32 * int g"
      "gap_len (open_gap (32 * int i) r) = int (Suc i - g)" "room sp sf E g (Suc i - g)"
      using open_gap_inv [OF inv False i(1,2)] .
    have u: "ff_used (open_gap (32 * int i) r) = ff_used r" "\<not> ff_found (open_gap (32 * int i) r)"
      using False by (simp_all add: open_gap_def)
    show ?thesis
    proof (cases "n \<le> Suc i - g")
      case True
      then have "room sp sf E g n" using g(1,4) by (auto simp: room_def)
      then show ?thesis using g True False u nt ne
        by (auto simp: ffree_gap_def ff_inv_def Let_def)
    next
      case nn: False
      then show ?thesis using g False u nt ne
        by (auto simp: ffree_gap_def ff_inv_def Let_def less_Suc_eq_le)
    qed
  qed
qed

lemma ffree_entry_inv:
  assumes inv: "ff_inv long n sp sf E new i r" and nz: "E ! i ! 0 \<noteq> 0"
    and tk: "\<And>k. taken new (E ! i) = Some k \<Longrightarrow> 0 \<le> k"
  shows "\<exists>r'. ffree_entry long sp new (E ! i) (32 * int i) r = Some r' \<and> ff_inv long n sp sf E new (Suc i) r'"
proof (cases long)
  case False
  then show ?thesis using inv nz by (simp add: ffree_entry_def ff_inv_def no_end_Suc)
next
  case True
  let ?r = "if ff_found r then r else r\<lparr>gap_pos := -1\<rparr>"
  have nt: "noted sp sf E new i (ff_used r)" and gp: "ff_found r \<Longrightarrow> \<exists>g. gap_pos r = 32 * int g \<and> room sp sf E g n"
    using inv True by (auto simp: ff_inv_def)
  have "\<exists>u. (if dir_attr (E ! i) \<noteq> 0x0f \<and> 32 * int i \<noteq> sp then alias_check new (E ! i) (ff_used r) else Some (ff_used r)) = Some u
          \<and> noted sp sf E new (Suc i) u"
  proof (cases "dir_attr (E ! i) \<noteq> 0x0f \<and> 32 * int i \<noteq> sp")
    case False
    then show ?thesis using nt by (auto simp: noted_def less_Suc_eq counts_def)
  next
    case c: True
    show ?thesis
    proof (cases "taken new (E ! i)")
      case None
      then show ?thesis using nt c by (auto simp: alias_check_taken noted_def less_Suc_eq)
    next
      case (Some k)
      obtain u where "mark_used k (ff_used r) = Some u" "length u = 200" "marked u k" "\<forall>k. marked (ff_used r) k \<longrightarrow> marked u k"
        using mark_used_ok [of "ff_used r" k] nt tk [OF Some] taken_small [OF Some] by (auto simp: noted_def)
      then show ?thesis using nt c Some by (auto simp: alias_check_taken noted_def less_Suc_eq)
    qed
  qed
  then obtain u where u: "(if dir_attr (E ! i) \<noteq> 0x0f \<and> 32 * int i \<noteq> sp then alias_check new (E ! i) (ff_used r) else Some (ff_used r)) = Some u"
    "noted sp sf E new (Suc i) u" by blast
  then have "ffree_entry long sp new (E ! i) (32 * int i) r = Some (?r\<lparr>ff_used := u\<rparr>)"
    using True by (auto simp: ffree_entry_def Let_def split: if_splits)
  then show ?thesis using u(2) gp True inv nz by (auto simp: ff_inv_def no_end_Suc)
qed

lemma ffree_loop_ok:
  assumes io: "dir_io io es" and n: "0 < n" "n \<le> 16" and small: "32 * (int (length (es f)) + 16) < 2 ^ 31 - 1"
    and tk: "\<And>d k. d \<in> set (es f) \<Longrightarrow> taken new d = Some k \<Longrightarrow> 0 \<le> k"
  shows "i \<le> length (es f) \<Longrightarrow> fpos_of io f = 32 * int i \<Longrightarrow> ff_inv long n sp sf (es f) new i r \<Longrightarrow>
    \<exists>x f' k. ffree_loop io long (int n) sp sf new r f = Some (x, f') \<and> es f' = es f @ replicate k zero_entry
       \<and> ff_done long n sp sf (es f) new (es f') x"
  using small tk
proof (induction "length (es f) - i" arbitrary: i f r)
  case 0
  then have i: "i = length (es f)" by simp
  then have p: "fpos_of io f = 32 * int (length (es f))" using 0 by simp
  obtain h where h: "p_fread io f = (Inl 0, h)" "es h = es f" using dir_eof [OF io p] by blast
  show ?case using ffree_eof_ok [OF io, of long n sp sf h new r] n(2) 0(4) p h i
    by (subst ffree_loop.simps) (auto simp: E_OK_def Let_def)
next
  case (Suc m)
  then have i: "i < length (es f)" by simp
  obtain h where h: "p_fread io f = (Inr (es f ! i), h)" "es h = es f" "fpos_of io h = 32 * (int i + 1)"
    using dir_read [OF io i Suc.prems(2)] .
  let ?d = "es f ! i"
  have IH: "\<exists>x f' k. ffree_loop io long (int n) sp sf new q h = Some (x, f') \<and> es f' = es f @ replicate k zero_entry
       \<and> ff_done long n sp sf (es f) new (es f') x" if "ff_inv long n sp sf (es f) new (Suc i) q" for q
    using Suc.hyps(1) [of h "Suc i" q] Suc.hyps(2) Suc.prems h i that by auto
  have un: "ffree_loop io long (int n) sp sf new r f =
      (if ?d ! 0 = 0 then Some (ffree_end io (int n) (32 * int i) r h)
       else if ?d ! 0 = 0xe5 \<or> special_entry sp sf (32 * int i) then
         (case ffree_gap long (int n) (32 * int i) r of
            FNext r \<Rightarrow> ffree_loop io long (int n) sp sf new r h | x \<Rightarrow> Some (x, h))
       else (case ffree_entry long sp new ?d (32 * int i) r of
               None \<Rightarrow> None | Some r \<Rightarrow> ffree_loop io long (int n) sp sf new r h))"
    using h Suc.prems(2) by (subst ffree_loop.simps) (simp add: Let_def)
  show ?case
  proof (cases "?d ! 0 = 0")
    case True
    then show ?thesis unfolding un
      using ffree_end_ok [OF io _ n(2), of long sp sf h new i r] Suc.prems(3,4) h(2) i by simp
  next
    case nz: False
    show ?thesis
    proof (cases "?d ! 0 = 0xe5 \<or> special_entry sp sf (32 * int i)")
      case True
      then have fs: "free_slot sp sf (es f) i" "\<not> counts sp sf (es f) i" by (auto simp: free_slot_def counts_def)
      show ?thesis
      proof (cases long)
        case l: True
        then show ?thesis unfolding un using ffree_gap_inv [of n sp sf "es f" new i r] Suc.prems(3) i fs n(1) nz True IH by auto
      next
        case False
        then show ?thesis unfolding un using nz True i fs(1) h(2) Suc.prems(3)
          by (auto simp: ffree_gap_def ff_done_def ff_inv_def room_def less_Suc_eq_le intro!: exI [of _ 0] exI [of _ i])
      qed
    next
      case False
      obtain q where "ffree_entry long sp new ?d (32 * int i) r = Some q" "ff_inv long n sp sf (es f) new (Suc i) q"
        using ffree_entry_inv [OF Suc.prems(3) nz] Suc.prems(5) nth_mem [OF i] by blast
      then show ?thesis unfolding un using nz False IH by simp
    qed
  qed
qed

subsection \<open>The whole function\<close>

text \<open>The result: the name fits into free entries, and the new short name is not in use.\<close>

lemma ff_need_cases:
  assumes "ffree_need flags name new = Some (long, ndirs, used)"
  shows "ndirs = int (if long then Suc ((length name + 12) div 13) else 1)" "length used = 200" "long \<longrightarrow> length name \<le> 64"
  using assms by (auto simp: ffree_need_def Let_def MAXFOLDERNAME_def split: if_splits)

text \<open>No short name of the directory has a number that exceeds the 16 bits of an \<open>int\<close>.\<close>

definition alias_safe :: "byte list \<Rightarrow> byte list list \<Rightarrow> bool" where
  "alias_safe new E \<longleftrightarrow> (\<forall>d \<in> set E. \<forall>k. taken new d = Some k \<longrightarrow> 0 \<le> k)"

lemma ffree_ok:
  assumes io: "dir_io io es" and small: "32 * (int (length (es f)) + 16) < 2 ^ 31 - 1"
    and tk: "alias_safe new (es f)" and b: "base_ok new"
  shows "\<exists>res f' k. vf_ffree io flags sp sf0 name new f = Some (res, f') \<and> es f' = es f @ replicate k zero_entry \<and>
    (case res of
       Inl e \<Rightarrow> e < 0
     | Inr (p, first, new', long) \<Rightarrow>
         (\<exists>g used n0. ffree_need flags name new = Some (long, int n0, used) \<and>
            (let sf = special_first sp sf0 (int n0) in
             first = 32 * int g \<and> p = 32 * int (g + n0 - 1) \<and> room sp sf (es f') g n0 \<and>
             (if long then \<exists>n u. put_alias n new = Some new' \<and> n < 1600 \<and> \<not> marked u (int n) \<and> noted sp sf (es f) new (length (es f)) u
              else new' = new))))"
proof -
  obtain e0 f0 where f0: "p_fseek io 0 f = (e0, f0)" "es f0 = es f" "0 \<le> e0" "fpos_of io f0 = 0"
    by (rule dir_seek [OF io, of 0 f]) auto
  show ?thesis
  proof (cases "ffree_need flags name new")
    case None
    then show ?thesis using f0 by (auto simp: vf_ffree_def E_OK_def ERANGE_def intro!: exI [of _ 0])
  next
    case (Some q)
    obtain long ndirs used where q: "q = (long, ndirs, used)" by (cases q) auto
    note nd = ff_need_cases [OF Some [unfolded q]]
    define n0 where "n0 = (if long then Suc ((length name + 12) div 13) else 1)"
    have n0: "ndirs = int n0" "0 < n0" "n0 \<le> 16" using nd by (auto simp: n0_def)
    define sf where "sf = special_first sp sf0 (int n0)"
    let ?r = "\<lparr>gap_pos = -1, gap_len = 0, ff_found = False, ff_used = used\<rparr>"
    have inv: "ff_inv long n0 sp sf (es f0) new 0 ?r" using nd by (simp add: ff_inv_def noted_def no_end_def)
    obtain x f1 k where x: "ffree_loop io long (int n0) sp sf new ?r f0 = Some (x, f1)" "es f1 = es f @ replicate k zero_entry"
        "ff_done long n0 sp sf (es f) new (es f1) x"
      using ffree_loop_ok [OF io n0(2,3), of f0 new 0 long sp sf ?r] small tk [unfolded alias_safe_def] f0 inv by auto
    have un: "vf_ffree io flags sp sf0 name new f = (case x of
                FRet e \<Rightarrow> Some (Inl e, f1)
              | FPos p \<Rightarrow> Some (Inr (p, p, new, long), f1)
              | FBreak r \<Rightarrow>
                  (let ret = (\<lambda>new. Some (if gap_pos r < 0 then Inl (gap_pos r)
                                          else Inr (gap_pos r + (int n0 - 1) * 32, gap_pos r, new, long), f1)) in
                   if \<not> long then ret new
                   else case free_number (ff_used r) of
                     None \<Rightarrow> Some (Inl EINTRN, f1)
                   | Some n \<Rightarrow> do { new \<leftarrow> put_alias n new; ret new })
              | FNext r \<Rightarrow> None)"
      using f0 Some q x(1) n0(1) by (simp add: vf_ffree_def E_OK_def sf_def)
    show ?thesis
    proof (cases x)
      case (FRet e)
      then show ?thesis using un x by (auto simp: ff_done_def)
    next
      case (FPos p)
      have l: "\<not> long" and "\<exists>g. p = 32 * int g \<and> room sp sf (es f) g 1" using x(3) FPos by (auto simp: ff_done_def)
      then obtain g where "p = 32 * int g" "room sp sf (es f1) g 1" using room_mono x(2) by metis
      then show ?thesis using un x(2) FPos l Some q n0
        by (intro exI [of _ "Inr (p, p, new, long)"] exI [of _ f1] exI [of _ k])
           (auto simp: sf_def n0_def Let_def)
    next
      case (FBreak r)
      then obtain g where g: "gap_pos r = 32 * int g" "room sp sf (es f1) g n0" and
          nt: "long \<longrightarrow> noted sp sf (es f) new (length (es f)) (ff_used r)" using x(3) by (auto simp: ff_done_def)
      have p: "gap_pos r + (int n0 - 1) * 32 = 32 * int (g + n0 - 1)" "\<not> gap_pos r < 0" using g(1) n0 by auto
      show ?thesis
      proof (cases long)
        case False
        then show ?thesis using un x(2) FBreak Some q n0 g p
          by (intro exI [of _ "Inr (32 * int (g + n0 - 1), 32 * int g, new, long)"] exI [of _ f1] exI [of _ k])
             (auto simp: sf_def Let_def)
      next
        case True
        show ?thesis
        proof (cases "free_number (ff_used r)")
          case None
          then show ?thesis using un x(2) FBreak True by (auto simp: EINTRN_def Let_def)
        next
          case fn: (Some n)
          note fr = free_number_unmarked [OF fn]
          obtain new' where pa: "put_alias n new = Some new'"
            using put_alias_eq [OF b, of n] fr(1) by (cases "n = 0") (auto simp: put_alias_def)
          have "vf_ffree io flags sp sf0 name new f = Some (Inr (32 * int (g + n0 - 1), 32 * int g, new', long), f1)"
            using un FBreak True fn pa p g(1) by (simp add: Let_def)
          then show ?thesis using x(2) True Some q n0 g nt fr pa
            by (intro exI [of _ "Inr (32 * int (g + n0 - 1), 32 * int g, new', long)"] exI [of _ f1] exI [of _ k])
               (auto simp: sf_def Let_def)
        qed
      qed
    next
      case (FNext r)
      then show ?thesis using x(3) by (simp add: ff_done_def)
    qed
  qed
qed

text \<open>Hence the new short name differs from all that count.\<close>

lemma alias_new:
  assumes b: "base_ok new" and a: "put_alias n new = Some new'" "n < 1600" "\<not> marked u (int n)"
    and nt: "noted sp sf E new (length E) u" and j: "j < length E" "counts sp sf E j"
    and t: "126 \<in> set (take 8 new) \<Longrightarrow> dir_name (E ! j) \<noteq> dir_name new"
  shows "dir_name (E ! j) \<noteq> dir_name new'"
proof
  assume e: "dir_name (E ! j) = dir_name new'"
  have "taken new (E ! j) = Some (int n)"
  proof (cases "n = 0")
    case True
    then have "new' = new" using a(1) by (simp add: put_alias_def)
    then show ?thesis using taken_self [of new "E ! j"] e t True by fastforce
  next
    case False
    then show ?thesis using taken_alias [OF b _ a(2,1) e] by simp
  qed
  then show False using nt j a(3) by (auto simp: noted_def)
qed

end
