(* ===== verification/Vf_Compose.thy ===== *)
theory Vf_Compose
  imports Vf_Free
begin

text \<open>
  Creating a file: \<open>vf_ffree\<close>, then \<open>vf_crnam\<close> at the position it delivers.  In the abstract directory a
  run of deleted entries, or the end, is replaced by the new file.
\<close>

subsection \<open>Where the room is in the list of files\<close>

lemma chain_heads:
  assumes "item_ok (Entry lo d)" "e \<in> set (name_chain lo d)"
  shows "e ! 0 \<noteq> 0" "e ! 0 \<noteq> 0xe5"
proof -
  have "e ! 0 \<noteq> 0 \<and> e ! 0 \<noteq> 0xe5"
  proof (cases "e = d")
    case False
    then obtain l k where l: "lo = Some l" "k < pieces l" "e = piece l (vf_chksum (dir_name d)) k"
      using assms(2) by (auto simp: name_chain_def long_chain_def split: option.splits)
    then have "long_ok l" using assms(1) by simp
    then show ?thesis using heads [of k "pieces l"] pieces_bounds [of l] l by (simp add: piece_def ldir_of_fields)
  qed (use assms in simp)
  then show "e ! 0 \<noteq> 0" "e ! 0 \<noteq> 0xe5" by simp_all
qed

lemma entries_simps [simp]:
  "entries_of [] = []" "entries_of (x # xs) = item_entries x @ entries_of xs" "entries_of (xs @ ys) = entries_of xs @ entries_of ys"
  by (simp_all add: entries_of_def)

lemma entries_nonzero: "list_all item_ok xs \<Longrightarrow> e \<in> set (entries_of xs) \<Longrightarrow> e ! 0 \<noteq> 0"
proof (induction xs)
  case (Cons x xs)
  then show ?case using chain_heads(1) by (cases x) (auto simp del: item_ok.simps(2))
qed simp

lemma split_items:
  "list_all item_ok xs \<Longrightarrow> j < length (entries_of xs) \<Longrightarrow> entries_of xs ! j ! 0 = 0xe5 \<Longrightarrow>
     \<exists>as bs. xs = as @ bs \<and> length (entries_of as) = j"
proof (induction xs arbitrary: j)
  case (Cons x xs)
  show ?case
  proof (cases "j < length (item_entries x)")
    case True
    have "j = 0"
    proof (cases x)
      case (Entry lo d)
      have "name_chain lo d ! j \<in> set (name_chain lo d)" using True Entry by (simp del: length_name_chain)
      then show ?thesis using chain_heads(2) [of lo d "name_chain lo d ! j"] Cons.prems(1,3) True Entry by (simp add: nth_append)
    qed (use True in simp)
    then show ?thesis by (intro exI [of _ "[]"] exI [of _ "x # xs"]) simp
  next
    case False
    let ?n = "length (item_entries x)"
    have "j - ?n < length (entries_of xs)" "entries_of xs ! (j - ?n) ! 0 = 0xe5" using Cons.prems(2,3) False by (auto simp: nth_append)
    then obtain as bs where "xs = as @ bs" "length (entries_of as) = j - ?n" using Cons.IH [of "j - ?n"] Cons.prems(1) by auto
    then show ?thesis using False by (intro exI [of _ "x # as"] exI [of _ bs]) auto
  qed
qed simp

definition is_gone :: "vf_item \<Rightarrow> bool" where
  "is_gone x \<longleftrightarrow> (case x of Gone d \<Rightarrow> True | _ \<Rightarrow> False)"

lemma gone_entries: "list_all is_gone gs \<Longrightarrow> length (entries_of gs) = length gs"
proof (induction gs)
  case (Cons x gs)
  then show ?case by (cases x) (auto simp: is_gone_def)
qed simp

lemma gone_run:
  "list_all item_ok ys \<Longrightarrow> (\<And>j. j < n \<Longrightarrow> j < length (entries_of ys) \<Longrightarrow> entries_of ys ! j ! 0 = 0xe5) \<Longrightarrow>
     \<exists>gs cs. ys = gs @ cs \<and> list_all is_gone gs \<and> (length gs = n \<or> length gs < n \<and> cs = [])"
proof (induction n arbitrary: ys)
  case (Suc n)
  show ?case
  proof (cases ys)
    case (Cons y zs)
    have g: "is_gone y"
    proof (cases y)
      case (Entry lo d)
      have "name_chain lo d ! 0 \<in> set (name_chain lo d)" by simp
      moreover have "entries_of ys ! 0 = name_chain lo d ! 0" by (simp add: Cons Entry nth_append)
      ultimately show ?thesis using chain_heads(2) [of lo d] Suc.prems(1) Suc.prems(2) [of 0] by (simp add: Cons Entry)
    qed (simp add: is_gone_def)
    then obtain d where y: "y = Gone d" by (cases y) (auto simp: is_gone_def)
    have "entries_of zs ! j ! 0 = 0xe5" if "j < n" "j < length (entries_of zs)" for j
      using Suc.prems(2) [of "Suc j"] that by (simp add: Cons y)
    then obtain gs cs where "zs = gs @ cs" "list_all is_gone gs" "length gs = n \<or> length gs < n \<and> cs = []"
      using Suc.IH [of zs] Suc.prems(1) by (auto simp: Cons)
    then show ?thesis using g by (intro exI [of _ "y # gs"] exI [of _ cs]) (auto simp: Cons)
  qed simp
qed simp

lemma room_items:
  assumes ok: "list_all item_ok xs" and sp: "sp < 0" and room: "room sp sf (entries_of xs @ replicate z zero_entry) g n" and n: "0 < n"
  shows "\<exists>as gs cs. xs = as @ gs @ cs \<and> length (entries_of as) = g \<and> list_all is_gone gs \<and> (length gs = n \<or> length gs < n \<and> cs = [])"
proof -
  let ?E = "entries_of xs @ replicate z zero_entry"
  have free: "?E ! j ! 0 = 0xe5" if "g \<le> j" "j < g + n" "j < length (entries_of xs)" for j
  proof -
    have "?E ! m ! 0 \<noteq> 0" if "m \<le> j" for m
      using entries_nonzero [OF ok, of "entries_of xs ! m"] that \<open>j < length (entries_of xs)\<close> by (simp add: nth_append)
    then show ?thesis using room that sp by (auto simp: room_def free_slot_def special_entry_def)
  qed
  have "g \<le> length (entries_of xs)"
  proof (rule ccontr)
    assume "\<not> g \<le> length (entries_of xs)"
    moreover from this have "?E ! length (entries_of xs) ! 0 = 0" using room by (simp add: room_def nth_append zero_entry_def)
    ultimately show False using room by (auto simp: room_def no_end_def)
  qed
  then consider "g = length (entries_of xs)" | "g < length (entries_of xs)" by linarith
  then obtain as bs where ab: "xs = as @ bs" "length (entries_of as) = g"
  proof cases
    case 1
    then show ?thesis using that [of xs "[]"] by simp
  next
    case 2
    then show ?thesis using split_items [OF ok 2] free [of g] n that by (auto simp: nth_append)
  qed
  have "entries_of bs ! j ! 0 = 0xe5" if "j < n" "j < length (entries_of bs)" for j
    using free [of "g + j"] that ab by (simp add: nth_append)
  then obtain gs cs where "bs = gs @ cs" "list_all is_gone gs" "length gs = n \<or> length gs < n \<and> cs = []"
    using gone_run [of bs n] ok ab(1) by auto
  then show ?thesis using ab by auto
qed

subsection \<open>Writing into the room\<close>

lemma put_alias_keeps:
  assumes "base_ok new" "put_alias n new = Some new'" "n < 1600" "12 \<le> length new"
  shows "length new' = length new" "new' ! 0 = new ! 0" "new' ! 11 = new ! 11"
proof -
  have "length new' = length new \<and> new' ! 0 = new ! 0 \<and> new' ! 11 = new ! 11"
  proof (cases "n = 0")
    case True
    then show ?thesis using assms by (simp add: put_alias_def)
  next
    case False
    then obtain p where p: "0 < p" "p + Suc (length (digs n)) \<le> 8"
      "new' = take p new @ 126 # digs n @ drop (p + Suc (length (digs n))) new"
      using put_alias_eq [OF assms(1), of n] assms by auto
    let ?A = "take p new @ 126 # digs n" and ?e = "p + Suc (length (digs n))"
    have len: "11 \<le> length new" using assms(1) by (simp add: base_ok_def)
    have A: "new' = ?A @ drop ?e new" "length ?A = ?e" using p len by simp_all
    have "new' ! 11 = drop ?e new ! (11 - ?e)" using A p(2) by (simp only: nth_append) simp
    also have "\<dots> = new ! 11" using p(2) assms(4) by (simp add: nth_drop)
    finally show ?thesis using A p len by (auto simp: nth_append)
  qed
  then show "length new' = length new" "new' ! 0 = new ! 0" "new' ! 11 = new ! 11" by simp_all
qed

lemma overwrite_room:
  assumes "length (entries_of as) = g" "list_all is_gone gs" "length gs = n \<or> length gs < n \<and> cs = []" "length ys = n"
    "g + n \<le> length (entries_of (as @ gs @ cs)) + z"
  shows "\<exists>z'. overwrite g ys (entries_of (as @ gs @ cs) @ replicate z zero_entry) = entries_of as @ ys @ entries_of cs @ replicate z' zero_entry"
proof -
  have l: "length (entries_of gs) = length gs" by (rule gone_entries [OF assms(2)])
  show ?thesis
  proof (cases "length gs = n")
    case True
    then show ?thesis using assms l by (intro exI [of _ z]) (simp add: overwrite_def)
  next
    case False
    then show ?thesis using assms l by (intro exI [of _ "z - (n - length gs)"]) (simp add: overwrite_def)
  qed
qed

lemma lookup_append:
  "vf_lookup fname fmode i as = None \<Longrightarrow> vf_lookup fname fmode i (as @ bs) = vf_lookup fname fmode (i + length (entries_of as)) bs"
proof (induction as arbitrary: i)
  case (Cons x as)
  then show ?case by (cases x) (auto split: if_splits simp: add.assoc)
qed simp

lemma lookup_append_None: "vf_lookup fname fmode i (as @ bs) = None \<Longrightarrow> vf_lookup fname fmode i as = None"
  by (induction as arbitrary: i) (auto split: vf_item.splits if_splits)

lemma stricmp_refl: "vf_stricmp s s = 0"
  by (induction s) auto

lemma quiet_visible: "(\<And>l a. Entry (Some l) a \<in> set xs \<Longrightarrow> wanted fmode a) \<Longrightarrow> quiet fmode xs"
  by (induction xs) (auto split: vf_item.splits option.splits)

lemma zeros_end: "end_of_dir (replicate z zero_entry)"
  by (cases z) (simp_all add: end_of_dir_def zero_entry_def)

text \<open>The characters a name may have so that it is read back as it was written.\<close>

definition plain :: "byte list \<Rightarrow> bool" where
  "plain l \<longleftrightarrow> list_all (\<lambda>c. 32 \<le> c \<and> c \<noteq> 173) l"

lemma plain_rr: "plain l \<Longrightarrow> map rr l = l"
  by (induction l) (auto simp: plain_def rr_id)

lemma plain_nonzero: "plain l \<Longrightarrow> 0 \<notin> set l"
  by (auto simp: plain_def list_all_iff)

subsection \<open>From the room to the file\<close>

text \<open>What \<open>vf_ffree\<close> delivers for a drive with long names, without a renamed entry.\<close>

lemma ffree_result:
  assumes io: "dir_io io es" and small: "32 * (int (length (es f)) + 16) < 2 ^ 31 - 1"
    and tk: "alias_safe new (es f)" and b: "base_ok new" and len: "length new = 32"
    and ff: "vf_ffree io True sp sf0 name new f = Some (Inr (p, first, new', long), f1)"
  obtains g k where "es f1 = es f @ replicate k zero_entry" "first = 32 * int g"
    "p = 32 * int (g + length (name_chain (if long then Some name else None) new') - 1)"
    "room sp (special_first sp sf0 (int (length (name_chain (if long then Some name else None) new')))) (es f1) g (length (name_chain (if long then Some name else None) new'))"
    "long \<longrightarrow> length name \<le> 64" "\<not> long \<longrightarrow> ext_8_3 (dir_name new) = name" "\<not> long \<longrightarrow> new' = new"
    "length new' = 32" "new' ! 0 = new ! 0" "new' ! 11 = new ! 11"
proof -
  obtain res f' k where r: "vf_ffree io True sp sf0 name new f = Some (res, f')" "es f' = es f @ replicate k zero_entry"
    "case res of
       Inl e \<Rightarrow> e < 0
     | Inr (p, first, new', long) \<Rightarrow>
         (\<exists>g used n0. ffree_need True name new = Some (long, int n0, used) \<and>
            (let sf = special_first sp sf0 (int n0) in
             first = 32 * int g \<and> p = 32 * int (g + n0 - 1) \<and> room sp sf (es f') g n0 \<and>
             (if long then \<exists>n u. put_alias n new = Some new' \<and> n < 1600 \<and> \<not> marked u (int n) \<and> noted sp sf (es f) new (length (es f)) u
              else new' = new)))"
    using ffree_ok [OF io small tk b, of True sp sf0 name] by blast
  have e: "res = Inr (p, first, new', long)" "f' = f1" using r(1) ff by auto
  obtain g used n0 where g: "ffree_need True name new = Some (long, int n0, used)" "first = 32 * int g"
      "p = 32 * int (g + n0 - 1)" "room sp (special_first sp sf0 (int n0)) (es f1) g n0"
    and al0: "if long then \<exists>n u. put_alias n new = Some new' \<and> n < 1600 \<and> \<not> marked u (int n)
        \<and> noted sp (special_first sp sf0 (int n0)) (es f) new (length (es f)) u else new' = new"
    using r(3) unfolding e Let_def prod.case sum.case by blast
  have al: "if long then \<exists>n. put_alias n new = Some new' \<and> n < 1600 else new' = new"
    using al0 by (auto split: if_splits)
  have n0: "n0 = length (name_chain (if long then Some name else None) new')"
    using ff_need_cases(1) [OF g(1)] by (auto simp: pieces_def)
  have "length new' = 32 \<and> new' ! 0 = new ! 0 \<and> new' ! 11 = new ! 11"
    using al put_alias_keeps [OF b] len by (auto split: if_splits)
  moreover have "\<not> long \<Longrightarrow> ext_8_3 (dir_name new) = name" using g(1) by (auto simp: ffree_need_def Let_def split: if_splits)
  ultimately show ?thesis using that r(2) e(2) g n0 al ff_need_cases(3) [OF g(1)] by auto
qed

lemma create_then_find:
  assumes io: "dir_io io es" and small: "32 * (int (length (es f)) + 16) < 2 ^ 31 - 1"
    and E: "es f = entries_of xs @ replicate z zero_entry" "list_all item_ok xs"
    and vis: "\<And>l a. Entry (Some l) a \<in> set xs \<Longrightarrow> wanted fmode a" and none: "vf_lookup name fmode 0 xs = None"
    and name: "name \<noteq> []" "plain name"
    and new: "base_ok new" "length new = 32" "new ! 0 \<noteq> 0" "new ! 0 \<noteq> 0xe5" "dir_attr new \<noteq> 0x0f" "wanted fmode new"
    and tk: "alias_safe new (es f)"
    and ff: "vf_ffree io True (-1) sf0 name new f = Some (Inr (p, first, new', long), f1)"
    and small1: "32 * int (length (es f1)) < 2 ^ 31"
  shows "\<exists>e2 f2 e3 f3 e4 f4 f5. p_fseek io first f1 = (e2, f2) \<and> vf_crnam io new' (if long then Some name else None) f2 = Some (e3, f3)
     \<and> 0 \<le> e3 \<and> p_fseek io 0 f3 = (e4, f4) \<and> vf_dirsrch io name fmode f4 = Some (Inr (new', p, if long then first else -1), f5)"
proof -
  let ?lo = "if long then Some name else None"
  let ?n = "length (name_chain ?lo new')"
  obtain g k where g: "es f1 = es f @ replicate k zero_entry" "first = 32 * int g" "p = 32 * int (g + ?n - 1)"
    "room (-1) (special_first (-1) sf0 (int ?n)) (es f1) g ?n" "long \<longrightarrow> length name \<le> 64" "\<not> long \<longrightarrow> ext_8_3 (dir_name new) = name"
    "\<not> long \<longrightarrow> new' = new" "length new' = 32" "new' ! 0 = new ! 0" "new' ! 11 = new ! 11"
    using ffree_result [OF io small tk new(1,2) ff] by blast
  have E1: "es f1 = entries_of xs @ replicate (z + k) zero_entry" by (simp add: g(1) E(1) replicate_add)
  have gn: "g + ?n \<le> length (es f1)" using g(4) by (simp add: room_def)
  obtain as gs cs where s: "xs = as @ gs @ cs" "length (entries_of as) = g" "list_all is_gone gs" "length gs = ?n \<or> length gs < ?n \<and> cs = []"
    using room_items [OF E(2) _ g(4) [unfolded E1]] by auto
  have lok: "\<And>l. ?lo = Some l \<Longrightarrow> long_ok l"
    using name plain_nonzero g(5) by (auto simp: long_ok_def MAXFOLDERNAME_def split: if_splits)
  obtain e2 f2 where f2: "p_fseek io first f1 = (e2, f2)" "es f2 = es f1" "fpos_of io f2 = 32 * int g"
    by (rule dir_seek [OF io, of first f1]) (use g(2) gn in auto)
  obtain e3 f3 where f3: "vf_crnam io new' ?lo f2 = Some (e3, f3)" "0 \<le> e3" "es f3 = overwrite g (name_chain ?lo new') (es f1)"
    using crnam_ok [OF io, of ?lo new' g f2] lok g(8) gn f2 by (auto simp del: length_name_chain)
  obtain e4 f4 where f4: "p_fseek io 0 f3 = (e4, f4)" "es f4 = es f3" "fpos_of io f4 = 0"
    by (rule dir_seek [OF io, of 0 f3]) auto
  let ?ys = "as @ Entry ?lo new' # cs"
  obtain z' where z': "es f4 = entries_of ?ys @ replicate z' zero_entry"
    using overwrite_room [OF s(2-4) refl, of "z + k"] gn f3(3) f4(2) E1 s(1) by (auto simp del: length_name_chain)
  have "item_ok (Entry ?lo new')" using g(8-10) new lok by (auto split: option.splits)
  then have ok: "list_all item_ok ?ys" using E(2) s(1) by simp
  have w: "wanted fmode new'" using new(6) g(10) by (simp only: wanted_def)
  have q: "quiet fmode ?ys" using vis w s(1) by (intro quiet_visible) auto
  have "length (es f4) = length (es f1)" using gn f3(3) f4(2) by (simp add: length_overwrite del: length_name_chain)
  then have sm: "32 * int (length (es f4)) < 2 ^ 31" using small1 by simp
  have h: "hit name fmode ?lo new'" using plain_rr [OF name(2)] g(6,7) by (auto simp: hit_def stricmp_refl)
  have "vf_lookup name fmode 0 as = None"
    by (rule lookup_append_None [of _ _ _ _ "gs @ cs"]) (use none s(1) in simp)
  from lookup_append [OF this, of "Entry ?lo new' # cs"]
  have "vf_lookup name fmode 0 ?ys = vf_lookup name fmode g (Entry ?lo new' # cs)" using s(2) by simp
  also have "\<dots> = Some (new', p, if long then first else -1)" using h w g(2,3) by simp
  finally have "vf_lookup name fmode 0 ?ys = Some (new', p, if long then first else -1)" .
  then obtain f5 where "dirsrch_loop io name fmode f4 = Some (Inr (new', p, if long then first else -1), f5)"
    using dirsrch_items [OF io name(1) plain_nonzero [OF name(2)] ok q zeros_end, of f4 "[]" z'] z' f4(3) sm by auto
  then show ?thesis using f2(1) f3(1,2) f4(1) name(1) by (auto simp: vf_dirsrch_def)
qed

end
