(* ===== verification/Vf_Props.thy ===== *)
theory Vf_Props
  imports Vf_Compose
begin

text \<open>
  The properties of the VFAT part, with a directory in memory (\<open>demo_io\<close>) at which they are applied.
\<close>

subsection \<open>A directory in memory\<close>

definition demo_io :: "(byte list list \<times> int) dosio" where
  "demo_io = \<lparr>
     p_fread = (\<lambda>(es, p). if 0 \<le> p \<and> p mod 32 = 0 \<and> nat (p div 32) < length es
                          then (Inr (es ! nat (p div 32)), (es, p + 32)) else (Inl 0, (es, p))),
     p_fwrite = (\<lambda>d (es, p). (32, (es[nat (p div 32) := d], p + 32))),
     p_fseek = (\<lambda>q (es, p). if q \<le> 32 * int (length es) then (q, (es, q)) else (ERANGE, (es, p))),
     p_extfd = (\<lambda>(es, p). (0, (es @ replicate 16 zero_entry, p))),
     fpos_of = snd\<rparr>"

lemma demo_dir_io: "dir_io demo_io fst"
  unfolding dir_io_def by (auto simp: demo_io_def add.commute)

text \<open>A main entry of a file; the name has 11 characters.\<close>

definition main_entry :: "byte list \<Rightarrow> byte \<Rightarrow> byte list" where
  "main_entry n attr = n @ attr # replicate 20 0"

text \<open>A name, its short name, and the main entry of the file.\<close>

definition demo_name :: "byte list" where \<comment> \<open>\<open>hello.txt\<close>\<close>
  "demo_name = [104, 101, 108, 108, 111, 46, 116, 120, 116]"

definition demo_short :: "byte list" where \<comment> \<open>\<open>HELLO   TXT\<close>\<close>
  "demo_short = [72, 69, 76, 76, 79, 32, 32, 32, 84, 88, 84]"

definition demo_file :: "byte list" where
  "demo_file = main_entry demo_short 0"

definition demo_items :: "vf_item list" where
  "demo_items = [Gone (main_entry (0xe5 # tl demo_short) 0), Entry (Some demo_name) demo_file]"

lemma demo_file_sel [simp]:
  "length demo_file = 32" "demo_file ! 0 = 72" "demo_file ! 11 = 0"
  by (simp_all add: demo_file_def main_entry_def demo_short_def)

lemma demo_name_facts [simp]: "demo_name \<noteq> []" "plain demo_name" "length demo_name = 9" "pieces demo_name = 1"
  by (simp_all add: demo_name_def plain_def pieces_def)

lemma demo_name_zero [simp]: "0 \<notin> set demo_name"
  by (rule plain_nonzero) simp

lemma demo_items_ok: "list_all item_ok demo_items"
  by (simp add: demo_items_def long_ok_def MAXFOLDERNAME_def) (simp add: main_entry_def demo_short_def)

lemma demo_wanted [simp]: "wanted FINDALL demo_file" "wanted FINDNDIR demo_file"
  by (simp_all add: wanted_def)

lemma demo_items_quiet: "quiet FINDALL demo_items"
  by (simp add: demo_items_def)

lemma demo_entries_len: "length (entries_of demo_items) = 3"
  by (simp add: demo_items_def)

lemma demo_lookup: "vf_lookup demo_name FINDALL 0 demo_items = Some (demo_file, 64, 32)"
  by (simp add: demo_items_def hit_def plain_rr stricmp_refl)

subsection \<open>Searching and listing\<close>



lemma readdir1_total:
  assumes io: "dir_io io es" and len: "list_all (\<lambda>d. length d = 32) (es f)" and i: "i \<le> length (es f)" "fpos_of io f = 32 * int i"
  shows "\<exists>x p f' j. vf_readdir1 io lbuf short fmode f = Some (x, p, f') \<and> es f' = es f \<and> fpos_of io f' = 32 * int j \<and> j \<le> length (es f)
    \<and> (case x of Inl e \<Rightarrow> e \<in> {0, EINTRN, ERANGE} | Inr (d, l, n) \<Rightarrow> i < j \<and> d = es f ! (j - 1) \<and> wanted fmode d)"
proof -
  have "\<forall>d \<in> set (drop i (es f)). length d = 32" using len by (auto simp: list_all_iff dest: in_set_dropD)
  from rd_scan_total [OF this, of fmode rd_init i] obtain x r' j where
    s: "rd_scan fmode rd_init i (drop i (es f)) = Some (x, r', j)" "j \<le> length (es f)"
      "case x of Inl e \<Rightarrow> e = 0 \<or> e = EINTRN | Inr d \<Rightarrow> i < j \<and> drop i (es f) ! (j - 1 - i) = d \<and> wanted fmode d"
    using i(1) by auto
  obtain g where g: "rd_loop io fmode rd_init f = Some (x, r', g)" "es g = es f" "fpos_of io g = 32 * int j"
    using rd_loop_scan [OF io i s(1)] by blast
  show ?thesis
  proof (cases x)
    case (Inl e)
    then show ?thesis using g s by (auto simp: vf_readdir1_def)
  next
    case (Inr d)
    then have "i < j" "d = es f ! (j - 1)" "wanted fmode d" using s(2,3) by auto
    then show ?thesis using g s(2) Inr
      by (simp add: vf_readdir1_def Let_def split: option.splits)
  qed
qed

lemma dirsrch_loop_total:
  assumes io: "dir_io io es"
  shows "list_all (\<lambda>d. length d = 32) (es f) \<Longrightarrow> i \<le> length (es f) \<Longrightarrow> fpos_of io f = 32 * int i \<Longrightarrow>
    32 * int (length (es f)) < 2 ^ 31 \<Longrightarrow> \<exists>res f'. dirsrch_loop io fname fmode f = Some (res, f') \<and>
    (case res of Inl e \<Rightarrow> e \<in> {EFILNF, EINTRN, ERANGE}
     | Inr (d, spos, lpos) \<Rightarrow> \<exists>j < length (es f). d = es f ! j \<and> spos = 32 * int j \<and> wanted fmode d)"
proof (induction "length (es f) - i" arbitrary: i f rule: less_induct)
  case less
  from readdir1_total [OF io less.prems(1-3), of "Some 300" True fmode] obtain x p g j where
    g: "vf_readdir1 io (Some 300) True fmode f = Some (x, p, g)" "es g = es f" "fpos_of io g = 32 * int j" "j \<le> length (es f)"
      "case x of Inl e \<Rightarrow> e \<in> {0, EINTRN, ERANGE} | Inr (d, l, n) \<Rightarrow> i < j \<and> d = es f ! (j - 1) \<and> wanted fmode d" by blast
  show ?case
  proof (cases x)
    case (Inl e)
    then show ?thesis using g by (subst dirsrch_loop.simps) (auto simp: vf_errs)
  next
    case (Inr y)
    obtain d l n where y: "y = (d, l, n)" by (cases y) auto
    have d: "i < j" "d = es f ! (j - 1)" "wanted fmode d" using g(5) Inr y by auto
    let ?hit = "vf_stricmp (the l) fname = 0 \<or> vf_stricmp (the n) fname = 0 \<or> fmode = FINDLABL \<or> vf_star fname (the n)"
    have un: "dirsrch_loop io fname fmode f =
        (if ?hit then Some (Inr (d, s32 (fpos_of io g - 32), p), g) else dirsrch_loop io fname fmode g)"
      using g(1) Inr y by (subst dirsrch_loop.simps) simp
    show ?thesis
    proof (cases ?hit)
      case True
      have "s32 (fpos_of io g - 32) = 32 * int (j - 1)" using g(3,4) d(1) less.prems(4) by simp
      then show ?thesis unfolding un using True d g(4) by (auto intro!: exI [of _ "j - 1"])
    next
      case False
      have "length (es g) - j < length (es f) - i" using d(1) g(2,4) by simp
      from less.hyps [OF this, unfolded g(2)] show ?thesis unfolding un if_not_P [OF False] using g(3,4) less.prems(1,4) by simp
    qed
  qed
qed

text \<open>C27: Searching a directory always ends, whatever its entries contain: the search reports that there is no such file, that a long name is damaged, or delivers an entry of the directory of the wanted kind together with its position.\<close>

theorem dirsrch_terminates:
  assumes "dir_io io es" "list_all (\<lambda>d. length d = 32) (es f)" "i \<le> length (es f)" "fpos_of io f = 32 * int i"
    and "32 * int (length (es f)) < 2 ^ 31"
  shows "\<exists>res f'. vf_dirsrch io fname fmode f = Some (res, f') \<and>
    (case res of Inl e \<Rightarrow> e \<in> {EFILNF, EINTRN, ERANGE}
     | Inr (d, spos, lpos) \<Rightarrow> \<exists>j < length (es f). d = es f ! j \<and> spos = 32 * int j \<and> wanted fmode d)"
  using dirsrch_loop_total [OF assms] by (auto simp: vf_dirsrch_def)

theorem dirsrch_terminates_witness:
  "\<exists>res f'. vf_dirsrch demo_io demo_name FINDDIR (entries_of demo_items @ [zero_entry], 32) = Some (res, f')"
proof -
  have "list_all (\<lambda>d. length d = 32) (entries_of demo_items @ [zero_entry])"
    by (simp add: demo_items_def name_chain_def long_chain_def piece_def main_entry_def demo_short_def zero_entry_def)
  then have "\<exists>res f'. vf_dirsrch demo_io demo_name FINDDIR (entries_of demo_items @ [zero_entry], 32) = Some (res, f') \<and>
    (case res of Inl e \<Rightarrow> e \<in> {EFILNF, EINTRN, ERANGE}
     | Inr (d, spos, lpos) \<Rightarrow> \<exists>j < length (fst (entries_of demo_items @ [zero_entry], 32 :: int)).
         d = fst (entries_of demo_items @ [zero_entry], 32 :: int) ! j \<and> spos = 32 * int j \<and> wanted FINDDIR d)"
    by (intro dirsrch_terminates [OF demo_dir_io, of _ 1]) (simp_all add: demo_entries_len demo_io_def)
  then show ?thesis by blast
qed

lemma first_stop_ok: "first_stop stop fmode i xs = Some (lo, d, k) \<Longrightarrow> list_all item_ok xs \<Longrightarrow> item_ok (Entry lo d)"
  by (induction xs arbitrary: i) (auto split: vf_item.splits if_splits)



subsection \<open>Long names\<close>

text \<open>C14: What \<open>vf_crnam\<close> writes is what \<open>_vf_readdir\<close> reads: reading at the position where a name was written delivers the same entry, the same long name if it has only printable characters other than the inverted exclamation mark (character 173), and the position of the first of its entries.\<close>

theorem crnam_readdir_roundtrip:
  assumes "dir_io io es" "length l \<le> MAXFOLDERNAME" "l \<noteq> []" "plain l"
    and "item_ok (Entry (Some l) d)" "wanted fmode d" "int (length l) < lbuflen"
    and "i + pieces l + 1 \<le> length (es f)" "fpos_of io f = 32 * int i" "32 * int (length (es f)) < 2 ^ 31"
  shows "\<exists>e f1 e' f2 f3. vf_crnam io d (Some l) f = Some (e, f1) \<and> 0 \<le> e \<and> p_fseek io (32 * int i) f1 = (e', f2)
     \<and> vf_readdir1 io (Some lbuflen) True fmode f2 = Some (Inr (d, Some l, Some (ext_8_3 (dir_name d))), 32 * int i, f3)"
proof -
  have l: "long_ok l" using assms(2-4) plain_nonzero by (simp add: long_ok_def)
  obtain e f1 where f1: "vf_crnam io d (Some l) f = Some (e, f1)" "0 \<le> e" "es f1 = overwrite i (name_chain (Some l) d) (es f)"
    using crnam_ok [OF assms(1), of "Some l" d i f] l assms(5,8,9) by auto
  obtain e' f2 where f2: "p_fseek io (32 * int i) f1 = (e', f2)" "es f2 = es f1" "fpos_of io f2 = 32 * int i"
    by (rule dir_seek [OF assms(1), of "32 * int i" f1]) (use f1(3) assms(8) in \<open>auto simp: length_overwrite\<close>)
  let ?pre = "take i (es f)" and ?rest = "drop (i + pieces l + 1) (es f)"
  have es2: "es f2 = ?pre @ name_chain (Some l) d @ ?rest" using f1(3) f2(2) by (simp add: overwrite_def)
  have p: "length ?pre = i" "length (es f2) = length (es f)" using assms(8) es2 by simp_all
  have sc: "rd_scan fmode rd_init i (drop i (es f2)) = Some (Inr d, rd_at l (vf_chksum (dir_name d)) (s32 (32 * int i)) 0, Suc (i + pieces l))"
    using rd_scan_chain [OF l, of fmode rd_init i "vf_chksum (dir_name d)" "d # ?rest"] assms(5,6) p(1)
    by (simp add: es2 name_chain_def) (simp add: rd_dir_def rd_at_def)
  obtain f3 where "rd_loop io fmode rd_init f2 = Some (Inr d, rd_at l (vf_chksum (dir_name d)) (s32 (32 * int i)) 0, f3)"
    using rd_loop_scan [OF assms(1) _ f2(3) sc] p assms(8) by auto
  moreover have "s32 (32 * int i) = 32 * int i" using assms(8,10) by simp
  moreover have "s16 (int (length l) + 1) = int (length l) + 1" using assms(2) by (simp add: MAXFOLDERNAME_def)
  ultimately have "vf_readdir1 io (Some lbuflen) True fmode f2 = Some (Inr (d, Some l, Some (ext_8_3 (dir_name d))), 32 * int i, f3)"
    using assms(7) plain_rr [OF assms(4)] by (simp add: vf_readdir1_def rd_at_def Let_def)
  then show ?thesis using f1 f2(1) by blast
qed

theorem crnam_readdir_roundtrip_witness:
  "\<exists>e f1 e' f2 f3. vf_crnam demo_io demo_file (Some demo_name) (replicate 4 zero_entry, 32) = Some (e, f1) \<and> 0 \<le> e
     \<and> p_fseek demo_io (32 * int 1) f1 = (e', f2)
     \<and> vf_readdir1 demo_io (Some 20) True FINDALL f2 = Some (Inr (demo_file, Some demo_name, Some (ext_8_3 (dir_name demo_file))), 32 * int 1, f3)"
  by (rule crnam_readdir_roundtrip [OF demo_dir_io])
     (simp_all add: MAXFOLDERNAME_def long_ok_def, simp_all add: demo_io_def)

subsection \<open>Creating a name\<close>

declare ffree_loop.simps [code]

definition demo_alias :: "byte list" where \<comment> \<open>\<open>HELLO~1 TXT\<close>\<close>
  "demo_alias = [72, 69, 76, 76, 79, 126, 49, 32, 84, 88, 84]"

definition demo_full :: "byte list list \<times> int" where
  "demo_full = (demo_file # replicate 3 zero_entry, 0)"

lemma free_number_first: "free_number ((replicate 200 0)[0 := 1]) = Some 1"
proof -
  have "[0..<1600] = 0 # 1 # [2..<1600]" using upt_conv_Cons [of 0 1600] upt_conv_Cons [of 1 1600] by (simp only: numeral_2_eq_2) simp
  then show ?thesis unfolding free_number_def by (simp only: find.simps) simp
qed

lemma demo_need: "ffree_need True demo_name demo_file = Some (True, 2, replicate 200 0)"
  by code_simp

lemma demo_ffree_loop:
  "ffree_loop demo_io True 2 (-1) (-1) demo_file \<lparr>gap_pos = -1, gap_len = 0, ff_found = False, ff_used = replicate 200 0\<rparr> demo_full =
   Some (FBreak \<lparr>gap_pos = 32, gap_len = 1, ff_found = False, ff_used = (replicate 200 0)[0 := 1]\<rparr>, (fst demo_full, 65))"
  by code_simp

lemma demo_put_alias: "put_alias 1 demo_file = Some (main_entry demo_alias 0)"
  by code_simp

lemma demo_seek: "p_fseek demo_io 0 demo_full = (0, demo_full)"
  by (simp add: demo_io_def demo_full_def)

lemma demo_ffree: "vf_ffree demo_io True (-1) (-1) demo_name demo_file demo_full =
   Some (Inr (64, 32, main_entry demo_alias 0, True), (fst demo_full, 65))"
  unfolding vf_ffree_def demo_seek
  by (simp add: demo_need special_first_def E_OK_def demo_ffree_loop free_number_first demo_put_alias [unfolded One_nat_def] del: list_update.simps)

lemma demo_base: "base_ok demo_file"
proof -
  have "list_all (\<lambda>k. (demo_file ! k = 32) = (5 \<le> k)) [0..<8]" by code_simp
  then have "\<forall>k < 8. demo_file ! k = 32 \<longleftrightarrow> 5 \<le> k" unfolding list_all_iff set_upt by simp
  then show ?thesis unfolding base_ok_def by (intro conjI exI [of _ 5]) simp_all
qed

lemma demo_safe: "alias_safe demo_file (fst demo_full)"
proof -
  have "taken demo_file demo_file = Some 0" "taken demo_file zero_entry = None" by code_simp+
  then show ?thesis by (auto simp: alias_safe_def demo_full_def)
qed

lemma demo_full_small: "32 * (int (length (fst demo_full)) + 16) < 2 ^ 31 - 1"
  by (simp add: demo_full_def)



text \<open>C15: The short name that \<open>vf_ffree\<close> makes for a long name differs from the short names of all files of the directory (apart from the one that is renamed).  A name that has a tilde already must not be in use as it is.\<close>

theorem ffree_unique_alias:
  assumes "dir_io io es" "32 * (int (length (es f)) + 16) < 2 ^ 31 - 1" "alias_safe new (es f)" "base_ok new"
    and "vf_ffree io flags sp sf0 name new f = Some (Inr (p, first, new', True), f1)"
    and "j < length (es f)" "counts sp (special_first sp sf0 (int (pieces name + 1))) (es f) j"
    and "126 \<in> set (take 8 new) \<longrightarrow> dir_name (es f ! j) \<noteq> dir_name new"
  shows "dir_name (es f ! j) \<noteq> dir_name new'"
proof -
  obtain g used n0 n u where g: "ffree_need flags name new = Some (True, int n0, used)"
      and a: "put_alias n new = Some new'" "n < 1600" "\<not> marked u (int n)" "noted sp (special_first sp sf0 (int n0)) (es f) new (length (es f)) u"
    using ffree_ok [OF assms(1-4), of flags sp sf0 name] assms(5) by (auto simp: Let_def)
  have "n0 = pieces name + 1" using ff_need_cases(1) [OF g] by (simp add: pieces_def)
  then show ?thesis using alias_new [OF assms(4) a(1-3), of sp _ "es f" j] a(4) assms(6-8) by blast
qed

theorem ffree_unique_alias_witness:
  "dir_name (fst demo_full ! 0) \<noteq> dir_name (main_entry demo_alias 0)"
proof (rule ffree_unique_alias [OF demo_dir_io demo_full_small demo_safe demo_base demo_ffree])
  show "0 < length (fst demo_full)" by (simp add: demo_full_def)
  show "counts (-1) (special_first (-1) (-1) (int (pieces demo_name + 1))) (fst demo_full) 0"
    by (simp add: counts_def special_entry_def demo_full_def)
  show "126 \<in> set (take 8 demo_file) \<longrightarrow> dir_name (fst demo_full ! 0) \<noteq> dir_name demo_file"
    by (simp add: demo_file_def main_entry_def demo_short_def)
qed

definition demo_empty :: "byte list list \<times> int" where
  "demo_empty = (replicate 4 zero_entry, 0)"

lemma free_number_zero: "free_number (replicate 200 0) = Some 0"
proof -
  have "[0..<1600] = 0 # [Suc 0..<1600]" using upt_conv_Cons [of 0 1600] by simp
  then show ?thesis unfolding free_number_def by (simp only: find.simps) simp
qed

lemma demo_empty_loop:
  "ffree_loop demo_io True 2 (-1) (-1) demo_file \<lparr>gap_pos = -1, gap_len = 0, ff_found = False, ff_used = replicate 200 0\<rparr> demo_empty =
   Some (FBreak \<lparr>gap_pos = 0, gap_len = 1, ff_found = False, ff_used = replicate 200 0\<rparr>, (fst demo_empty, 33))"
  by code_simp

lemma demo_empty_ffree: "vf_ffree demo_io True (-1) (-1) demo_name demo_file demo_empty = Some (Inr (32, 0, demo_file, True), (fst demo_empty, 33))"
proof -
  have "p_fseek demo_io 0 demo_empty = (0, demo_empty)" by (simp add: demo_io_def demo_empty_def)
  then show ?thesis unfolding vf_ffree_def
    by (simp add: demo_need special_first_def E_OK_def demo_empty_loop free_number_zero put_alias_def)
qed

text \<open>C4: A file that is created is found.  When \<open>vf_ffree\<close> has found room for a name that is not in the directory, and \<open>vf_crnam\<close> has written the name there, then \<open>vf_dirsrch\<close> delivers the new entry and the positions that \<open>vf_ffree\<close> announced; the other entries stay as they were.\<close>

theorem created_file_is_found:
  assumes "dir_io io es" "32 * (int (length (es f)) + 16) < 2 ^ 31 - 1" "es f = entries_of xs @ replicate z zero_entry" "list_all item_ok xs"
    and "\<forall>l a. Entry (Some l) a \<in> set xs \<longrightarrow> wanted fmode a" "vf_lookup name fmode 0 xs = None" "name \<noteq> []" "plain name"
    and "base_ok new" "length new = 32" "new ! 0 \<noteq> 0" "new ! 0 \<noteq> 0xe5" "dir_attr new \<noteq> 0x0f" "wanted fmode new" "alias_safe new (es f)"
    and "vf_ffree io True (-1) sf0 name new f = Some (Inr (p, first, new', long), f1)" "32 * int (length (es f1)) < 2 ^ 31"
  shows "\<exists>e2 f2 e3 f3 e4 f4 f5. p_fseek io first f1 = (e2, f2) \<and> vf_crnam io new' (if long then Some name else None) f2 = Some (e3, f3)
     \<and> 0 \<le> e3 \<and> p_fseek io 0 f3 = (e4, f4) \<and> vf_dirsrch io name fmode f4 = Some (Inr (new', p, if long then first else -1), f5)"
  using create_then_find [OF assms(1-4) _ assms(6-17)] assms(5) by blast

theorem created_file_is_found_witness:
  "\<exists>e2 f2 e3 f3 e4 f4 f5. p_fseek demo_io 0 (fst demo_empty, 33) = (e2, f2)
     \<and> vf_crnam demo_io demo_file (if True then Some demo_name else None) f2 = Some (e3, f3)
     \<and> 0 \<le> e3 \<and> p_fseek demo_io 0 f3 = (e4, f4) \<and> vf_dirsrch demo_io demo_name FINDALL f4 = Some (Inr (demo_file, 32, if True then 0 else -1), f5)"
proof (rule created_file_is_found [OF demo_dir_io, of _ "[]" 4, OF _ _ _ _ _ _ _ demo_base _ _ _ _ _ _ demo_empty_ffree])
  have "taken demo_file zero_entry = None" by code_simp
  then show "alias_safe demo_file (fst demo_empty)" by (auto simp: alias_safe_def demo_empty_def)
qed (simp_all add: demo_empty_def)

subsection \<open>Characters\<close>

text \<open>C30: The binary search of \<open>unic2ibm\<close> never reads outside its table and finds for every two byte character what a linear search in the table finds, with one exception, the character of the first entry.\<close>

theorem unic_search_is_lookup:
  "w \<noteq> 0xA1 \<Longrightarrow> unic_search w = Some (table_lookup w)"
  by (simp add: unic_search_eq)

theorem unic_search_is_lookup_witness: "unic_search 0x2122 = Some 191"
  using unic_search_is_lookup [of "0x2122"] by (simp add: table_lookup_def unicode_pairs_def)

text \<open>The first entry of the table is never looked at: the inverted exclamation mark of the Atari character set (173) is written as \<open>0x00A1\<close> and read back as \<open>0xbc\<close>, although the table has an entry for it.\<close>

theorem first_entry_is_lost:
  "map_ascii_Unicode ! 173 = 0xA1 \<and> table_lookup 0xA1 = 173 \<and> unic2ibm 1 (utf [173]) = Some [0xbc]"
proof -
  have m: "map_ascii_Unicode ! 173 = 0xA1" by (simp add: map_ascii_Unicode_def)
  moreover have "table_lookup 0xA1 = 173" by (simp add: table_lookup_def unicode_pairs_def)
  moreover have "unic2ibm 1 (utf [173]) = Some [0xbc]" by (simp add: m unic_search_eq)
  ultimately show ?thesis by simp
qed

subsection \<open>Where the code does not do what it means to\<close>

text \<open>The long name of an entry that the search skips is not forgotten.  When the next entry has no long name and the same check sum, \<open>_vf_readdir\<close> delivers it with the long name of the skipped one, and with a start position that includes the entries of the skipped one.\<close>

theorem stale_long_name:
  assumes "dir_io io es" "es f = name_chain (Some l) a @ b # rest" "fpos_of io f = 0"
    and "item_ok (Entry (Some l) a)" "item_ok (Entry None b)" "\<not> wanted fmode a" "wanted fmode b"
    and "vf_chksum (dir_name a) = vf_chksum (dir_name b)" "plain l"
  shows "\<exists>f'. vf_readdir1 io (Some 300) True fmode f = Some (Inr (b, Some l, Some (ext_8_3 (dir_name b))), 0, f')"
proof -
  have l: "long_ok l" "length l \<le> 64" using assms(4) by (simp_all add: long_ok_def MAXFOLDERNAME_def)
  let ?r = "rd_at l (vf_chksum (dir_name a)) 0 0"
  have r: "rd_dir a ?r = ?r" "rd_dir b ?r = ?r" using assms(8) by (simp_all add: rd_dir_def rd_at_def)
  have "rd_scan fmode rd_init 0 (drop 0 (es f)) = Some (Inr b, ?r, Suc (Suc (pieces l)))"
    using rd_scan_chain [OF l(1), of fmode rd_init 0 "vf_chksum (dir_name a)" "a # b # rest"] assms(4-7) r
    by (simp add: assms(2) name_chain_def)
  then obtain f' where "rd_loop io fmode rd_init f = Some (Inr b, ?r, f')"
    using rd_loop_scan [OF assms(1), of 0 f fmode rd_init] assms(3) by auto
  then show ?thesis using l(2) plain_rr [OF assms(9)] by (simp add: vf_readdir1_def rd_at_def Let_def)
qed

definition demo_other :: "byte list" where \<comment> \<open>the file \<open>BVZ.TXT\<close>, whose check sum is that of \<open>HELLO.TXT\<close>\<close>
  "demo_other = main_entry [66, 86, 90, 32, 32, 32, 32, 32, 84, 88, 84] 0"

theorem stale_long_name_witness:
  "\<exists>f'. vf_readdir1 demo_io (Some 300) True FINDNDIR (name_chain (Some demo_name) (main_entry demo_short 0x10) @ [demo_other], 0) =
     Some (Inr (demo_other, Some demo_name, Some (ext_8_3 (dir_name demo_other))), 0, f')"
proof (rule stale_long_name [OF demo_dir_io, of _ _ "main_entry demo_short 0x10" _ "[]"])
  show "vf_chksum (dir_name (main_entry demo_short 0x10)) = vf_chksum (dir_name demo_other)" by code_simp
qed (simp_all add: demo_io_def main_entry_def demo_short_def demo_other_def wanted_def vf_subdir_def vf_volume_def long_ok_def MAXFOLDERNAME_def)

text \<open>The number behind a tilde is collected in a 16 bit \<open>int\<close>.  With a file \<open>A~32768.TXT\<close> in the directory, \<open>vf_ffree\<close> for a name like \<open>abc.txt\<close> computes a negative number and writes in front of its array of flags.\<close>

theorem alias_number_overflow_faults:
  "alias_number [51, 50, 55, 54, 56, 32] 0 = Some (- 32768) \<and>
   vf_ffree demo_io True (-1) (-1) [97, 98, 99, 46, 116, 120, 116] (main_entry [65, 66, 67, 32, 32, 32, 32, 32, 84, 88, 84] 0)
     ([main_entry [65, 126, 51, 50, 55, 54, 56, 32, 84, 88, 84] 0, zero_entry], 0) = None"
  by code_simp

text \<open>In the mode for programs that know only short names, \<open>Dreaddir\<close> does not look at the length of the buffer: the ten bytes of \<open>HELLO.TXT\<close> are stored in a buffer of one byte, and the call succeeds.\<close>

theorem short_names_ignore_buflen:
  "\<exists>f'. vf_readdir demo_io index None False 1 (entries_of demo_items, 0) =
     Some (E_OK, Some [72, 69, 76, 76, 79, 46, 84, 88, 84], None, f')"
proof -
  obtain p f' where "vf_readdir1 demo_io None True FINDALL (entries_of demo_items, 0) = Some (file_out None True (Some demo_name) demo_file, p, f')"
    using readdir1_items [OF demo_dir_io demo_items_ok demo_items_quiet, of "[]" "(entries_of demo_items, 0)" "[]" None True]
    by (auto simp: end_of_dir_def demo_entries_len) (auto simp: demo_items_def demo_io_def)
  moreover have "ext_8_3 (dir_name demo_file) = [72, 69, 76, 76, 79, 46, 84, 88, 84]" by code_simp
  ultimately show ?thesis by (simp add: vf_readdir_def file_out_def Let_def)
qed

end
