(* ===== verification/Byte_Sectors.thy ===== *)
theory Byte_Sectors
  imports RD_Prelude
begin

text \<open>
  The bytes of a medium that is divided into sectors of equal size, addressed across the borders of
  the sectors: the contract of a sequence of sectors as a locale, and how a range of bytes is put together
  from parts of sectors and from whole ones.
\<close>

definition sec_bytes :: "(nat \<Rightarrow> byte list) \<Rightarrow> nat \<Rightarrow> nat \<Rightarrow> nat \<Rightarrow> byte list" where
  "sec_bytes sec bs a n = map (\<lambda>i. sec (i div bs) ! (i mod bs)) [a..<a + n]"

lemma length_sec_bytes [simp]: "length (sec_bytes sec bs a n) = n"
  by (simp add: sec_bytes_def)

lemma sec_bytes_0 [simp]: "sec_bytes sec bs a 0 = []"
  by (simp add: sec_bytes_def)

lemma sec_bytes_nth: "i < n \<Longrightarrow> sec_bytes sec bs a n ! i = sec ((a + i) div bs) ! ((a + i) mod bs)"
  by (simp add: sec_bytes_def)

lemma sec_bytes_append: "sec_bytes sec bs a m @ sec_bytes sec bs (a + m) n = sec_bytes sec bs a (m + n)"
  using upt_add_eq_append [of a "a + m" n] unfolding sec_bytes_def map_append [symmetric] by (simp add: add.assoc)

locale sectors =
  fixes sec :: "nat \<Rightarrow> byte list" and bs :: nat
  assumes bs_pos: "0 < bs"
begin

lemma in_sector:
  assumes "a mod bs + i < bs"
  shows "(a + i) div bs = a div bs" "(a + i) mod bs = a mod bs + i"
proof -
  have e: "a + i = (a mod bs + i) + a div bs * bs" by simp
  have "(a + i) div bs = a div bs + (a mod bs + i) div bs"
    using arg_cong [OF e, of "\<lambda>x. x div bs"] div_mult_self1 [of bs "a mod bs + i" "a div bs"] bs_pos by linarith
  moreover have "(a + i) mod bs = (a mod bs + i) mod bs"
    using arg_cong [OF e, of "\<lambda>x. x mod bs"] mod_mult_self1 [of "a mod bs + i" "a div bs" bs] by linarith
  ultimately show "(a + i) div bs = a div bs" "(a + i) mod bs = a mod bs + i" using assms by simp_all
qed

lemma from_sector:
  assumes "length (sec (a div bs)) = bs" "a mod bs + n \<le> bs"
  shows "take n (drop (a mod bs) (sec (a div bs))) = sec_bytes sec bs a n"
proof (rule nth_equalityI)
  fix i
  assume "i < length (take n (drop (a mod bs) (sec (a div bs))))"
  then have "i < n" "a mod bs + i < bs" using assms by simp_all
  then show "take n (drop (a mod bs) (sec (a div bs))) ! i = sec_bytes sec bs a n ! i"
    using in_sector [of a i] assms by (simp add: sec_bytes_nth)
qed (use assms in simp)

lemma whole_sectors:
  assumes "\<And>i. length (sec i) = bs" "a mod bs = 0"
  shows "concat (map (\<lambda>i. sec (a div bs + i)) [0..<n]) = sec_bytes sec bs a (n * bs)"
proof (induction n)
  case (Suc n)
  have "bs dvd a" using assms(2) by auto
  then have d: "(a + n * bs) div bs = a div bs + n" "(a + n * bs) mod bs = 0" using bs_pos assms(2) by (auto simp: mod_mult_self1)
  have "sec (a div bs + n) = sec_bytes sec bs (a + n * bs) bs"
    using from_sector [of "a + n * bs" bs] assms(1) d by simp
  then show ?case using Suc sec_bytes_append [of sec bs a "n * bs" bs] by (simp add: add.commute)
qed simp

end

end
