(* ===== verification/Cd_Cache.thy ===== *)
theory Cd_Cache
  imports Ram_State Byte_Sectors
begin

text \<open>
  The block cache of the CD-ROM file systems (\<open>extensio/cd-mxfs/doscache.c\<close>).  Blocks of 2048 bytes
  are kept in an array of buffers that all logical devices share; \<open>DCRead\<close> reads any range of bytes,
  long runs of whole blocks past the cache.  \<open>Metaread\<close> (MetaDOS, the driver of the CD-ROM) and the
  clock of the system (\<open>get_hz\<close>) are parameters.
\<close>

subsection \<open>State\<close>

definition BLOCKSIZE :: nat where "BLOCKSIZE = 2048"
definition MEDIADELAY :: "32 word" where "MEDIADELAY = 400"

record CACHEENTRY =
  ce_data :: "byte list"
  ce_timestamp :: "32 word"
  ce_blkno :: "32 word"
  ce_device :: "16 word"

text \<open>\<open>-1\<close> is the block number of an unused buffer.\<close>

abbreviation no_block :: "32 word" where "no_block \<equiv> - 1"

text \<open>The table of contents of a disc: control bits and address of the start of a track (\<open>struct cdrom_tocentry\<close>).\<close>

record tocentry =
  cdte_ctrl :: "8 word"
  cdte_addr :: "32 word"

text \<open>
  The services of MetaDOS and of GEMDOS; \<open>'d\<close> is the state of the drives and of the clock.
  \<open>Metaread\<close> gets the device, the number of the first block and of the blocks to read; it delivers
  its result and the bytes it has stored in the buffer.  \<open>Metaioctl\<close> has one field per opcode.
\<close>

record 'd meta =
  Metaread :: "16 word \<Rightarrow> 32 word \<Rightarrow> nat \<Rightarrow> 'd \<Rightarrow> (int \<times> byte list) \<times> 'd"
  get_hz :: "'d \<Rightarrow> 32 word \<times> 'd"
  Metastatus :: "16 word \<Rightarrow> 'd \<Rightarrow> 32 word \<times> 'd"
  CDROMREADOFFSET :: "16 word \<Rightarrow> 'd \<Rightarrow> (int \<times> 32 word) \<times> 'd"
  CDROMREADTOCHDR :: "16 word \<Rightarrow> 'd \<Rightarrow> (int \<times> byte \<times> byte) \<times> 'd"
  CDROMREADTOCENTRY :: "16 word \<Rightarrow> byte \<Rightarrow> byte \<Rightarrow> 'd \<Rightarrow> (int \<times> tocentry) \<times> 'd"
  CDROMREADDA :: "16 word \<Rightarrow> 32 word \<Rightarrow> nat \<Rightarrow> 'd \<Rightarrow> (int \<times> byte list) \<times> 'd"
  Metagettoc :: "16 word \<Rightarrow> 16 word \<Rightarrow> 'd \<Rightarrow> (int \<times> byte list) \<times> 'd"
  Metadiscinfo :: "16 word \<Rightarrow> 'd \<Rightarrow> (int \<times> byte list) \<times> 'd"
  Tgetdate :: "'d \<Rightarrow> 16 word \<times> 'd"
  Tgettime :: "'d \<Rightarrow> 16 word \<times> 'd"

text \<open>The tables of functions of the three file systems; \<open>No_fs\<close> is the table cleared by \<open>memset\<close>.\<close>

datatype filesystem = No_fs | Isofs | Hfs | Tocfs

text \<open>
  The state of a call: the cache that all drives share (\<open>DCSize\<close> is its length), the drive and the
  fields of \<open>LOGICAL_DEV\<close>.  \<open>fslabel\<close> and \<open>lastde.name\<close> are C strings without the closing zero.
\<close>

record 'd ldev =
  DCCache :: "CACHEENTRY list"
  drv :: 'd
  metadevice :: "16 word"
  fspreference :: int
  ld_fs :: filesystem
  scratch :: "byte list"
  fsprivate :: "16 word"
  fslabel :: "byte list"
  ld_blocksize :: "32 word"
  totalsize :: "32 word"
  rootdir :: "32 word"
  rootdirsize :: "32 word"
  mediatime :: "32 word"
  mount_date :: "16 word"
  mount_time :: "16 word"
  partoffset :: "32 word"
  allocstart :: "32 word"
  hfs_blocksize :: "32 word"
  catalogextents :: "(16 word \<times> 16 word) list"
  overflowextents :: "(16 word \<times> 16 word) list"
  lastde_name :: "byte list"
  lastde_inuse :: "16 word"

subsection \<open>Operations\<close>

definition DCClear :: "'d ldev \<Rightarrow> 'd ldev" where
  "DCClear s = s\<lparr>DCCache := map (\<lambda>e. if ce_device e = metadevice s then e\<lparr>ce_blkno := no_block\<rparr> else e) (DCCache s)\<rparr>"

text \<open>An unused buffer, or the one that was not used for the longest time; \<open>i\<close> is the index of the first entry of the list.\<close>

fun free_loop :: "32 word \<Rightarrow> CACHEENTRY list \<Rightarrow> int \<Rightarrow> int \<Rightarrow> 32 word \<Rightarrow> int" where
  "free_loop current [] i lst oldest = lst"
| "free_loop current (e # es) i lst oldest =
     (let timestamp = current - ce_timestamp e in
      if ce_blkno e = no_block then i
      else if lst < 0 \<or> timestamp > oldest then free_loop current es (i + 1) i timestamp
      else free_loop current es (i + 1) lst oldest)"

definition get_free_buffer :: "'d meta \<Rightarrow> 'd ldev \<Rightarrow> int \<times> 'd ldev" where
  "get_free_buffer K s =
     (case get_hz K (drv s) of (current, d) \<Rightarrow> (free_loop current (DCCache s) 0 (-1) 0, s\<lparr>drv := d\<rparr>))"

definition holds :: "16 word \<Rightarrow> 32 word \<Rightarrow> CACHEENTRY \<Rightarrow> bool" where
  "holds dev blockno e \<longleftrightarrow> dev = ce_device e \<and> ce_blkno e = blockno"

definition locate_block_in_buffer :: "'d meta \<Rightarrow> 32 word \<Rightarrow> 'd ldev \<Rightarrow> int \<times> 'd ldev" where
  "locate_block_in_buffer K blockno s =
     (case find (\<lambda>i. holds (metadevice s) blockno (DCCache s ! i)) [0..<length (DCCache s)] of
        None \<Rightarrow> (-1, s)
      | Some i \<Rightarrow>
          (case get_hz K (drv s) of (t, d) \<Rightarrow>
             (int i, s\<lparr>DCCache := (DCCache s)[i := (DCCache s ! i)\<lparr>ce_timestamp := t\<rparr>], drv := d\<rparr>)))"

text \<open>The index of the buffer that holds a block, or an error code.\<close>

definition get_block :: "'d meta \<Rightarrow> 32 word \<Rightarrow> 'd ldev \<Rightarrow> (int \<times> 'd ldev) option" where
  "get_block K blockno s =
     (case locate_block_in_buffer K blockno s of (entry, s) \<Rightarrow>
        if entry \<ge> 0 then Some (entry, s)
        else
          (case get_free_buffer K s of (entry, s) \<Rightarrow>
             if entry < 0 \<or> int (length (DCCache s)) \<le> entry then None
             else
               (case Metaread K (metadevice s) blockno 1 (drv s) of ((err, bytes), d) \<Rightarrow>
                  (let e = (DCCache s ! nat entry)\<lparr>ce_data := overwrite 0 bytes (ce_data (DCCache s ! nat entry))\<rparr>;
                       s = s\<lparr>DCCache := (DCCache s)[nat entry := e], drv := d\<rparr> in
                   if err \<noteq> 0 then Some (err, s)
                   else
                     (case get_hz K (drv s) of (t, d) \<Rightarrow>
                        Some (entry, s\<lparr>DCCache := (DCCache s)[nat entry := e\<lparr>ce_blkno := blockno, ce_device := metadevice s,
                                         ce_timestamp := t\<rparr>], drv := d, mediatime := t + MEDIADELAY\<rparr>))))))"

text \<open>Storing bytes at \<open>p\<close> in the buffer of the caller.\<close>

definition store :: "nat \<Rightarrow> byte list \<Rightarrow> byte list \<Rightarrow> byte list option" where
  "store p bs buf = (if p + length bs \<le> length buf then Some (overwrite p bs buf) else None)"

text \<open>The part of a read that the first round transfers: error code, number of bytes, buffer.\<close>

definition read_round ::
  "'d meta \<Rightarrow> nat \<Rightarrow> nat \<Rightarrow> nat \<Rightarrow> byte list \<Rightarrow> 'd ldev \<Rightarrow> (int \<times> nat \<times> byte list \<times> 'd ldev) option" where
  "read_round K adr cnt p buf s =
     (let blockno = of_nat (adr div BLOCKSIZE); offset = adr mod BLOCKSIZE; toread = min (BLOCKSIZE - offset) cnt;
          (past, s) = (if offset = 0 \<and> BLOCKSIZE * 2 \<le> cnt
                       then (case locate_block_in_buffer K blockno s of (i, s) \<Rightarrow> (i < 0, s)) else (False, s)) in
      if past then
        (let blks = cnt div BLOCKSIZE mod 65536 in
         case Metaread K (metadevice s) blockno blks (drv s) of ((err, bytes), d) \<Rightarrow> do {
           buf \<leftarrow> store p bytes buf;
           Some (if err < 0 then err else 0, blks * BLOCKSIZE, buf, s\<lparr>drv := d\<rparr>) })
      else do {
        (err, s) \<leftarrow> get_block K blockno s;
        if err < 0 then Some (err, 0, buf, s)
        else if int (length (DCCache s)) \<le> err then None
        else do {
          buf \<leftarrow> store p (take toread (drop offset (ce_data (DCCache s ! nat err)))) buf;
          Some (0, toread, buf, s) } })"

partial_function (option) DCRead_loop ::
  "'d meta \<Rightarrow> nat \<Rightarrow> nat \<Rightarrow> nat \<Rightarrow> byte list \<Rightarrow> 'd ldev \<Rightarrow> (int \<times> byte list \<times> 'd ldev) option" where
  "DCRead_loop K adr cnt p buf s =
     (if cnt = 0 then Some (0, buf, s)
      else
        (case read_round K adr cnt p buf s of
           None \<Rightarrow> None
         | Some (err, toread, buf, s) \<Rightarrow>
             if err < 0 then Some (err, buf, s)
             else DCRead_loop K ((adr + toread) mod 2 ^ 32) (cnt - toread) (p + toread) buf s))"

definition DCRead :: "'d meta \<Rightarrow> nat \<Rightarrow> nat \<Rightarrow> byte list \<Rightarrow> 'd ldev \<Rightarrow> (int \<times> byte list \<times> 'd ldev) option" where
  "DCRead K adr cnt buf s = DCRead_loop K adr cnt 0 buf s"

subsection \<open>The contract of the drive\<close>

text \<open>
  A medium: the bytes of each block of each device, and the blocks that can be read; those past the
  end of the disc and the damaged ones cannot.  A read delivers the bytes or a negative error code; a
  read that fails stores nothing.
\<close>

record medium =
  m_data :: "16 word \<Rightarrow> 32 word \<Rightarrow> byte list"
  m_ok :: "16 word \<Rightarrow> 32 word \<Rightarrow> bool"

definition blocks_ok :: "medium \<Rightarrow> 16 word \<Rightarrow> 32 word \<Rightarrow> nat \<Rightarrow> bool" where
  "blocks_ok med dev b n \<longleftrightarrow> (\<forall>i\<in>{..<n}. m_ok med dev (b + of_nat i))"

definition drive_ok :: "'d meta \<Rightarrow> medium \<Rightarrow> bool" where
  "drive_ok K med \<longleftrightarrow> (\<forall>dev b. length (m_data med dev b) = BLOCKSIZE)
     \<and> (\<forall>dev b n d. \<exists>err bytes d'. Metaread K dev b n d = ((err, bytes), d')
          \<and> (err = 0 \<and> blocks_ok med dev b n \<and> bytes = concat (map (\<lambda>i. m_data med dev (b + of_nat i)) [0..<n]) \<or> err < 0 \<and> bytes = []))"

text \<open>A reliable drive reads every block that can be read; the theorems do without, and say what follows from it.\<close>

definition reliable :: "'d meta \<Rightarrow> medium \<Rightarrow> bool" where
  "reliable K med \<longleftrightarrow> (\<forall>dev b n d. 0 < n \<longrightarrow> blocks_ok med dev b n \<longrightarrow> fst (fst (Metaread K dev b n d)) = 0)"

text \<open>Every buffer in use holds the block it is marked with.\<close>

definition cache_ok :: "medium \<Rightarrow> 'd ldev \<Rightarrow> bool" where
  "cache_ok med s \<longleftrightarrow> (\<forall>e \<in> set (DCCache s). length (ce_data e) = BLOCKSIZE
     \<and> (ce_blkno e \<noteq> no_block \<longrightarrow> m_ok med (ce_device e) (ce_blkno e) \<and> ce_data e = m_data med (ce_device e) (ce_blkno e)))"

definition same_cd :: "'d ldev \<Rightarrow> 'd ldev \<Rightarrow> bool" where
  "same_cd s s' \<longleftrightarrow> length (DCCache s') = length (DCCache s)
     \<and> s'\<lparr>DCCache := DCCache s, drv := drv s, mediatime := mediatime s\<rparr> = s"

lemma same_cd_trans: "same_cd s t \<Longrightarrow> same_cd t u \<Longrightarrow> same_cd s u"
  unfolding same_cd_def by (cases s; cases t; cases u) auto

lemma same_cd_refl [simp]: "same_cd s s"
  by (simp add: same_cd_def)

lemma same_cd_keep: "same_cd s s' \<Longrightarrow> length (DCCache s') = length (DCCache s) \<and> metadevice s' = metadevice s \<and> scratch s' = scratch s
    \<and> ld_blocksize s' = ld_blocksize s \<and> fsprivate s' = fsprivate s \<and> rootdir s' = rootdir s \<and> ld_fs s' = ld_fs s"
  unfolding same_cd_def by (cases s; cases s') auto

lemma drive_read:
  assumes "drive_ok K med"
  obtains err bytes d' where "Metaread K dev b n d = ((err, bytes), d')"
    "err = 0 \<and> blocks_ok med dev b n \<and> bytes = concat (map (\<lambda>i. m_data med dev (b + of_nat i)) [0..<n]) \<or> err < 0 \<and> bytes = []"
  using assms unfolding drive_ok_def by blast

lemma locate_ok:
  assumes "cache_ok med s" "locate_block_in_buffer K b s = (i, s')"
  shows "cache_ok med s'" "same_cd s s'"
    "0 \<le> i \<Longrightarrow> nat i < length (DCCache s') \<and> holds (metadevice s) b (DCCache s' ! nat i)" "i < 0 \<Longrightarrow> s' = s"
proof -
  consider "find (\<lambda>i. holds (metadevice s) b (DCCache s ! i)) [0..<length (DCCache s)] = None"
    | k t d where "find (\<lambda>i. holds (metadevice s) b (DCCache s ! i)) [0..<length (DCCache s)] = Some k" "get_hz K (drv s) = (t, d)"
        "k < length (DCCache s)" "holds (metadevice s) b (DCCache s ! k)"
    by (cases "find (\<lambda>i. holds (metadevice s) b (DCCache s ! i)) [0..<length (DCCache s)]"; cases "get_hz K (drv s)")
       (auto simp: find_Some_iff)
  then have "cache_ok med s' \<and> same_cd s s' \<and> (0 \<le> i \<longrightarrow> nat i < length (DCCache s') \<and> holds (metadevice s) b (DCCache s' ! nat i))
      \<and> (i < 0 \<longrightarrow> s' = s)"
  proof cases
    case 1
    then show ?thesis using assms by (auto simp: locate_block_in_buffer_def same_cd_def)
  next
    case 2
    then have "s' = s\<lparr>DCCache := (DCCache s)[k := (DCCache s ! k)\<lparr>ce_timestamp := t\<rparr>], drv := d\<rparr>" "i = int k"
      using assms(2) by (auto simp: locate_block_in_buffer_def)
    moreover have "DCCache s ! k \<in> set (DCCache s)" using 2 by simp
    ultimately show ?thesis using 2 assms(1)
      by (auto simp: cache_ok_def same_cd_def holds_def dest!: subsetD [OF set_update_subset_insert])
  qed
  then show "cache_ok med s'" "same_cd s s'"
    "0 \<le> i \<Longrightarrow> nat i < length (DCCache s') \<and> holds (metadevice s) b (DCCache s' ! nat i)" "i < 0 \<Longrightarrow> s' = s" by blast+
qed

lemma free_loop_range: "lst < i \<Longrightarrow> es \<noteq> [] \<or> 0 \<le> lst \<Longrightarrow> 0 \<le> i \<Longrightarrow> 0 \<le> free_loop c es i lst old \<and> free_loop c es i lst old < i + int (length es)"
proof (induction es arbitrary: i lst old)
  case (Cons e es)
  show ?case using Cons.IH [of i "i + 1"] Cons.IH [of lst "i + 1"] Cons.prems by (auto simp: Let_def add.assoc)
qed auto

lemma get_block_ok:
  assumes K: "drive_ok K med" and c: "cache_ok med s" and n: "DCCache s \<noteq> []" and b: "b \<noteq> no_block"
  shows "\<exists>i s'. get_block K b s = Some (i, s') \<and> cache_ok med s' \<and> same_cd s s'
    \<and> (0 \<le> i \<longrightarrow> nat i < length (DCCache s') \<and> m_ok med (metadevice s) b \<and> ce_data (DCCache s' ! nat i) = m_data med (metadevice s) b)
    \<and> (i < 0 \<longrightarrow> \<not> (reliable K med \<and> m_ok med (metadevice s) b))"
proof -
  obtain i s1 where l: "locate_block_in_buffer K b s = (i, s1)" by fastforce
  note lo = locate_ok [OF c l]
  show ?thesis
  proof (cases "0 \<le> i")
    case True
    then have "DCCache s1 ! nat i \<in> set (DCCache s1)" "holds (metadevice s) b (DCCache s1 ! nat i)" using lo(3) by auto
    then have "m_ok med (metadevice s) b" "ce_data (DCCache s1 ! nat i) = m_data med (metadevice s) b" using lo(1) b by (auto simp: cache_ok_def holds_def)
    then show ?thesis using True lo l by (simp add: get_block_def)
  next
    case False
    then have s1: "s1 = s" using lo(4) by simp
    obtain cur d where h: "get_hz K (drv s) = (cur, d)" by fastforce
    let ?j = "free_loop cur (DCCache s) 0 (-1) 0"
    have j: "0 \<le> ?j" "?j < int (length (DCCache s))" using free_loop_range [of "-1" 0 "DCCache s" cur 0] n by auto
    obtain err bytes d' where m: "Metaread K (metadevice s) b 1 d = ((err, bytes), d')"
      "err = 0 \<and> m_ok med (metadevice s) b \<and> bytes = m_data med (metadevice s) b \<or> err < 0 \<and> bytes = []"
      by (rule drive_read [OF K, of "metadevice s" b 1 d]) (auto simp: blocks_ok_def lessThan_Suc)
    obtain t d'' where h2: "get_hz K d' = (t, d'')" by fastforce
    let ?o = "DCCache s ! nat ?j"
    have o: "?o \<in> set (DCCache s)" using j by simp
    have lm: "length (m_data med dev b) = BLOCKSIZE" "length (ce_data ?o) = BLOCKSIZE" for dev b
      using K c o by (auto simp: drive_ok_def cache_ok_def)
    have lt: "nat ?j < length (DCCache s)" using j by auto
    show ?thesis
    proof (cases "err = 0")
      case True
      then have bt: "bytes = m_data med (metadevice s) b" "m_ok med (metadevice s) b" using m(2) by simp_all
      have ov: "overwrite 0 bytes (ce_data ?o) = m_data med (metadevice s) b" using lm by (simp add: overwrite_def bt(1))
      let ?e = "?o\<lparr>ce_data := m_data med (metadevice s) b, ce_blkno := b, ce_device := metadevice s, ce_timestamp := t\<rparr>"
      let ?s = "s\<lparr>DCCache := (DCCache s)[nat ?j := ?e], drv := d'', mediatime := t + MEDIADELAY\<rparr>"
      have "get_block K b s = Some (?j, ?s)"
        using False l s1 h m(1) h2 j True ov by (simp add: get_block_def get_free_buffer_def Let_def)
      moreover have "cache_ok med ?s" using c lm bt(2) by (auto simp: cache_ok_def dest!: subsetD [OF set_update_subset_insert])
      ultimately show ?thesis using lt bt(2) j(1) by (intro exI [of _ ?j] exI [of _ ?s]) (simp add: same_cd_def)
    next
      case e: False
      then have "bytes = []" "err < 0" using m(2) by auto
      have "\<not> (reliable K med \<and> m_ok med (metadevice s) b)"
      proof
        assume "reliable K med \<and> m_ok med (metadevice s) b"
        then have "fst (fst (Metaread K (metadevice s) b 1 d)) = 0" unfolding reliable_def by (simp add: blocks_ok_def lessThan_Suc)
        then show False using m(1) e by simp
      qed
      let ?s = "s\<lparr>DCCache := (DCCache s)[nat ?j := ?o], drv := d'\<rparr>"
      have "get_block K b s = Some (err, ?s)"
        using False l s1 h m(1) j e \<open>bytes = []\<close> by (simp add: get_block_def get_free_buffer_def Let_def)
      moreover have "cache_ok med ?s" using c by (simp add: cache_ok_def)
      ultimately show ?thesis using \<open>err < 0\<close> \<open>\<not> (reliable K med \<and> m_ok med (metadevice s) b)\<close> by (intro exI [of _ err] exI [of _ ?s]) (auto simp: same_cd_def)
    qed
  qed
qed

subsection \<open>Reading delivers the bytes of the medium\<close>

definition disc_bytes :: "medium \<Rightarrow> 16 word \<Rightarrow> nat \<Rightarrow> nat \<Rightarrow> byte list" where
  "disc_bytes med dev = sec_bytes (\<lambda>i. m_data med dev (of_nat i)) BLOCKSIZE"

lemma BLOCKSIZE_pos: "0 < BLOCKSIZE"
  by (simp add: BLOCKSIZE_def)

interpretation disc: sectors "\<lambda>i. m_data med dev (of_nat i)" BLOCKSIZE for med dev
  by unfold_locales (rule BLOCKSIZE_pos)

text \<open>Every byte of a range lies in a block that can be read.\<close>

definition readable :: "medium \<Rightarrow> 16 word \<Rightarrow> nat \<Rightarrow> nat \<Rightarrow> bool" where
  "readable med dev a n \<longleftrightarrow> (\<forall>i\<in>{..<n}. m_ok med dev (of_nat ((a + i) div BLOCKSIZE)))"

lemma readable_append:
  assumes "readable med dev a m" "readable med dev (a + m) n"
  shows "readable med dev a (m + n)"
  unfolding readable_def
proof
  fix i
  assume i: "i \<in> {..<m + n}"
  show "m_ok med dev (of_nat ((a + i) div BLOCKSIZE))"
  proof (cases "i < m")
    case False
    then have "i - m < n" "a + m + (i - m) = a + i" using i by auto
    then show ?thesis using assms(2) unfolding readable_def by (metis lessThan_iff)
  qed (use assms(1) in \<open>simp add: readable_def\<close>)
qed

lemma length_disc_bytes [simp]: "length (disc_bytes med dev a n) = n"
  by (simp add: disc_bytes_def)

lemma disc_bytes_append: "disc_bytes med dev a m @ disc_bytes med dev (a + m) n = disc_bytes med dev a (m + n)"
  by (simp add: disc_bytes_def sec_bytes_append)

lemma disc_bytes_block:
  assumes "length (m_data med dev (of_nat (a div BLOCKSIZE))) = BLOCKSIZE" "a mod BLOCKSIZE + n \<le> BLOCKSIZE"
  shows "take n (drop (a mod BLOCKSIZE) (m_data med dev (of_nat (a div BLOCKSIZE)))) = disc_bytes med dev a n"
  using assms unfolding disc_bytes_def by (rule disc.from_sector)

lemma readable_block:
  assumes "m_ok med dev (of_nat (a div BLOCKSIZE))" "a mod BLOCKSIZE + n \<le> BLOCKSIZE"
  shows "readable med dev a n"
  unfolding readable_def
proof
  fix i
  assume "i \<in> {..<n}"
  then show "m_ok med dev (of_nat ((a + i) div BLOCKSIZE))"
    using assms disc.in_sector(1) [of a i] by simp
qed

lemma readable_blocks:
  assumes "a mod BLOCKSIZE = 0" "blocks_ok med dev (of_nat (a div BLOCKSIZE)) n"
  shows "readable med dev a (n * BLOCKSIZE)"
  unfolding readable_def
proof
  fix i
  assume i: "i \<in> {..<n * BLOCKSIZE}"
  have "(a + i) div BLOCKSIZE = a div BLOCKSIZE + i div BLOCKSIZE" using assms(1) by (simp add: div_add1_eq BLOCKSIZE_def)
  moreover have "i div BLOCKSIZE < n" using i by (simp add: less_mult_imp_div_less)
  ultimately show "m_ok med dev (of_nat ((a + i) div BLOCKSIZE))" using assms(2) by (simp add: blocks_ok_def)
qed

lemma readable_part: "readable med dev a n \<Longrightarrow> k + m \<le> n \<Longrightarrow> readable med dev (a + k) m"
  unfolding readable_def by (metis add.assoc add_less_cancel_left lessThan_iff order_less_le_trans)

lemma readable_first:
  assumes "readable med dev a n" "0 < n"
  shows "m_ok med dev (of_nat (a div BLOCKSIZE))"
  using assms unfolding readable_def by (metis add_0_right lessThan_iff)

lemma blocks_readable:
  assumes "readable med dev a n" "a mod BLOCKSIZE = 0" "k * BLOCKSIZE \<le> n"
  shows "blocks_ok med dev (of_nat (a div BLOCKSIZE)) k"
  unfolding blocks_ok_def
proof
  fix i
  assume "i \<in> {..<k}"
  then have "i * BLOCKSIZE < k * BLOCKSIZE" using BLOCKSIZE_pos by simp
  then have "i * BLOCKSIZE \<in> {..<n}" using assms(3) unfolding lessThan_iff by (rule order_less_le_trans)
  then have "m_ok med dev (of_nat ((a + i * BLOCKSIZE) div BLOCKSIZE))" using assms(1) unfolding readable_def by blast
  then show "m_ok med dev (of_nat (a div BLOCKSIZE) + of_nat i)" using BLOCKSIZE_pos by (simp add: add.commute)
qed

lemma disc_bytes_blocks:
  assumes "\<And>b. length (m_data med dev b) = BLOCKSIZE" "a mod BLOCKSIZE = 0"
  shows "concat (map (\<lambda>i. m_data med dev (of_nat (a div BLOCKSIZE) + of_nat i)) [0..<n]) = disc_bytes med dev a (n * BLOCKSIZE)"
  using disc.whole_sectors [of med dev a n] assms by (simp add: disc_bytes_def)

lemma overwrite_next: "p + length xs \<le> length c \<Longrightarrow> overwrite (p + length xs) ys (overwrite p xs c) = overwrite p (xs @ ys) c"
  by (simp add: overwrite_def ac_simps)

lemma read_round_ok:
  assumes K: "drive_ok K med" and c: "cache_ok med s" "DCCache s \<noteq> []" and n: "0 < cnt" "cnt < 65536 * BLOCKSIZE" "adr < 2 ^ 32"
    and buf: "p + cnt \<le> length buf"
  shows "\<exists>err k buf' s'. read_round K adr cnt p buf s = Some (err, k, buf', s') \<and> length buf' = length buf \<and> cache_ok med s' \<and> same_cd s s'
    \<and> (err < 0 \<and> \<not> (reliable K med \<and> readable med (metadevice s) adr cnt)
       \<or> err = 0 \<and> 0 < k \<and> k \<le> cnt \<and> readable med (metadevice s) adr k \<and> buf' = overwrite p (disc_bytes med (metadevice s) adr k) buf)"
proof -
  let ?b = "of_nat (adr div BLOCKSIZE) :: 32 word" and ?o = "adr mod BLOCKSIZE" and ?t = "min (BLOCKSIZE - adr mod BLOCKSIZE) cnt"
  have lm: "\<And>dev b. length (m_data med dev b) = BLOCKSIZE" using K by (simp add: drive_ok_def)
  have lo: "p + length xs \<le> length buf \<Longrightarrow> length (overwrite p xs buf) = length buf" for xs by (simp add: length_overwrite)
  have b: "?b \<noteq> no_block"
  proof -
    have u: "unat ?b = adr div BLOCKSIZE" using n(3) by (simp add: unat_of_nat BLOCKSIZE_def)
    have "adr div BLOCKSIZE < 2 ^ 32 - 1" using n(3) by (simp add: BLOCKSIZE_def)
    moreover have "unat no_block = 2 ^ 32 - 1" by (simp add: unsigned_minus_1_eq_mask mask_eq_exp_minus_1)
    ultimately have "unat ?b \<noteq> unat no_block" unfolding u by linarith
    then show ?thesis by auto
  qed
  define pl where "pl = (if ?o = 0 \<and> BLOCKSIZE * 2 \<le> cnt then (case locate_block_in_buffer K ?b s of (i, s) \<Rightarrow> (i < 0, s)) else (False, s))"
  obtain past s1 where pl2: "pl = (past, s1)" by fastforce
  have s1: "cache_ok med s1" "same_cd s s1" "past \<Longrightarrow> ?o = 0 \<and> BLOCKSIZE * 2 \<le> cnt"
    using pl2 c(1) locate_ok(1,2) [OF c(1), of K ?b] by (auto simp: pl_def same_cd_def split: if_splits prod.splits)
  have ne: "DCCache s1 \<noteq> []" "metadevice s1 = metadevice s" using same_cd_keep [OF s1(2)] c(2) by auto
  show ?thesis
  proof (cases past)
    case True
    let ?n = "cnt div BLOCKSIZE"
    have nn: "?n mod 65536 = ?n" "0 < ?n" "?n * BLOCKSIZE \<le> cnt"
      using n(2) s1(3) [OF True] by (auto simp: BLOCKSIZE_def)
    obtain err bytes d' where m: "Metaread K (metadevice s1) ?b ?n (drv s1) = ((err, bytes), d')"
      "err = 0 \<and> blocks_ok med (metadevice s1) ?b ?n \<and> bytes = concat (map (\<lambda>i. m_data med (metadevice s1) (?b + of_nat i)) [0..<?n]) \<or> err < 0 \<and> bytes = []"
      by (rule drive_read [OF K])
    have db: "concat (map (\<lambda>i. m_data med (metadevice s1) (?b + of_nat i)) [0..<?n]) = disc_bytes med (metadevice s1) adr (?n * BLOCKSIZE)"
      using disc_bytes_blocks [of med "metadevice s1" adr ?n] lm s1(3) [OF True] by simp
    have rd: "err = 0 \<Longrightarrow> readable med (metadevice s) adr (?n * BLOCKSIZE)"
      using readable_blocks [of adr med "metadevice s" ?n] s1(3) [OF True] m(2) ne(2) by simp
    have nr: "\<not> (reliable K med \<and> readable med (metadevice s) adr cnt)" if "err < 0"
      using that m(1) nn(2) blocks_readable [of med "metadevice s" adr cnt ?n] s1(3) [OF True] nn(3) ne(2) unfolding reliable_def
      by (metis fst_conv less_irrefl)
    have st: "p + ?n * BLOCKSIZE \<le> length buf" using nn(3) buf by linarith
    have "read_round K adr cnt p buf s = Some (if err < 0 then err else 0, ?n * BLOCKSIZE, overwrite p bytes buf, s1\<lparr>drv := d'\<rparr>)"
      using pl2 True m st nn db by (auto simp: read_round_def Let_def pl_def [symmetric] store_def)
    then show ?thesis using m(2) s1(1,2) db rd nr nn ne(2) st lo [of bytes] BLOCKSIZE_def by (auto simp: cache_ok_def same_cd_def)
  next
    case False
    obtain i s2 where g: "get_block K ?b s1 = Some (i, s2)" "cache_ok med s2" "same_cd s1 s2"
      "0 \<le> i \<longrightarrow> nat i < length (DCCache s2) \<and> m_ok med (metadevice s1) ?b \<and> ce_data (DCCache s2 ! nat i) = m_data med (metadevice s1) ?b"
      "i < 0 \<longrightarrow> \<not> (reliable K med \<and> m_ok med (metadevice s1) ?b)"
      using get_block_ok [OF K s1(1) ne(1) b] by blast
    show ?thesis
    proof (cases "i < 0")
      case True
      then have "\<not> (reliable K med \<and> readable med (metadevice s) adr cnt)" using g(5) readable_first n(1) ne(2) by metis
      then show ?thesis using True False pl2 g(1,2) same_cd_trans [OF s1(2) g(3)] by (simp add: read_round_def Let_def pl_def [symmetric])
    next
      case i: False
      have t: "0 < ?t" "?o + ?t \<le> BLOCKSIZE" "?t \<le> cnt" using n(1) by (auto simp: BLOCKSIZE_def)
      have "take ?t (drop ?o (ce_data (DCCache s2 ! nat i))) = disc_bytes med (metadevice s) adr ?t"
        using g(4) i disc_bytes_block [of med "metadevice s" adr ?t] lm t(2) ne(2) by simp
      then have "read_round K adr cnt p buf s = Some (0, ?t, overwrite p (disc_bytes med (metadevice s) adr ?t) buf, s2)"
        using False pl2 g i t buf by (auto simp: read_round_def Let_def pl_def [symmetric] store_def)
      then show ?thesis
        using g(2,3,4) s1(2) t i ne(2) same_cd_trans [of s s1 s2] readable_block [of med "metadevice s" adr ?t] buf
          lo [of "disc_bytes med (metadevice s) adr ?t"] by auto
    qed
  qed
qed

lemma DCRead_loop_ok:
  assumes K: "drive_ok K med"
  shows "cache_ok med s \<Longrightarrow> DCCache s \<noteq> [] \<Longrightarrow> cnt < 65536 * BLOCKSIZE \<Longrightarrow> adr + cnt < 2 ^ 32 \<Longrightarrow> p + cnt \<le> length buf \<Longrightarrow>
    \<exists>err buf' s'. DCRead_loop K adr cnt p buf s = Some (err, buf', s') \<and> length buf' = length buf \<and> cache_ok med s' \<and> same_cd s s'
     \<and> (err < 0 \<and> \<not> (reliable K med \<and> readable med (metadevice s) adr cnt) \<or> err = 0 \<and> readable med (metadevice s) adr cnt \<and> buf' = overwrite p (disc_bytes med (metadevice s) adr cnt) buf)"
proof (induction cnt arbitrary: adr p buf s rule: less_induct)
  case (less cnt)
  show ?case
  proof (cases "cnt = 0")
    case True
    then show ?thesis using less.prems by (subst DCRead_loop.simps) (simp add: disc_bytes_def readable_def)
  next
    case False
    obtain err k buf1 s1 where r: "read_round K adr cnt p buf s = Some (err, k, buf1, s1)" "length buf1 = length buf" "cache_ok med s1" "same_cd s s1"
      "err < 0 \<and> \<not> (reliable K med \<and> readable med (metadevice s) adr cnt) \<or> err = 0 \<and> 0 < k \<and> k \<le> cnt \<and> readable med (metadevice s) adr k \<and> buf1 = overwrite p (disc_bytes med (metadevice s) adr k) buf"
      using read_round_ok [OF K less.prems(1,2) _ less.prems(3) _ less.prems(5), of adr] False less.prems(4) by auto
    show ?thesis
    proof (cases "err < 0")
      case True
      then show ?thesis using r False by (subst DCRead_loop.simps) auto
    next
      case e: False
      then have k: "err = 0" "0 < k" "k \<le> cnt" "buf1 = overwrite p (disc_bytes med (metadevice s) adr k) buf" "readable med (metadevice s) adr k" using r(5) by auto
      have s1: "DCCache s1 \<noteq> []" "metadevice s1 = metadevice s" using same_cd_keep [OF r(4)] less.prems(2) by auto
      note l1 = r(2)
      have "(adr + k) mod 2 ^ 32 = adr + k" using k(3) less.prems(4) by simp
      then have un: "DCRead_loop K adr cnt p buf s = DCRead_loop K (adr + k) (cnt - k) (p + k) buf1 s1"
        using r(1) False k(1) by (subst DCRead_loop.simps) simp
      have "overwrite (p + k) (disc_bytes med (metadevice s) (adr + k) (cnt - k)) buf1 = overwrite p (disc_bytes med (metadevice s) adr cnt) buf"
        using overwrite_next [of p "disc_bytes med (metadevice s) adr k" buf] disc_bytes_append [of med "metadevice s" adr k "cnt - k"] k(3,4) less.prems(5) by simp
      moreover have "readable med (metadevice s) (adr + k) (cnt - k) \<Longrightarrow> readable med (metadevice s) adr cnt"
        using readable_append [OF k(5), of "cnt - k"] k(3) by simp
      moreover have "readable med (metadevice s) adr cnt \<Longrightarrow> readable med (metadevice s) (adr + k) (cnt - k)"
        using readable_part [of med "metadevice s" adr cnt k "cnt - k"] k(3) by simp
      moreover obtain err' buf' s' where "DCRead_loop K (adr + k) (cnt - k) (p + k) buf1 s1 = Some (err', buf', s')" "length buf' = length buf" "cache_ok med s'" "same_cd s1 s'"
        "err' < 0 \<and> \<not> (reliable K med \<and> readable med (metadevice s) (adr + k) (cnt - k)) \<or> err' = 0 \<and> readable med (metadevice s) (adr + k) (cnt - k)
           \<and> buf' = overwrite (p + k) (disc_bytes med (metadevice s) (adr + k) (cnt - k)) buf1"
        using less.IH [of "cnt - k" s1 "adr + k" "p + k" buf1] k(2,3) r(3) s1 l1 less_imp_diff_less [OF less.prems(3), of k] less.prems(4,5) by auto
      ultimately show ?thesis unfolding un using same_cd_trans [OF r(4)] by auto
    qed
  qed
qed

end
