(* ===== verification/Cd_Cache_Props.thy ===== *)
theory Cd_Cache_Props
  imports Cd_Cache
begin

text \<open>
  Properties of the block cache: a read through the cache delivers the bytes of the medium, the
  buffer that is reused is an unused one or the oldest, and two ways in which the cache fails: a
  driver that stores bytes before it reports an error, and a read of 65536 blocks.
\<close>

lemma overwrite_start: "overwrite 0 xs c = xs @ drop (length xs) c"
  by (simp add: overwrite_def)

lemma DCRead_ok:
  assumes "drive_ok K med" "cache_ok med s" "DCCache s \<noteq> []" "cnt < 65536 * BLOCKSIZE" "adr + cnt < 2 ^ 32" "cnt \<le> length buf"
  obtains err buf' s' where "DCRead K adr cnt buf s = Some (err, buf', s')" "length buf' = length buf" "cache_ok med s'" "same_cd s s'"
    "err < 0 \<and> \<not> (reliable K med \<and> readable med (metadevice s) adr cnt)
     \<or> err = 0 \<and> readable med (metadevice s) adr cnt \<and> buf' = disc_bytes med (metadevice s) adr cnt @ drop cnt buf"
  using DCRead_loop_ok [OF assms(1-5), of 0 buf] assms(6) by (auto simp: DCRead_def overwrite_start)

text \<open>A read that begins in a block that cannot be read fails, also when it runs past the last address.\<close>

lemma DCRead_unreadable:
  assumes "drive_ok K med" "cache_ok med s" "DCCache s \<noteq> []" "0 < cnt" "cnt < 65536 * BLOCKSIZE" "adr < 2 ^ 32" "cnt \<le> length buf"
    and bad: "\<not> m_ok med (metadevice s) (of_nat (adr div BLOCKSIZE))"
  obtains err buf' s' where "DCRead K adr cnt buf s = Some (err, buf', s')" "length buf' = length buf" "cache_ok med s'" "same_cd s s'" "err < 0"
proof -
  obtain err k buf' s' where r: "read_round K adr cnt 0 buf s = Some (err, k, buf', s')" "length buf' = length buf" "cache_ok med s'"
    "same_cd s s'" "err < 0 \<or> 0 < k \<and> readable med (metadevice s) adr k"
    using read_round_ok [OF assms(1-6), of 0 buf] assms(7) by auto
  have "\<not> readable med (metadevice s) adr k" if "0 < k" using bad that by (auto simp: readable_def intro!: bexI [of _ 0])
  then have "err < 0" using r(5) by blast
  then have "DCRead K adr cnt buf s = Some (err, buf', s')" using r(1) assms(4) by (simp add: DCRead_def DCRead_loop.simps [of K adr cnt])
  then show ?thesis using that r(2-4) \<open>err < 0\<close> by blast
qed

text \<open>C5: Reading through the cache is reading the medium.  If the driver delivers the bytes of the medium
  or fails without storing anything, and every buffer in use holds its block, then \<open>DCRead\<close> returns
  for every range of less than 65536 blocks: with an error code, or with 0 and exactly the bytes of the
  range in the buffer of the caller, none of them from a block that cannot be read.  It does not fail when all blocks can be read and
  the drive is reliable.  The buffers
  still hold their blocks and nothing but the cache, the drive and the time of the medium has changed.
\<close>

theorem DCRead_reads_medium:
  assumes "drive_ok K med" "cache_ok med s" "DCCache s \<noteq> []" "cnt < 65536 * BLOCKSIZE" "adr + cnt < 2 ^ 32" "cnt \<le> length buf"
  shows "\<exists>err buf' s'. DCRead K adr cnt buf s = Some (err, buf', s') \<and> cache_ok med s' \<and> same_cd s s'
    \<and> (err < 0 \<and> \<not> (reliable K med \<and> readable med (metadevice s) adr cnt)
       \<or> err = 0 \<and> readable med (metadevice s) adr cnt \<and> buf' = disc_bytes med (metadevice s) adr cnt @ drop cnt buf)"
  using DCRead_ok [OF assms] by metis

text \<open>A disc of four blocks, the bytes of block \<open>b\<close> are \<open>b\<close>; the clock ticks with every question.\<close>

definition demo_disc :: medium where
  "demo_disc = \<lparr>m_data = \<lambda>dev b. replicate BLOCKSIZE (ucast b), m_ok = \<lambda>dev b. unat b < 4\<rparr>"

definition demo_read :: "16 word \<Rightarrow> 32 word \<Rightarrow> nat \<Rightarrow> nat \<Rightarrow> (int \<times> byte list) \<times> nat" where
  "demo_read dev b n d = ((if unat b + n \<le> 4 then (0, concat (map (\<lambda>i. m_data demo_disc dev (b + of_nat i)) [0..<n])) else (- 11, [])), d)"

definition demo_meta :: "nat meta" where
  "demo_meta = \<lparr>Metaread = demo_read, get_hz = \<lambda>d. (of_nat d, Suc d), Metastatus = \<lambda>dev d. (0, d),
     CDROMREADOFFSET = \<lambda>dev d. ((- 32, 0), d), CDROMREADTOCHDR = \<lambda>dev d. ((- 32, 0, 0), d),
     CDROMREADTOCENTRY = \<lambda>dev t f d. ((- 32, \<lparr>cdte_ctrl = 0, cdte_addr = 0\<rparr>), d),
     CDROMREADDA = \<lambda>dev b n d. ((- 32, []), d), Metagettoc = \<lambda>dev f d. ((- 32, []), d),
     Metadiscinfo = \<lambda>dev d. ((- 32, []), d), Tgetdate = \<lambda>d. (0, d), Tgettime = \<lambda>d. (0, d)\<rparr>"

definition empty_entry :: CACHEENTRY where
  "empty_entry = \<lparr>ce_data = replicate BLOCKSIZE 0, ce_timestamp = 0, ce_blkno = no_block, ce_device = 0\<rparr>"

definition demo_ldev :: "nat \<Rightarrow> nat ldev" where
  "demo_ldev n = \<lparr>DCCache = replicate n empty_entry, drv = 0, metadevice = 65, fspreference = 0, ld_fs = No_fs,
     scratch = replicate 2352 0, fsprivate = 0, fslabel = [], ld_blocksize = 2048, totalsize = 0, rootdir = 0, rootdirsize = 0,
     mediatime = 0, mount_date = 0, mount_time = 0, partoffset = 0, allocstart = 0, hfs_blocksize = 0, catalogextents = [],
     overflowextents = [], lastde_name = [], lastde_inuse = 0\<rparr>"

lemma demo_drive_ok: "drive_ok demo_meta demo_disc"
proof -
  have "blocks_ok demo_disc dev b n" if "unat b + n \<le> 4" for dev b n
  proof -
    have "unat (b + of_nat i) < 4" if "i < n" for i
      using \<open>unat b + n \<le> 4\<close> that by (simp add: unat_word_ariths unat_of_nat)
    then show ?thesis by (simp add: blocks_ok_def demo_disc_def)
  qed
  then show ?thesis by (auto simp: drive_ok_def demo_meta_def demo_read_def demo_disc_def)
qed

lemma demo_cache_ok: "cache_ok med (demo_ldev n)"
  by (simp add: cache_ok_def demo_ldev_def empty_entry_def)

lemma four_blocks:
  assumes "0 < n" "blocks_ok med dev b n" "\<And>b. m_ok med dev b = (unat b < 4)"
  shows "unat b + n \<le> 4"
proof (rule ccontr)
  have m: "unat (b + of_nat i) < 4" if "i < n" for i using assms(2,3) that by (simp add: blocks_ok_def)
  have b: "unat b < 4" using m [of 0] assms(1) by simp
  assume "\<not> unat b + n \<le> 4"
  then have "unat (b + of_nat (4 - unat b)) < 4" using m [of "4 - unat b"] b by linarith
  moreover have "unat (b + of_nat (4 - unat b)) = 4" using b by (simp add: unat_word_ariths unat_of_nat)
  ultimately show False by simp
qed

lemma demo_reliable: "reliable demo_meta demo_disc"
  using four_blocks [of _ demo_disc] by (simp add: reliable_def demo_meta_def demo_read_def demo_disc_def)

theorem DCRead_reads_medium_witness:
  "\<exists>buf' s'. DCRead demo_meta 2046 4 [9, 9, 9, 9, 9] (demo_ldev 2) = Some (0, buf', s') \<and> cache_ok demo_disc s'
    \<and> same_cd (demo_ldev 2) s' \<and> buf' = disc_bytes demo_disc (metadevice (demo_ldev 2)) 2046 4 @ drop 4 [9, 9, 9, 9, 9]"
proof -
  have "unat (of_nat ((2046 + i) div BLOCKSIZE) :: 32 word) < 4" if "i < 4" for i using that by (simp add: BLOCKSIZE_def unat_of_nat)
  then have "readable demo_disc (metadevice (demo_ldev 2)) 2046 4" by (simp add: readable_def demo_disc_def)
  moreover have "DCCache (demo_ldev 2) \<noteq> []" "(4 :: nat) < 65536 * BLOCKSIZE" "(2046 :: nat) + 4 < 2 ^ 32" "4 \<le> length [9 :: byte, 9, 9, 9, 9]"
    by (simp_all add: demo_ldev_def BLOCKSIZE_def)
  ultimately show ?thesis
    using DCRead_reads_medium [OF demo_drive_ok demo_cache_ok, of "2" 4 2046 "[9, 9, 9, 9, 9]"] demo_reliable by blast
qed

subsection \<open>The buffer that is reused\<close>

lemma free_loop_unused:
  "\<exists>e\<in>set es. ce_blkno e = no_block \<Longrightarrow>
   \<exists>k. free_loop c es i l old = i + int k \<and> k < length es \<and> ce_blkno (es ! k) = no_block \<and> (\<forall>j<k. ce_blkno (es ! j) \<noteq> no_block)"
proof (induction es arbitrary: i l old)
  case (Cons e es)
  show ?case
  proof (cases "ce_blkno e = no_block")
    case True
    then show ?thesis by (intro exI [of _ 0]) (simp add: Let_def)
  next
    case False
    then have "\<exists>e\<in>set es. ce_blkno e = no_block" using Cons.prems by auto
    then have "\<exists>k. free_loop c (e # es) i l old = i + 1 + int k \<and> k < length es \<and> ce_blkno (es ! k) = no_block \<and> (\<forall>j<k. ce_blkno (es ! j) \<noteq> no_block)"
      using Cons.IH [of "i + 1" i "c - ce_timestamp e"] Cons.IH [of "i + 1" l old] False by (simp add: Let_def)
    then show ?thesis using False by (elim exE) (rule_tac x = "Suc k" in exI, auto simp: nth_Cons split: nat.splits)
  qed
qed simp

lemma free_loop_oldest:
  "\<forall>e\<in>set es. ce_blkno e \<noteq> no_block \<Longrightarrow> 0 \<le> i \<Longrightarrow>
     (\<exists>k<length es. free_loop c es i l old = i + int k \<and> (\<forall>e\<in>set es. c - ce_timestamp e \<le> c - ce_timestamp (es ! k))
        \<and> (0 \<le> l \<longrightarrow> old \<le> c - ce_timestamp (es ! k)))
   \<or> free_loop c es i l old = l \<and> (0 \<le> l \<or> es = []) \<and> (\<forall>e\<in>set es. c - ce_timestamp e \<le> old)"
proof (induction es arbitrary: i l old)
  case (Cons e es)
  let ?t = "c - ce_timestamp e"
  have used: "\<forall>e\<in>set es. ce_blkno e \<noteq> no_block" "ce_blkno e \<noteq> no_block" using Cons.prems by auto
  show ?case
  proof (cases "l < 0 \<or> ?t > old")
    case True
    then have f: "free_loop c (e # es) i l old = free_loop c es (i + 1) i ?t" using used by (simp add: Let_def)
    consider k where "k < length es" "free_loop c es (i + 1) i ?t = i + 1 + int k" "\<forall>e\<in>set es. c - ce_timestamp e \<le> c - ce_timestamp (es ! k)"
        "?t \<le> c - ce_timestamp (es ! k)"
      | "free_loop c es (i + 1) i ?t = i" "\<forall>e\<in>set es. c - ce_timestamp e \<le> ?t"
      using Cons.IH [OF used(1), of "i + 1" i ?t] Cons.prems(2) by auto
    then show ?thesis
    proof cases
      case 1
      then show ?thesis using True unfolding f by (intro disjI1 exI [of _ "Suc k"]) auto
    next
      case 2
      then show ?thesis using True unfolding f by (intro disjI1 exI [of _ 0]) auto
    qed
  next
    case False
    then have f: "free_loop c (e # es) i l old = free_loop c es (i + 1) l old" using used by (simp add: Let_def)
    consider k where "k < length es" "free_loop c es (i + 1) l old = i + 1 + int k" "\<forall>e\<in>set es. c - ce_timestamp e \<le> c - ce_timestamp (es ! k)"
        "old \<le> c - ce_timestamp (es ! k)"
      | "free_loop c es (i + 1) l old = l" "\<forall>e\<in>set es. c - ce_timestamp e \<le> old"
      using Cons.IH [OF used(1), of "i + 1" l old] Cons.prems(2) False by auto
    then show ?thesis
    proof cases
      case 1
      then show ?thesis using False unfolding f by (intro disjI1 exI [of _ "Suc k"]) auto
    next
      case 2
      then show ?thesis using False unfolding f by (intro disjI2) auto
    qed
  qed
qed simp

text \<open>Which buffer is given up for a new block.  As long as a buffer is unused it is the first
  unused one; else it is one that was not used for longer than no other, where the age is the
  difference to the clock modulo \<open>2^32\<close>, so that the choice is right also when the clock has wrapped.
\<close>

theorem get_free_buffer_oldest:
  assumes "DCCache s \<noteq> []" "get_hz K (drv s) = (t0, d)"
  shows "\<exists>k. get_free_buffer K s = (int k, s\<lparr>drv := d\<rparr>) \<and> k < length (DCCache s)
    \<and> (if list_ex (\<lambda>e. ce_blkno e = no_block) (DCCache s)
       then ce_blkno (DCCache s ! k) = no_block \<and> list_all (\<lambda>e. ce_blkno e \<noteq> no_block) (take k (DCCache s))
       else list_all (\<lambda>e. t0 - ce_timestamp e \<le> t0 - ce_timestamp (DCCache s ! k)) (DCCache s))"
proof (cases "list_ex (\<lambda>e. ce_blkno e = no_block) (DCCache s)")
  case True
  then have "\<exists>e\<in>set (DCCache s). ce_blkno e = no_block" by (simp add: list_ex_iff)
  from free_loop_unused [OF this, of t0 0 "-1" 0] show ?thesis using assms True
    by (auto simp: get_free_buffer_def list_all_length)
next
  case False
  then have "\<forall>e\<in>set (DCCache s). ce_blkno e \<noteq> no_block" by (simp add: list_ex_iff)
  from free_loop_oldest [OF this, of 0 t0 "-1" 0] show ?thesis using assms False
    by (auto simp: get_free_buffer_def list_all_iff)
qed

theorem get_free_buffer_oldest_witness:
  "\<exists>k. get_free_buffer demo_meta (demo_ldev 2) = (int k, (demo_ldev 2)\<lparr>drv := 1\<rparr>) \<and> k < length (DCCache (demo_ldev 2))
    \<and> (if list_ex (\<lambda>e. ce_blkno e = no_block) (DCCache (demo_ldev 2))
       then ce_blkno (DCCache (demo_ldev 2) ! k) = no_block \<and> list_all (\<lambda>e. ce_blkno e \<noteq> no_block) (take k (DCCache (demo_ldev 2)))
       else list_all (\<lambda>e. 0 - ce_timestamp e \<le> 0 - ce_timestamp (DCCache (demo_ldev 2) ! k)) (DCCache (demo_ldev 2)))"
  by (rule get_free_buffer_oldest) (simp_all add: demo_ldev_def demo_meta_def)

subsection \<open>Where the cache fails\<close>

text \<open>
  A driver that transfers the first byte of a block before it fails, as one may that reads the
  medium sector by sector.
\<close>

definition bad_read :: "16 word \<Rightarrow> 32 word \<Rightarrow> nat \<Rightarrow> nat \<Rightarrow> (int \<times> byte list) \<times> nat" where
  "bad_read dev b n d = (if b = 0 then ((0, replicate BLOCKSIZE 7), d) else ((- 11, [8]), d))"

definition bad_meta :: "nat meta" where
  "bad_meta = demo_meta\<lparr>Metaread := bad_read\<rparr>"

definition then_read :: "'d meta \<Rightarrow> nat \<Rightarrow> (int \<times> byte list \<times> 'd ldev) option \<Rightarrow> (int \<times> byte list \<times> 'd ldev) option" where
  "then_read K adr r = (case r of None \<Rightarrow> None | Some (err, buf, s) \<Rightarrow> DCRead K adr 1 [0] s)"

lemma DCRead_one:
  assumes "get_block K (of_nat (adr div BLOCKSIZE)) s = Some (i, s')"
  shows "i < 0 \<Longrightarrow> DCRead K adr 1 [x] s = Some (i, [x], s')"
    "0 \<le> i \<Longrightarrow> nat i < length (DCCache s') \<Longrightarrow> length (ce_data (DCCache s' ! nat i)) = BLOCKSIZE
       \<Longrightarrow> DCRead K adr 1 [x] s = Some (0, [ce_data (DCCache s' ! nat i) ! (adr mod BLOCKSIZE)], s')"
proof -
  have m: "adr mod BLOCKSIZE < BLOCKSIZE" using BLOCKSIZE_pos by simp
  have t: "min (BLOCKSIZE - adr mod BLOCKSIZE) 1 = 1" using m by simp
  have np: "\<not> BLOCKSIZE * 2 \<le> 1" by (simp add: BLOCKSIZE_def)
  show "DCRead K adr 1 [x] s = Some (i, [x], s')" if "i < 0"
    using assms that t np by (simp add: DCRead_def DCRead_loop.simps [of K adr 1] read_round_def del: One_nat_def)
  assume i: "0 \<le> i" "nat i < length (DCCache s')" "length (ce_data (DCCache s' ! nat i)) = BLOCKSIZE"
  then have "take 1 (drop (adr mod BLOCKSIZE) (ce_data (DCCache s' ! nat i))) = [ce_data (DCCache s' ! nat i) ! (adr mod BLOCKSIZE)]"
    using m by (simp add: take_Suc_conv_app_nth)
  then have "read_round K adr 1 0 [x] s = Some (0, 1, [ce_data (DCCache s' ! nat i) ! (adr mod BLOCKSIZE)], s')"
    using assms i t np by (simp add: read_round_def Let_def store_def overwrite_def del: One_nat_def)
  then show "DCRead K adr 1 [x] s = Some (0, [ce_data (DCCache s' ! nat i) ! (adr mod BLOCKSIZE)], s')"
    by (simp add: DCRead_def DCRead_loop.simps [of K adr 1] DCRead_loop.simps [of K _ 0] del: One_nat_def)
qed


text \<open>C40: A read of 65536 blocks never ends.  \<open>DCRead\<close> keeps the number of blocks in a 16-bit
  variable, so that a read that starts at a block and is 65536 blocks long asks the driver again and again for no block.
\<close>

theorem DCRead_never_returns:
  assumes "\<forall>d. Metaread K (metadevice s) 0 0 d = ((0, []), d)" "list_all (\<lambda>e. \<not> holds (metadevice s) 0 e) (DCCache s)"
  shows "DCRead K 0 (65536 * BLOCKSIZE) buf s = None"
proof -
  let ?n = "65536 * BLOCKSIZE"
  have "find (\<lambda>i. holds (metadevice s) 0 (DCCache s ! i)) [0..<length (DCCache s)] = None"
    using assms(2) by (auto simp: find_None_iff list_all_length)
  then have r: "read_round K 0 ?n 0 buf s = Some (0, 0, buf, s)"
    using assms(1) by (simp add: read_round_def locate_block_in_buffer_def store_def BLOCKSIZE_def)
  have "\<not> (K' = K \<and> adr = 0 \<and> cnt = ?n \<and> p = 0 \<and> b = buf \<and> s' = s)" if "DCRead_loop K' adr cnt p b s' = Some y" for K' adr cnt p b s' y
    using that
  proof (rule DCRead_loop.raw_induct [rotated])
    fix f K' adr cnt p b s' y
    assume IH: "\<And>K' adr cnt p b s' y. f K' adr cnt p b s' = Some y \<Longrightarrow> \<not> (K' = K \<and> adr = 0 \<and> cnt = ?n \<and> p = 0 \<and> b = buf \<and> s' = s)"
      and "(if cnt = 0 then Some (0, b, s')
            else case read_round K' adr cnt p b s' of None \<Rightarrow> None
                 | Some (err, toread, buf, s) \<Rightarrow>
                     if err < 0 then Some (err, buf, s) else f K' ((adr + toread) mod 2 ^ 32) (cnt - toread) (p + toread) buf s) = Some y"
    then show "\<not> (K' = K \<and> adr = 0 \<and> cnt = ?n \<and> p = 0 \<and> b = buf \<and> s' = s)"
      using IH [of K 0 ?n 0 buf s y] r BLOCKSIZE_pos by auto
  qed
  from this [of K 0 ?n 0 buf s] show ?thesis by (cases "DCRead K 0 ?n buf s") (auto simp: DCRead_def)
qed

theorem DCRead_never_returns_witness:
  "DCRead demo_meta 0 (65536 * BLOCKSIZE) [] (demo_ldev 2) = None"
  by (rule DCRead_never_returns) (simp_all add: demo_ldev_def demo_meta_def demo_read_def holds_def empty_entry_def list_all_iff)

end
