(* ===== verification/Cd_Kern.thy ===== *)
theory Cd_Kern
  imports Cd_Cache_Props
begin

text \<open>
  The part of the CD-ROM library (\<open>extensio/cd-mxfs/doskern.c\<close>) that the three file systems share:
  directory entries, names of 8+3 characters, extended attributes, the preferred file system; and
  the reading of big-endian numbers.  Names are C strings, lists of bytes without the closing zero.
\<close>

unbundle bit_operations_syntax

definition ERROR :: int where "ERROR = -1"
definition EUNCMD :: int where "EUNCMD = -3"
definition EMEDIA :: int where "EMEDIA = -7"
definition EWRPRO :: int where "EWRPRO = -13"
definition EINSERT :: int where "EINSERT = -18"

lemmas cd_errs = err_defs E_CHNG_def ERROR_def EUNCMD_def EMEDIA_def EWRPRO_def EINSERT_def

definition FA_SUBDIR :: byte where "FA_SUBDIR = 0x10"
definition FA_HIDDEN :: byte where "FA_HIDDEN = 0x02"
definition FA_ARCHIVE :: byte where "FA_ARCHIVE = 0x20"
definition dir_rx :: mode16 where "dir_rx = 0x4000 OR 0x16D"
definition file_r :: mode16 where "file_r = 0x8000 OR 0x124"
definition LONGNAMELENGTH :: nat where "LONGNAMELENGTH = 128"

subsection \<open>Numbers in structures\<close>

definition be16 :: "byte list \<Rightarrow> nat \<Rightarrow> 16 word" where
  "be16 xs i = of_nat (unat (xs ! i) * 256 + unat (xs ! (i + 1)))"

definition be32 :: "byte list \<Rightarrow> nat \<Rightarrow> 32 word" where
  "be32 xs i = of_nat (unat (xs ! i) * 16777216 + unat (xs ! (i + 1)) * 65536 + unat (xs ! (i + 2)) * 256 + unat (xs ! (i + 3)))"

text \<open>The string that starts at the beginning of a list.\<close>

definition cstr :: "byte list \<Rightarrow> byte list" where
  "cstr xs = takeWhile (\<lambda>c. c \<noteq> 0) xs"

text \<open>\<open>strncpy\<close> with the closing zero behind the \<open>n\<close> bytes, into an array of \<open>bound\<close> bytes.\<close>

definition put_str :: "nat \<Rightarrow> nat \<Rightarrow> byte list \<Rightarrow> byte list option" where
  "put_str n bound src = (if n < bound then Some (cstr (take n src)) else None)"

subsection \<open>Directory entries\<close>

record CDENTRY =
  cd_pri_start :: "32 word"
  cd_pri_length :: "32 word"
  cd_ass_start :: "32 word"
  cd_ass_length :: "32 word"
  cd_iindex :: "32 word"
  cd_mode :: mode16
  cd_adate :: "16 word"
  cd_atime :: "16 word"
  cd_cdate :: "16 word"
  cd_ctime :: "16 word"
  cd_mdate :: "16 word"
  cd_mtime :: "16 word"
  cd_nlink :: "16 word"
  cd_uid :: "16 word"
  cd_gid :: "16 word"
  cd_tosattr :: byte
  cd_fsprivate :: byte
  cd_longname :: "byte list"
  cd_truncname :: "byte list"
  cd_type :: "32 word"
  cd_creator :: "32 word"

definition zero_cd :: CDENTRY where
  "zero_cd = \<lparr>cd_pri_start = 0, cd_pri_length = 0, cd_ass_start = 0, cd_ass_length = 0, cd_iindex = 0, cd_mode = 0,
     cd_adate = 0, cd_atime = 0, cd_cdate = 0, cd_ctime = 0, cd_mdate = 0, cd_mtime = 0, cd_nlink = 0, cd_uid = 0, cd_gid = 0,
     cd_tosattr = 0, cd_fsprivate = 0, cd_longname = [], cd_truncname = [], cd_type = 0, cd_creator = 0\<rparr>"

definition set_date :: "16 word \<Rightarrow> CDENTRY \<Rightarrow> CDENTRY" where
  "set_date d e = e\<lparr>cd_adate := d, cd_cdate := d, cd_mdate := d\<rparr>"

definition set_time :: "16 word \<Rightarrow> CDENTRY \<Rightarrow> CDENTRY" where
  "set_time t e = e\<lparr>cd_atime := t, cd_ctime := t, cd_mtime := t\<rparr>"

text \<open>The number of blocks of a fork; a block size of 0 is a division by zero.\<close>

definition blocks_of :: "32 word \<Rightarrow> 32 word \<Rightarrow> 32 word option" where
  "blocks_of bs len = (if bs = 0 then None else Some ((len + bs - 1) div bs))"

definition DKDirentry2Xattr :: "'d ldev \<Rightarrow> CDENTRY \<Rightarrow> int \<Rightarrow> XATTR option" where
  "DKDirentry2Xattr s de drive = do {
     n \<leftarrow> blocks_of (ld_blocksize s) (cd_pri_length de);
     m \<leftarrow> blocks_of (ld_blocksize s) (cd_ass_length de);
     Some \<lparr>st_mode = cd_mode de, st_ino = unat (cd_pri_start de), st_dev = drive, st_rdev = drive, st_nlink = uint (cd_nlink de),
       st_uid = uint (cd_uid de), st_gid = uint (cd_gid de), st_size = sint (cd_pri_length de), st_blksize = sint (ld_blocksize s),
       st_blocks = sint (n + m), st_mtim = (uint (cd_mtime de), uint (cd_mdate de)), st_atim = (uint (cd_atime de), uint (cd_adate de)),
       st_ctim = (uint (cd_ctime de), uint (cd_cdate de)), st_attr = ucast (cd_tosattr de)\<rparr> }"

subsection \<open>Names of 8+3 characters\<close>

definition b_toupper :: "byte \<Rightarrow> byte" where
  "b_toupper c = (if 97 \<le> c \<and> c \<le> 122 then c - 32 else c)"

text \<open>\<open>char\<close> is signed: the characters from 128 on are less than a blank.\<close>

definition tosify_char :: "byte \<Rightarrow> byte" where
  "tosify_char c = b_toupper (if c = 46 \<or> c \<le>s 32 then 95 else c)"

fun last_dot :: "byte list \<Rightarrow> nat option" where
  "last_dot [] = None"
| "last_dot (c # cs) = (case last_dot cs of Some i \<Rightarrow> Some (Suc i) | None \<Rightarrow> if c = 46 then Some 0 else None)"

definition tosify_dot :: "byte list \<Rightarrow> nat option" where
  "tosify_dot src = (case last_dot src of None \<Rightarrow> None | Some p \<Rightarrow> if length src - p > 4 \<or> p = 0 then None else Some p)"

definition DKTosify :: "byte list \<Rightarrow> byte list" where
  "DKTosify src =
     (if src = [46] \<or> src = [46, 46] then src
      else
        (let len = (case tosify_dot src of None \<Rightarrow> length src | Some p \<Rightarrow> p);
             base = map tosify_char (take 8 (take len src));
             dot = (case tosify_dot src of None \<Rightarrow> drop (length base) src | Some p \<Rightarrow> drop (p + 1) src) in
         base @ (if dot \<noteq> [] then [46] else []) @ map tosify_char (take 3 dot)))"

subsection \<open>The preferred file system\<close>

definition FSPREFERENCE_ISO :: int where "FSPREFERENCE_ISO = 0"
definition FSPREFERENCE_HFS :: int where "FSPREFERENCE_HFS = 1"
definition FSPREFERENCE_TOC :: int where "FSPREFERENCE_TOC = 2"

lemmas fspref_defs = FSPREFERENCE_ISO_def FSPREFERENCE_HFS_def FSPREFERENCE_TOC_def

definition DKFlipPreferred :: "'d ldev \<Rightarrow> 'd ldev" where
  "DKFlipPreferred s =
     (let p = s16 (fspreference s + 1) in s\<lparr>fspreference := if p < 0 then - ((- p) mod 3) else p mod 3\<rparr>)"

definition DKFlipPreferredReversed :: "'d ldev \<Rightarrow> 'd ldev" where
  "DKFlipPreferredReversed s = s\<lparr>fspreference := if fspreference s > 0 then fspreference s - 1 else 2\<rparr>"

subsection \<open>What the names look like\<close>

text \<open>A character that \<open>DKTosify\<close> leaves in a name.\<close>

definition tos_char :: "byte \<Rightarrow> bool" where
  "tos_char c \<longleftrightarrow> 32 < c \<and> c < 128 \<and> c \<noteq> 46 \<and> \<not> (97 \<le> c \<and> c \<le> 122)"

definition tos_8_3 :: "byte list \<Rightarrow> bool" where
  "tos_8_3 n \<longleftrightarrow> n = [46] \<or> n = [46, 46]
     \<or> (let b = takeWhile (\<lambda>c. c \<noteq> 46) n; e = drop (Suc (length b)) n in
        length b \<le> 8 \<and> list_all tos_char b \<and> (n = b \<or> b \<noteq> [] \<and> e \<noteq> [] \<and> length e \<le> 3 \<and> list_all tos_char e))"

lemma sle_32: "(c :: byte) \<le>s 32 \<longleftrightarrow> c \<le> 32 \<or> 128 \<le> c"
proof -
  have u: "uint c < 256" "0 \<le> uint c" using uint_lt2p [of c] by simp_all
  have "(uint c + 128) mod 256 = uint c - 128" if "128 \<le> uint c"
    using u that minus_mod_self2 [of "uint c + 128" 256] mod_pos_pos_trivial [of "uint c - 128" 256] by simp
  then have "sint c = (if uint c < 128 then uint c else uint c - 256)"
    using u by (simp add: sint_uint signed_take_bit_eq_take_bit_shift take_bit_eq_mod)
  then show ?thesis using u by (auto simp: word_sle_eq word_le_def)
qed

lemma tosify_char_ok: "tos_char (tosify_char c)"
proof -
  have "97 \<le> c \<Longrightarrow> unat (c - 32) = unat c - 32" by (simp add: unat_sub word_le_nat_alt)
  then show ?thesis by (auto simp: tos_char_def tosify_char_def b_toupper_def sle_32 word_le_nat_alt word_less_nat_alt word_unat_eq_iff)
qed

lemma tosify_char_id: "tos_char c \<Longrightarrow> tosify_char c = c"
  by (auto simp: tos_char_def tosify_char_def b_toupper_def sle_32)

lemma tos_char_dot: "tos_char c \<Longrightarrow> c \<noteq> 46"
  by (simp add: tos_char_def)

lemma last_dot_None: "last_dot xs = None \<longleftrightarrow> 46 \<notin> set xs"
  by (induction xs) (auto split: option.splits)

lemma last_dot_append: "46 \<notin> set ys \<Longrightarrow> last_dot (xs @ 46 # ys) = Some (length xs)"
  using last_dot_None [of ys] by (induction xs) auto

lemma tos_8_3_join:
  assumes "list_all tos_char b" "length b \<le> 8" "list_all tos_char e" "length e \<le> 3" "b \<noteq> [] \<or> e = []"
  shows "tos_8_3 (b @ (if e \<noteq> [] then [46] else []) @ e)"
proof -
  have nd: "46 \<notin> set b" using assms(1) tos_char_dot by (auto simp: list_all_iff)
  have "takeWhile (\<lambda>c. c \<noteq> 46) (b @ 46 # e) = b" "takeWhile (\<lambda>c. c \<noteq> 46) b = b"
    using nd takeWhile_tail [of "\<lambda>c. c \<noteq> 46" 46 b e] by (auto simp: takeWhile_eq_all_conv)
  then show ?thesis using assms by (auto simp: tos_8_3_def Let_def)
qed

lemma tosify_dot_pos: "tosify_dot src = Some p \<Longrightarrow> 0 < p \<and> p < length src"
proof -
  have "last_dot xs = Some p \<Longrightarrow> p < length xs" for xs p
    by (induction xs arbitrary: p) (auto split: option.splits if_splits)
  then show "tosify_dot src = Some p \<Longrightarrow> 0 < p \<and> p < length src"
    by (auto simp: tosify_dot_def split: option.splits if_splits)
qed

lemma DKTosify_form:
  assumes "src \<noteq> [46]" "src \<noteq> [46, 46]"
  obtains b e where "DKTosify src = b @ (if e \<noteq> [] then [46] else []) @ e" "list_all tos_char b" "length b \<le> 8"
    "list_all tos_char e" "length e \<le> 3" "b \<noteq> [] \<or> e = []"
proof -
  define len where "len = (case tosify_dot src of None \<Rightarrow> length src | Some p \<Rightarrow> p)"
  define base where "base = map tosify_char (take 8 (take len src))"
  define dot where "dot = (case tosify_dot src of None \<Rightarrow> drop (length base) src | Some p \<Rightarrow> drop (p + 1) src)"
  have "DKTosify src = base @ (if dot \<noteq> [] then [46] else []) @ map tosify_char (take 3 dot)"
    unfolding DKTosify_def Let_def base_def len_def dot_def using assms by (simp only: if_False simp_thms)
  moreover have "base \<noteq> [] \<or> dot = []"
    using tosify_dot_pos [of src] by (cases src; cases "tosify_dot src") (auto simp: base_def len_def dot_def)
  ultimately show ?thesis
    using that [of base "map tosify_char (take 3 dot)"] tosify_char_ok by (auto simp: list_all_iff base_def)
qed

lemma DKTosify_fixed:
  assumes "list_all tos_char b" "length b \<le> 8" "list_all tos_char e" "length e \<le> 3" "b \<noteq> [] \<or> e = []"
  shows "DKTosify (b @ (if e \<noteq> [] then [46] else []) @ e) = b @ (if e \<noteq> [] then [46] else []) @ e"
proof -
  have nd: "46 \<notin> set b" "46 \<notin> set e" using assms(1,3) tos_char_dot by (auto simp: list_all_iff)
  have id: "map tosify_char b = b" "map tosify_char e = e" using assms(1,3) tosify_char_id by (auto simp: list_all_iff intro: map_idI)
  show ?thesis
  proof (cases "e = []")
    case True
    then show ?thesis using assms nd id by (auto simp: DKTosify_def tosify_dot_def last_dot_None [THEN iffD2])
  next
    case False
    then have "last_dot (b @ 46 # e) = Some (length b)" using nd by (simp add: last_dot_append)
    moreover have "b @ 46 # e \<noteq> [46]" "b @ 46 # e \<noteq> [46, 46]" using False nd by (auto simp: append_eq_Cons_conv)
    ultimately show ?thesis using False assms id by (simp add: DKTosify_def tosify_dot_def)
  qed
qed

text \<open>The names of 8+3 characters.  \<open>DKTosify\<close> turns every name into \<open>.\<close>, \<open>..\<close> or at most eight
  characters, optionally followed by a dot and one to three characters, none of them a dot, a blank, a
  control character, a lower case letter or above 127; and it changes nothing on such a name.\<close>

theorem DKTosify_8_3:
  "tos_8_3 (DKTosify src) \<and> DKTosify (DKTosify src) = DKTosify src"
proof (cases "src = [46] \<or> src = [46, 46]")
  case True
  then show ?thesis by (auto simp: DKTosify_def tos_8_3_def)
next
  case False
  then obtain b e where n: "DKTosify src = b @ (if e \<noteq> [] then [46] else []) @ e" "list_all tos_char b" "length b \<le> 8"
    "list_all tos_char e" "length e \<le> 3" "b \<noteq> [] \<or> e = []" using DKTosify_form [of src] by auto
  then show ?thesis using tos_8_3_join [OF n(2-6)] DKTosify_fixed [OF n(2-6)] by simp
qed

end
