(* ===== verification/Cd_Iso.thy ===== *)
theory Cd_Iso
  imports Cd_Kern
begin

text \<open>
  The ISO 9660 file system with the Joliet and Rock Ridge extensions and the older High Sierra form
  (\<open>extensio/cd-mxfs/iso9660.c\<close>).  A directory record is read into the first 512 bytes of
  \<open>ldp->scratch\<close> (its fields are named by their offsets there), a system use field is copied to the bytes
  from 512 on.  \<open>None\<close> is an access outside an array or the use of a variable that was never set.
\<close>

subsection \<open>Names\<close>

definition RR_BUFSIZE :: nat where "RR_BUFSIZE = 512"
definition ISOFS_HIGHSIERRA :: "16 word" where "ISOFS_HIGHSIERRA = 1"
definition ISOFS_ROCKRIDGE :: "16 word" where "ISOFS_ROCKRIDGE = 2"
definition ISOFS_JOLIET :: "16 word" where "ISOFS_JOLIET = 4"

lemmas isofs_defs = ISOFS_HIGHSIERRA_def ISOFS_ROCKRIDGE_def ISOFS_JOLIET_def

definition uni_tab :: "16 word list" where
  "uni_tab = [
     0x00c7, 0x00fc, 0x00e9, 0x00e2, 0x00e4, 0x00e0, 0x00e5, 0x00e7, 0x00ea, 0x00eb, 0x00e8, 0x00ef, 0x00ee, 0x00ec, 0x00c4, 0x00c5,
     0x00c9, 0x00e6, 0x00c6, 0x00f4, 0x00f6, 0x00f2, 0x00fb, 0x00f9, 0x00ff, 0x00d6, 0x00dc, 0x00a2, 0x00a3, 0x00a5, 0x00df, 0x0192,
     0x00e1, 0x00ed, 0x00f3, 0x00fa, 0x00f1, 0x00d1, 0x00aa, 0x00ba, 0x00bf, 0x2310, 0x00ac, 0x00bd, 0x00bc, 0x00a1, 0x00ab, 0x00bb,
     0x00e3, 0x00f5, 0x00d8, 0x00f8, 0x0153, 0x0152, 0x00c0, 0x00c3, 0x00d5, 0x00a8, 0x00b4, 0x2020, 0x00b6, 0x00a9, 0x00ae, 0x2122,
     0x00c2, 0x00c1, 0x00ca, 0x00cb, 0x00c8, 0x00ce, 0x00cf, 0x00cc, 0x00cd, 0x00d4, 0x00d2, 0x00d3, 0x00db, 0x00d9, 0x00da, 0x201e,
     0x201c, 0x201d, 0x201a, 0x2018, 0x2039, 0x203a, 0x2013, 0x2014, 0x2019, 0x2191, 0x2193, 0x2192, 0x2190, 0x00a7, 0x2030, 0x221e,
     0x03b1, 0x03b2, 0x0393, 0x03c0, 0x2211, 0x03c3, 0x00b5, 0x03c4, 0x03a6, 0x0398, 0x2126, 0x03b4, 0x222b, 0x03c6, 0x2208, 0x220f,
     0x2261, 0x00b1, 0x2265, 0x2264, 0x2320, 0x2321, 0x00f7, 0x2248, 0x00b0, 0x2022, 0x00b7, 0x221a, 0x207f, 0x00b2, 0x00b3, 0x00af]"

definition remove_trailing_blanks :: "byte list \<Rightarrow> byte list" where
  "remove_trailing_blanks str = rev (dropWhile (\<lambda>c. c = 32) (rev str))"

text \<open>A character of two bytes: the index in the table of the characters from 128 on, where it is there.\<close>

definition uni_char :: "byte \<Rightarrow> byte \<Rightarrow> byte" where
  "uni_char hi lo =
     (let c = be16 [hi, lo] 0 in
      if c \<ge> 0x80 then (case find (\<lambda>j. uni_tab ! j = c) [0..<128] of Some j \<Rightarrow> of_nat j | None \<Rightarrow> ucast c) else ucast c)"

text \<open>The name is converted in its place; the result has its new length.\<close>

definition uni_tune :: "byte list \<Rightarrow> nat \<Rightarrow> byte list \<times> nat" where
  "uni_tune name namelen =
     (if namelen = 1 then (name, namelen)
      else (fold (\<lambda>i nm. nm[i := uni_char (nm ! (i * 2)) (nm ! (i * 2 + 1))]) [0..<namelen div 2] name, namelen div 2))"

definition name_end :: "byte \<Rightarrow> bool" where "name_end c \<longleftrightarrow> c = 0 \<or> c = 59"

definition drop_last_dot :: "byte list \<Rightarrow> byte list" where
  "drop_last_dot n = (if n \<noteq> [] \<and> last n = 46 then butlast n else n)"

text \<open>The records of the directory itself and of its parent have the names 0 and 1.\<close>

definition dot_name :: "byte list \<Rightarrow> nat \<Rightarrow> bool" where
  "dot_name src len \<longleftrightarrow> len = 1 \<and> (src ! 0 = 0 \<or> src ! 0 = 1)"

fun copyfn_loop :: "byte list \<Rightarrow> nat \<Rightarrow> bool \<Rightarrow> byte list" where
  "copyfn_loop [] namelen extflag = []"
| "copyfn_loop (c # src) namelen extflag =
     (if name_end c then []
      else if \<not> extflag \<and> c = 46 then c # copyfn_loop src 0 True
      else if \<not> extflag \<and> namelen < 8 \<or> extflag \<and> namelen < 3 \<and> c \<noteq> 46 then c # copyfn_loop src (namelen + 1) extflag
      else copyfn_loop src namelen extflag)"

definition copyfn :: "byte list \<Rightarrow> nat \<Rightarrow> byte list" where
  "copyfn src len =
     (if dot_name src len then (if src ! 0 \<noteq> 0 then [46, 46] else [46]) else drop_last_dot (copyfn_loop (take len src) 0 False))"

definition copyfn_long :: "byte list \<Rightarrow> nat \<Rightarrow> byte list" where
  "copyfn_long src len =
     (if dot_name src len then (if src ! 0 \<noteq> 0 then [46, 46] else [46])
      else drop_last_dot (takeWhile (\<lambda>c. \<not> name_end c) (take len src)))"

subsection \<open>System use fields\<close>

text \<open>The offset of the field number \<open>entryno\<close> with the signature \<open>tag\<close> in a record of \<open>len\<close> bytes.\<close>

function susp_loop :: "byte list \<Rightarrow> nat \<Rightarrow> byte \<times> byte \<Rightarrow> nat \<Rightarrow> nat \<Rightarrow> nat option" where
  "susp_loop p len tag entryno offset =
     (if \<not> offset + 3 < len \<or> p ! (offset + 2) = 0 then None
      else if (p ! offset, p ! (offset + 1)) = tag \<and> entryno = 0 then Some offset
      else if (p ! offset, p ! (offset + 1)) = (0x53, 0x54) then None
      else susp_loop p len tag (if (p ! offset, p ! (offset + 1)) = tag then entryno - 1 else entryno) (offset + unat (p ! (offset + 2))))"
  by pat_completeness auto
termination
proof (relation "measure (\<lambda>(p, len, tag, entryno, offset). len - offset)")
  fix p :: "byte list" and len entryno offset :: nat and tag
  assume "\<not> (\<not> offset + 3 < len \<or> p ! (offset + 2) = 0)"
  then have "offset < len" "0 < unat (p ! (offset + 2))" by (simp_all add: unat_gt_0)
  then show "((p, len, tag, if (p ! offset, p ! (offset + 1)) = tag then entryno - 1 else entryno, offset + unat (p ! (offset + 2))),
      (p, len, tag, entryno, offset)) \<in> measure (\<lambda>(p, len, tag, entryno, offset). len - offset)"
    by simp
qed simp

declare susp_loop.simps [simp del]

definition susp_start :: "byte list \<Rightarrow> nat" where
  "susp_start dir = (let offset = unat (dir ! 32) + 33 in if odd offset then offset + 1 else offset)"

definition get_susp_field :: "byte \<times> byte \<Rightarrow> nat \<Rightarrow> nat \<Rightarrow> 'd ldev \<Rightarrow> bool \<times> 'd ldev" where
  "get_susp_field tag bufsize entryno s =
     (let dir = scratch s in
      case susp_loop dir (unat (dir ! 0)) tag entryno (susp_start dir) of
        None \<Rightarrow> (False, s)
      | Some off \<Rightarrow> (True, s\<lparr>scratch := overwrite RR_BUFSIZE (take (min (unat (dir ! (off + 2))) bufsize) (drop off dir)) dir\<rparr>))"

text \<open>Byte \<open>i\<close> of the field that was found.\<close>

definition rr :: "'d ldev \<Rightarrow> nat \<Rightarrow> byte" where
  "rr s i = scratch s ! (RR_BUFSIZE + i)"

subsection \<open>The next directory entry\<close>

text \<open>Reading from the device into \<open>scratch\<close>.\<close>

definition read_scratch :: "'d meta \<Rightarrow> 32 word \<Rightarrow> nat \<Rightarrow> 'd ldev \<Rightarrow> (int \<times> 'd ldev) option" where
  "read_scratch K adr cnt s =
     (case DCRead K (unat adr) cnt (scratch s) s of None \<Rightarrow> None | Some (err, buf, s) \<Rightarrow> Some (err, s\<lparr>scratch := buf\<rparr>))"

definition block_start :: "32 word \<Rightarrow> 32 word" where
  "block_start a = a AND NOT 2047"

definition iso_flags :: "'d ldev \<Rightarrow> byte" where
  "iso_flags s = (if fsprivate s AND ISOFS_HIGHSIERRA \<noteq> 0 then scratch s ! 24 else scratch s ! 25)"

definition DE_EXISTENCE :: byte where "DE_EXISTENCE = 0x01"
definition DE_DIRECTORY :: byte where "DE_DIRECTORY = 0x02"
definition DE_FILE :: byte where "DE_FILE = 0x04"

lemmas de_flag_defs = DE_EXISTENCE_def DE_DIRECTORY_def DE_FILE_def

text \<open>
  The variables of the loop: the address of the next record, the address of this one, and of the last
  associated file its address, name and extent (\<open>extent\<close> and \<open>size\<close> are unset before the first).
\<close>

record iso_loc =
  l_addr :: "32 word"
  l_iindex :: "32 word"
  l_assoc :: "32 word"
  l_sname :: "byte list"
  l_extent :: "(32 word \<times> 32 word) option"

definition iso_name :: "'d ldev \<Rightarrow> byte list" where
  "iso_name s = drop 33 (scratch s)"

definition iso_extent :: "'d ldev \<Rightarrow> 32 word \<times> 32 word" where
  "iso_extent s = (be32 (scratch s) 6 * ld_blocksize s, be32 (scratch s) 14)"

text \<open>One round of the loop, with the record in \<open>scratch\<close>; the result tells whether another one follows.\<close>

definition iso_record :: "32 word \<Rightarrow> 'd ldev \<Rightarrow> iso_loc \<Rightarrow> bool \<times> iso_loc" where
  "iso_record dirend s l =
     (let len = scratch s ! 0; here = l_addr l; next = block_start here + 2048;
          l = l\<lparr>l_iindex := here, l_addr := if len = 0 then (if next \<ge> dirend then -1 else next) else here + ucast len\<rparr>;
          assoc = iso_flags s AND DE_FILE \<noteq> 0;
          l = (if assoc then l\<lparr>l_assoc := here, l_sname := copyfn_long (iso_name s) (unat (scratch s ! 32)), l_extent := Some (iso_extent s)\<rparr>
               else l) in
      (len = 0 \<or> assoc \<or> rootdir s = block_start here \<and> scratch s ! 32 = 1 \<and> scratch s ! 33 = 1, l))"

partial_function (option) iso_scan :: "'d meta \<Rightarrow> 32 word \<Rightarrow> iso_loc \<Rightarrow> 'd ldev \<Rightarrow> (int \<times> iso_loc \<times> 'd ldev) option" where
  "iso_scan K dirend l s =
     (if l_addr l = -1 then Some (ENMFIL, l, s)
      else
        (case read_scratch K (l_addr l) RR_BUFSIZE s of
           None \<Rightarrow> None
         | Some (err, s) \<Rightarrow>
             if err \<noteq> 0 then Some (err, l\<lparr>l_iindex := l_addr l\<rparr>, s)
             else (case iso_record dirend s l of (cont, l) \<Rightarrow> if cont then iso_scan K dirend l s else Some (0, l, s))))"

text \<open>The name of the record: \<open>longname\<close> has room for 127 characters.\<close>

definition iso_names :: "'d ldev \<Rightarrow> CDENTRY \<Rightarrow> CDENTRY option" where
  "iso_names s de =
     (let n = unat (scratch s ! 32); long = copyfn_long (iso_name s) n in
      if length long < LONGNAMELENGTH then Some (de\<lparr>cd_longname := long, cd_truncname := copyfn (iso_name s) n\<rparr>) else None)"

definition tune_rec :: "16 word \<Rightarrow> byte list \<Rightarrow> byte list" where
  "tune_rec fp dir =
     (if fp AND ISOFS_JOLIET \<noteq> 0
      then (case uni_tune (drop 33 dir) (unat (dir ! 32)) of (name, n) \<Rightarrow> (take 33 dir @ name)[32 := of_nat n])
      else dir)"

definition iso_tune :: "'d ldev \<Rightarrow> 'd ldev" where
  "iso_tune s = s\<lparr>scratch := tune_rec (fsprivate s) (scratch s)\<rparr>"

definition rr_NM :: "CDENTRY \<Rightarrow> 'd ldev \<Rightarrow> (CDENTRY \<times> 'd ldev) option" where
  "rr_NM de s =
     (case get_susp_field (0x4E, 0x4D) RR_BUFSIZE 0 s of (found, s) \<Rightarrow>
        if found \<and> rr s 4 AND 6 = 0
        then (let name_len = int (unat (rr s 2)) - 5 in
              if name_len < 0 then None
              else map_option (\<lambda>n. (de\<lparr>cd_longname := n\<rparr>, s)) (put_str (nat name_len) LONGNAMELENGTH (drop (RR_BUFSIZE + 5) (scratch s))))
        else Some (de, s))"

definition rr_SP :: "CDENTRY \<Rightarrow> 'd ldev \<Rightarrow> CDENTRY \<times> 'd ldev" where
  "rr_SP de s =
     (case get_susp_field (0x53, 0x50) RR_BUFSIZE 0 s of (found, s) \<Rightarrow>
        (if found \<and> rr s 2 = 7 \<and> rr s 3 = 1 \<and> rr s 4 = 0xBE \<and> rr s 5 = 0xEF then de\<lparr>cd_fsprivate := 1\<rparr> else de, s))"

definition rr_AA :: "CDENTRY \<Rightarrow> 'd ldev \<Rightarrow> CDENTRY \<times> 'd ldev" where
  "rr_AA de s =
     (case get_susp_field (0x41, 0x41) RR_BUFSIZE 0 s of (found, s) \<Rightarrow>
        (if found \<and> rr s 2 = 14 \<and> (rr s 3 = 2 \<or> rr s 3 = 6)
         then de\<lparr>cd_type := be32 (scratch s) (RR_BUFSIZE + 4), cd_creator := be32 (scratch s) (RR_BUFSIZE + 4 + 4 * 4)\<rparr> else de, s))"

text \<open>\<open>isonum_733_16\<close>: the lower half of the big-endian copy of a number.\<close>

definition num16 :: "'d ldev \<Rightarrow> nat \<Rightarrow> 16 word" where
  "num16 s i = be16 (scratch s) (RR_BUFSIZE + i + 6)"

definition rr_PX :: "CDENTRY \<Rightarrow> 'd ldev \<Rightarrow> bool \<times> CDENTRY \<times> 'd ldev" where
  "rr_PX de s =
     (case get_susp_field (0x50, 0x58) RR_BUFSIZE 0 s of (found, s) \<Rightarrow>
        if found \<and> rr s 3 = 1
        then (True, de\<lparr>cd_nlink := num16 s 12, cd_uid := num16 s 20, cd_gid := num16 s 28, cd_mode := num16 s 4\<rparr>, s)
        else (False, de, s))"

text \<open>Date and time from the bytes of a record; years before 1980 become 1980.\<close>

definition iso_date :: "byte list \<Rightarrow> 16 word" where
  "iso_date d =
     (if d ! 0 < 80 then push_bit 5 1 + 1
      else push_bit 9 ((ucast (d ! 0) - 80) AND 0x7f) OR push_bit 5 (ucast (d ! 1)) OR ucast (d ! 2))"

definition iso_time :: "byte list \<Rightarrow> 16 word" where
  "iso_time d =
     (if d ! 0 < 80 then 0 else push_bit 11 (ucast (d ! 3)) OR push_bit 5 (ucast (d ! 4)) OR drop_bit 1 (ucast (d ! 5)))"

definition iso_attribs :: "bool \<Rightarrow> byte \<Rightarrow> CDENTRY \<Rightarrow> CDENTRY" where
  "iso_attribs have_px flags de =
     (let dir = flags AND DE_DIRECTORY \<noteq> 0;
          de = (if have_px then de else de\<lparr>cd_nlink := if dir then 2 else 1, cd_uid := 0, cd_gid := 0, cd_mode := if dir then dir_rx else file_r\<rparr>) in
      de\<lparr>cd_tosattr := (if dir then FA_SUBDIR else 0) OR (if flags AND DE_EXISTENCE \<noteq> 0 then FA_HIDDEN else 0)\<rparr>)"

text \<open>The names and the fields of Rock Ridge; the result tells whether there was a field \<open>PX\<close>.\<close>

definition iso_fields :: "CDENTRY \<Rightarrow> 'd ldev \<Rightarrow> (bool \<times> CDENTRY \<times> 'd ldev) option" where
  "iso_fields de s =
     (if fsprivate s AND ISOFS_HIGHSIERRA = 0 then do {
        s \<leftarrow> Some (iso_tune s);
        de \<leftarrow> iso_names s de;
        (de, s) \<leftarrow> rr_NM de s;
        (de, s) \<leftarrow> Some (rr_SP de s);
        (de, s) \<leftarrow> Some (rr_AA de s);
        Some (rr_PX de s) }
      else do {
        de \<leftarrow> iso_names s de;
        Some (False, de, s) })"

text \<open>The entry of the record in \<open>scratch\<close>.\<close>

definition iso_de0 :: "iso_loc \<Rightarrow> 'd ldev \<Rightarrow> CDENTRY" where
  "iso_de0 l s = zero_cd\<lparr>cd_iindex := l_iindex l, cd_type := 0x54455854, cd_creator := 0x68635354,
     cd_pri_start := fst (iso_extent s), cd_pri_length := snd (iso_extent s)\<rparr>"

definition iso_entry :: "iso_loc \<Rightarrow> 'd ldev \<Rightarrow> (CDENTRY \<times> 'd ldev) option" where
  "iso_entry l s = do {
     (have_px, de, s') \<leftarrow> iso_fields (iso_de0 l s) s;
     dt \<leftarrow> Some (take 7 (drop 18 (scratch s)));
     de \<leftarrow> Some (iso_attribs have_px (iso_flags s) (set_time (iso_time dt) (set_date (iso_date dt) de)));
     if l_sname l = cd_truncname de
     then (case l_extent l of
             None \<Rightarrow> None
           | Some (extent, len) \<Rightarrow> Some (de\<lparr>cd_iindex := l_assoc l, cd_ass_start := extent, cd_ass_length := len\<rparr>, s'))
     else Some (de, s') }"

text \<open>The result: error code, next address, entry.\<close>

definition iso_get_direntry ::
  "'d meta \<Rightarrow> 32 word \<Rightarrow> 32 word \<Rightarrow> 'd ldev \<Rightarrow> (int \<times> 32 word \<times> CDENTRY \<times> 'd ldev) option" where
  "iso_get_direntry K addr dirend s = do {
     (err, l, s) \<leftarrow> iso_scan K dirend \<lparr>l_addr = addr, l_iindex = 0, l_assoc = 0, l_sname = [], l_extent = None\<rparr> s;
     if err \<noteq> 0 then Some (err, l_addr l, zero_cd\<lparr>cd_iindex := l_iindex l\<rparr>, s)
     else do {
       (de, s) \<leftarrow> iso_entry l s;
       Some (0, l_addr l, de, s) } }"

subsection \<open>The volume\<close>

text \<open>Whether the root directory has the field that announces Rock Ridge.\<close>

definition is_rr :: "'d meta \<Rightarrow> 'd ldev \<Rightarrow> (bool \<times> 'd ldev) option" where
  "is_rr K s = do {
     (err, addr, de, s) \<leftarrow> iso_get_direntry K (rootdir s) (rootdir s + rootdirsize s) s;
     Some (err = 0 \<and> cd_fsprivate de \<noteq> 0, s) }"

definition iso_readfile :: "'d meta \<Rightarrow> 32 word \<Rightarrow> 32 word \<Rightarrow> nat \<Rightarrow> byte list \<Rightarrow> 'd ldev \<Rightarrow> (int \<times> byte list \<times> 'd ldev) option" where
  "iso_readfile K start offset cnt buffer s = DCRead K (unat (start + offset)) cnt buffer s"

definition ISO_VD_PRIMARY :: byte where "ISO_VD_PRIMARY = 1"
definition ISO_VD_SUPPLEMENTARY :: byte where "ISO_VD_SUPPLEMENTARY = 2"

definition field :: "nat \<Rightarrow> nat \<Rightarrow> byte list \<Rightarrow> byte list" where
  "field off len xs = take len (drop off xs)"

text \<open>
  \<open>isonum_721\<close> is computed with a signed 16-bit \<open>int\<close>.  The offsets are those of
  \<open>iso_supplementary_descriptor\<close> and \<open>hs_primary_descriptor\<close>.
\<close>

definition isonum_721 :: "byte list \<Rightarrow> nat \<Rightarrow> 32 word" where
  "isonum_721 xs i = scast (be16 xs (i + 2))"

definition iso_magic :: "bool \<Rightarrow> 'd ldev \<Rightarrow> bool" where
  "iso_magic supplementary s \<longleftrightarrow>
     scratch s ! 0 = (if supplementary then ISO_VD_SUPPLEMENTARY else ISO_VD_PRIMARY)
     \<and> (field 1 5 (scratch s) = [0x43, 0x44, 0x30, 0x30, 0x31] \<or> field 1 5 (scratch s) = [0x43, 0x44, 0x2D, 0x49, 0x20])
     \<and> (supplementary \<longrightarrow> field 88 3 (scratch s) = [0x25, 0x2F, 0x40])"

text \<open>The record of the root directory; when it has no extent it is taken from the path table.\<close>

definition iso_root :: "'d meta \<Rightarrow> 'd ldev \<Rightarrow> (byte list \<times> 'd ldev) option" where
  "iso_root K s =
     (let root = field 156 34 (scratch s) in
      if be32 root 6 \<noteq> 0 then Some (root, s)
      else do {
        (err, path, s) \<leftarrow> DCRead K (unat (be32 (scratch s) 148 * 2048)) 9 (replicate 9 0) s;
        if err \<noteq> 0 then Some (root, s)
        else do {
          (err, root, s) \<leftarrow> DCRead K (unat (be32 path 2 * 2048)) 34 root s;
          Some (if err = 0 then overwrite 6 (field 2 4 path) root else root, s) } })"

definition iso_mount :: "'d meta \<Rightarrow> bool \<Rightarrow> byte list \<Rightarrow> 'd ldev \<Rightarrow> 'd ldev option" where
  "iso_mount K supplementary root s =
     (let bs = isonum_721 (scratch s) 128;
          (name, n) = (if supplementary then uni_tune (drop 40 (scratch s)) 32 else (drop 40 (scratch s), 32));
          s = s\<lparr>totalsize := be32 (scratch s) 84, ld_blocksize := bs, rootdir := be32 root 6 * bs, rootdirsize := be32 root 14,
                scratch := take 40 (scratch s) @ name, fslabel := remove_trailing_blanks (cstr (take n name)),
                fsprivate := if supplementary then ISOFS_JOLIET else 0\<rparr> in do {
      (found, s) \<leftarrow> is_rr K s;
      Some (if found then s\<lparr>fsprivate := ISOFS_ROCKRIDGE\<rparr> else s) })"

definition hs_magic :: "'d ldev \<Rightarrow> bool" where
  "hs_magic s \<longleftrightarrow> scratch s ! 8 = ISO_VD_PRIMARY \<and> field 9 5 (scratch s) = [0x43, 0x44, 0x52, 0x4F, 0x4D]"

definition hs_mount :: "'d ldev \<Rightarrow> 'd ldev" where
  "hs_mount s =
     (let bs = isonum_721 (scratch s) 136 in
      s\<lparr>totalsize := be32 (scratch s) 92, ld_blocksize := bs, rootdir := be32 (scratch s) 186 * bs, rootdirsize := be32 (scratch s) 194,
        fsprivate := ISOFS_HIGHSIERRA, fslabel := remove_trailing_blanks (cstr (field 48 32 (scratch s)))\<rparr>)"

text \<open>
  The volume descriptors from \<open>recno\<close> on, at most \<open>n\<close>; \<open>err\<close> is the result of the last read.
\<close>

fun iso_volumes :: "'d meta \<Rightarrow> bool \<Rightarrow> nat \<Rightarrow> 32 word \<Rightarrow> int \<Rightarrow> 'd ldev \<Rightarrow> (int \<times> 'd ldev) option" where
  "iso_volumes K supplementary 0 recno err s = Some (if err = 0 then ERROR else err, s)"
| "iso_volumes K supplementary (Suc n) recno err s = do {
     (err, s) \<leftarrow> read_scratch K (recno * 2048) 2048 s;
     (err, s) \<leftarrow> (if err = E_CHNG then read_scratch K (recno * 2048) 2048 s else Some (err, s));
     if err = EMEDIA \<or> err = EINSERT then Some (err, s)
     else if err \<noteq> 0 then iso_volumes K supplementary n (recno + 1) err s
     else do {
       (root, s) \<leftarrow> (if iso_magic supplementary s then iso_root K s else Some (replicate 34 0, s));
       if be32 root 6 \<noteq> 0 then do { s \<leftarrow> iso_mount K supplementary root s; Some (0, s) }
       else if hs_magic s then Some (0, hs_mount s)
       else iso_volumes K supplementary n (recno + 1) err s } }"

text \<open>The loop runs \<open>count\<close> times, unless \<open>count + lba\<close> wraps around.\<close>

definition iso_get_root1 :: "'d meta \<Rightarrow> 32 word \<Rightarrow> nat \<Rightarrow> bool \<Rightarrow> 'd ldev \<Rightarrow> (int \<times> 'd ldev) option" where
  "iso_get_root1 K lba count supplementary s =
     (let lba = lba + 16 in
      iso_volumes K supplementary (if of_nat count + lba > lba then count else 0) lba ERROR s)"

definition iso_get_root :: "'d meta \<Rightarrow> 32 word \<Rightarrow> nat \<Rightarrow> 'd ldev \<Rightarrow> (int \<times> 'd ldev) option" where
  "iso_get_root K lba count s = do {
     (err, s) \<leftarrow> iso_get_root1 K lba count True s;
     if err \<noteq> 0 then iso_get_root1 K lba count False s else Some (err, s) }"

text \<open>The label goes into a buffer of \<open>len\<close> bytes: error code and string stored there.\<close>

definition iso_label :: "int \<Rightarrow> bool \<Rightarrow> 'd ldev \<Rightarrow> (int \<times> byte list option) option" where
  "iso_label len rw s =
     (if rw then Some (EWRPRO, None)
      else if len \<le> 0 then None
      else Some (if int (length (fslabel s)) \<ge> len then ERANGE else 0, Some (take (nat len - 1) (fslabel s))))"

definition iso_pathconf :: "int \<Rightarrow> int \<Rightarrow> 'd ldev \<Rightarrow> int" where
  "iso_pathconf DKMaxOpenFiles mode s =
     (if mode = -1 then 7
      else if mode = 0 then DKMaxOpenFiles
      else if mode = 2 then 512
      else if mode = 3 then (if fsprivate s AND ISOFS_JOLIET \<noteq> 0 then 64 else if fsprivate s AND ISOFS_ROCKRIDGE \<noteq> 0 then 128 else 31)
      else if mode = 6 then (if fsprivate s AND ISOFS_JOLIET \<noteq> 0 then 2 else if fsprivate s AND ISOFS_ROCKRIDGE \<noteq> 0 then 0 else 1)
      else if mode = 4 then 0
      else if mode = 5 then 0
      else if mode = 1 then 1
      else if mode = 7 then 0x00900000 + 0x08 + 0x01 + 0x02
      else EINVFN)"

end
