(* ===== verification/Cd_Toc.thy ===== *)
theory Cd_Toc
  imports Cd_Iso
begin

text \<open>
  The file system of audio discs (\<open>extensio/cd-mxfs/tocfs.c\<close>): every track appears as a program that plays
  it, and audio tracks also as files in WAV format, data tracks as files with their blocks.  The program
  (\<open>procfile.s\<close>, assembly) is a parameter: its length and its bytes, which contain the device and the track.
\<close>

record proc =
  proc_len :: "32 word"
  proc_file :: "16 word \<Rightarrow> byte \<Rightarrow> byte list"

definition CD_FRAMES :: nat where "CD_FRAMES = 75"
definition CD_MSF_OFFSET :: nat where "CD_MSF_OFFSET = 150"
definition CD_MAX_TRACKS :: nat where "CD_MAX_TRACKS = 128"
definition CD_FRAMESIZE_RAW :: nat where "CD_FRAMESIZE_RAW = 2352"
definition PROGFILE_OFFSET :: "32 word" where "PROGFILE_OFFSET = 200"
definition FS_AUDIO :: "16 word" where "FS_AUDIO = 1"
definition FS_EMPTY :: "16 word" where "FS_EMPTY = 2"
definition CDROM_LBA :: byte where "CDROM_LBA = 1"
definition CDROM_MSF :: byte where "CDROM_MSF = 2"
definition CDROM_DATA_TRACK :: byte where "CDROM_DATA_TRACK = 4"
definition CDROM_LEADOUT :: byte where "CDROM_LEADOUT = 0xAA"

subsection \<open>The header of a WAV file\<close>

definition bytes32 :: "32 word \<Rightarrow> byte list" where
  "bytes32 w = [ucast (drop_bit 24 w), ucast (drop_bit 16 w), ucast (drop_bit 8 w), ucast w]"

definition bytes16 :: "16 word \<Rightarrow> byte list" where
  "bytes16 w = [ucast (drop_bit 8 w), ucast w]"

definition il2ml :: "32 word \<Rightarrow> 32 word" where
  "il2ml val = be32 (rev (bytes32 val)) 0"

definition is2ms :: "16 word \<Rightarrow> 16 word" where
  "is2ms val = be16 (rev (bytes16 val)) 0"

definition sizeof_WAVHEADER :: nat where "sizeof_WAVHEADER = 44"

text \<open>The bytes of \<open>wavheader\<close> after \<open>setupheader\<close>.\<close>

definition setupheader :: "32 word \<Rightarrow> byte list" where
  "setupheader len =
     [0x52, 0x49, 0x46, 0x46] @ bytes32 (il2ml (len + 36)) @ [0x57, 0x41, 0x56, 0x45] @ [0x66, 0x6D, 0x74, 0x20]
     @ bytes32 (il2ml 16) @ bytes16 (is2ms 1) @ bytes16 (is2ms 2) @ bytes32 (il2ml 44100) @ bytes32 (il2ml (44100 * 2 * 2))
     @ bytes16 (is2ms 4) @ bytes16 (is2ms 16) @ [0x64, 0x61, 0x74, 0x61] @ bytes32 (il2ml len)"

subsection \<open>Tracks\<close>

definition lba2time :: "32 word \<Rightarrow> 16 word" where
  "lba2time frame =
     (let s = frame div 75 + 1; h = s div 3600; s = s - h * 3600; m = s div 60; s = s - m * 60 in
      push_bit 11 (ucast h) OR push_bit 5 (ucast m) OR ucast (drop_bit 1 s))"

text \<open>C divides towards zero.\<close>

definition c_quot :: "int \<Rightarrow> int \<Rightarrow> int" where
  "c_quot x n = (if x < 0 then - ((- x) div n) else x div n)"

definition addr2track :: "int \<Rightarrow> int" where
  "addr2track addr = c_quot (s16 (addr + 1)) 2"

definition bcd2bin :: "byte \<Rightarrow> byte" where
  "bcd2bin val = drop_bit 4 val * 10 + (val AND 0x0f)"

text \<open>The table of contents in \<open>scratch\<close>, four bytes per track: number, minute, second, frame.\<close>

definition toc_lba :: "byte list \<Rightarrow> nat \<Rightarrow> 32 word" where
  "toc_lba toc i = (ucast (toc ! (4 * i + 1)) * 60 + ucast (toc ! (4 * i + 2))) * 75 + ucast (toc ! (4 * i + 3)) - 150"

fun toc_find :: "byte list \<Rightarrow> int \<Rightarrow> nat list \<Rightarrow> nat option" where
  "toc_find toc track [] = None"
| "toc_find toc track (i # js) =
     (if toc ! (4 * i) < 1 \<or> toc ! (4 * i) > 99 then None else if uint (toc ! (4 * i)) = track then Some i else toc_find toc track js)"

text \<open>The results: error code, this and the next track, the address of the next entry.\<close>

definition get_entries_m ::
  "'d meta \<Rightarrow> int \<Rightarrow> 32 word \<Rightarrow> 'd ldev \<Rightarrow> (int \<times> (tocentry \<times> tocentry) option \<times> 32 word \<times> 'd ldev) option" where
  "get_entries_m K track addr s =
     (let clear = overwrite 0 (replicate (CD_MAX_TRACKS * 4) 0) (scratch s) in
      case Metagettoc K (metadevice s) 1 (drv s) of ((err, bytes), d) \<Rightarrow> do {
        buf \<leftarrow> store 0 bytes clear;
        if err \<noteq> 0 then Some (err, None, addr, s\<lparr>scratch := buf, drv := d\<rparr>)
        else
          (let toc = map bcd2bin (take (CD_MAX_TRACKS * 4) buf); s = s\<lparr>scratch := overwrite 0 toc buf, drv := d\<rparr> in
           case toc_find toc track [0..<CD_MAX_TRACKS - 1] of
             Some i \<Rightarrow> Some (0, Some (\<lparr>cdte_ctrl = 0, cdte_addr = toc_lba toc i\<rparr>, \<lparr>cdte_ctrl = 0, cdte_addr = toc_lba toc (i + 1)\<rparr>), addr, s)
           | None \<Rightarrow> Some (ENMFIL, None, -1, s)) })"

definition get_entries ::
  "'d meta \<Rightarrow> int \<Rightarrow> 32 word \<Rightarrow> 'd ldev \<Rightarrow> (int \<times> (tocentry \<times> tocentry) option \<times> 32 word \<times> 'd ldev) option" where
  "get_entries K track addr s =
     (case CDROMREADTOCENTRY K (metadevice s) (of_int track) CDROM_LBA (drv s) of ((err, cur), d) \<Rightarrow>
        if err = EINVFN \<or> err = EUNCMD then get_entries_m K track addr (s\<lparr>drv := d\<rparr>)
        else if err \<noteq> 0 then Some (if err = EFILNF then ENMFIL else err, None, -1, s\<lparr>drv := d\<rparr>)
        else
          (case CDROMREADTOCENTRY K (metadevice s) (of_int (track + 1)) CDROM_LBA d of ((err, nxt), d) \<Rightarrow>
             if err = EFILNF
             then (case CDROMREADTOCENTRY K (metadevice s) CDROM_LEADOUT CDROM_LBA d of ((err, nxt), d) \<Rightarrow>
                     if err \<noteq> 0 then Some (err, None, -1, s\<lparr>drv := d\<rparr>) else Some (0, Some (cur, nxt), addr, s\<lparr>drv := d\<rparr>))
             else Some (0, Some (cur, nxt), addr, s\<lparr>drv := d\<rparr>)))"

subsection \<open>Directory entries\<close>

definition toc_dot :: "'d ldev \<Rightarrow> CDENTRY" where
  "toc_dot s =
     (let n = rootdirsize s in
      set_time (mount_time s) (set_date (mount_date s)
        (zero_cd\<lparr>cd_pri_length := if fsprivate s AND FS_AUDIO \<noteq> 0 then n * 2 else n, cd_mode := dir_rx, cd_nlink := 2, cd_tosattr := FA_SUBDIR,
           cd_longname := [46], cd_truncname := [46]\<rparr>)))"

text \<open>Odd addresses are the programs, even ones the files with the contents of the tracks.\<close>

definition toc_name :: "bool \<Rightarrow> bool \<Rightarrow> int \<Rightarrow> byte list" where
  "toc_name prog isaudio t =
     [0x54, 0x52, 0x41, 0x43, 0x4B, 0x30 + of_int (c_quot t 10), 0x30 + of_int (t - 10 * c_quot t 10), 0x2E]
     @ (if prog then [0x50, 0x52, 0x47] else if isaudio then [0x57, 0x41, 0x56] else [0x44, 0x41, 0x54])"

definition toc_entry :: "proc \<Rightarrow> 'd ldev \<Rightarrow> 32 word \<Rightarrow> int \<Rightarrow> tocentry \<times> tocentry \<Rightarrow> CDENTRY" where
  "toc_entry P s here track cn =
     (let prog = odd track; isaudio = cdte_ctrl (fst cn) AND CDROM_DATA_TRACK = 0; t = addr2track track; len = cdte_addr (snd cn) - cdte_addr (fst cn);
          name = toc_name prog isaudio t in
      (set_date (mount_date s) zero_cd)\<lparr>cd_iindex := here, cd_longname := name, cd_truncname := name,
        cd_mode := if prog then file_r OR 0x49 else file_r,
        cd_pri_start := if prog then of_int t else cdte_addr (fst cn) + PROGFILE_OFFSET,
        cd_pri_length := if prog then proc_len P else if isaudio then len * 2352 + 44 else len * 2048,
        cd_type := if prog then 0x2e505247 else if isaudio then 0x57415645 else 0x44415441,
        cd_atime := lba2time len, cd_mtime := lba2time len, cd_ctime := lba2time (cdte_addr (fst cn)),
        cd_nlink := 1, cd_creator := 0x5350494e\<rparr>)"

definition toc_shown :: "'d ldev \<Rightarrow> int \<Rightarrow> tocentry \<Rightarrow> bool" where
  "toc_shown s track cur \<longleftrightarrow>
     (let isaudio = cdte_ctrl cur AND CDROM_DATA_TRACK = 0 in
      if odd track then isaudio else \<not> isaudio \<or> fsprivate s AND FS_AUDIO \<noteq> 0)"

partial_function (option) toc_get_direntry ::
  "'d meta \<Rightarrow> proc \<Rightarrow> 32 word \<Rightarrow> 'd ldev \<Rightarrow> (int \<times> 32 word \<times> CDENTRY \<times> 'd ldev) option" where
  "toc_get_direntry K P addr s =
     (if addr = -1 then Some (ENMFIL, addr, zero_cd, s)
      else if addr = 0 then Some (0, if fsprivate s AND FS_EMPTY \<noteq> 0 then -1 else 1, toc_dot s, s)
      else
        (let track = s16 (uint addr) in
         case get_entries K (addr2track track) (addr + 1) s of
           None \<Rightarrow> None
         | Some (err, cn, addr', s) \<Rightarrow>
             (case cn of
                None \<Rightarrow> Some (err, addr', zero_cd\<lparr>cd_iindex := addr\<rparr>, s)
              | Some cn \<Rightarrow> if toc_shown s track (fst cn) then Some (0, addr', toc_entry P s addr track cn, s) else toc_get_direntry K P addr' s)))"

subsection \<open>Reading\<close>

text \<open>Raw sectors from \<open>lba\<close> on into \<open>scratch\<close>, of which \<open>n\<close> bytes from \<open>off\<close> on go to the caller.\<close>

definition read_da :: "'d meta \<Rightarrow> 32 word \<Rightarrow> 'd ldev \<Rightarrow> (int \<times> 'd ldev) option" where
  "read_da K lba s =
     (case CDROMREADDA K (metadevice s) lba CD_FRAMESIZE_RAW (drv s) of ((err, bytes), d) \<Rightarrow> do {
        buf \<leftarrow> store 0 bytes (scratch s);
        Some (err, s\<lparr>scratch := buf, drv := d\<rparr>) })"

text \<open>The loop over whole sectors; \<open>p\<close> is the position in the buffer, \<open>fo\<close> the offset in the audio data.\<close>

function toc_sectors ::
  "'d meta \<Rightarrow> 32 word \<Rightarrow> nat \<Rightarrow> nat \<Rightarrow> nat \<Rightarrow> byte list \<Rightarrow> 'd ldev \<Rightarrow> (int \<times> nat \<times> nat \<times> nat \<times> byte list \<times> 'd ldev) option" where
  "toc_sectors K start fo cnt p buf s =
     (if cnt \<le> CD_FRAMESIZE_RAW then Some (0, fo, cnt, p, buf, s)
      else
        (let sectors = min (cnt div CD_FRAMESIZE_RAW) 10000; n = sectors * CD_FRAMESIZE_RAW in
         case CDROMREADDA K (metadevice s) (start + of_nat (fo div CD_FRAMESIZE_RAW) - PROGFILE_OFFSET) n (drv s) of ((err, bytes), d) \<Rightarrow>
           (case store p bytes buf of
              None \<Rightarrow> None
            | Some buf \<Rightarrow>
                if err \<noteq> 0 then Some (err, fo, cnt, p, buf, s\<lparr>drv := d\<rparr>)
                else toc_sectors K start (fo + n) (cnt - n) (p + n) buf (s\<lparr>drv := d\<rparr>))))"
  by pat_completeness auto
termination
  by (relation "measure (\<lambda>(K, start, fo, cnt, p, buf, s). cnt)") (auto simp: CD_FRAMESIZE_RAW_def div_greater_zero_iff)

declare toc_sectors.simps [simp del]

text \<open>The audio data of a track from the offset \<open>fo\<close> on.\<close>

definition toc_audio ::
  "'d meta \<Rightarrow> 32 word \<Rightarrow> nat \<Rightarrow> nat \<Rightarrow> nat \<Rightarrow> byte list \<Rightarrow> 'd ldev \<Rightarrow> (int \<times> byte list \<times> 'd ldev) option" where
  "toc_audio K start fo cnt p buf s =
     (let o1 = fo mod CD_FRAMESIZE_RAW; part = o1 \<noteq> 0 \<or> cnt < CD_FRAMESIZE_RAW; n = (if o1 + cnt > CD_FRAMESIZE_RAW then CD_FRAMESIZE_RAW - o1 else cnt) in do {
      (err, s) \<leftarrow> (if part then read_da K (start + of_nat (fo div CD_FRAMESIZE_RAW) - PROGFILE_OFFSET) s else Some (0, s));
      if err \<noteq> 0 then Some (err, buf, s)
      else do {
        (buf, fo, cnt, p) \<leftarrow> (if part then map_option (\<lambda>b. (b, fo + n, cnt - n, p + n)) (store p (take n (drop o1 (scratch s))) buf) else Some (buf, fo, cnt, p));
        (err, fo, cnt, p, buf, s) \<leftarrow> toc_sectors K start fo cnt p buf s;
        if err \<noteq> 0 \<or> cnt = 0 then Some (err, buf, s)
        else do {
          (err, s) \<leftarrow> read_da K (start + of_nat (fo div CD_FRAMESIZE_RAW) - PROGFILE_OFFSET) s;
          if err \<noteq> 0 then Some (err, buf, s)
          else map_option (\<lambda>b. (0, b, s)) (store p (take cnt (scratch s)) buf) } } })"

text \<open>
  \<open>start\<close>, \<open>offset\<close>, \<open>size\<close> and \<open>cnt\<close> are not negative here.  When the read begins in the header and is shorter
  than the rest of the header, \<open>cnt\<close> becomes negative; a sector is read, and \<open>cnt\<close> is used as the length of \<open>memcpy\<close>.
\<close>

definition toc_readfile ::
  "'d meta \<Rightarrow> proc \<Rightarrow> 32 word \<Rightarrow> nat \<Rightarrow> 32 word \<Rightarrow> nat \<Rightarrow> byte list \<Rightarrow> 'd ldev \<Rightarrow> (int \<times> byte list \<times> 'd ldev) option" where
  "toc_readfile K P start offset len cnt buf s =
     (if start < PROGFILE_OFFSET
      then (let image = proc_file P (metadevice s) (ucast start) in
            if offset + cnt \<le> length image then map_option (\<lambda>b. (0, b, s)) (store 0 (take cnt (drop offset image)) buf) else None)
      else if (len - 44) mod 2352 \<noteq> 0 then DCRead K (unat ((start - PROGFILE_OFFSET) * 2048 + of_nat offset)) cnt buf s
      else if offset < sizeof_WAVHEADER
      then (let toread = sizeof_WAVHEADER - offset in
            do {
              buf \<leftarrow> store 0 (drop offset (setupheader (len - 44))) buf;
              if cnt = toread then Some (0, buf, s)
              else if cnt < toread
              then do { (err, s) \<leftarrow> read_da K (start - PROGFILE_OFFSET) s; if err \<noteq> 0 then Some (err, buf, s) else None }
              else toc_audio K start 0 (cnt - toread) toread buf s })
      else toc_audio K start (offset - sizeof_WAVHEADER) cnt 0 buf s)"

subsection \<open>The volume\<close>

text \<open>The tracks are asked for until one is an audio track; the entry is the last one that was delivered.\<close>

fun toc_tracks :: "'d meta \<Rightarrow> nat list \<Rightarrow> tocentry \<Rightarrow> 'd ldev \<Rightarrow> tocentry \<times> 'd ldev" where
  "toc_tracks K [] toc s = (toc, s)"
| "toc_tracks K (i # is) toc s =
     (case CDROMREADTOCENTRY K (metadevice s) (of_nat i) CDROM_MSF (drv s) of ((err, toc'), d) \<Rightarrow>
        if err = 0 \<and> cdte_ctrl toc' AND CDROM_DATA_TRACK = 0 then (toc', s\<lparr>drv := d\<rparr>) else toc_tracks K is toc' (s\<lparr>drv := d\<rparr>))"

text \<open>Minute, second and frame are the lower three bytes of the address.\<close>

definition msf_lba :: "32 word \<Rightarrow> 32 word" where
  "msf_lba a = (drop_bit 16 a AND 0xff) * 60 * 75 + ((drop_bit 8 a AND 0xff) + 150 div 75) * 75 + (a AND 0xff)"

definition toc_get_root :: "'d meta \<Rightarrow> proc \<Rightarrow> 'd ldev \<Rightarrow> (int \<times> 'd ldev) option" where
  "toc_get_root K P s =
     (case Metadiscinfo K (metadevice s) (drv s) of ((err, bytes), d) \<Rightarrow> do {
        buf \<leftarrow> store 0 bytes (overwrite 0 (replicate 512 0) (scratch s));
        s \<leftarrow> Some (s\<lparr>fsprivate := 0, scratch := buf, drv := d\<rparr>);
        firsttrack \<leftarrow> Some (if err = 0 then unat (bcd2bin (buf ! 1)) else 1);
        lasttrack \<leftarrow> Some (if err = 0 then unat (bcd2bin (buf ! 2)) else 0);
        (toc, s) \<leftarrow> Some (toc_tracks K [firsttrack..<lasttrack + 1] \<lparr>cdte_ctrl = 0, cdte_addr = 0\<rparr> s);
        s \<leftarrow> (if lasttrack \<noteq> 0
              then map_option (\<lambda>(err, s). if err = 0 then s\<lparr>fsprivate := FS_AUDIO\<rparr> else s) (read_da K (msf_lba (cdte_addr toc)) s)
              else Some s);
        n \<leftarrow> Some (ucast (of_nat lasttrack - of_nat firsttrack + 1 :: 16 word) :: 32 word);
        s \<leftarrow> Some (s\<lparr>rootdirsize := n, ld_blocksize := 1, totalsize := n * proc_len P, rootdir := 0,
                fsprivate := if n = 0 then fsprivate s OR FS_EMPTY else fsprivate s\<rparr>);
        Some (0, s\<lparr>fslabel := if fsprivate s AND FS_EMPTY \<noteq> 0 then [0x45, 0x4D, 0x50, 0x54, 0x59]
                               else [0x41, 0x55, 0x44, 0x49, 0x4F, 0x2D, 0x43, 0x44]\<rparr>) })"

text \<open>The label can be changed until the disc is taken out; \<open>fslabel\<close> has 65 bytes.\<close>

definition toc_label :: "byte list \<Rightarrow> int \<Rightarrow> bool \<Rightarrow> 'd ldev \<Rightarrow> ((int \<times> byte list option) \<times> 'd ldev) option" where
  "toc_label str len rw s =
     (if rw then
        (if len \<ge> 65 then Some ((ERANGE, None), s)
         else if length str < 65 then Some ((0, None), s\<lparr>fslabel := str\<rparr>) else None)
      else map_option (\<lambda>r. (r, s)) (iso_label len False s))"

definition toc_pathconf :: "int \<Rightarrow> int \<Rightarrow> int" where
  "toc_pathconf DKMaxOpenFiles mode =
     (if mode = -1 then 7
      else if mode = 0 then DKMaxOpenFiles
      else if mode = 2 then 96
      else if mode = 3 then 12
      else if mode = 6 then 1
      else if mode = 4 then 0
      else if mode = 5 then 2
      else if mode = 1 then 1
      else if mode = 7 then 0x00900000 + 0x08
      else EINVFN)"

end
