(* ===== verification/Cd_Iso_Props.thy ===== *)
theory Cd_Iso_Props
  imports Cd_Iso
begin

text \<open>
  Properties of the ISO 9660 file system: the form of the names, the conversion of Joliet names in
  their place, the system use fields, and the search for the next directory entry.
\<close>

subsection \<open>Short names\<close>

text \<open>
  What \<open>copyfn\<close> delivers: \<open>.\<close>, \<open>..\<close>, or at most eight characters and optionally a dot and up to three,
  without a version number.
\<close>

definition iso_8_3 :: "byte list \<Rightarrow> bool" where
  "iso_8_3 n \<longleftrightarrow> n = [46] \<or> n = [46, 46]
     \<or> (let b = takeWhile (\<lambda>c. c \<noteq> 46) n; e = drop (Suc (length b)) n in
        length b \<le> 8 \<and> length e \<le> 3 \<and> 46 \<notin> set e \<and> (n = b \<or> e \<noteq> []) \<and> list_all (\<lambda>c. \<not> name_end c) n)"

lemma copyfn_ext:
  "length (copyfn_loop cs n True) \<le> 3 - n \<and> 46 \<notin> set (copyfn_loop cs n True) \<and> list_all (\<lambda>c. \<not> name_end c) (copyfn_loop cs n True)"
proof (induction cs arbitrary: n)
  case (Cons c cs)
  show ?case using Cons [of "n + 1"] Cons [of n] by auto
qed simp

lemma copyfn_base:
  obtains b e where "copyfn_loop cs n False = b @ e" "length b \<le> 8 - n" "46 \<notin> set b" "list_all (\<lambda>c. \<not> name_end c) b"
    "e = [] \<or> (\<exists>x. e = 46 # x \<and> length x \<le> 3 \<and> 46 \<notin> set x \<and> list_all (\<lambda>c. \<not> name_end c) x)"
proof -
  have "\<exists>b e. copyfn_loop cs n False = b @ e \<and> length b \<le> 8 - n \<and> 46 \<notin> set b \<and> list_all (\<lambda>c. \<not> name_end c) b
    \<and> (e = [] \<or> (\<exists>x. e = 46 # x \<and> length x \<le> 3 \<and> 46 \<notin> set x \<and> list_all (\<lambda>c. \<not> name_end c) x))"
  proof (induction cs arbitrary: n)
    case (Cons c cs)
    consider "name_end c" | "\<not> name_end c" "c = 46" | "\<not> name_end c" "c \<noteq> 46" "n < 8" | "\<not> name_end c" "c \<noteq> 46" "\<not> n < 8" by blast
    then show ?case
    proof cases
      case 2
      then show ?thesis using copyfn_ext [of cs 0]
        by (intro exI [of _ "[]"] exI [of _ "46 # copyfn_loop cs 0 True"]) auto
    next
      case 3
      then obtain b e where "copyfn_loop cs (n + 1) False = b @ e" "length b \<le> 8 - (n + 1)" "46 \<notin> set b" "list_all (\<lambda>c. \<not> name_end c) b"
        "e = [] \<or> (\<exists>x. e = 46 # x \<and> length x \<le> 3 \<and> 46 \<notin> set x \<and> list_all (\<lambda>c. \<not> name_end c) x)"
        using Cons [of "n + 1"] by blast
      then show ?thesis using 3 by (intro exI [of _ "c # b"] exI [of _ e]) auto
    next
      case 4
      then show ?thesis using Cons [of n] by simp
    qed auto
  qed auto
  then show ?thesis using that by blast
qed

text \<open>C35: The short name of an ISO 9660 file.  Whatever the bytes of a record are, \<open>copyfn\<close> delivers a name
  of the form 8+3 without version number, so that it always fits into the 14 bytes of \<open>truncname\<close>.\<close>

theorem copyfn_8_3:
  "iso_8_3 (copyfn src len) \<and> length (copyfn src len) < 14"
proof (cases "dot_name src len")
  case True
  then show ?thesis by (simp add: copyfn_def iso_8_3_def)
next
  case False
  obtain b e where l: "copyfn_loop (take len src) 0 False = b @ e" "length b \<le> 8 - 0" "46 \<notin> set b" "list_all (\<lambda>c. \<not> name_end c) b"
    "e = [] \<or> (\<exists>x. e = 46 # x \<and> length x \<le> 3 \<and> 46 \<notin> set x \<and> list_all (\<lambda>c. \<not> name_end c) x)"
    by (rule copyfn_base [of "take len src" 0])
  have tb: "takeWhile (\<lambda>c. c \<noteq> 46) b = b" using l(3) by (auto simp: takeWhile_eq_all_conv)
  then have b: "iso_8_3 b" using l(2-4) by (auto simp: iso_8_3_def Let_def simp del: takeWhile_eq_all_conv)
  consider "e = [] \<or> e = [46]" | x where "e = 46 # x" "x \<noteq> []" "length x \<le> 3" "46 \<notin> set x" "list_all (\<lambda>c. \<not> name_end c) x" using l(5) by blast
  then show ?thesis
  proof cases
    case 1
    then have "copyfn src len = b"
      using False l(1,3) by (cases "b = []") (auto simp: copyfn_def drop_last_dot_def dest: last_in_set)
    then show ?thesis using b l(2) by simp
  next
    case 2
    then have "last x \<noteq> 46" using last_in_set [of x] by metis
    then have "copyfn src len = b @ 46 # x" using False l(1) 2(1,2) by (simp add: copyfn_def drop_last_dot_def)
    moreover have "takeWhile (\<lambda>c. c \<noteq> 46) (b @ 46 # x) = b"
      using takeWhile_tail [of "\<lambda>c. c \<noteq> 46" 46 b x] tb by (simp del: takeWhile_eq_all_conv)
    ultimately show ?thesis using l(2,4) 2 by (auto simp: iso_8_3_def Let_def name_end_def simp del: takeWhile_eq_all_conv)
  qed
qed

subsection \<open>Joliet names\<close>

lemma uni_tune_steps:
  "2 * k \<le> length name \<Longrightarrow> fold (\<lambda>i nm. nm[i := uni_char (nm ! (i * 2)) (nm ! (i * 2 + 1))]) [0..<k] name
     = map (\<lambda>i. uni_char (name ! (2 * i)) (name ! (2 * i + 1))) [0..<k] @ drop k name"
proof (induction k)
  case (Suc k)
  let ?m = "map (\<lambda>i. uni_char (name ! (2 * i)) (name ! (2 * i + 1))) [0..<k]"
  have n: "(?m @ drop k name) ! (k * 2) = name ! (2 * k)" "(?m @ drop k name) ! (k * 2 + 1) = name ! (2 * k + 1)"
    using Suc.prems by (simp_all add: nth_append mult_2 mult_2_right)
  have d: "drop k name = name ! k # drop (Suc k) name" using Suc.prems by (simp add: Cons_nth_drop_Suc)
  have "fold (\<lambda>i nm. nm[i := uni_char (nm ! (i * 2)) (nm ! (i * 2 + 1))]) [0..<Suc k] name
    = (?m @ drop k name)[k := uni_char (name ! (2 * k)) (name ! (2 * k + 1))]"
    using Suc n by simp
  also have "\<dots> = ?m @ uni_char (name ! (2 * k)) (name ! (2 * k + 1)) # drop (Suc k) name"
    unfolding d by (simp add: list_update_append)
  finally show ?case by simp
qed simp

lemma uni_tune_is_mapped:
  assumes "namelen \<noteq> 1" "namelen \<le> length name"
  shows "uni_tune name namelen =
    (map (\<lambda>i. uni_char (name ! (2 * i)) (name ! (2 * i + 1))) [0..<namelen div 2] @ drop (namelen div 2) name, namelen div 2)"
  using assms uni_tune_steps [of "namelen div 2" name] by (simp add: uni_tune_def)

text \<open>Converting a Joliet name in its place.  \<open>uni_tune\<close> writes each character over bytes that it has
  already read: the result is the list of the characters, each converted for itself, in front of the untouched rest.\<close>

theorem uni_tune_is_map:
  assumes "namelen \<noteq> 1" "namelen \<le> length name"
  shows "uni_tune name namelen =
    (map (\<lambda>i. uni_char (name ! (2 * i)) (name ! (2 * i + 1))) [0..<namelen div 2] @ drop (namelen div 2) name, namelen div 2)"
  using assms by (rule uni_tune_is_mapped)

theorem uni_tune_is_map_witness:
  "uni_tune [0, 0x41, 0, 0x42, 0, 0x43, 9] 6 =
    (map (\<lambda>i. uni_char ([0, 0x41, 0, 0x42, 0, 0x43, 9] ! (2 * i)) ([0, 0x41, 0, 0x42, 0, 0x43, 9] ! (2 * i + 1))) [0..<6 div 2]
      @ drop (6 div 2) [0, 0x41, 0, 0x42, 0, 0x43, 9], 6 div 2)"
  by (rule uni_tune_is_map) simp_all

lemma find_upt: "P j \<Longrightarrow> j < n \<Longrightarrow> \<exists>i<n. find P [0..<n] = Some i"
  by (cases "find P [0..<n]") (auto simp: find_None_iff dest!: find_Some_iff [THEN iffD1])

text \<open>Special characters of Joliet names are lost.  The character number \<open>j\<close> of the table, which is
  \<open>0x80 + j\<close> in the character set of the computer, is converted to the control character or letter \<open>j\<close>: every character
  of the table to one below \<open>0x80\<close>, the u with umlaut to 1, and the C with cedilla to the 0 that ends the name.\<close>

theorem joliet_special_characters_lost:
  assumes "be16 [hi, lo] 0 \<in> set uni_tab"
  shows "uni_char hi lo < 0x80 \<and> uni_char 0 0xFC = 1 \<and> uni_char 0 0xC7 = 0"
proof -
  have "length uni_tab = 128" by code_simp
  then obtain j where j: "j < 128" "uni_tab ! j = be16 [hi, lo] 0" using assms by (auto simp: in_set_conv_nth)
  have "list_all (\<lambda>c. c \<ge> 0x80) uni_tab" by code_simp
  then have "be16 [hi, lo] 0 \<ge> 0x80" using assms by (simp add: list_all_iff)
  moreover obtain i where "i < 128" "find (\<lambda>j. uni_tab ! j = be16 [hi, lo] 0) [0..<128] = Some i"
    using find_upt [of "\<lambda>j. uni_tab ! j = be16 [hi, lo] 0" j 128] j by blast
  ultimately have "uni_char hi lo < 0x80" by (simp add: uni_char_def word_less_nat_alt unat_of_nat)
  moreover have "uni_char 0 0xFC = 1" "uni_char 0 0xC7 = 0" by code_simp+
  ultimately show ?thesis by blast
qed

theorem joliet_special_characters_lost_witness:
  "uni_char 0 0xE9 < 0x80 \<and> uni_char 0 0xFC = 1 \<and> uni_char 0 0xC7 = 0"
  by (rule joliet_special_characters_lost) code_simp

subsection \<open>The next record\<close>

text \<open>A medium of less than 2 GB.\<close>

definition small_medium :: "medium \<Rightarrow> 16 word \<Rightarrow> bool" where
  "small_medium med dev \<longleftrightarrow> (\<forall>b. m_ok med dev b \<longrightarrow> unat b < 2 ^ 20)"

definition same_ld :: "'d ldev \<Rightarrow> 'd ldev \<Rightarrow> bool" where
  "same_ld s s' \<longleftrightarrow> same_cd (s\<lparr>scratch := scratch s'\<rparr>) s' \<and> length (scratch s') = length (scratch s)"

lemma same_ld_refl [simp]: "same_ld s s"
  by (simp add: same_ld_def)

lemma same_ld_trans: "same_ld s t \<Longrightarrow> same_ld t u \<Longrightarrow> same_ld s u"
  unfolding same_ld_def same_cd_def by (cases s; cases t; cases u) auto

lemma same_ld_keep: "same_ld s s' \<Longrightarrow> length (DCCache s') = length (DCCache s) \<and> metadevice s' = metadevice s
    \<and> length (scratch s') = length (scratch s) \<and> ld_blocksize s' = ld_blocksize s \<and> fsprivate s' = fsprivate s \<and> rootdir s' = rootdir s \<and> ld_fs s' = ld_fs s"
  unfolding same_ld_def same_cd_def by (cases s; cases s') auto

lemma same_cd_ld: "same_cd s s' \<Longrightarrow> length buf = length (scratch s) \<Longrightarrow> same_ld s (s'\<lparr>scratch := buf\<rparr>)"
  unfolding same_ld_def same_cd_def by (cases s; cases s') auto

lemma cache_ok_scratch [simp]: "cache_ok med (s\<lparr>scratch := x\<rparr>) = cache_ok med s"
  by (simp add: cache_ok_def)

lemma read_scratch_ok:
  assumes K: "drive_ok K med" and c: "cache_ok med s" "DCCache s \<noteq> []" and small: "small_medium med (metadevice s)"
    and n: "0 < cnt" "cnt \<le> 2048" "cnt \<le> length (scratch s)"
  obtains err s' where "read_scratch K adr cnt s = Some (err, s')" "cache_ok med s'" "same_ld s s'"
    "err < 0 \<and> \<not> (reliable K med \<and> readable med (metadevice s) (unat adr) cnt) \<or> err = 0 \<and> unat adr < 2 ^ 31 \<and> scratch s' = disc_bytes med (metadevice s) (unat adr) cnt @ drop cnt (scratch s)"
proof -
  have a: "unat adr < 2 ^ 32" using unsigned_less [of adr, where 'a = nat] by simp
  have cnt: "cnt < 65536 * BLOCKSIZE" using n(2) by (simp add: BLOCKSIZE_def)
  show ?thesis
  proof (cases "m_ok med (metadevice s) (of_nat (unat adr div BLOCKSIZE))")
    case True
    then have "unat (of_nat (unat adr div BLOCKSIZE) :: 32 word) < 2 ^ 20" using small by (simp add: small_medium_def)
    then have lt: "unat adr < 2 ^ 31" using a by (simp add: unat_of_nat BLOCKSIZE_def)
    then have "unat adr + cnt < 2 ^ 32" using n(2) by simp
    from DCRead_ok [OF K c cnt this n(3)] obtain err buf s' where "DCRead K (unat adr) cnt (scratch s) s = Some (err, buf, s')"
      "length buf = length (scratch s)" "cache_ok med s'" "same_cd s s'"
      "err < 0 \<and> \<not> (reliable K med \<and> readable med (metadevice s) (unat adr) cnt) \<or> err = 0 \<and> buf = disc_bytes med (metadevice s) (unat adr) cnt @ drop cnt (scratch s)" by metis
    then show ?thesis using that [of err "s'\<lparr>scratch := buf\<rparr>"] lt same_cd_ld [of s s' buf] by (auto simp: read_scratch_def)
  next
    case False
    from DCRead_unreadable [OF K c n(1) cnt a n(3) this] obtain err buf s' where
      "DCRead K (unat adr) cnt (scratch s) s = Some (err, buf, s')" "length buf = length (scratch s)" "cache_ok med s'" "same_cd s s'" "err < 0"
      by metis
    moreover have "\<not> readable med (metadevice s) (unat adr) cnt" using False readable_first n(1) by blast
    ultimately show ?thesis using that [of err "s'\<lparr>scratch := buf\<rparr>"] same_cd_ld [of s s' buf] by (auto simp: read_scratch_def)
  qed
qed

lemma unat_block_start: "unat (block_start a) = unat a - unat a mod 2048"
proof -
  have "block_start a = push_bit 11 (drop_bit 11 a)"
  proof (rule bit_eqI)
    fix n
    have "block_start a = a AND NOT (mask 11)" by (simp add: block_start_def mask_eq_exp_minus_1)
    moreover assume "possible_bit TYPE(32 word) n"
    ultimately show "bit (block_start a) n \<longleftrightarrow> bit (push_bit 11 (drop_bit 11 a)) n"
      by (auto simp: bit_and_iff bit_not_iff bit_mask_iff bit_push_bit_iff bit_drop_bit_eq simp del: mask_numeral)
  qed
  then have "block_start a = a - take_bit 11 a" using bits_ident [of 11 a] by (simp add: algebra_simps)
  moreover have t: "unat (take_bit 11 a) = unat a mod 2048" by (simp add: take_bit_eq_mod unat_mod)
  moreover have "take_bit 11 a \<le> a" using t by (simp add: word_le_nat_alt)
  ultimately show ?thesis by (simp add: unat_sub)
qed

text \<open>
  The records of a directory on the medium: \<open>R a\<close> are the bytes of the record at \<open>a\<close>.  \<open>next_rec\<close> is the
  search for the next record that is shown: a length of 0 is the padding up to the next block, \<open>H\<close> says
  which records are passed over.
\<close>

definition rec_at :: "medium \<Rightarrow> 16 word \<Rightarrow> 32 word \<Rightarrow> byte list" where
  "rec_at med dev a = disc_bytes med dev (unat a) RR_BUFSIZE"

definition rec_flags :: "16 word \<Rightarrow> byte list \<Rightarrow> byte" where
  "rec_flags fp r = (if fp AND ISOFS_HIGHSIERRA \<noteq> 0 then r ! 24 else r ! 25)"

text \<open>Passed over are associated files, and the parent of the root directory.\<close>

definition hidden_rec :: "medium \<Rightarrow> 'd ldev \<Rightarrow> 32 word \<Rightarrow> bool" where
  "hidden_rec med s a \<longleftrightarrow> (let r = rec_at med (metadevice s) a in
     rec_flags (fsprivate s) r AND DE_FILE \<noteq> 0 \<or> rootdir s = block_start a \<and> r ! 32 = 1 \<and> r ! 33 = 1)"

inductive next_rec :: "(32 word \<Rightarrow> byte list) \<Rightarrow> (32 word \<Rightarrow> bool) \<Rightarrow> 32 word \<Rightarrow> 32 word \<Rightarrow> 32 word \<Rightarrow> bool"
  for R H dirend where
  here: "R a ! 0 \<noteq> 0 \<Longrightarrow> \<not> H a \<Longrightarrow> next_rec R H dirend a a"
| padding: "R a ! 0 = 0 \<Longrightarrow> block_start a + 2048 < dirend \<Longrightarrow> next_rec R H dirend (block_start a + 2048) b \<Longrightarrow> next_rec R H dirend a b"
| hidden: "R a ! 0 \<noteq> 0 \<Longrightarrow> H a \<Longrightarrow> next_rec R H dirend (a + ucast (R a ! 0)) b \<Longrightarrow> next_rec R H dirend a b"

text \<open>The same search, when all records on the way can be read.\<close>

inductive next_readable :: "(32 word \<Rightarrow> byte list) \<Rightarrow> (32 word \<Rightarrow> bool) \<Rightarrow> (32 word \<Rightarrow> bool) \<Rightarrow> 32 word \<Rightarrow> 32 word \<Rightarrow> 32 word \<Rightarrow> bool"
  for R H ok dirend where
  here: "ok a \<Longrightarrow> R a ! 0 \<noteq> 0 \<Longrightarrow> \<not> H a \<Longrightarrow> next_readable R H ok dirend a a"
| padding: "ok a \<Longrightarrow> R a ! 0 = 0 \<Longrightarrow> block_start a + 2048 < dirend \<Longrightarrow> next_readable R H ok dirend (block_start a + 2048) b \<Longrightarrow> next_readable R H ok dirend a b"
| hidden: "ok a \<Longrightarrow> R a ! 0 \<noteq> 0 \<Longrightarrow> H a \<Longrightarrow> next_readable R H ok dirend (a + ucast (R a ! 0)) b \<Longrightarrow> next_readable R H ok dirend a b"

lemma next_readable_step:
  assumes "next_readable R H ok dirend a b"
  shows "ok a" "R a ! 0 = 0 \<Longrightarrow> block_start a + 2048 < dirend \<and> next_readable R H ok dirend (block_start a + 2048) b"
    "R a ! 0 \<noteq> 0 \<Longrightarrow> H a \<Longrightarrow> next_readable R H ok dirend (a + ucast (R a ! 0)) b"
  using assms by (auto elim: next_readable.cases)

definition rec_readable :: "medium \<Rightarrow> 16 word \<Rightarrow> 32 word \<Rightarrow> bool" where
  "rec_readable med dev a \<longleftrightarrow> readable med dev (unat a) RR_BUFSIZE"

text \<open>What is fixed during a call: the drive, the medium and the buffer.\<close>

definition iso_ready :: "'d meta \<Rightarrow> medium \<Rightarrow> 'd ldev \<Rightarrow> bool" where
  "iso_ready K med s \<longleftrightarrow> drive_ok K med \<and> cache_ok med s \<and> DCCache s \<noteq> [] \<and> small_medium med (metadevice s) \<and> 1024 \<le> length (scratch s)"

lemma iso_ready_step: "iso_ready K med s \<Longrightarrow> cache_ok med s' \<Longrightarrow> same_ld s s' \<Longrightarrow> iso_ready K med s'"
  using same_ld_keep [of s s'] by (auto simp: iso_ready_def)

lemma read_record:
  assumes "iso_ready K med s"
  obtains err s' where "read_scratch K adr RR_BUFSIZE s = Some (err, s')" "iso_ready K med s'" "same_ld s s'"
    "err < 0 \<and> \<not> (reliable K med \<and> readable med (metadevice s) (unat adr) RR_BUFSIZE) \<or> err = 0 \<and> unat adr < 2 ^ 31 \<and> scratch s' = rec_at med (metadevice s) adr @ drop RR_BUFSIZE (scratch s)"
proof -
  have n: "0 < RR_BUFSIZE" "RR_BUFSIZE \<le> 2048" "RR_BUFSIZE \<le> length (scratch s)" using assms by (auto simp: RR_BUFSIZE_def iso_ready_def)
  have "drive_ok K med" "cache_ok med s" "DCCache s \<noteq> []" "small_medium med (metadevice s)" using assms by (auto simp: iso_ready_def)
  from read_scratch_ok [OF this n, of adr] obtain err s' where "read_scratch K adr RR_BUFSIZE s = Some (err, s')" "cache_ok med s'" "same_ld s s'"
    "err < 0 \<and> \<not> (reliable K med \<and> readable med (metadevice s) (unat adr) RR_BUFSIZE) \<or> err = 0 \<and> unat adr < 2 ^ 31 \<and> scratch s' = disc_bytes med (metadevice s) (unat adr) RR_BUFSIZE @ drop RR_BUFSIZE (scratch s)"
    by metis
  then show ?thesis using that iso_ready_step [OF assms] by (auto simp: rec_at_def)
qed

lemma length_rec_at [simp]: "length (rec_at med dev a) = 512"
  by (simp add: rec_at_def RR_BUFSIZE_def)

lemma unat_next_block: "unat a < 2 ^ 31 \<Longrightarrow> unat (block_start a + 2048) = unat a - unat a mod 2048 + 2048"
  by (simp add: unat_word_ariths unat_block_start)

lemma unat_next_rec: "unat (a :: 32 word) < 2 ^ 31 \<Longrightarrow> unat (a + ucast (n :: byte)) = unat a + unat n"
proof -
  have "unat n < 2 ^ LENGTH(8)" by (rule unsigned_less)
  then show "unat a < 2 ^ 31 \<Longrightarrow> unat (a + ucast n) = unat a + unat n" by (simp add: unat_word_ariths unsigned_ucast_eq take_bit_eq_mod)
qed

text \<open>The extent of an associated file is set with its name.\<close>

definition loc_ok :: "iso_loc \<Rightarrow> bool" where
  "loc_ok l \<longleftrightarrow> (l_extent l = None \<longrightarrow> l_sname l = [])"

text \<open>One round, in terms of the medium.\<close>

lemma iso_record_step:
  assumes "scratch s = rec_at med (metadevice s) (l_addr l) @ rest"
  shows "\<exists>l'. iso_record dirend s l = (rec_at med (metadevice s) (l_addr l) ! 0 = 0 \<or> hidden_rec med s (l_addr l), l')
    \<and> (loc_ok l \<longrightarrow> loc_ok l') \<and> l_iindex l' = l_addr l \<and> l_addr l' = (if rec_at med (metadevice s) (l_addr l) ! 0 = 0
        then (if block_start (l_addr l) + 2048 \<ge> dirend then -1 else block_start (l_addr l) + 2048)
        else l_addr l + ucast (rec_at med (metadevice s) (l_addr l) ! 0))"
  using assms by (auto simp: iso_record_def Let_def hidden_rec_def rec_flags_def iso_flags_def nth_append loc_ok_def)

lemma iso_scan_ok:
  assumes "iso_ready K med s"
  shows "\<exists>err l' s'. iso_scan K dirend l s = Some (err, l', s') \<and> iso_ready K med s' \<and> same_ld s s' \<and> (loc_ok l \<longrightarrow> loc_ok l')
    \<and> (err < 0 \<and> \<not> (reliable K med \<and> (\<exists>b. next_readable (rec_at med (metadevice s)) (hidden_rec med s) (rec_readable med (metadevice s)) dirend (l_addr l) b))
       \<or> err = 0 \<and> next_rec (rec_at med (metadevice s)) (hidden_rec med s) dirend (l_addr l) (l_iindex l')
         \<and> take 512 (scratch s') = rec_at med (metadevice s) (l_iindex l') \<and> rec_at med (metadevice s) (l_iindex l') ! 0 \<noteq> 0
         \<and> l_addr l' = l_iindex l' + ucast (rec_at med (metadevice s) (l_iindex l') ! 0) \<and> l_addr l < l_addr l')"
  using assms
proof (induction "2 ^ 32 - unat (l_addr l)" arbitrary: l s rule: less_induct)
  case less
  let ?R = "rec_at med (metadevice s)" and ?H = "hidden_rec med s" and ?ok = "rec_readable med (metadevice s)" and ?a = "l_addr l"
  show ?case
  proof (cases "?a = -1")
    case True
    have "\<not> next_readable ?R ?H ?ok dirend ?a b" for b
    proof
      assume "next_readable ?R ?H ?ok dirend ?a b"
      then have "?ok ?a" by (rule next_readable_step(1))
      then have m: "m_ok med (metadevice s) (of_nat (unat ?a div BLOCKSIZE))" using readable_first by (simp add: rec_readable_def RR_BUFSIZE_def)
      have "unat ?a = 2 ^ 32 - 1" using True by (simp add: unsigned_minus_1_eq_mask mask_eq_exp_minus_1)
      then have "unat (of_nat (unat ?a div BLOCKSIZE) :: 32 word) = (2 ^ 32 - 1) div BLOCKSIZE" by (simp add: BLOCKSIZE_def)
      moreover have "unat (of_nat (unat ?a div BLOCKSIZE) :: 32 word) < 2 ^ 20" using m less.prems by (simp add: iso_ready_def small_medium_def)
      ultimately show False by (simp add: BLOCKSIZE_def)
    qed
    then show ?thesis using True less.prems by (subst iso_scan.simps) (simp add: ENMFIL_def)
  next
    case False
    obtain err s1 where rd: "read_scratch K ?a RR_BUFSIZE s = Some (err, s1)" "iso_ready K med s1" "same_ld s s1"
      "err < 0 \<and> \<not> (reliable K med \<and> ?ok ?a) \<or> err = 0 \<and> unat ?a < 2 ^ 31 \<and> scratch s1 = ?R ?a @ drop RR_BUFSIZE (scratch s)"
      using read_record [OF less.prems, of ?a] unfolding rec_readable_def by metis
    note keep = same_ld_keep [OF rd(3)]
    have H: "hidden_rec med s1 = ?H" using keep by (auto simp: hidden_rec_def fun_eq_iff)
    show ?thesis
    proof (cases "err < 0")
      case True
      moreover have "\<not> (reliable K med \<and> (\<exists>b. next_readable ?R ?H ?ok dirend ?a b))" using True rd(4) next_readable_step(1) [of ?R ?H ?ok] by auto
      ultimately show ?thesis using rd False by (subst iso_scan.simps) (auto simp: loc_ok_def)
    next
      case ok: False
      then have e: "err = 0" "unat ?a < 2 ^ 31" "scratch s1 = rec_at med (metadevice s1) ?a @ drop RR_BUFSIZE (scratch s)" using rd(4) keep by auto
      obtain l1 where l1: "iso_record dirend s1 l = (?R ?a ! 0 = 0 \<or> ?H ?a, l1)" "loc_ok l \<longrightarrow> loc_ok l1" "l_iindex l1 = ?a"
        "l_addr l1 = (if ?R ?a ! 0 = 0 then (if block_start ?a + 2048 \<ge> dirend then -1 else block_start ?a + 2048) else ?a + ucast (?R ?a ! 0))"
        using iso_record_step [OF e(3), of dirend] keep H by auto
      have up: "unat ?a < unat (l_addr l1)"
      proof -
        have "unat (- 1 :: 32 word) = 2 ^ 32 - 1" by (simp add: unsigned_minus_1_eq_mask mask_eq_exp_minus_1)
        moreover have "unat ?a < unat (block_start ?a + 2048)" using unat_next_block [OF e(2)] by simp
        moreover have "?R ?a ! 0 \<noteq> 0 \<Longrightarrow> unat ?a < unat (?a + ucast (?R ?a ! 0))" using unat_next_rec [OF e(2)] by (simp add: unat_gt_0)
        ultimately show ?thesis using l1(4) e(2) by auto
      qed
      show ?thesis
      proof (cases "?R ?a ! 0 = 0 \<or> ?H ?a")
        case False
        then have "iso_scan K dirend l s = Some (0, l1, s1)" using rd(1) e(1) l1(1) \<open>?a \<noteq> -1\<close> by (subst iso_scan.simps) simp
        moreover have "take 512 (scratch s1) = ?R ?a" using e(3) keep by simp
        ultimately show ?thesis using False rd(2,3) l1 up next_rec.here [of ?R ?a ?H dirend] by (auto simp: word_less_nat_alt)
      next
        case True
        then have un: "iso_scan K dirend l s = iso_scan K dirend l1 s1" using rd(1) e(1) l1(1) \<open>?a \<noteq> -1\<close> by (subst iso_scan.simps) simp
        have "2 ^ 32 - unat (l_addr l1) < 2 ^ 32 - unat ?a" using up e(2) by (intro diff_less_mono2) simp_all
        from less.hyps [OF this rd(2)] obtain err' l' s' where r: "iso_scan K dirend l1 s1 = Some (err', l', s')" "iso_ready K med s'" "same_ld s1 s'" "loc_ok l1 \<longrightarrow> loc_ok l'"
          "err' < 0 \<and> \<not> (reliable K med \<and> (\<exists>b. next_readable ?R ?H ?ok dirend (l_addr l1) b)) \<or> err' = 0 \<and> next_rec ?R ?H dirend (l_addr l1) (l_iindex l') \<and> take 512 (scratch s') = ?R (l_iindex l') \<and> ?R (l_iindex l') ! 0 \<noteq> 0
             \<and> l_addr l' = l_iindex l' + ucast (?R (l_iindex l') ! 0) \<and> l_addr l1 < l_addr l'"
          using H keep by auto
        have "next_rec ?R ?H dirend (l_addr l1) (l_iindex l') \<Longrightarrow> next_rec ?R ?H dirend ?a (l_iindex l')" if "err' = 0"
        proof -
          assume n: "next_rec ?R ?H dirend (l_addr l1) (l_iindex l')"
          have "l_addr l1 \<noteq> -1" using r(1) that by (auto simp: iso_scan.simps [of K dirend l1] ENMFIL_def)
          then show ?thesis using n l1(4) True next_rec.padding [of ?R ?a dirend ?H] next_rec.hidden [of ?R ?a ?H dirend]
            by (auto split: if_splits simp: not_le)
        qed
        moreover have "\<exists>b. next_readable ?R ?H ?ok dirend (l_addr l1) b" if "next_readable ?R ?H ?ok dirend ?a b" for b
          using next_readable_step(2,3) [OF that] True l1(4) by (auto simp: not_le)
        ultimately show ?thesis unfolding un using r same_ld_trans [OF rd(3) r(3)] up l1(2) by (auto simp: word_less_nat_alt)
      qed
    qed
  qed
qed

subsection \<open>The entry\<close>

lemma length_uni_tune: "length (fst (uni_tune name n)) = length name"
proof -
  have "length (fold (\<lambda>i nm. nm[i := uni_char (nm ! (i * 2)) (nm ! (i * 2 + 1))]) is name) = length name" for "is"
    by (induction "is" arbitrary: name) auto
  then show ?thesis by (simp add: uni_tune_def)
qed

lemma length_tune_rec [simp]: "length (tune_rec fp dir) = length dir"
  using length_uni_tune [of "drop 33 dir" "unat (dir ! 32)"] by (auto simp: tune_rec_def split: prod.splits)

text \<open>The bytes behind the record do not matter for its conversion.\<close>

lemma tune_rec_append: "length r = 512 \<Longrightarrow> tune_rec fp (r @ rest) = tune_rec fp r @ rest"
proof -
  assume r: "length r = 512"
  have n: "unat (r ! 32) < 2 ^ LENGTH(8)" by (rule unsigned_less)
  have "uni_tune (drop 33 r @ rest) (unat (r ! 32)) = (fst (uni_tune (drop 33 r) (unat (r ! 32))) @ rest, snd (uni_tune (drop 33 r) (unat (r ! 32))))"
  proof (cases "unat (r ! 32) = 1")
    case False
    have "map (\<lambda>i. uni_char ((drop 33 r @ rest) ! (2 * i)) ((drop 33 r @ rest) ! (2 * i + 1))) [0..<unat (r ! 32) div 2]
      = map (\<lambda>i. uni_char (drop 33 r ! (2 * i)) (drop 33 r ! (2 * i + 1))) [0..<unat (r ! 32) div 2]"
      using r n by (intro map_cong) (auto simp: nth_append)
    then show ?thesis using False r n uni_tune_is_mapped [of "unat (r ! 32)" "drop 33 r @ rest"] uni_tune_is_mapped [of "unat (r ! 32)" "drop 33 r"]
      by simp
  qed (simp add: uni_tune_def)
  then show ?thesis using r length_uni_tune [of "drop 33 r" "unat (r ! 32)"]
    by (auto simp: tune_rec_def nth_append list_update_append split: prod.splits)
qed

lemma get_susp_keep:
  assumes "get_susp_field tag RR_BUFSIZE n s = (found, s')" "1024 \<le> length (scratch s)"
  shows "same_ld s s'" "DCCache s' = DCCache s" "take 512 (scratch s') = take 512 (scratch s)"
proof -
  have b: "unat (x :: byte) < 256" for x using unsigned_less [of x, where 'a = nat] by simp
  have "same_ld s (s\<lparr>scratch := overwrite RR_BUFSIZE (take (min (unat (x :: byte)) RR_BUFSIZE) xs) (scratch s)\<rparr>)
    \<and> take 512 (overwrite RR_BUFSIZE (take (min (unat x) RR_BUFSIZE) xs) (scratch s)) = take 512 (scratch s)" for x xs
    using b [of x] assms(2) by (auto simp: same_ld_def same_cd_def length_overwrite RR_BUFSIZE_def overwrite_def)
  then show "same_ld s s'" "DCCache s' = DCCache s" "take 512 (scratch s') = take 512 (scratch s)"
    using assms(1) by (auto simp: get_susp_field_def Let_def split: option.splits)
qed

lemma copyfn_append:
  "n \<le> length src \<Longrightarrow> src \<noteq> [] \<Longrightarrow> copyfn (src @ rest) n = copyfn src n \<and> copyfn_long (src @ rest) n = copyfn_long src n"
  by (auto simp: copyfn_def copyfn_long_def dot_name_def nth_append)

lemma be32_append: "i + 3 < length r \<Longrightarrow> be32 (r @ rest) i = be32 r i"
  by (simp add: be32_def nth_append)

text \<open>The record as the names and the fields are taken from it.\<close>

definition shown_rec :: "16 word \<Rightarrow> byte list \<Rightarrow> byte list" where
  "shown_rec fp r = (if fp AND ISOFS_HIGHSIERRA = 0 then tune_rec fp r else r)"

definition rec_longname :: "16 word \<Rightarrow> byte list \<Rightarrow> byte list" where
  "rec_longname fp r = copyfn_long (drop 33 (shown_rec fp r)) (unat (shown_rec fp r ! 32))"

definition rec_truncname :: "16 word \<Rightarrow> byte list \<Rightarrow> byte list" where
  "rec_truncname fp r = copyfn (drop 33 (shown_rec fp r)) (unat (shown_rec fp r ! 32))"

lemma length_shown_rec [simp]: "length (shown_rec fp r) = length r"
  by (simp add: shown_rec_def)

lemma iso_names_rec:
  assumes "scratch s = shown_rec fp r @ rest" "length r = 512"
  shows "iso_names s de = (if length (rec_longname fp r) < LONGNAMELENGTH
    then Some (de\<lparr>cd_longname := rec_longname fp r, cd_truncname := rec_truncname fp r\<rparr>) else None)"
proof -
  have "unat (shown_rec fp r ! 32) < 2 ^ LENGTH(8)" by (rule unsigned_less)
  then have n: "unat (shown_rec fp r ! 32) \<le> length (drop 33 (shown_rec fp r))" "drop 33 (shown_rec fp r) \<noteq> []" using assms(2) by simp_all
  have "scratch s ! 32 = shown_rec fp r ! 32" "iso_name s = drop 33 (shown_rec fp r) @ rest" using assms by (simp_all add: nth_append iso_name_def)
  then show ?thesis using copyfn_append [OF n, of rest] by (simp add: iso_names_def rec_longname_def rec_truncname_def Let_def)
qed

text \<open>The fields of Rock Ridge leave alone what comes from the record.\<close>

definition same_main :: "CDENTRY \<Rightarrow> CDENTRY \<Rightarrow> bool" where
  "same_main de de' \<longleftrightarrow> cd_pri_start de' = cd_pri_start de \<and> cd_pri_length de' = cd_pri_length de \<and> cd_truncname de' = cd_truncname de"

definition only_scratch :: "'d ldev \<Rightarrow> 'd ldev \<Rightarrow> bool" where
  "only_scratch s s' \<longleftrightarrow> same_ld s s' \<and> DCCache s' = DCCache s \<and> 1024 \<le> length (scratch s')"

lemma only_scratch_trans: "only_scratch s t \<Longrightarrow> only_scratch t u \<Longrightarrow> only_scratch s u"
  using same_ld_trans by (auto simp: only_scratch_def)

lemma susp_scratch: "get_susp_field tag RR_BUFSIZE n s = (found, s') \<Longrightarrow> only_scratch s0 s \<Longrightarrow> only_scratch s0 s'"
  using get_susp_keep [of tag n s found s'] same_ld_keep [of s s'] same_ld_trans [of s0 s s'] by (auto simp: only_scratch_def)

lemma rr_fields:
  assumes "only_scratch s0 s"
  shows "rr_NM de s = Some (de', s') \<Longrightarrow> same_main de de' \<and> only_scratch s0 s'"
    "rr_SP de s = (de', s') \<Longrightarrow> same_main de de' \<and> only_scratch s0 s'"
    "rr_AA de s = (de', s') \<Longrightarrow> same_main de de' \<and> only_scratch s0 s'"
    "rr_PX de s = (px, de', s') \<Longrightarrow> same_main de de' \<and> only_scratch s0 s'"
  using susp_scratch [OF _ assms]
  by (fastforce simp: rr_NM_def rr_SP_def rr_AA_def rr_PX_def same_main_def Let_def split: prod.splits if_splits option.splits)+

lemma iso_tune_rec:
  assumes "scratch s = r @ rest" "length r = 512" "fsprivate s AND ISOFS_HIGHSIERRA = 0" "1024 \<le> length (scratch s)"
  shows "scratch (iso_tune s) = shown_rec (fsprivate s) r @ rest" "only_scratch s (iso_tune s)"
  using assms tune_rec_append [of r "fsprivate s" rest]
  by (auto simp: iso_tune_def shown_rec_def only_scratch_def same_ld_def same_cd_def)

text \<open>What an entry has to be for a record.\<close>

definition entry_of :: "16 word \<Rightarrow> 32 word \<Rightarrow> byte list \<Rightarrow> CDENTRY \<Rightarrow> bool" where
  "entry_of fp bs r de \<longleftrightarrow> cd_pri_start de = be32 r 6 * bs \<and> cd_pri_length de = be32 r 14 \<and> cd_truncname de = rec_truncname fp r
     \<and> cd_mdate de = iso_date (take 7 (drop 18 r)) \<and> cd_mtime de = iso_time (take 7 (drop 18 r))
     \<and> cd_tosattr de = (if rec_flags fp r AND DE_DIRECTORY \<noteq> 0 then FA_SUBDIR else 0)
         OR (if rec_flags fp r AND DE_EXISTENCE \<noteq> 0 then FA_HIDDEN else 0)"

lemma iso_fields_main:
  assumes r: "scratch s = r @ rest" "length r = 512" and s: "1024 \<le> length (scratch s)" and f: "iso_fields de s = Some (px, de', s')"
  shows "cd_pri_start de' = cd_pri_start de \<and> cd_pri_length de' = cd_pri_length de \<and> cd_truncname de' = rec_truncname (fsprivate s) r \<and> only_scratch s s'"
proof (cases "fsprivate s AND ISOFS_HIGHSIERRA = 0")
  case True
  note t = iso_tune_rec [OF r True s]
  obtain d1 where n: "iso_names (iso_tune s) de = Some d1" "cd_pri_start d1 = cd_pri_start de" "cd_pri_length d1 = cd_pri_length de"
    "cd_truncname d1 = rec_truncname (fsprivate s) r"
    using f True iso_names_rec [OF t(1) r(2), of de] by (auto simp: iso_fields_def split: if_splits)
  obtain d2 s2 where nm: "rr_NM d1 (iso_tune s) = Some (d2, s2)" using f True n(1) by (auto simp: iso_fields_def split: Option.bind_splits)
  obtain d3 s3 where sp: "rr_SP d2 s2 = (d3, s3)" by fastforce
  obtain d4 s4 where aa: "rr_AA d3 s3 = (d4, s4)" by fastforce
  have px: "rr_PX d4 s4 = (px, de', s')" using f True n(1) nm sp aa by (simp add: iso_fields_def)
  have 2: "same_main d1 d2 \<and> only_scratch s s2" by (rule rr_fields(1) [OF t(2) nm])
  then have 3: "same_main d2 d3 \<and> only_scratch s s3" using rr_fields(2) [OF _ sp] by blast
  then have 4: "same_main d3 d4 \<and> only_scratch s s4" using rr_fields(3) [OF _ aa] by blast
  then have "same_main d4 de' \<and> only_scratch s s'" using rr_fields(4) [OF _ px] by blast
  then show ?thesis using 2 3 4 n by (simp add: same_main_def)
next
  case False
  then have "scratch s = shown_rec (fsprivate s) r @ rest" using r by (simp add: shown_rec_def)
  from iso_names_rec [OF this r(2), of de] show ?thesis using f False s
    by (auto simp: iso_fields_def only_scratch_def split: if_splits)
qed

lemma iso_attribs_keep:
  "cd_pri_start (iso_attribs px f de) = cd_pri_start de" "cd_pri_length (iso_attribs px f de) = cd_pri_length de"
  "cd_truncname (iso_attribs px f de) = cd_truncname de" "cd_mdate (iso_attribs px f de) = cd_mdate de" "cd_mtime (iso_attribs px f de) = cd_mtime de"
  "cd_tosattr (iso_attribs px f de) = (if f AND DE_DIRECTORY \<noteq> 0 then FA_SUBDIR else 0) OR (if f AND DE_EXISTENCE \<noteq> 0 then FA_HIDDEN else 0)"
  by (simp_all add: iso_attribs_def Let_def)

lemma iso_entry_of:
  assumes r: "scratch s = r @ rest" "length r = 512" and s: "1024 \<le> length (scratch s)" and e: "iso_entry l s = Some (de, s')"
  shows "entry_of (fsprivate s) (ld_blocksize s) r de \<and> only_scratch s s'"
proof -
  obtain px d1 s1 where f: "iso_fields (iso_de0 l s) s = Some (px, d1, s1)"
    using e by (cases "iso_fields (iso_de0 l s) s") (auto simp: iso_entry_def)
  note m = iso_fields_main [OF r s f]
  let ?d = "iso_attribs px (iso_flags s) (set_time (iso_time (take 7 (drop 18 (scratch s)))) (set_date (iso_date (take 7 (drop 18 (scratch s)))) d1))"
  have fl: "iso_flags s = rec_flags (fsprivate s) r" using r by (simp add: iso_flags_def rec_flags_def nth_append)
  have x: "fst (iso_extent s) = be32 r 6 * ld_blocksize s" "snd (iso_extent s) = be32 r 14" using r by (simp_all add: iso_extent_def be32_append)
  have "entry_of (fsprivate s) (ld_blocksize s) r ?d"
    using m x r by (simp add: entry_of_def iso_attribs_keep set_time_def set_date_def fl iso_de0_def)
  then show ?thesis using e f m by (auto simp: iso_entry_def entry_of_def split: if_splits option.splits)
qed

text \<open>
  The records for which the entry can be built without leaving an array: the long name has at most 127
  characters, also when it comes from a field \<open>NM\<close>, that field is long enough, and the short name is not empty.
\<close>

definition rec_fits :: "16 word \<Rightarrow> byte list \<Rightarrow> bool" where
  "rec_fits fp r \<longleftrightarrow> length (rec_longname fp r) < LONGNAMELENGTH \<and> rec_truncname fp r \<noteq> []
     \<and> (fp AND ISOFS_HIGHSIERRA \<noteq> 0
        \<or> (let t = shown_rec fp r in
           case susp_loop t (unat (t ! 0)) (0x4E, 0x4D) 0 (susp_start t) of
             None \<Rightarrow> True
           | Some off \<Rightarrow> 5 \<le> unat (t ! (off + 2)) \<and> (t ! (off + 4) AND 6 = 0 \<longrightarrow> unat (t ! (off + 2)) < LONGNAMELENGTH + 5)))"

lemma susp_loop_append:
  "susp_loop p len tag k off = Some i \<Longrightarrow> i + 3 < len" "len \<le> length p \<Longrightarrow> susp_loop (p @ rest) len tag k off = susp_loop p len tag k off"
proof (induction p len tag k off rule: susp_loop.induct)
  case (1 p len tag entryno offset)
  {
    case 1
    then show ?case using "1.IH"(1) by (subst (asm) susp_loop.simps) (auto split: if_splits)
  next
    case 2
    then show ?case using "1.IH"(2) by (subst (1 2) susp_loop.simps) (auto simp: nth_append)
  }
qed

lemma rr_NM_fits:
  assumes t: "scratch s = shown_rec fp r @ rest" "length r = 512" "1024 \<le> length (scratch s)" and fits: "rec_fits fp r" "fp AND ISOFS_HIGHSIERRA = 0"
  shows "rr_NM de s \<noteq> None"
proof -
  let ?t = "shown_rec fp r"
  have l: "unat (?t ! 0) < 2 ^ LENGTH(8)" by (rule unsigned_less)
  have st: "scratch s ! 0 = ?t ! 0" "susp_start (scratch s) = susp_start ?t" using t by (simp_all add: nth_append susp_start_def)
  have eq: "susp_loop (scratch s) (unat (scratch s ! 0)) (0x4E, 0x4D) 0 (susp_start (scratch s)) = susp_loop ?t (unat (?t ! 0)) (0x4E, 0x4D) 0 (susp_start ?t)"
    using susp_loop_append(2) [of "unat (?t ! 0)" ?t] l t(2) by (simp only: st) (simp add: t(1))
  show ?thesis
  proof (cases "susp_loop ?t (unat (?t ! 0)) (0x4E, 0x4D) 0 (susp_start ?t)")
    case None
    then show ?thesis using eq by (simp add: rr_NM_def get_susp_field_def)
  next
    case (Some off)
    define n where "n = unat (?t ! (off + 2))"
    have off: "off + 3 < 256" using susp_loop_append(1) [OF Some] l by simp
    have n: "n < 256" "5 \<le> n" "?t ! (off + 4) AND 6 = 0 \<Longrightarrow> n < LONGNAMELENGTH + 5"
      using fits Some unsigned_less [of "?t ! (off + 2)", where 'a = nat] by (auto simp: rec_fits_def n_def Let_def)
    define f where "f = take n (drop off (scratch s))"
    have f: "length f = n" "f ! 2 = ?t ! (off + 2)" "f ! 4 = ?t ! (off + 4)"
      using n off t by (simp_all add: f_def nth_append)
    have sc: "get_susp_field (0x4E, 0x4D) RR_BUFSIZE 0 s = (True, s\<lparr>scratch := overwrite 512 f (scratch s)\<rparr>)"
      using eq Some n off t by (simp add: get_susp_field_def RR_BUFSIZE_def f_def n_def nth_append)
    have nth: "overwrite 512 f (scratch s) ! (512 + i) = f ! i" if "i < n" for i
      using that f(1) t(3) by (simp add: overwrite_def nth_append)
    have "overwrite 512 f (scratch s) ! 514 = ?t ! (off + 2)" "overwrite 512 f (scratch s) ! 516 = ?t ! (off + 4)"
      using nth [of 2] nth [of 4] f n(2) by simp_all
    then have "rr (s\<lparr>scratch := overwrite 512 f (scratch s)\<rparr>) 2 = ?t ! (off + 2)" "rr (s\<lparr>scratch := overwrite 512 f (scratch s)\<rparr>) 4 = ?t ! (off + 4)"
      by (simp_all add: rr_def RR_BUFSIZE_def)
    moreover have "uint (?t ! (off + 2)) = int n" by (simp add: n_def)
    ultimately show ?thesis using sc n(2,3) by (auto simp: rr_NM_def put_str_def Let_def)
  qed
qed

lemma iso_entry_fits:
  assumes r: "scratch s = r @ rest" "length r = 512" and s: "1024 \<le> length (scratch s)" and fits: "rec_fits (fsprivate s) r" and l: "loc_ok l"
  shows "iso_entry l s \<noteq> None"
proof -
  have "\<exists>px de s'. iso_fields d s = Some (px, de, s')" for d
  proof (cases "fsprivate s AND ISOFS_HIGHSIERRA = 0")
    case True
    note t = iso_tune_rec [OF r True s]
    obtain d1 where n: "iso_names (iso_tune s) d = Some d1" using iso_names_rec [OF t(1) r(2)] fits by (auto simp: rec_fits_def)
    have "1024 \<le> length (scratch (iso_tune s))" using t(2) by (simp add: only_scratch_def)
    from rr_NM_fits [OF t(1) r(2) this fits True, of d1] obtain d2 s2 where "rr_NM d1 (iso_tune s) = Some (d2, s2)" by auto
    then show ?thesis using n True by (auto simp: iso_fields_def split: prod.splits) (metis prod_cases3)
  next
    case False
    then have "scratch s = shown_rec (fsprivate s) r @ rest" using r by (simp add: shown_rec_def)
    from iso_names_rec [OF this r(2), of d] show ?thesis using False fits by (auto simp: iso_fields_def rec_fits_def)
  qed
  then obtain px de s' where f: "iso_fields (iso_de0 l s) s = Some (px, de, s')" by blast
  then have "cd_truncname de \<noteq> []" using iso_fields_main [OF r s f] fits by (simp add: rec_fits_def)
  then have "l_sname l = cd_truncname de \<Longrightarrow> l_extent l \<noteq> None" using l by (auto simp: loc_ok_def)
  then show ?thesis using f by (auto simp: iso_entry_def iso_attribs_keep set_time_def set_date_def)
qed

text \<open>The state between the calls of a scan of a directory.\<close>

definition iso_same :: "'d ldev \<Rightarrow> 'd ldev \<Rightarrow> bool" where
  "iso_same s s' \<longleftrightarrow> metadevice s' = metadevice s \<and> fsprivate s' = fsprivate s \<and> rootdir s' = rootdir s \<and> ld_blocksize s' = ld_blocksize s
     \<and> ld_fs s' = ld_fs s"

text \<open>
  The second block of the disc in \<open>demo_disc\<close>, all bytes 1, is a directory whose first record is hidden and has the
  name of the parent directory.
\<close>

lemma demo_rec: "rec_at demo_disc dev 2048 = replicate 512 1"
proof (rule nth_equalityI)
  fix i
  assume "i < length (rec_at demo_disc dev 2048)"
  then have i: "i < 512" by simp
  then have "(2048 + i) div BLOCKSIZE = 1" by (intro div_nat_eqI) (simp_all add: BLOCKSIZE_def)
  then show "rec_at demo_disc dev 2048 ! i = replicate 512 1 ! i"
    using i BLOCKSIZE_pos by (simp add: rec_at_def disc_bytes_def RR_BUFSIZE_def sec_bytes_nth demo_disc_def)
qed simp

lemma demo_ready: "iso_ready demo_meta demo_disc (demo_ldev 1)"
  using demo_drive_ok demo_cache_ok [of demo_disc 1] by (simp add: iso_ready_def small_medium_def demo_disc_def demo_ldev_def)

lemma demo_fits: "rec_fits 0 (replicate 512 1)"
proof -
  have "susp_loop (replicate 512 1) (unat (replicate 512 1 ! 0 :: byte)) (0x4E, 0x4D) 0 (susp_start (replicate 512 1)) = None"
    by (subst susp_loop.simps) simp
  then show ?thesis
    by (simp add: rec_fits_def shown_rec_def tune_rec_def rec_longname_def rec_truncname_def copyfn_def copyfn_long_def dot_name_def LONGNAMELENGTH_def)
qed

lemma demo_fsprivate: "fsprivate (demo_ldev n) = 0"
  by (simp add: demo_ldev_def)

lemma demo_shown: "\<not> hidden_rec demo_disc (demo_ldev 1) 2048"
  by (simp add: hidden_rec_def demo_rec rec_flags_def demo_ldev_def de_flag_defs block_start_def)

lemma demo_readable: "rec_readable demo_disc dev 2048"
proof -
  have "unat (of_nat ((2048 + i) div BLOCKSIZE) :: 32 word) < 4" if "i < 512" for i using that by (simp add: BLOCKSIZE_def unat_of_nat)
  then show ?thesis by (simp add: rec_readable_def readable_def demo_disc_def RR_BUFSIZE_def)
qed

lemma demo_next:
  assumes "next_rec (rec_at demo_disc (metadevice (demo_ldev 1))) (hidden_rec demo_disc (demo_ldev 1)) 4096 2048 a"
  shows "a = 2048"
proof -
  show ?thesis using demo_shown assms next_rec.simps [of "rec_at demo_disc (metadevice (demo_ldev 1))" "hidden_rec demo_disc (demo_ldev 1)" 4096 2048 a]
    by (simp add: demo_rec)
qed

lemma direntry_returns:
  assumes "iso_ready K med s"
    and "\<forall>a. next_rec (rec_at med (metadevice s)) (hidden_rec med s) dirend addr a \<longrightarrow> rec_fits (fsprivate s) (rec_at med (metadevice s) a)"
  shows "\<exists>err addr' de s'. iso_get_direntry K addr dirend s = Some (err, addr', de, s') \<and> iso_ready K med s' \<and> iso_same s s'
    \<and> (err < 0 \<and> \<not> (reliable K med \<and> (\<exists>b. next_readable (rec_at med (metadevice s)) (hidden_rec med s) (rec_readable med (metadevice s)) dirend addr b))
       \<or> err = 0 \<and> addr < addr')"
proof -
  let ?l = "\<lparr>l_addr = addr, l_iindex = 0, l_assoc = 0, l_sname = [], l_extent = None\<rparr>"
  obtain err l1 s1 where sc: "iso_scan K dirend ?l s = Some (err, l1, s1)" "iso_ready K med s1" "same_ld s s1" "loc_ok l1"
    and ok: "err < 0 \<and> \<not> (reliable K med \<and> (\<exists>b. next_readable (rec_at med (metadevice s)) (hidden_rec med s) (rec_readable med (metadevice s)) dirend addr b))
      \<or> err = 0 \<and> next_rec (rec_at med (metadevice s)) (hidden_rec med s) dirend addr (l_iindex l1)
      \<and> take 512 (scratch s1) = rec_at med (metadevice s) (l_iindex l1) \<and> addr < l_addr l1"
    using iso_scan_ok [OF assms(1), of dirend ?l] by (auto simp: loc_ok_def)
  have same: "iso_same s s1" using same_ld_keep [OF sc(3)] by (simp add: iso_same_def)
  show ?thesis
  proof (cases "err < 0")
    case True
    then show ?thesis using sc same ok by (auto simp: iso_get_direntry_def)
  next
    case False
    then have r: "err = 0" "scratch s1 = rec_at med (metadevice s) (l_iindex l1) @ drop 512 (scratch s1)"
      using ok append_take_drop_id [of 512 "scratch s1"] by simp_all
    have fits: "rec_fits (fsprivate s1) (rec_at med (metadevice s) (l_iindex l1))" using assms(2) ok False same by (simp add: iso_same_def)
    have len: "1024 \<le> length (scratch s1)" using sc(2) by (simp add: iso_ready_def)
    obtain de s' where en: "iso_entry l1 s1 = Some (de, s')" using iso_entry_fits [OF r(2) length_rec_at len fits sc(4)] by auto
    have os: "only_scratch s1 s'" using iso_entry_of [OF r(2) length_rec_at len en] by simp
    then have "iso_ready K med s'" using iso_ready_step [OF sc(2)] sc(2) by (auto simp: only_scratch_def iso_ready_def cache_ok_def)
    moreover have "iso_same s s'" using same same_ld_keep [of s1 s'] os by (auto simp: only_scratch_def iso_same_def)
    ultimately show ?thesis using sc(1) r(1) en ok by (auto simp: iso_get_direntry_def)
  qed
qed

text \<open>On the disc of the example the search does deliver an entry.\<close>

lemma DCRead_part:
  assumes "get_block K (of_nat (adr div BLOCKSIZE)) s = Some (int i, s')" "i < length (DCCache s')" "length (ce_data (DCCache s' ! i)) = BLOCKSIZE"
    and n: "0 < cnt" "adr mod BLOCKSIZE + cnt \<le> BLOCKSIZE" "cnt \<le> length buf"
  shows "DCRead K adr cnt buf s = Some (0, take cnt (drop (adr mod BLOCKSIZE) (ce_data (DCCache s' ! i))) @ drop cnt buf, s')"
proof -
  have t: "min (BLOCKSIZE - adr mod BLOCKSIZE) cnt = cnt" using n by simp
  have np: "\<not> BLOCKSIZE * 2 \<le> cnt" using n(2) BLOCKSIZE_pos by linarith
  have l: "length (take cnt (drop (adr mod BLOCKSIZE) (ce_data (DCCache s' ! i)))) = cnt" using assms(3) n(2) by simp
  have "read_round K adr cnt 0 buf s = Some (0, cnt, take cnt (drop (adr mod BLOCKSIZE) (ce_data (DCCache s' ! i))) @ drop cnt buf, s')"
    using assms(1,2) np l n(3) unfolding read_round_def Let_def t by (simp add: store_def overwrite_start)
  then show ?thesis using n(1) by (simp add: DCRead_def DCRead_loop.simps [of K adr cnt] DCRead_loop.simps [of K _ 0])
qed

lemma demo_direntry: "\<exists>addr' de s'. iso_get_direntry demo_meta 2048 dirend (demo_ldev 1) = Some (0, addr', de, s')"
proof -
  let ?l = "\<lparr>l_addr = 2048, l_iindex = 0, l_assoc = 0, l_sname = [], l_extent = None\<rparr>"
  let ?e = "empty_entry\<lparr>ce_data := replicate BLOCKSIZE 1, ce_blkno := 1, ce_device := 65, ce_timestamp := 1\<rparr>"
  let ?s = "(demo_ldev 1)\<lparr>DCCache := [?e], drv := 2, mediatime := 1 + MEDIADELAY\<rparr>"
  have "get_block demo_meta (of_nat (2048 div BLOCKSIZE)) (demo_ldev 1) = Some (int 0, ?s)"
    by (simp add: get_block_def locate_block_in_buffer_def get_free_buffer_def holds_def demo_ldev_def demo_meta_def demo_read_def demo_disc_def
        overwrite_start empty_entry_def Let_def) (simp add: BLOCKSIZE_def)
  from DCRead_part [OF this, of 512 "scratch (demo_ldev 1)"] obtain s1 where rd: "read_scratch demo_meta 2048 RR_BUFSIZE (demo_ldev 1) = Some (0, s1)"
    by (auto simp: read_scratch_def RR_BUFSIZE_def BLOCKSIZE_def demo_ldev_def)
  have R: "rec_at demo_disc (metadevice (demo_ldev 1)) 2048 = replicate 512 1" by (rule demo_rec)
  obtain err s2 where "read_scratch demo_meta 2048 RR_BUFSIZE (demo_ldev 1) = Some (err, s2)" "iso_ready demo_meta demo_disc s2" "same_ld (demo_ldev 1) s2"
    "err < 0 \<or> err = 0 \<and> scratch s2 = rec_at demo_disc (metadevice (demo_ldev 1)) 2048 @ drop RR_BUFSIZE (scratch (demo_ldev 1))"
    using read_record [OF demo_ready, of 2048] by metis
  then have s1: "iso_ready demo_meta demo_disc s1" "same_ld (demo_ldev 1) s1" "scratch s1 = replicate 512 1 @ drop RR_BUFSIZE (scratch (demo_ldev 1))"
    using rd R by auto
  note keep = same_ld_keep [OF s1(2)]
  have fp: "fsprivate s1 = 0" "rootdir s1 = 0" "metadevice s1 = 65" using keep by (simp_all add: demo_ldev_def)
  have "\<exists>l1. iso_scan demo_meta dirend ?l (demo_ldev 1) = Some (0, l1, s1) \<and> loc_ok l1"
    using rd s1(3) fp by (simp add: iso_scan.simps [of demo_meta dirend ?l] iso_record_def Let_def nth_append iso_flags_def de_flag_defs block_start_def loc_ok_def)
  then obtain l1 where sc: "iso_scan demo_meta dirend ?l (demo_ldev 1) = Some (0, l1, s1)" "loc_ok l1" by blast
  have "1024 \<le> length (scratch s1)" using s1(1) by (simp add: iso_ready_def)
  then have "iso_entry l1 s1 \<noteq> None" using iso_entry_fits [OF s1(3) _ _ _ sc(2)] demo_fits fp by simp
  then show ?thesis using sc(1) by (auto simp: iso_get_direntry_def)
qed

lemma direntry_next:
  assumes "iso_ready K med s" "iso_get_direntry K addr dirend s = Some (0, addr', de, s')"
  shows "\<exists>a. next_rec (rec_at med (metadevice s)) (hidden_rec med s) dirend addr a
    \<and> addr' = a + ucast (rec_at med (metadevice s) a ! 0) \<and> addr < addr'
    \<and> entry_of (fsprivate s) (ld_blocksize s) (rec_at med (metadevice s) a) de \<and> iso_ready K med s' \<and> iso_same s s'"
proof -
  let ?l = "\<lparr>l_addr = addr, l_iindex = 0, l_assoc = 0, l_sname = [], l_extent = None\<rparr>"
  obtain err l1 s1 where sc: "iso_scan K dirend ?l s = Some (err, l1, s1)" "iso_ready K med s1" "same_ld s s1"
    and ok: "err < 0 \<or> err = 0 \<and> next_rec (rec_at med (metadevice s)) (hidden_rec med s) dirend addr (l_iindex l1)
      \<and> take 512 (scratch s1) = rec_at med (metadevice s) (l_iindex l1)
      \<and> l_addr l1 = l_iindex l1 + ucast (rec_at med (metadevice s) (l_iindex l1) ! 0) \<and> addr < l_addr l1"
    using iso_scan_ok [OF assms(1), of dirend ?l] by auto
  have e: "err = 0" "iso_entry l1 s1 = Some (de, s')" "addr' = l_addr l1"
    using assms(2) sc(1) by (auto simp: iso_get_direntry_def split: if_splits Option.bind_splits)
  have "scratch s1 = rec_at med (metadevice s) (l_iindex l1) @ drop 512 (scratch s1)" using ok e(1) append_take_drop_id [of 512 "scratch s1"] by simp
  from iso_entry_of [OF this length_rec_at _ e(2)] have en: "entry_of (fsprivate s1) (ld_blocksize s1) (rec_at med (metadevice s) (l_iindex l1)) de \<and> only_scratch s1 s'"
    using sc(2) by (simp add: iso_ready_def)
  then have "iso_ready K med s'" using iso_ready_step [OF sc(2)] sc(2) by (auto simp: only_scratch_def iso_ready_def cache_ok_def)
  moreover have "iso_same s s'" using same_ld_keep [OF sc(3)] en same_ld_keep [of s1 s'] by (auto simp: only_scratch_def iso_same_def)
  ultimately show ?thesis using ok e en same_ld_keep [OF sc(3)] by (intro exI [of _ "l_iindex l1"]) auto
qed

text \<open>C6: The next directory entry.  Whatever the cache holds, a successful \<open>get_direntry\<close> delivers the entry of the
  first record from the given address on that is to be shown: padding at the end of a block, associated files and the
  parent of the root directory are passed over.  Extent, length, date, attributes and short name are those of the
  record, and the next search begins behind it.\<close>

theorem iso_get_direntry_next:
  assumes "iso_ready K med s" "iso_get_direntry K addr dirend s = Some (0, addr', de, s')"
  shows "\<exists>a. next_rec (rec_at med (metadevice s)) (hidden_rec med s) dirend addr a
    \<and> addr' = a + ucast (rec_at med (metadevice s) a ! 0) \<and> addr < addr'
    \<and> entry_of (fsprivate s) (ld_blocksize s) (rec_at med (metadevice s) a) de \<and> iso_ready K med s' \<and> iso_same s s'"
  using assms by (rule direntry_next)

theorem iso_get_direntry_next_witness:
  "\<exists>addr' de s'. iso_get_direntry demo_meta 2048 4096 (demo_ldev 1) = Some (0, addr', de, s')
    \<and> (\<exists>a. next_rec (rec_at demo_disc (metadevice (demo_ldev 1))) (hidden_rec demo_disc (demo_ldev 1)) 4096 2048 a
      \<and> addr' = a + ucast (rec_at demo_disc (metadevice (demo_ldev 1)) a ! 0) \<and> 2048 < addr'
      \<and> entry_of (fsprivate (demo_ldev 1)) (ld_blocksize (demo_ldev 1)) (rec_at demo_disc (metadevice (demo_ldev 1)) a) de
      \<and> iso_ready demo_meta demo_disc s' \<and> iso_same (demo_ldev 1) s')"
proof -
  obtain addr' de s' where "iso_get_direntry demo_meta 2048 4096 (demo_ldev 1) = Some (0, addr', de, s')" using demo_direntry by blast
  then show ?thesis using iso_get_direntry_next [OF demo_ready, of 2048 4096 addr' de s'] by blast
qed

text \<open>C28: The search for the next directory entry comes to an end.  On every medium of less than 2 GB, whatever it contains,
  \<open>get_direntry\<close> returns with an error or with an entry and a greater address, provided that the entries of the records
  it can come to fit their arrays; so a loop over a directory ends as well.  It does not fail when there is a record to be shown, the
  records up to it can be read and the drive is reliable.\<close>

theorem iso_get_direntry_returns:
  assumes "iso_ready K med s"
    and "\<forall>a. next_rec (rec_at med (metadevice s)) (hidden_rec med s) dirend addr a \<longrightarrow> rec_fits (fsprivate s) (rec_at med (metadevice s) a)"
  shows "\<exists>err addr' de s'. iso_get_direntry K addr dirend s = Some (err, addr', de, s') \<and> iso_ready K med s' \<and> iso_same s s'
    \<and> (err < 0 \<and> \<not> (reliable K med \<and> (\<exists>b. next_readable (rec_at med (metadevice s)) (hidden_rec med s) (rec_readable med (metadevice s)) dirend addr b))
       \<or> err = 0 \<and> addr < addr')"
  using assms by (rule direntry_returns)

theorem iso_get_direntry_returns_witness:
  "\<exists>addr' de s'. iso_get_direntry demo_meta 2048 4096 (demo_ldev 1) = Some (0, addr', de, s') \<and> iso_ready demo_meta demo_disc s'
    \<and> iso_same (demo_ldev 1) s' \<and> 2048 < addr'"
proof -
  have "next_readable (rec_at demo_disc (metadevice (demo_ldev 1))) (hidden_rec demo_disc (demo_ldev 1)) (rec_readable demo_disc (metadevice (demo_ldev 1))) 4096 2048 2048"
    using demo_readable demo_shown by (intro next_readable.here) (simp_all only: demo_rec nth_replicate, simp_all)
  moreover have "\<forall>a. next_rec (rec_at demo_disc (metadevice (demo_ldev 1))) (hidden_rec demo_disc (demo_ldev 1)) 4096 2048 a
      \<longrightarrow> rec_fits (fsprivate (demo_ldev 1)) (rec_at demo_disc (metadevice (demo_ldev 1)) a)"
    by (metis demo_next demo_rec demo_fits demo_fsprivate)
  ultimately show ?thesis using iso_get_direntry_returns [OF demo_ready, of 4096 2048] demo_reliable by blast
qed

subsection \<open>Where the reader of directories fails\<close>

text \<open>The end of a directory is not respected.  \<open>get_direntry\<close> compares the address with the end of the directory only when it
  meets padding; when the last block of a directory is filled to the end, the search goes on in the block behind it and delivers
  what it takes for a record there.\<close>

theorem scan_leaves_directory:
  "\<exists>addr' de s'. iso_get_direntry demo_meta 2048 2048 (demo_ldev 1) = Some (0, addr', de, s')"
  by (rule demo_direntry)

lemma takeWhile_all: "list_all P xs \<Longrightarrow> takeWhile P xs = xs"
  by (simp add: list_all_iff)

text \<open>Names of 128 characters overflow the entry.  \<open>pathconf\<close> announces names of up to 128 characters, the limit of a record
  is even higher, but \<open>longname\<close> has 128 bytes with the closing zero; a longer name is written past its end, here for a plain volume.\<close>

theorem long_name_overflows:
  assumes "scratch s = r @ rest" "length r = 512" "1024 \<le> length (scratch s)" "fsprivate s = 0"
    and "128 \<le> unat (r ! 32)" "list_all (\<lambda>c. \<not> name_end c \<and> c \<noteq> 46) (take (unat (r ! 32)) (drop 33 r))"
  shows "iso_entry l s = None"
proof -
  have "unat (r ! 32) < 2 ^ LENGTH(8)" by (rule unsigned_less)
  then have len: "length (take (unat (r ! 32)) (drop 33 r)) = unat (r ! 32)" using assms(2) by simp
  have sh: "shown_rec 0 r = r" by (simp add: shown_rec_def tune_rec_def)
  have "takeWhile (\<lambda>c. \<not> name_end c) (take (unat (r ! 32)) (drop 33 r)) = take (unat (r ! 32)) (drop 33 r)"
    using assms(6) by (intro takeWhile_all) (auto simp: list_all_iff)
  moreover have "last (take (unat (r ! 32)) (drop 33 r)) \<noteq> 46" "take (unat (r ! 32)) (drop 33 r) \<noteq> []"
    using assms(5,6) len last_in_set [of "take (unat (r ! 32)) (drop 33 r)"] by (auto simp: list_all_iff)
  ultimately have "rec_longname 0 r = take (unat (r ! 32)) (drop 33 r)"
    using assms(5) by (simp add: rec_longname_def sh copyfn_long_def dot_name_def drop_last_dot_def del: takeWhile_eq_all_conv)
  then have "\<not> length (rec_longname 0 r) < LONGNAMELENGTH" using len assms(5) by (simp add: LONGNAMELENGTH_def)
  moreover have fp: "fsprivate s AND ISOFS_HIGHSIERRA = 0" using assms(4) by simp
  note t = iso_tune_rec [OF assms(1,2) fp assms(3)]
  ultimately have "iso_names (iso_tune s) d = None" for d using iso_names_rec [OF t(1) assms(2), of d] assms(4) by simp
  then show ?thesis using fp by (simp add: iso_entry_def iso_fields_def)
qed

theorem long_name_overflows_witness:
  "iso_entry \<lparr>l_addr = 0, l_iindex = 0, l_assoc = 0, l_sname = [], l_extent = None\<rparr>
     ((demo_ldev 1)\<lparr>scratch := (replicate 32 0 @ 128 # replicate 479 65) @ replicate 512 0\<rparr>) = None"
  by (rule long_name_overflows [where r = "replicate 32 0 @ 128 # replicate 479 65" and rest = "replicate 512 0"])
     (simp_all add: demo_ldev_def name_end_def list_all_iff nth_append)

text \<open>A record with the name A and a field with type and creator of a Macintosh file.\<close>

definition aa_scratch :: "byte \<Rightarrow> byte list" where
  "aa_scratch x = [48] @ replicate 31 0 @ [1, 65, 0x41, 0x41, 14, 2] @ [1, 2, 3, 4, 5, 6, 7, 8, 9, 10] @ replicate 464 0 @ replicate 23 0 @ [x] @ replicate 488 0"

text \<open>The creator of a Macintosh file is not read.  The field \<open>AA\<close> holds it behind the type, but the code adds 4 to a pointer to 32-bit
  words; so the same record gives different creators, depending on what lies in the buffer behind the field.\<close>

theorem creator_is_not_read:
  "take 512 (aa_scratch 0) = take 512 (aa_scratch 1)
   \<and> cd_creator (fst (rr_AA zero_cd ((demo_ldev 1)\<lparr>scratch := aa_scratch 0\<rparr>))) = 0
   \<and> cd_creator (fst (rr_AA zero_cd ((demo_ldev 1)\<lparr>scratch := aa_scratch 1\<rparr>))) = 1"
proof -
  have "susp_loop (aa_scratch x) 48 (0x41, 0x41) 0 34 = Some 34" for x
    by (subst susp_loop.simps) (simp add: aa_scratch_def nth_append)
  moreover have "aa_scratch x ! 0 = 48" "aa_scratch x ! 32 = 1" "aa_scratch x ! 36 = 14" for x by (simp_all add: aa_scratch_def nth_append)
  ultimately have g: "get_susp_field (0x41, 0x41) RR_BUFSIZE 0 ((demo_ldev 1)\<lparr>scratch := aa_scratch x\<rparr>)
      = (True, (demo_ldev 1)\<lparr>scratch := overwrite 512 (take 14 (drop 34 (aa_scratch x))) (aa_scratch x)\<rparr>)" for x
    by (simp add: get_susp_field_def susp_start_def Let_def RR_BUFSIZE_def)
  have "overwrite 512 (take 14 (drop 34 (aa_scratch x))) (aa_scratch x)
      = take 512 (aa_scratch x) @ [0x41, 0x41, 14, 2, 1, 2, 3, 4, 5, 6, 7, 8, 9, 10] @ replicate 9 0 @ [x] @ replicate 488 0" for x
    by (simp add: overwrite_def aa_scratch_def)
  moreover have "length (take 512 (aa_scratch x)) = 512" for x by (simp add: aa_scratch_def)
  ultimately have "cd_creator (fst (rr_AA zero_cd ((demo_ldev 1)\<lparr>scratch := aa_scratch x\<rparr>))) = of_nat (unat x)" for x
    unfolding rr_AA_def g by (simp add: rr_def RR_BUFSIZE_def be32_def nth_append)
  then show ?thesis by (simp add: aa_scratch_def)
qed

end
