(* ===== verification/Cd_Toc_Props.thy ===== *)
theory Cd_Toc_Props
  imports Cd_Toc Cd_Iso_Props
begin

text \<open>
  Properties of the file system of audio discs: the contents of the files, and that the search for the next
  entry ends.
\<close>

subsection \<open>The header\<close>

lemma byte_bound: "unat (b :: byte) < 256"
  using unsigned_less [of b, where 'a = nat] by simp

lemma unat_ucast_byte: "unat (ucast (w :: 'a :: len word) :: byte) = unat w mod 256"
  by (simp add: unsigned_ucast_eq take_bit_eq_mod)

lemma horner: "(y :: nat) < 256 \<Longrightarrow> (x * 256 + y) div 256 = x" "(y :: nat) < 256 \<Longrightarrow> (x * 256 + y) mod 256 = y"
  by auto

lemma bytes32_be32: "bytes32 (be32 [a, b, c, d] 0) = [a, b, c, d]"
proof -
  define n where "n = ((unat a * 256 + unat b) * 256 + unat c) * 256 + unat d"
  note bounds = byte_bound [of a] byte_bound [of b] byte_bound [of c] byte_bound [of d]
  have "be32 [a, b, c, d] 0 = of_nat n" by (simp add: be32_def n_def algebra_simps)
  moreover have "n < 2 ^ 32" using bounds by (simp add: n_def)
  ultimately have n: "unat (be32 [a, b, c, d] 0) = n" by (simp add: unat_of_nat)
  have d: "n div 256 = (unat a * 256 + unat b) * 256 + unat c" unfolding n_def using bounds by (rule_tac horner) auto
  have "n div 65536 = n div 256 div 256" by (simp add: div_mult2_eq [symmetric])
  then have d2: "n div 65536 = unat a * 256 + unat b" unfolding d using bounds horner by auto
  have "n div 16777216 = n div 65536 div 256" by (simp add: div_mult2_eq [symmetric])
  then have d3: "n div 16777216 = unat a" unfolding d2 using bounds horner by auto
  have m1: "n mod 256 = unat d" unfolding n_def using bounds by (simp only: horner)
  have m: "n div 256 mod 256 = unat c" "n div 65536 mod 256 = unat b" "n div 16777216 mod 256 = unat a"
    unfolding d d2 d3 using bounds by (simp_all only: horner mod_less)
  have "bytes32 w = [of_nat (unat w div 16777216 mod 256), of_nat (unat w div 65536 mod 256), of_nat (unat w div 256 mod 256), of_nat (unat w mod 256)]" for w
    by (simp add: bytes32_def word_unat_eq_iff unat_ucast_byte drop_bit_eq_div unat_div unat_of_nat)
  from this [of "be32 [a, b, c, d] 0"] show ?thesis unfolding n m m1 by simp
qed

lemma bytes16_be16: "bytes16 (be16 [a, b] 0) = [a, b]"
proof -
  note bounds = byte_bound [of a] byte_bound [of b]
  have "be16 [a, b] 0 = of_nat (unat a * 256 + unat b)" by (simp add: be16_def)
  moreover have "unat a * 256 + unat b < 2 ^ 16" using bounds by simp
  ultimately have n: "unat (be16 [a, b] 0) = unat a * 256 + unat b" by (simp only: unat_of_nat) simp
  have "bytes16 w = [of_nat (unat w div 256 mod 256), of_nat (unat w mod 256)]" for w
    by (simp add: bytes16_def word_unat_eq_iff unat_ucast_byte drop_bit_eq_div unat_div unat_of_nat)
  then show ?thesis using bounds horner by (simp add: n)
qed

lemma swap_bytes: "bytes32 (il2ml v) = rev (bytes32 v)" "bytes16 (is2ms w) = rev (bytes16 w)"
  by (simp_all add: il2ml_def is2ms_def bytes32_be32 bytes16_be16 bytes32_def [of v] bytes16_def [of w])

lemma length_setupheader [simp]: "length (setupheader len) = 44"
  by (simp add: setupheader_def bytes32_def bytes16_def)

subsection \<open>The contents of an audio file\<close>

text \<open>The contract of the reading of audio sectors: the bytes of the sectors, or an error.\<close>

definition da_ok :: "'d meta \<Rightarrow> (16 word \<Rightarrow> 32 word \<Rightarrow> byte list) \<Rightarrow> bool" where
  "da_ok K raw \<longleftrightarrow> (\<forall>dev b. length (raw dev b) = CD_FRAMESIZE_RAW)
     \<and> (\<forall>dev b n d. \<exists>err bytes d'. CDROMREADDA K dev b (n * CD_FRAMESIZE_RAW) d = ((err, bytes), d')
          \<and> (err = 0 \<and> bytes = concat (map (\<lambda>i. raw dev (b + of_nat i)) [0..<n]) \<or> err \<noteq> 0 \<and> bytes = []))"

text \<open>A drive that reads all sectors.\<close>

definition da_reliable :: "'d meta \<Rightarrow> bool" where
  "da_reliable K \<longleftrightarrow> (\<forall>dev b n d. fst (fst (CDROMREADDA K dev b n d)) = 0)"

lemma da_reliableD: "da_reliable K \<Longrightarrow> CDROMREADDA K dev b n d = ((err, bytes), d') \<Longrightarrow> err = 0"
  unfolding da_reliable_def by (metis fst_conv)

text \<open>The audio data of the track that begins at \<open>start - PROGFILE_OFFSET\<close>.\<close>

definition track_bytes :: "(16 word \<Rightarrow> 32 word \<Rightarrow> byte list) \<Rightarrow> 16 word \<Rightarrow> 32 word \<Rightarrow> nat \<Rightarrow> nat \<Rightarrow> byte list" where
  "track_bytes raw dev start = sec_bytes (\<lambda>i. raw dev (start + of_nat i - PROGFILE_OFFSET)) CD_FRAMESIZE_RAW"

interpretation track: sectors "\<lambda>i. raw dev (start + of_nat i - PROGFILE_OFFSET)" CD_FRAMESIZE_RAW for raw dev start
  by unfold_locales (simp add: CD_FRAMESIZE_RAW_def)

lemma length_track_bytes [simp]: "length (track_bytes raw dev start a n) = n"
  by (simp add: track_bytes_def)

lemma track_bytes_append: "track_bytes raw dev start a m @ track_bytes raw dev start (a + m) n = track_bytes raw dev start a (m + n)"
  by (simp add: track_bytes_def sec_bytes_append)

text \<open>The virtual file: the header and the audio data.\<close>

definition wav_bytes :: "(16 word \<Rightarrow> 32 word \<Rightarrow> byte list) \<Rightarrow> 16 word \<Rightarrow> 32 word \<Rightarrow> 32 word \<Rightarrow> nat \<Rightarrow> nat \<Rightarrow> byte list" where
  "wav_bytes raw dev start len off n =
     (if off < 44 then drop off (setupheader (len - 44)) @ track_bytes raw dev start 0 (n - (44 - off)) else track_bytes raw dev start (off - 44) n)"

text \<open>What changes during a read: the buffer of the device and the drive.\<close>

definition toc_same :: "'d ldev \<Rightarrow> 'd ldev \<Rightarrow> bool" where
  "toc_same s s' \<longleftrightarrow> metadevice s' = metadevice s \<and> length (scratch s') = length (scratch s)"

lemma read_da_ok:
  assumes "da_ok K raw" "CD_FRAMESIZE_RAW \<le> length (scratch s)"
  obtains err s' where "read_da K (start + of_nat i - PROGFILE_OFFSET) s = Some (err, s')" "toc_same s s'" "da_reliable K \<Longrightarrow> err = 0"
    "err = 0 \<Longrightarrow> take CD_FRAMESIZE_RAW (scratch s') = raw (metadevice s) (start + of_nat i - PROGFILE_OFFSET)"
proof -
  let ?b = "start + of_nat i - PROGFILE_OFFSET"
  have l: "length (raw (metadevice s) ?b) = CD_FRAMESIZE_RAW" using assms(1) by (simp add: da_ok_def)
  obtain err bytes d' where r: "CDROMREADDA K (metadevice s) ?b (1 * CD_FRAMESIZE_RAW) (drv s) = ((err, bytes), d')"
    "err = 0 \<and> bytes = concat (map (\<lambda>i. raw (metadevice s) (?b + of_nat i)) [0..<1]) \<or> err \<noteq> 0 \<and> bytes = []"
    using assms(1) unfolding da_ok_def by meson
  then show ?thesis using that [of err "s\<lparr>scratch := overwrite 0 bytes (scratch s), drv := d'\<rparr>"] l assms(2) da_reliableD [OF _ r(1)]
    by (auto simp: read_da_def store_def toc_same_def length_overwrite overwrite_def)
qed

lemma toc_sectors_ok:
  assumes K: "da_ok K raw"
  shows "fo mod CD_FRAMESIZE_RAW = 0 \<or> cnt = 0 \<Longrightarrow> p + cnt \<le> length buf \<Longrightarrow>
    \<exists>err n buf' s'. toc_sectors K start fo cnt p buf s = Some (err, fo + n, cnt - n, p + n, buf', s') \<and> n \<le> cnt \<and> toc_same s s' \<and> length buf' = length buf
     \<and> (da_reliable K \<longrightarrow> err = 0) \<and> (err = 0 \<longrightarrow> buf' = overwrite p (track_bytes raw (metadevice s) start fo n) buf \<and> cnt - n \<le> CD_FRAMESIZE_RAW \<and> n mod CD_FRAMESIZE_RAW = 0)"
proof (induction cnt arbitrary: fo p buf s rule: less_induct)
  case (less cnt)
  show ?case
  proof (cases "cnt \<le> CD_FRAMESIZE_RAW")
    case True
    then show ?thesis by (subst toc_sectors.simps) (auto intro!: exI [of _ 0] simp: toc_same_def track_bytes_def)
  next
    case False
    let ?k = "min (cnt div CD_FRAMESIZE_RAW) 10000"
    let ?n = "?k * CD_FRAMESIZE_RAW"
    let ?b = "start + of_nat (fo div CD_FRAMESIZE_RAW) - PROGFILE_OFFSET"
    have fo: "fo mod CD_FRAMESIZE_RAW = 0" using less.prems(1) False by (auto simp: CD_FRAMESIZE_RAW_def)
    have k: "0 < ?n" "?n \<le> cnt" using False div_times_less_eq_dividend [of cnt CD_FRAMESIZE_RAW]
      by (auto simp: min_def CD_FRAMESIZE_RAW_def div_greater_zero_iff)
    obtain err bytes d' where r: "CDROMREADDA K (metadevice s) ?b ?n (drv s) = ((err, bytes), d')"
      "err = 0 \<and> bytes = concat (map (\<lambda>i. raw (metadevice s) (?b + of_nat i)) [0..<?k]) \<or> err \<noteq> 0 \<and> bytes = []"
      using K unfolding da_ok_def by meson
    have cb: "concat (map (\<lambda>i. raw (metadevice s) (?b + of_nat i)) [0..<?k]) = track_bytes raw (metadevice s) start fo ?n"
      using track.whole_sectors [of raw "metadevice s" start fo ?k] K fo by (simp add: da_ok_def track_bytes_def algebra_simps)
    show ?thesis
    proof (cases "err = 0")
      case e: False
      then have "toc_sectors K start fo cnt p buf s = Some (err, fo, cnt, p, buf, s\<lparr>drv := d'\<rparr>)"
        using r False less.prems(2) by (subst toc_sectors.simps) (auto simp: Let_def store_def)
      then show ?thesis using e da_reliableD [OF _ r(1)] by (auto intro!: exI [of _ 0] simp: toc_same_def)
    next
      case e: True
      let ?buf = "overwrite p (track_bytes raw (metadevice s) start fo ?n) buf"
      have fits: "p + ?n \<le> length buf" using k less.prems(2) by linarith
      then have lb: "length ?buf = length buf" by (simp add: length_overwrite)
      have un: "toc_sectors K start fo cnt p buf s = toc_sectors K start (fo + ?n) (cnt - ?n) (p + ?n) ?buf (s\<lparr>drv := d'\<rparr>)"
        using r e False fits cb by (subst toc_sectors.simps) (simp add: Let_def store_def)
      have m: "(fo + ?n) mod CD_FRAMESIZE_RAW = 0" using fo by (simp add: mod_mult_self1)
      have h: "cnt - ?n < cnt" "(fo + ?n) mod CD_FRAMESIZE_RAW = 0 \<or> cnt - ?n = 0" "p + ?n + (cnt - ?n) \<le> length ?buf"
        using k m lb less.prems(2) by linarith+
      have md: "metadevice (s\<lparr>drv := d'\<rparr>) = metadevice s" by simp
      obtain err2 n buf2 s2 where
        i: "toc_sectors K start (fo + ?n) (cnt - ?n) (p + ?n) ?buf (s\<lparr>drv := d'\<rparr>) = Some (err2, fo + ?n + n, cnt - ?n - n, p + ?n + n, buf2, s2)"
          "n \<le> cnt - ?n" "toc_same (s\<lparr>drv := d'\<rparr>) s2" "length buf2 = length buf" "da_reliable K \<longrightarrow> err2 = 0"
          "err2 = 0 \<longrightarrow> buf2 = overwrite (p + ?n) (track_bytes raw (metadevice s) start (fo + ?n) n) ?buf \<and> cnt - ?n - n \<le> CD_FRAMESIZE_RAW \<and> n mod CD_FRAMESIZE_RAW = 0"
        using less.IH [OF h, of "s\<lparr>drv := d'\<rparr>"] unfolding lb md by (elim exE conjE) (rule that)
      have "overwrite (p + ?n) (track_bytes raw (metadevice s) start (fo + ?n) n) ?buf = overwrite p (track_bytes raw (metadevice s) start fo (?n + n)) buf"
        using overwrite_next [of p "track_bytes raw (metadevice s) start fo ?n" buf] fits track_bytes_append [of raw "metadevice s" start fo ?n n] by simp
      moreover have "n mod CD_FRAMESIZE_RAW = 0 \<Longrightarrow> (?n + n) mod CD_FRAMESIZE_RAW = 0" by (simp add: mod_add_eq [symmetric])
      ultimately show ?thesis unfolding un i(1) using i(2-6) k
        by (intro exI [of _ err2] exI [of _ "?n + n"]) (auto simp: toc_same_def ac_simps)
    qed
  qed
qed

lemma toc_tail_ok:
  assumes K: "da_ok K raw" and sc: "CD_FRAMESIZE_RAW \<le> length (scratch s)"
    and f: "fo mod CD_FRAMESIZE_RAW = 0 \<or> cnt = 0" "p + cnt \<le> length buf"
  shows "\<exists>err buf' s'. do {
        (err, fo, cnt, p, buf, s) \<leftarrow> toc_sectors K start fo cnt p buf s;
        if err \<noteq> 0 \<or> cnt = 0 then Some (err, buf, s)
        else do {
          (err, s) \<leftarrow> read_da K (start + of_nat (fo div CD_FRAMESIZE_RAW) - PROGFILE_OFFSET) s;
          if err \<noteq> 0 then Some (err, buf, s)
          else map_option (\<lambda>b. (0, b, s)) (store p (take cnt (scratch s)) buf) } } = Some (err, buf', s') \<and> toc_same s s'
     \<and> length buf' = length buf \<and> (da_reliable K \<longrightarrow> err = 0) \<and> (err = 0 \<longrightarrow> buf' = overwrite p (track_bytes raw (metadevice s) start fo cnt) buf)"
proof -
  obtain err n buf1 s1 where t: "toc_sectors K start fo cnt p buf s = Some (err, fo + n, cnt - n, p + n, buf1, s1)" "n \<le> cnt" "toc_same s s1" "length buf1 = length buf"
    "da_reliable K \<longrightarrow> err = 0" "err = 0 \<longrightarrow> buf1 = overwrite p (track_bytes raw (metadevice s) start fo n) buf \<and> cnt - n \<le> CD_FRAMESIZE_RAW \<and> n mod CD_FRAMESIZE_RAW = 0"
    using toc_sectors_ok [OF K f, of start s] by metis
  show ?thesis
  proof (cases "err \<noteq> 0 \<or> cnt - n = 0")
    case True
    then show ?thesis using t by auto
  next
    case False
    then have e: "err = 0" "n < cnt" by auto
    have fo: "(fo + n) mod CD_FRAMESIZE_RAW = 0" using f(1) t(6) e by (auto simp: mod_add_eq [symmetric])
    have dev: "metadevice s1 = metadevice s" using t(3) by (simp add: toc_same_def)
    have "CD_FRAMESIZE_RAW \<le> length (scratch s1)" using t(3) sc by (simp add: toc_same_def)
    from read_da_ok [OF K this, of start "(fo + n) div CD_FRAMESIZE_RAW"] obtain err2 s2 where
      r: "read_da K (start + of_nat ((fo + n) div CD_FRAMESIZE_RAW) - PROGFILE_OFFSET) s1 = Some (err2, s2)" "toc_same s1 s2"
        "err2 = 0 \<Longrightarrow> take CD_FRAMESIZE_RAW (scratch s2) = raw (metadevice s) (start + of_nat ((fo + n) div CD_FRAMESIZE_RAW) - PROGFILE_OFFSET)" "da_reliable K \<Longrightarrow> err2 = 0"
      using dev by metis
    show ?thesis
    proof (cases "err2 = 0")
      case e2: False
      then show ?thesis using t r e by (auto simp: toc_same_def)
    next
      case e2: True
      have "take (cnt - n) (scratch s2) = take (cnt - n) (raw (metadevice s) (start + of_nat ((fo + n) div CD_FRAMESIZE_RAW) - PROGFILE_OFFSET))"
        using arg_cong [OF r(3) [OF e2], of "take (cnt - n)"] t(6) e by simp
      then have tk: "take (cnt - n) (scratch s2) = track_bytes raw (metadevice s) start (fo + n) (cnt - n)"
        using track.from_sector [of raw "metadevice s" start "fo + n" "cnt - n"] K fo t(6) e by (simp add: track_bytes_def da_ok_def)
      have st: "store (p + n) (take (cnt - n) (scratch s2)) buf1 = Some (overwrite (p + n) (take (cnt - n) (scratch s2)) buf1)"
        using tk f(2) e(2) t(4) by (simp add: store_def)
      have b1: "buf1 = overwrite p (track_bytes raw (metadevice s) start fo n) buf" using t(6) e(1) by simp
      have "overwrite (p + n) (take (cnt - n) (scratch s2)) buf1 = overwrite p (track_bytes raw (metadevice s) start fo cnt) buf"
        unfolding tk b1 using overwrite_next [of p "track_bytes raw (metadevice s) start fo n" buf "track_bytes raw (metadevice s) start (fo + n) (cnt - n)"]
          track_bytes_append [of raw "metadevice s" start fo n "cnt - n"] f(2) e(2) by simp
      moreover have "length (overwrite p (track_bytes raw (metadevice s) start fo cnt) buf) = length buf" using f(2) by (simp add: length_overwrite)
      ultimately show ?thesis using t(1,3) r(1,2) e e2 st by (auto simp: toc_same_def)
    qed
  qed
qed

lemma toc_audio_ok:
  assumes K: "da_ok K raw" and sc: "CD_FRAMESIZE_RAW \<le> length (scratch s)" and b: "p + cnt \<le> length buf"
  shows "\<exists>err buf' s'. toc_audio K start fo cnt p buf s = Some (err, buf', s') \<and> toc_same s s' \<and> length buf' = length buf
    \<and> (da_reliable K \<longrightarrow> err = 0) \<and> (err = 0 \<longrightarrow> buf' = overwrite p (track_bytes raw (metadevice s) start fo cnt) buf)"
proof -
  let ?o = "fo mod CD_FRAMESIZE_RAW"
  let ?n = "if ?o + cnt > CD_FRAMESIZE_RAW then CD_FRAMESIZE_RAW - ?o else cnt"
  show ?thesis
  proof (cases "?o \<noteq> 0 \<or> cnt < CD_FRAMESIZE_RAW")
    case False
    then show ?thesis using toc_tail_ok [OF K sc _ b, of fo start] by (simp add: toc_audio_def Let_def)
  next
    case True
    from read_da_ok [OF K sc, of start "fo div CD_FRAMESIZE_RAW"] obtain err1 s1 where
      r: "read_da K (start + of_nat (fo div CD_FRAMESIZE_RAW) - PROGFILE_OFFSET) s = Some (err1, s1)" "toc_same s s1"
        "err1 = 0 \<Longrightarrow> take CD_FRAMESIZE_RAW (scratch s1) = raw (metadevice s) (start + of_nat (fo div CD_FRAMESIZE_RAW) - PROGFILE_OFFSET)" "da_reliable K \<Longrightarrow> err1 = 0"
      by metis
    show ?thesis
    proof (cases "err1 = 0")
      case e: False
      then show ?thesis using True r by (auto simp: toc_audio_def Let_def)
    next
      case e: True
      have ol: "?o < CD_FRAMESIZE_RAW" by (simp add: CD_FRAMESIZE_RAW_def)
      have n: "?o + ?n \<le> CD_FRAMESIZE_RAW" "?n \<le> cnt" using ol by auto
      have "take ?n (drop ?o (scratch s1)) = take ?n (drop ?o (take CD_FRAMESIZE_RAW (scratch s1)))" using n(1) by (simp add: drop_take min_def)
      then have tk: "take ?n (drop ?o (scratch s1)) = track_bytes raw (metadevice s) start fo ?n"
        unfolding r(3) [OF e] using track.from_sector [of raw "metadevice s" start fo ?n] K n(1) by (simp add: track_bytes_def da_ok_def)
      let ?buf = "overwrite p (track_bytes raw (metadevice s) start fo ?n) buf"
      have fits: "p + ?n \<le> length buf" using n(2) b by linarith
      have st: "store p (take ?n (drop ?o (scratch s1))) buf = Some ?buf" unfolding tk using fits by (simp add: store_def)
      have lb: "length ?buf = length buf" using fits by (simp add: length_overwrite)
      have "(fo + ?n) mod CD_FRAMESIZE_RAW = 0 \<or> cnt - ?n = 0"
      proof (cases "?o + cnt > CD_FRAMESIZE_RAW")
        case gt: True
        have "(fo + (CD_FRAMESIZE_RAW - ?o)) mod CD_FRAMESIZE_RAW = (?o + (CD_FRAMESIZE_RAW - ?o)) mod CD_FRAMESIZE_RAW" by (simp only: mod_add_left_eq)
        then show ?thesis using gt ol by simp
      qed simp
      then obtain err2 buf2 s2 where t: "do {
          (err, fo, cnt, p, buf, s) \<leftarrow> toc_sectors K start (fo + ?n) (cnt - ?n) (p + ?n) ?buf s1;
          if err \<noteq> 0 \<or> cnt = 0 then Some (err, buf, s)
          else do {
            (err, s) \<leftarrow> read_da K (start + of_nat (fo div CD_FRAMESIZE_RAW) - PROGFILE_OFFSET) s;
            if err \<noteq> 0 then Some (err, buf, s)
            else map_option (\<lambda>b. (0, b, s)) (store p (take cnt (scratch s)) buf) } } = Some (err2, buf2, s2)" "toc_same s1 s2" "length buf2 = length buf" "da_reliable K \<longrightarrow> err2 = 0"
        "err2 = 0 \<longrightarrow> buf2 = overwrite (p + ?n) (track_bytes raw (metadevice s) start (fo + ?n) (cnt - ?n)) ?buf"
        using toc_tail_ok [OF K, of s1 "fo + ?n" "cnt - ?n" "p + ?n" ?buf start] r(2) sc b n(2) lb by (auto simp: toc_same_def)
      have "overwrite (p + ?n) (track_bytes raw (metadevice s) start (fo + ?n) (cnt - ?n)) ?buf = overwrite p (track_bytes raw (metadevice s) start fo cnt) buf"
        using overwrite_next [of p "track_bytes raw (metadevice s) start fo ?n" buf] track_bytes_append [of raw "metadevice s" start fo ?n "cnt - ?n"] fits n(2) by simp
      moreover have "toc_audio K start fo cnt p buf s = Some (err2, buf2, s2)"
        using True r(1) e st t(1) by (simp add: toc_audio_def Let_def)
      ultimately show ?thesis using t(2-5) r(2) by (auto simp: toc_same_def)
    qed
  qed
qed

text \<open>C10: Reading an audio track as a file.  Every read that does not end inside the 44 bytes of the header returns, with an error, which a drive
  that reads all sectors excludes, or with exactly the bytes of the file: the header with the sizes in little-endian order, followed by the samples of the
  track, however the range lies over the sectors.\<close>

theorem toc_readfile_is_wav:
  assumes "da_ok K raw" "CD_FRAMESIZE_RAW \<le> length (scratch s)" "PROGFILE_OFFSET \<le> start" "(len - 44) mod 2352 = 0"
    and "44 \<le> offset + cnt" "cnt \<le> length buf"
  shows "\<exists>err buf' s'. toc_readfile K P start offset len cnt buf s = Some (err, buf', s') \<and> length buf' = length buf
    \<and> (da_reliable K \<longrightarrow> err = 0) \<and> (err = 0 \<longrightarrow> buf' = wav_bytes raw (metadevice s) start len offset cnt @ drop cnt buf)
    \<and> setupheader (len - 44) = [0x52, 0x49, 0x46, 0x46] @ rev (bytes32 (len - 44 + 36)) @ [0x57, 0x41, 0x56, 0x45, 0x66, 0x6D, 0x74, 0x20,
        16, 0, 0, 0, 1, 0, 2, 0, 0x44, 0xAC, 0, 0, 0x10, 0xB1, 2, 0, 4, 0, 16, 0, 0x64, 0x61, 0x74, 0x61] @ rev (bytes32 (len - 44))"
proof -
  have h: "setupheader (len - 44) = [0x52, 0x49, 0x46, 0x46] @ rev (bytes32 (len - 44 + 36)) @ [0x57, 0x41, 0x56, 0x45, 0x66, 0x6D, 0x74, 0x20,
        16, 0, 0, 0, 1, 0, 2, 0, 0x44, 0xAC, 0, 0, 0x10, 0xB1, 2, 0, 4, 0, 16, 0, 0x64, 0x61, 0x74, 0x61] @ rev (bytes32 (len - 44))"
    unfolding setupheader_def swap_bytes by (simp add: bytes32_def [of 16] bytes32_def [of 44100] bytes32_def [of 176400] bytes16_def)
  have st: "\<not> start < PROGFILE_OFFSET" "\<not> (len - 44) mod 2352 \<noteq> 0" using assms(3,4) by auto
  show ?thesis
  proof (cases "offset < sizeof_WAVHEADER")
    case False
    obtain err buf' s' where a: "toc_audio K start (offset - 44) cnt 0 buf s = Some (err, buf', s')" "length buf' = length buf"
      "da_reliable K \<longrightarrow> err = 0" "err = 0 \<longrightarrow> buf' = overwrite 0 (track_bytes raw (metadevice s) start (offset - 44) cnt) buf"
      using toc_audio_ok [OF assms(1,2), of 0 cnt buf start "offset - 44"] assms(6) by auto
    then show ?thesis using st False h by (auto simp: toc_readfile_def sizeof_WAVHEADER_def wav_bytes_def overwrite_start)
  next
    case True
    let ?t = "44 - offset" and ?h = "drop offset (setupheader (len - 44))"
    have t: "?t \<le> cnt" "length ?h = ?t" using True assms(5) by (auto simp: sizeof_WAVHEADER_def)
    then have s0: "store 0 ?h buf = Some (overwrite 0 ?h buf)" "length (overwrite 0 ?h buf) = length buf" using assms(6) by (auto simp: store_def length_overwrite)
    obtain err buf' s' where a: "toc_audio K start 0 (cnt - ?t) ?t (overwrite 0 ?h buf) s = Some (err, buf', s')" "length buf' = length buf"
      "da_reliable K \<longrightarrow> err = 0" "err = 0 \<longrightarrow> buf' = overwrite ?t (track_bytes raw (metadevice s) start 0 (cnt - ?t)) (overwrite 0 ?h buf)"
      using toc_audio_ok [OF assms(1,2), of ?t "cnt - ?t" "overwrite 0 ?h buf" start 0] s0(2) t(1) assms(6) by auto
    have "overwrite ?t (track_bytes raw (metadevice s) start 0 (cnt - ?t)) (overwrite 0 ?h buf) = wav_bytes raw (metadevice s) start len offset cnt @ drop cnt buf"
      using overwrite_next [of 0 ?h buf "track_bytes raw (metadevice s) start 0 (cnt - ?t)"] t assms(6) True
      by (simp add: overwrite_start wav_bytes_def sizeof_WAVHEADER_def)
    moreover have "toc_readfile K P start offset len cnt buf s
      = (if cnt = ?t then Some (0, overwrite 0 ?h buf, s) else toc_audio K start 0 (cnt - ?t) ?t (overwrite 0 ?h buf) s)"
      using st True t s0 by (simp add: toc_readfile_def sizeof_WAVHEADER_def Let_def)
    moreover have "cnt = ?t \<Longrightarrow> overwrite 0 ?h buf = wav_bytes raw (metadevice s) start len offset cnt @ drop cnt buf"
      using True t by (simp add: wav_bytes_def overwrite_start sizeof_WAVHEADER_def track_bytes_def)
    ultimately show ?thesis using a h s0(2) by auto
  qed
qed

text \<open>A disc whose samples are all 5.\<close>

definition audio_meta :: "nat meta" where
  "audio_meta = demo_meta\<lparr>CDROMREADDA := \<lambda>dev b n d. ((0, replicate n 5), d)\<rparr>"

definition audio_raw :: "16 word \<Rightarrow> 32 word \<Rightarrow> byte list" where
  "audio_raw dev b = replicate CD_FRAMESIZE_RAW 5"

lemma audio_da_ok: "da_ok audio_meta audio_raw"
proof -
  have "concat (map (\<lambda>i. replicate m x) [0..<n]) = replicate (n * m) x" for n m and x :: byte
    by (induction n) (simp_all add: replicate_add [symmetric] add.commute)
  then show ?thesis by (simp add: da_ok_def audio_meta_def audio_raw_def)
qed

theorem toc_readfile_is_wav_witness:
  "\<exists>buf' s'. toc_readfile audio_meta \<lparr>proc_len = 0, proc_file = \<lambda>d t. []\<rparr> 200 40 2396 6 [0, 0, 0, 0, 0, 0, 0] (demo_ldev 1) = Some (0, buf', s')
    \<and> length buf' = length [0, 0, 0, 0, 0, 0, 0 :: byte] \<and> buf' = wav_bytes audio_raw (metadevice (demo_ldev 1)) 200 2396 40 6 @ drop 6 [0, 0, 0, 0, 0, 0, 0]"
proof -
  have "da_reliable audio_meta" by (simp add: da_reliable_def audio_meta_def)
  moreover have "CD_FRAMESIZE_RAW \<le> length (scratch (demo_ldev 1))" "PROGFILE_OFFSET \<le> 200" "(2396 - 44 :: 32 word) mod 2352 = 0" "(44 :: nat) \<le> 40 + 6"
    "6 \<le> length [0 :: byte, 0, 0, 0, 0, 0, 0]" by (simp_all add: demo_ldev_def CD_FRAMESIZE_RAW_def PROGFILE_OFFSET_def)
  moreover note toc_readfile_is_wav [OF audio_da_ok, of "demo_ldev 1" 200 2396 40 6 "[0, 0, 0, 0, 0, 0, 0]" "\<lparr>proc_len = 0, proc_file = \<lambda>d t. []\<rparr>"]
  ultimately show ?thesis by (metis (no_types))
qed

text \<open>Reading the first bytes of an audio file.  A read that ends inside the header copies the rest of the header all the same,
  past the bytes that were asked for; then the number of bytes left is negative, and when the first sector can be read it is
  taken as the length of a copy, which leaves the memory of the caller.\<close>

theorem short_header_read_faults:
  assumes "PROGFILE_OFFSET \<le> start" "(len - 44) mod 2352 = 0" "offset + cnt < 44"
    and "fst (fst (CDROMREADDA K (metadevice s) (start - PROGFILE_OFFSET) CD_FRAMESIZE_RAW (drv s))) = 0"
  shows "toc_readfile K P start offset len cnt buf s = None"
  using assms
  by (auto simp: toc_readfile_def sizeof_WAVHEADER_def Let_def read_da_def store_def split: prod.splits if_splits Option.bind_splits)

theorem short_header_read_faults_witness:
  "toc_readfile audio_meta \<lparr>proc_len = 0, proc_file = \<lambda>d t. []\<rparr> 200 0 2396 12 (replicate 12 0) (demo_ldev 1) = None"
  by (rule short_header_read_faults) (simp_all add: PROGFILE_OFFSET_def audio_meta_def)

subsection \<open>The search for the next entry\<close>

text \<open>
  There are no more than 99 tracks: the entry for track 100 cannot be read.  The table of contents has
  at most 128 entries.
\<close>

definition toc_io_ok :: "'d meta \<Rightarrow> bool" where
  "toc_io_ok K \<longleftrightarrow> (\<forall>dev d. fst (fst (CDROMREADTOCENTRY K dev 100 CDROM_LBA d)) \<noteq> 0)
     \<and> (\<forall>dev d. length (snd (fst (Metagettoc K dev 1 d))) \<le> 512)"

lemma toc_find_range: "toc_find toc track is = Some i \<Longrightarrow> 1 \<le> track \<and> track \<le> 99"
proof (induction "is")
  case (Cons j js)
  have "1 \<le> uint (toc ! (4 * j)) \<and> uint (toc ! (4 * j)) \<le> 99" if "\<not> (toc ! (4 * j) < 1 \<or> 99 < toc ! (4 * j))"
    using that by (simp add: word_less_def word_le_def not_less)
  then show ?case using Cons by (auto split: if_splits)
qed simp

lemma get_entries_ok:
  assumes K: "toc_io_ok K" and sc: "512 \<le> length (scratch s)"
  shows "\<exists>err cn addr' s'. get_entries K track addr s = Some (err, cn, addr', s') \<and> length (scratch s') = length (scratch s) \<and> fsprivate s' = fsprivate s \<and> ld_fs s' = ld_fs s
    \<and> (if cn = None then err \<noteq> 0 else err = 0 \<and> addr' = addr) \<and> (track = 100 \<longrightarrow> cn = None)"
proof -
  have m: "\<exists>err cn addr' s'. get_entries_m K track addr t = Some (err, cn, addr', s') \<and> length (scratch s') = length (scratch s) \<and> fsprivate s' = fsprivate s \<and> ld_fs s' = ld_fs s
    \<and> (if cn = None then err \<noteq> 0 else err = 0 \<and> addr' = addr) \<and> (track = 100 \<longrightarrow> cn = None)"
    if t: "scratch t = scratch s" "fsprivate t = fsprivate s" "ld_fs t = ld_fs s" for t
  proof -
    obtain err bytes d where g: "Metagettoc K (metadevice t) 1 (drv t) = ((err, bytes), d)" by (metis surj_pair)
    then have b: "length bytes \<le> 512" using K unfolding toc_io_ok_def by (metis fst_conv snd_conv)
    define clear where "clear = overwrite 0 (replicate (CD_MAX_TRACKS * 4) 0) (scratch t)"
    have cl: "length clear = length (scratch s)" using sc t(1) by (simp add: clear_def length_overwrite CD_MAX_TRACKS_def)
    define buf where "buf = overwrite 0 bytes clear"
    have bl: "length buf = length (scratch s)" "store 0 bytes clear = Some buf" using b cl sc by (simp_all add: buf_def length_overwrite store_def)
    define toc where "toc = map bcd2bin (take (CD_MAX_TRACKS * 4) buf)"
    have tl: "length (overwrite 0 toc buf) = length (scratch s)" using bl(1) by (simp add: toc_def length_overwrite)
    have e: "get_entries_m K track addr t = (if err \<noteq> 0 then Some (err, None, addr, t\<lparr>scratch := buf, drv := d\<rparr>)
        else case toc_find toc track [0..<CD_MAX_TRACKS - 1] of
          Some i \<Rightarrow> Some (0, Some (\<lparr>cdte_ctrl = 0, cdte_addr = toc_lba toc i\<rparr>, \<lparr>cdte_ctrl = 0, cdte_addr = toc_lba toc (i + 1)\<rparr>), addr,
            t\<lparr>scratch := overwrite 0 toc buf, drv := d\<rparr>)
        | None \<Rightarrow> Some (ENMFIL, None, -1, t\<lparr>scratch := overwrite 0 toc buf, drv := d\<rparr>))"
      unfolding get_entries_m_def Let_def clear_def [symmetric] g by (simp add: bl(2) flip: toc_def split: option.split)
    show ?thesis unfolding e using bl(1) tl t(2,3) toc_find_range [of toc track "[0..<CD_MAX_TRACKS - 1]"]
      by (cases "err = 0"; cases "toc_find toc track [0..<CD_MAX_TRACKS - 1]") (auto simp: ENMFIL_def simp del: One_nat_def split del: if_split)
  qed
  obtain err cur d where c: "CDROMREADTOCENTRY K (metadevice s) (of_int track) CDROM_LBA (drv s) = ((err, cur), d)" by (metis surj_pair)
  have h: "track = 100 \<Longrightarrow> err \<noteq> 0" using K c unfolding toc_io_ok_def by (metis fst_conv of_int_numeral)
  show ?thesis
  proof (cases "err = EINVFN \<or> err = EUNCMD")
    case True
    then show ?thesis using c m [of "s\<lparr>drv := d\<rparr>"] by (simp add: get_entries_def)
  next
    case False
    then show ?thesis using c h by (auto simp: get_entries_def cd_errs split: prod.splits)
  qed
qed

lemma toc_direntry_returns:
  assumes "toc_io_ok K" "512 \<le> length (scratch s)" "addr = -1 \<or> unat addr \<le> 199"
  shows "\<exists>err addr' de s'. toc_get_direntry K P addr s = Some (err, addr', de, s') \<and> length (scratch s') = length (scratch s)
    \<and> fsprivate s' = fsprivate s \<and> ld_fs s' = ld_fs s \<and> (err \<noteq> 0 \<or> (addr' = -1 \<or> unat addr' \<le> 199) \<and> addr < addr')"
  using assms(2,3)
proof (induction "199 - unat addr" arbitrary: addr s rule: less_induct)
  case less
  have top: "unat (- 1 :: 32 word) = 2 ^ 32 - 1" by (simp add: unsigned_minus_1_eq_mask mask_eq_exp_minus_1)
  consider "addr = -1" | "addr = 0" | "addr \<noteq> -1" "addr \<noteq> 0" "unat addr \<le> 199" using less.prems(2) by blast
  then show ?case
  proof cases
    case 1
    then show ?thesis by (subst toc_get_direntry.simps) (simp add: ENMFIL_def)
  next
    case 2
    then show ?thesis using top by (subst toc_get_direntry.simps) (simp add: word_less_nat_alt)
  next
    case 3
    let ?t = "addr2track (s16 (uint addr))"
    have u: "uint addr = 199" if "unat addr = 199" using arg_cong [OF that, of int] by simp
    have t: "addr2track (s16 199) = 100" by (simp add: addr2track_def c_quot_def)
    have s: "unat (addr + 1) = unat addr + 1" using 3(3) by (simp add: unat_word_ariths)
    obtain err cn addr' s1 where g: "get_entries K ?t (addr + 1) s = Some (err, cn, addr', s1)" "length (scratch s1) = length (scratch s)" "fsprivate s1 = fsprivate s" "ld_fs s1 = ld_fs s"
      "if cn = None then err \<noteq> 0 else err = 0 \<and> addr' = addr + 1" "?t = 100 \<longrightarrow> cn = None"
      using get_entries_ok [OF assms(1) less.prems(1), of ?t "addr + 1"] by metis
    show ?thesis
    proof (cases cn)
      case None
      then show ?thesis using 3 g by (subst toc_get_direntry.simps) (simp add: Let_def)
    next
      case (Some c)
      then have a: "addr' = addr + 1" "?t \<noteq> 100" using g by auto
      then have "unat addr \<noteq> 199" using u t by auto
      then have lt: "unat (addr + 1) \<le> 199" "199 - unat (addr + 1) < 199 - unat addr" using s 3(3) by auto
      have un: "toc_get_direntry K P addr s = (if toc_shown s1 (s16 (uint addr)) (fst c)
          then Some (0, addr + 1, toc_entry P s1 addr (s16 (uint addr)) c, s1) else toc_get_direntry K P (addr + 1) s1)"
        using 3 g(1) a(1) Some by (subst toc_get_direntry.simps) (simp add: Let_def)
      show ?thesis
      proof (cases "toc_shown s1 (s16 (uint addr)) (fst c)")
        case True
        then show ?thesis unfolding un using g(2-4) lt(1) s by (simp add: word_less_nat_alt)
      next
        case False
        have "512 \<le> length (scratch s1)" using g(2) less.prems(1) by simp
        from less.hyps [OF lt(2) this] obtain err2 addr2 de2 s2 where "toc_get_direntry K P (addr + 1) s1 = Some (err2, addr2, de2, s2)"
          "length (scratch s2) = length (scratch s1)" "fsprivate s2 = fsprivate s1" "ld_fs s2 = ld_fs s1" "err2 \<noteq> 0 \<or> (addr2 = -1 \<or> unat addr2 \<le> 199) \<and> addr + 1 < addr2" using lt(1) by metis
        then show ?thesis unfolding un using False g(2-4) s by (auto simp: word_less_nat_alt)
      qed
    qed
  qed
qed

text \<open>C29: The search for the next entry of an audio disc comes to an end.  With at most 99 tracks, \<open>get_direntry\<close> returns from every address that
  it has delivered before, with an error or with an entry and such an address again, which is greater; so the listing of the disc ends.\<close>

theorem toc_get_direntry_returns:
  assumes "toc_io_ok K" "512 \<le> length (scratch s)" "addr = -1 \<or> unat addr \<le> 199"
  shows "\<exists>err addr' de s'. toc_get_direntry K P addr s = Some (err, addr', de, s') \<and> length (scratch s') = length (scratch s)
    \<and> (err \<noteq> 0 \<or> (addr' = -1 \<or> unat addr' \<le> 199) \<and> addr < addr')"
  using toc_direntry_returns [OF assms] by blast

theorem toc_get_direntry_returns_witness:
  "\<exists>err addr' de s'. toc_get_direntry demo_meta \<lparr>proc_len = 0, proc_file = \<lambda>d t. []\<rparr> 1 (demo_ldev 1) = Some (err, addr', de, s')
    \<and> length (scratch s') = length (scratch (demo_ldev 1)) \<and> (err \<noteq> 0 \<or> (addr' = -1 \<or> unat addr' \<le> 199) \<and> 1 < addr')"
  by (rule toc_get_direntry_returns) (simp_all add: toc_io_ok_def demo_meta_def demo_ldev_def)

end
