(* ===== verification/Cd_Time.thy ===== *)
theory Cd_Time
  imports Cd_Kern
begin

text \<open>
  The conversion of Unix time to the date and time of the disk (\<open>DMDosTime\<close> in
  \<open>extensio/cd-mxfs/cd-mxfsc.c\<close>), with the 16-bit arithmetic of the compiler.
\<close>

definition SECS_PER_DAY :: nat where "SECS_PER_DAY = 86400"
definition SECS_PER_YEAR :: nat where "SECS_PER_YEAR = 31536000"

text \<open>The years from 1970 on: the year (counted from 1900) and the seconds in it.\<close>

function dt_years :: "nat \<Rightarrow> nat \<Rightarrow> nat \<times> nat" where
  "dt_years year t =
     (if t < SECS_PER_YEAR then (year, t)
      else if year mod 4 = 0
      then (if t < SECS_PER_DAY + SECS_PER_YEAR then (year, t) else dt_years (year + 1) (t - (SECS_PER_DAY + SECS_PER_YEAR)))
      else dt_years (year + 1) (t - SECS_PER_YEAR))"
  by pat_completeness auto
termination
  by (relation "measure snd") (auto simp: SECS_PER_YEAR_def SECS_PER_DAY_def)

declare dt_years.simps [simp del]

definition days_per_mth :: "nat \<Rightarrow> nat list" where
  "days_per_mth year = [31, if year mod 4 \<noteq> 0 then 28 else 29, 31, 30, 31, 30, 31, 31, 30, 31, 30, 31]"

text \<open>The month and the day, both from 0; \<open>None\<close> when the table ends.\<close>

fun dt_month :: "nat list \<Rightarrow> nat \<Rightarrow> nat \<Rightarrow> (nat \<times> nat) option" where
  "dt_month [] i day = None"
| "dt_month (d # ds) i day = (if day \<ge> d then dt_month ds (i + 1) (day - d) else Some (i, day))"

text \<open>
  \<open>time\<close> and \<open>date\<close> are computed in 16-bit \<open>int\<close> and extended with their sign to 32 bits.
\<close>

definition dos_time :: "nat \<Rightarrow> nat \<Rightarrow> nat \<Rightarrow> 16 word" where
  "dos_time hour minute sec = push_bit 11 (of_nat hour) OR push_bit 5 (of_nat minute) OR drop_bit 1 (of_nat sec)"

definition dos_date :: "nat \<Rightarrow> nat \<Rightarrow> nat \<Rightarrow> 32 word" where
  "dos_date year mon day =
     scast (push_bit 9 ((of_nat year - 80) AND 0x7f) :: 16 word) OR scast (push_bit 5 (of_nat mon) OR of_nat day :: 16 word)"

definition DMDosTime :: "32 word \<Rightarrow> 32 word option" where
  "DMDosTime t =
     (if t = 0 then Some 0
      else
        (case dt_years 70 (unat t) of (year, secs) \<Rightarrow> do {
           (mon, day) \<leftarrow> dt_month (days_per_mth year) 0 (secs div SECS_PER_DAY);
           r \<leftarrow> Some (secs mod SECS_PER_DAY);
           Some (if year < 80 then push_bit 16 (scast (dos_time 0 0 0)) OR dos_date 80 1 1
                 else push_bit 16 (scast (dos_time (r div 3600) (r mod 3600 div 60) (r mod 60))) OR dos_date year (mon + 1) (day + 1)) }))"

end
