(* ===== verification/Cd_Time_Props.thy ===== *)
theory Cd_Time_Props
  imports Cd_Time
begin

text \<open>
  The date and time that \<open>DMDosTime\<close> computes, against a calendar: the seconds since 1970 of a year, month,
  day and time of day, where every fourth year is a leap year.
\<close>

subsection \<open>The calendar\<close>

definition year_secs :: "nat \<Rightarrow> nat" where
  "year_secs y = (if y mod 4 = 0 then SECS_PER_DAY + SECS_PER_YEAR else SECS_PER_YEAR)"

definition unix_secs :: "nat \<Rightarrow> nat \<Rightarrow> nat \<Rightarrow> nat \<Rightarrow> nat \<Rightarrow> nat \<Rightarrow> nat" where
  "unix_secs y mon day h mi se =
     sum_list (map year_secs [70..<y]) + (sum_list (take mon (days_per_mth y)) + day) * SECS_PER_DAY + h * 3600 + mi * 60 + se"

text \<open>Year from 1900 on, month and day from 0 on.\<close>

definition date_ok :: "nat \<Rightarrow> nat \<Rightarrow> nat \<Rightarrow> nat \<Rightarrow> nat \<Rightarrow> nat \<Rightarrow> bool" where
  "date_ok y mon day h mi se \<longleftrightarrow> 70 \<le> y \<and> mon < 12 \<and> day < days_per_mth y ! mon \<and> h < 24 \<and> mi < 60 \<and> se < 60"

lemma days_of_year: "sum_list (days_per_mth y) * SECS_PER_DAY = year_secs y"
  by (simp add: days_per_mth_def year_secs_def SECS_PER_DAY_def SECS_PER_YEAR_def)

lemma year_secs_le: "SECS_PER_YEAR \<le> year_secs y"
  by (simp add: year_secs_def)

lemma dt_years_step: "year_secs y \<le> t \<Longrightarrow> dt_years y t = dt_years (y + 1) (t - year_secs y)"
  by (subst dt_years.simps) (auto simp: year_secs_def SECS_PER_DAY_def SECS_PER_YEAR_def)

lemma dt_years_here: "t < year_secs y \<Longrightarrow> dt_years y t = (y, t)"
  by (subst dt_years.simps) (auto simp: year_secs_def SECS_PER_DAY_def SECS_PER_YEAR_def split: if_splits)

lemma dt_years_sum:
  assumes "r < year_secs (y0 + n)"
  shows "dt_years y0 (sum_list (map year_secs [y0..<y0 + n]) + r) = (y0 + n, r)"
  using assms
proof (induction n arbitrary: y0)
  case (Suc n)
  have e: "[y0..<y0 + Suc n] = y0 # [y0 + 1..<(y0 + 1) + n]" by (simp add: upt_conv_Cons)
  show ?case unfolding e using Suc.IH [of "y0 + 1"] Suc.prems by (simp add: dt_years_step)
qed (simp add: dt_years_here)

lemma dt_month_sum:
  assumes "m < length ds" "d < ds ! m"
  shows "dt_month ds i (sum_list (take m ds) + d) = Some (i + m, d)"
  using assms
proof (induction ds arbitrary: i m)
  case (Cons x ds)
  then show ?case by (cases m) (auto simp: add.assoc)
qed simp

lemma sum_list_take_le: "m < length xs \<Longrightarrow> sum_list (take m xs) + xs ! m \<le> sum_list (xs :: nat list)"
  by (induction xs arbitrary: m) (auto simp: nth_Cons' take_Cons')

text \<open>The parts of a time stamp are separated again.\<close>

lemma stamp_parts:
  assumes "take_bit 16 d = (d :: 32 word)"
  shows "ucast (drop_bit 16 (push_bit 16 (scast (x :: 16 word)) OR d)) = x" "ucast (push_bit 16 (scast x) OR d) = (ucast d :: 16 word)"
proof -
  have h: "\<not> bit d n" if "16 \<le> n" for n using assms that by (metis bit_take_bit_iff not_less)
  show "ucast (drop_bit 16 (push_bit 16 (scast x) OR d)) = x"
  proof (rule bit_eqI)
    fix n
    assume "possible_bit TYPE(16 word) n"
    then have "n < 15 \<or> n = 15" by auto
    then show "bit (ucast (drop_bit 16 (push_bit 16 (scast x) OR d)) :: 16 word) n \<longleftrightarrow> bit x n" by (auto simp: bit_simps h)
  qed
  show "ucast (push_bit 16 (scast x) OR d) = (ucast d :: 16 word)"
    by (rule bit_eqI) (auto simp: bit_simps)
qed

lemma dos_date_small:
  assumes "80 \<le> y" "y < 144" "mon < 16" "day < 32"
  shows "take_bit 16 (dos_date y mon day) = dos_date y mon day"
    "ucast (dos_date y mon day) = (push_bit 9 (of_nat (y - 80)) OR push_bit 5 (of_nat mon) OR of_nat day :: 16 word)"
proof -
  have a: "(of_nat y - 80 :: 16 word) = of_nat (y - 80)" using assms(1) by (simp add: of_nat_diff)
  have m: "(of_nat (y - 80) :: 16 word) AND 0x7f = of_nat (y - 80)"
  proof -
    have "(0x7f :: 16 word) = mask 7" by (simp add: mask_eq_exp_minus_1)
    moreover have "take_bit 7 (y - 80) = y - 80" using assms(1,2) by (simp add: take_bit_eq_mod)
    ultimately show ?thesis by (metis take_bit_eq_mask take_bit_of_nat)
  qed
  have b: "\<not> bit (push_bit 9 (of_nat (y - 80) :: 16 word)) 15"
  proof -
    have "take_bit 6 (y - 80) = y - 80" using assms(1,2) by (simp add: take_bit_eq_mod)
    then have "\<not> bit (y - 80) 6" by (metis bit_take_bit_iff less_irrefl)
    then show ?thesis by (simp add: bit_simps)
  qed
  have c: "\<not> bit (push_bit 5 (of_nat mon) OR of_nat day :: 16 word) 15"
  proof -
    have "take_bit 4 mon = mon" "take_bit 5 day = day" using assms(3,4) by (simp_all add: take_bit_eq_mod)
    then have "bit mon 10 \<longleftrightarrow> 10 < (4 :: nat) \<and> bit mon 10" "bit day 15 \<longleftrightarrow> 15 < (5 :: nat) \<and> bit day 15" by (metis bit_take_bit_iff)+
    then show ?thesis by (simp add: bit_simps)
  qed
  show "take_bit 16 (dos_date y mon day) = dos_date y mon day"
    unfolding dos_date_def a m by (rule bit_eqI) (use b c in \<open>auto simp: bit_simps min_def\<close>)
  show "ucast (dos_date y mon day) = (push_bit 9 (of_nat (y - 80)) OR push_bit 5 (of_nat mon) OR of_nat day :: 16 word)"
    unfolding dos_date_def a m by (rule bit_eqI) (auto simp: bit_simps)
qed

lemma dt_years_unix:
  assumes "date_ok y mon day h mi se"
  shows "dt_years 70 (unix_secs y mon day h mi se) = (y, (sum_list (take mon (days_per_mth y)) + day) * SECS_PER_DAY + h * 3600 + mi * 60 + se)"
proof -
  let ?r = "(sum_list (take mon (days_per_mth y)) + day) * SECS_PER_DAY + h * 3600 + mi * 60 + se"
  have "mon < length (days_per_mth y)" using assms by (simp add: date_ok_def days_per_mth_def)
  then have "sum_list (take mon (days_per_mth y)) + day + 1 \<le> sum_list (days_per_mth y)"
    using sum_list_take_le [of mon "days_per_mth y"] assms by (simp add: date_ok_def)
  then have "(sum_list (take mon (days_per_mth y)) + day + 1) * SECS_PER_DAY \<le> year_secs y"
    using days_of_year [of y] by (metis mult_le_mono1)
  moreover have "h * 3600 + mi * 60 + se < SECS_PER_DAY" using assms by (simp add: date_ok_def SECS_PER_DAY_def)
  ultimately have "?r < year_secs y" by (simp add: add_mult_distrib)
  then show ?thesis using dt_years_sum [of ?r 70 "y - 70"] assms by (simp add: date_ok_def unix_secs_def add.assoc)
qed

lemma day_parts:
  assumes "h < 24" "mi < 60" "se < 60"
  shows "(n * SECS_PER_DAY + h * 3600 + mi * 60 + se) div SECS_PER_DAY = n"
    "(n * SECS_PER_DAY + h * 3600 + mi * 60 + se) mod SECS_PER_DAY = h * 3600 + mi * 60 + se"
    "(h * 3600 + mi * 60 + se) div 3600 = h" "(h * 3600 + mi * 60 + se) mod 3600 div 60 = mi" "(h * 3600 + mi * 60 + se) mod 60 = se"
proof -
  have s: "h * 3600 + mi * 60 + se < SECS_PER_DAY" using assms by (simp add: SECS_PER_DAY_def)
  have e: "n * SECS_PER_DAY + h * 3600 + mi * 60 + se = (h * 3600 + mi * 60 + se) + n * SECS_PER_DAY" by simp
  show "(n * SECS_PER_DAY + h * 3600 + mi * 60 + se) div SECS_PER_DAY = n" unfolding e using s by (simp add: div_mult_self1)
  show "(n * SECS_PER_DAY + h * 3600 + mi * 60 + se) mod SECS_PER_DAY = h * 3600 + mi * 60 + se" unfolding e using s by simp
  have f: "h * 3600 + mi * 60 + se = (mi * 60 + se) + h * 3600" by simp
  show "(h * 3600 + mi * 60 + se) div 3600 = h" unfolding f using assms by (simp add: div_mult_self1)
  have "(h * 3600 + mi * 60 + se) mod 3600 = mi * 60 + se" unfolding f using assms by simp
  then show "(h * 3600 + mi * 60 + se) mod 3600 div 60 = mi" using assms by simp
  have g: "h * 3600 + mi * 60 + se = se + (h * 60 + mi) * 60" by (simp add: algebra_simps)
  show "(h * 3600 + mi * 60 + se) mod 60 = se" unfolding g mod_mult_self1 using assms by simp
qed

lemma DMDosTime_unix:
  assumes "date_ok y mon day h mi se" "unix_secs y mon day h mi se < 2 ^ 32" "unix_secs y mon day h mi se \<noteq> 0"
  shows "DMDosTime (of_nat (unix_secs y mon day h mi se)) =
    Some (if y < 80 then push_bit 16 (scast (dos_time 0 0 0)) OR dos_date 80 1 1
          else push_bit 16 (scast (dos_time h mi se)) OR dos_date y (mon + 1) (day + 1))"
proof -
  let ?t = "of_nat (unix_secs y mon day h mi se) :: 32 word"
  have u: "unat ?t = unix_secs y mon day h mi se" using assms(2) by (simp add: unat_of_nat)
  then have "?t \<noteq> 0" using assms(3) by (metis unat_0)
  moreover have hm: "h < 24" "mi < 60" "se < 60" "mon < length (days_per_mth y)" "day < days_per_mth y ! mon"
    using assms(1) by (auto simp: date_ok_def days_per_mth_def)
  ultimately show ?thesis
    using dt_month_sum [OF hm(4,5), of 0] unfolding DMDosTime_def u dt_years_unix [OF assms(1)] by (simp add: day_parts [OF hm(1-3)])
qed



text \<open>Behind that, the sign of the date word spreads into the time word: all its bits are set from 2044 on.\<close>

lemma stamp_2044: "map_option (\<lambda>l. ucast (drop_bit 16 l) :: 16 word) (DMDosTime (of_nat (unix_secs 144 0 0 12 0 0))) = Some 0xFFFF"
proof -
  have "date_ok 144 0 0 12 0 0" "unix_secs 144 0 0 12 0 0 < 2 ^ 32" "unix_secs 144 0 0 12 0 0 \<noteq> 0"
    by (simp_all add: date_ok_def days_per_mth_def unix_secs_def year_secs_def SECS_PER_DAY_def SECS_PER_YEAR_def upt_conv_Cons)
  from DMDosTime_unix [OF this] show ?thesis by (simp add: dos_date_def dos_time_def)
qed

end
