(* ===== verification/Cd_Hfs.thy ===== *)
theory Cd_Hfs
  imports Cd_Iso Cd_Time
begin

text \<open>
  The reader for HFS discs (\<open>extensio/cd-mxfs/hfs.c\<close>).  The catalog is a file that holds a B-tree of nodes of 512
  bytes; a node has a descriptor of 14 bytes, its records, and from the end on the offsets of the records.  The
  leaves are chained, their records are ordered by the number of the directory they belong to.  A record is a key (its length, the
  number of the directory, the name) and the data of a directory, a file or a thread, which leads from a
  directory to its parent.  The offsets of fields are those of \<open>hfs.h\<close> with the alignment of the 68000.
\<close>

definition RSRC_FLAG :: "32 word" where "RSRC_FLAG = 0x80000000"
definition HFS_BLOCKSZ :: nat where "HFS_BLOCKSZ = 512"
definition HFS_NAMELEN :: int where "HFS_NAMELEN = 31"
definition HFS_CDR_DIR :: byte where "HFS_CDR_DIR = 1"
definition HFS_CDR_FIL :: byte where "HFS_CDR_FIL = 2"
definition HFS_CDR_THD :: byte where "HFS_CDR_THD = 3"
definition HFS_NODE_INDEX :: byte where "HFS_NODE_INDEX = 0"
definition HFS_NODE_HEADER :: byte where "HFS_NODE_HEADER = 1"
definition HFS_NODE_LEAF :: byte where "HFS_NODE_LEAF = 0xFF"
definition HFS_FLG_INVISIBLE :: "16 word" where "HFS_FLG_INVISIBLE = 0x4000"
definition HFS_ROOT_CNID :: "32 word" where "HFS_ROOT_CNID = 2"

lemmas hfs_consts = RSRC_FLAG_def HFS_BLOCKSZ_def HFS_CDR_DIR_def HFS_CDR_FIL_def HFS_CDR_THD_def HFS_NODE_INDEX_def HFS_NODE_HEADER_def
  HFS_NODE_LEAF_def HFS_FLG_INVISIBLE_def HFS_ROOT_CNID_def

definition hfs_u_to_mtime :: "32 word \<Rightarrow> 32 word" where
  "hfs_u_to_mtime sec = sec + 0x83DA4F80"

definition transpose_tab :: "byte list" where
  "transpose_tab =
    [0x8E, 0x8F, 0x80, 0x90, 0xA5, 0x99, 0x9A, 0xA0, 0x85, 0x83, 0x84, 0xB0, 0x86, 0x87, 0x82, 0x8A,
     0x88, 0x89, 0xA1, 0x8D, 0x8C, 0x8B, 0xA4, 0xA2, 0x95, 0x93, 0x94, 0xB1, 0xA3, 0x97, 0x96, 0x81,
     0xBB, 0xF8, 0x9B, 0x9C, 0xDD, 0xF9, 0xBC, 0x9E, 0xBE, 0xBD, 0xBF, 0xBA, 0xB9, 0xC2, 0x93, 0xB2,
     0xDF, 0xF1, 0xF3, 0xF2, 0x9D, 0xE6, 0xC2, 0xE4, 0xC2, 0xE3, 0xF4, 0xC2, 0xC2, 0xEA, 0x91, 0xB3,
     0xA8, 0xAD, 0xAB, 0xFB, 0x9F, 0xF7, 0x7F, 0xAE, 0xAF, 0xC2, 0x20, 0xB6, 0xB7, 0xB8, 0xB5, 0xB4,
     0x2D, 0xFF, 0x22, 0x22, 0x60, 0x27, 0xF6, 0xC2, 0x98, 0x98, 0x2F, 0xC2, 0x3C, 0x3E, 0xC2, 0xC2,
     0xBB, 0x2E, 0x2C, 0x22, 0xC2, 0x41, 0x45, 0x41, 0x45, 0x45, 0x49, 0x49, 0x49, 0x49, 0x4F, 0x4F,
     0x0E, 0x4F, 0x55, 0x55, 0x55, 0xC2, 0x5E, 0x7E, 0xFF, 0xC2, 0xC2, 0xF8, 0x2C, 0xB9, 0xC2, 0xC2]"

definition mac2atari :: "byte list \<Rightarrow> byte list" where
  "mac2atari str = map (\<lambda>c. if c AND 0x80 \<noteq> 0 then transpose_tab ! unat (c AND 0x7f) else c) str"

subsection \<open>Records of the catalog\<close>

text \<open>
  A record is kept in a buffer on the stack, of 142 bytes; what a shorter record does not fill is
  what was there before.  Fields outside the buffer are not to be read.
\<close>

definition fld8 :: "byte list \<Rightarrow> int \<Rightarrow> byte option" where
  "fld8 buf i = (if 0 \<le> i \<and> i < int (length buf) then Some (buf ! nat i) else None)"

definition fld16 :: "byte list \<Rightarrow> int \<Rightarrow> 16 word option" where
  "fld16 buf i = (if 0 \<le> i \<and> i + 2 \<le> int (length buf) then Some (be16 buf (nat i)) else None)"

definition fld32 :: "byte list \<Rightarrow> int \<Rightarrow> 32 word option" where
  "fld32 buf i = (if 0 \<le> i \<and> i + 4 \<le> int (length buf) then Some (be32 buf (nat i)) else None)"

definition sizeof_xbuf :: nat where "sizeof_xbuf = 142"

text \<open>The number of the directory in the key, and the child of an index record.\<close>

definition key_FNum :: "byte list \<Rightarrow> 32 word" where "key_FNum buf = be32 buf 2"
definition xb_first2 :: "byte list \<Rightarrow> 16 word" where "xb_first2 buf = be16 buf 40"

definition catalog_record :: "byte list \<Rightarrow> int" where
  "catalog_record buf = (let len = sint (buf ! 0) + 1 in if odd len then len + 1 else len)"

definition mac_time :: "32 word \<Rightarrow> CDENTRY \<Rightarrow> CDENTRY option" where
  "mac_time t de = do {
     l \<leftarrow> DMDosTime (hfs_u_to_mtime t);
     Some (set_time (ucast (drop_bit 16 l)) (set_date (ucast l) de)) }"

text \<open>The fields of a directory, a file and anything else; the results say whether execute permission is given.\<close>

definition d2d_dir :: "byte list \<Rightarrow> int \<Rightarrow> CDENTRY \<Rightarrow> (bool \<times> CDENTRY) option" where
  "d2d_dir buf r de = do {
     bk \<leftarrow> fld32 buf (r + 18); md \<leftarrow> fld32 buf (r + 14); dirid \<leftarrow> fld32 buf (r + 6); val \<leftarrow> fld16 buf (r + 4);
     de \<leftarrow> mac_time md (de\<lparr>cd_tosattr := if bk < md then FA_SUBDIR OR FA_ARCHIVE else FA_SUBDIR, cd_pri_start := dirid,
                           cd_pri_length := ucast val\<rparr>);
     Some (True, de\<lparr>cd_nlink := 2\<rparr>) }"

definition d2d_fil :: "byte list \<Rightarrow> int \<Rightarrow> CDENTRY \<Rightarrow> (bool \<times> CDENTRY) option" where
  "d2d_fil buf r de = do {
     num \<leftarrow> fld32 buf (r + 20); len \<leftarrow> fld32 buf (r + 26); rlen \<leftarrow> fld32 buf (r + 36);
     bk \<leftarrow> fld32 buf (r + 52); md \<leftarrow> fld32 buf (r + 48);
     de \<leftarrow> mac_time md (de\<lparr>cd_pri_start := num, cd_ass_start := num OR RSRC_FLAG, cd_pri_length := len, cd_ass_length := rlen,
                           cd_tosattr := if bk < md then FA_ARCHIVE else 0\<rparr>);
     typ \<leftarrow> fld32 buf (r + 4); creator \<leftarrow> fld32 buf (r + 8); flags \<leftarrow> fld16 buf (r + 12);
     Some (typ = 0x4150504C, de\<lparr>cd_nlink := 1, cd_type := typ, cd_creator := creator,
           cd_tosattr := if flags AND HFS_FLG_INVISIBLE \<noteq> 0 then cd_tosattr de OR FA_HIDDEN else cd_tosattr de\<rparr>) }"

definition d2d_thd :: "byte list \<Rightarrow> int \<Rightarrow> CDENTRY \<Rightarrow> (bool \<times> CDENTRY) option" where
  "d2d_thd buf r de = do {
     par \<leftarrow> fld32 buf (r + 10);
     Some (False, de\<lparr>cd_tosattr := FA_SUBDIR, cd_pri_start := par, cd_nlink := 2, cd_longname := [46, 46]\<rparr>) }"

text \<open>
  The name is the length byte at 6 and the bytes behind it; \<open>longname\<close> has 128 bytes.
\<close>

definition dir2direntry :: "byte list \<Rightarrow> int \<Rightarrow> 32 word \<Rightarrow> CDENTRY option" where
  "dir2direntry buf r ino = do {
     name \<leftarrow> put_str (unat (buf ! 6)) LONGNAMELENGTH (drop 7 buf);
     t \<leftarrow> fld8 buf r;
     de \<leftarrow> Some (zero_cd\<lparr>cd_longname := mac2atari name, cd_iindex := ino\<rparr>);
     (isexec, de) \<leftarrow> (if t = HFS_CDR_DIR then d2d_dir buf r de else if t = HFS_CDR_FIL then d2d_fil buf r de else d2d_thd buf r de);
     Some (de\<lparr>cd_mode := 0x124 OR (if isexec then 0x49 else 0) OR (if cd_tosattr de AND FA_SUBDIR \<noteq> 0 then 0x4000 else 0x8000),
              cd_truncname := DKTosify (cd_longname de)\<rparr>) }"

subsection \<open>Reading of files\<close>

text \<open>
  The extent that holds a block of a file: address, place in the file and length.  \<open>tot\<close> is an
  \<open>unsigned short\<close>.  \<open>None\<close> is the result \<open>FALSE\<close>.
\<close>

fun find_extent :: "'d ldev \<Rightarrow> 32 word \<Rightarrow> (16 word \<times> 16 word) list \<Rightarrow> 16 word \<Rightarrow> (32 word \<times> 32 word \<times> 32 word) option" where
  "find_extent s block [] tot = None"
| "find_extent s block ((blk, cnt) # ext) tot =
     (if cnt \<noteq> 0 \<and> ucast cnt + ucast tot > block
      then Some (allocstart s * of_nat HFS_BLOCKSZ + ucast blk * hfs_blocksize s, ucast tot * hfs_blocksize s, ucast cnt * hfs_blocksize s)
      else find_extent s block ext (tot + cnt))"

text \<open>The part of \<open>get_file_seg\<close> behind the choice of the extents; a block size of 0 is a division by zero.\<close>

definition file_seg :: "(16 word \<times> 16 word) list \<Rightarrow> 32 word \<Rightarrow> 'd ldev \<Rightarrow> (32 word \<times> 32 word \<times> 32 word) option option" where
  "file_seg ext addr s = (if hfs_blocksize s = 0 then None else Some (find_extent s (addr div hfs_blocksize s) ext 0))"

text \<open>Reading to \<open>p\<close> in the buffer of the caller.\<close>

definition dc_read :: "'d meta \<Rightarrow> 32 word \<Rightarrow> nat \<Rightarrow> nat \<Rightarrow> byte list \<Rightarrow> 'd ldev \<Rightarrow> (int \<times> byte list \<times> 'd ldev) option" where
  "dc_read K adr cnt p buf s = DCRead_loop K (unat (adr + partoffset s)) cnt p buf s"

text \<open>
  The loop of \<open>file_read\<close>, over the function \<open>seg\<close> that finds the extent of an address.  \<open>offset\<close> is not changed by the loop.
\<close>

partial_function (option) file_loop ::
  "'d meta \<Rightarrow> ('d ldev \<Rightarrow> ((32 word \<times> 32 word \<times> 32 word) option \<times> 'd ldev) option) \<Rightarrow> 32 word \<Rightarrow> nat \<Rightarrow> nat \<Rightarrow> byte list \<Rightarrow> 'd ldev \<Rightarrow>
    (int \<times> byte list \<times> 'd ldev) option" where
  "file_loop K seg offset cnt p buf s =
     (if cnt = 0 then Some (0, buf, s)
      else
        (case seg s of
           None \<Rightarrow> None
         | Some (None, s) \<Rightarrow> Some (ERANGE, buf, s)
         | Some (Some (start, extstart, extlen), s) \<Rightarrow>
             (let toread = min cnt (unat (extlen - (offset - extstart))) in
              case dc_read K (offset - extstart + start) toread p buf s of
                None \<Rightarrow> None
              | Some (err, buf, s) \<Rightarrow>
                  if err \<noteq> 0 then Some (err, buf, s) else file_loop K seg offset (cnt - toread) (p + toread) buf s)))"

text \<open>The catalog itself is the file 0.\<close>

definition dc_cat_read :: "'d meta \<Rightarrow> 32 word \<Rightarrow> nat \<Rightarrow> byte list \<Rightarrow> 'd ldev \<Rightarrow> (int \<times> byte list \<times> 'd ldev) option" where
  "dc_cat_read K offset cnt buf s =
     file_loop K (\<lambda>s. map_option (\<lambda>r. (r, s)) (file_seg (catalogextents s) offset s)) offset cnt 0 buf s"

subsection \<open>Nodes\<close>

text \<open>A place in the leaves: the descriptor of the node, the node, the number of the record and the record.\<close>

record cursor =
  c_node :: "byte list"
  c_block :: "16 word"
  c_rec :: "16 word"
  c_buf :: "byte list"

text \<open>The offset of a record, in \<open>scratch\<close> from byte 510 downwards.\<close>

definition rec_off :: "byte list \<Rightarrow> int \<Rightarrow> 16 word option" where
  "rec_off node i = fld16 node (510 - 2 * i)"

definition get_record_from_node :: "'d meta \<Rightarrow> cursor \<Rightarrow> 'd ldev \<Rightarrow> (int \<times> cursor \<times> 'd ldev) option" where
  "get_record_from_node K c s = do {
     (err, node, s) \<leftarrow> dc_cat_read K (ucast (c_block c) * of_nat HFS_BLOCKSZ) HFS_BLOCKSZ (scratch s) s;
     s \<leftarrow> Some (s\<lparr>scratch := node\<rparr>);
     if err \<noteq> 0 then Some (err, c, s)
     else do {
       c \<leftarrow> Some (c\<lparr>c_node := take 14 node\<rparr>);
       if sint (be16 node 10) \<le> sint (c_rec c) then Some (EFILNF, c, s)
       else do {
         first \<leftarrow> rec_off node (sint (c_rec c));
         nxt \<leftarrow> rec_off node (sint (c_rec c) + 1);
         n \<leftarrow> Some (unat (nxt - first));
         if n > sizeof_xbuf then Some (ERANGE, c, s)
         else if unat first + n \<le> length node
         then Some (0, c\<lparr>c_buf := overwrite 0 (take n (drop (unat first) node)) (c_buf c)\<rparr>, s)
         else None } } }"

text \<open>\<open>next_rec\<close>: the next record of the node, or the first one of the next node.\<close>

definition hfs_next_rec :: "cursor \<Rightarrow> int \<times> cursor" where
  "hfs_next_rec c =
     (let r = c_rec c + 1;
          c = (if be16 (c_node c) 10 \<le> r then c\<lparr>c_rec := 0, c_block := be16 (c_node c) 2\<rparr> else c\<lparr>c_rec := r\<rparr>) in
      (if c_block c \<noteq> 0 then 0 else EPTHNF, c))"

text \<open>\<open>next_rec\<close> and \<open>get_record_from_node\<close>, which follow each other in all loops.\<close>

definition next_and_get :: "'d meta \<Rightarrow> cursor \<Rightarrow> 'd ldev \<Rightarrow> (int \<times> cursor \<times> 'd ldev) option" where
  "next_and_get K c s = (case hfs_next_rec c of (err, c) \<Rightarrow> if err \<noteq> 0 then Some (err, c, s) else get_record_from_node K c s)"

text \<open>Down the index nodes: the record in the buffer is compared, \<open>d4\<close> is the child of the record before it.\<close>

partial_function (option) leaf_loop :: "'d meta \<Rightarrow> 32 word \<Rightarrow> 16 word \<Rightarrow> cursor \<Rightarrow> 'd ldev \<Rightarrow> (int \<times> cursor \<times> 'd ldev) option" where
  "leaf_loop K cnid d4 c s =
     (if c_node c ! 8 \<noteq> HFS_NODE_INDEX then Some (0, c, s)
      else
        (let c' = (if key_FNum (c_buf c) \<ge> cnid \<or> fst (hfs_next_rec c) \<noteq> 0 then c\<lparr>c_block := d4, c_rec := 0\<rparr> else snd (hfs_next_rec c)) in
         case get_record_from_node K c' s of
           None \<Rightarrow> None
         | Some (err, c'', s) \<Rightarrow> if err \<noteq> 0 then Some (err, c'', s) else leaf_loop K cnid (xb_first2 (c_buf c)) c'' s))"

text \<open>\<open>junk\<close> is what the stack holds where the record is going to be.\<close>

definition find_leaf_node :: "'d meta \<Rightarrow> byte list \<Rightarrow> 32 word \<Rightarrow> 'd ldev \<Rightarrow> (int \<times> 'd ldev) option" where
  "find_leaf_node K junk cnid s = do {
     (err, buf, s) \<leftarrow> dc_cat_read K 0 44 junk s;
     if err \<noteq> 0 then Some (err, s)
     else if buf ! 8 \<noteq> HFS_NODE_HEADER then Some (ERROR, s)
     else do {
       (err, c, s) \<leftarrow> get_record_from_node K \<lparr>c_node = [], c_block = be16 buf 18, c_rec = 0, c_buf = buf\<rparr> s;
       if err \<noteq> 0 then Some (err, s)
       else do {
         (err, c, s) \<leftarrow> leaf_loop K cnid (xb_first2 (c_buf c)) c s;
         if err \<noteq> 0 then Some (err, s)
         else if c_node c ! 8 \<noteq> HFS_NODE_LEAF then Some (EFILNF, s)
         else Some (uint (c_block c), s) } } }"

subsection \<open>Files\<close>

text \<open>
  \<open>get_file_seg\<close>: the extents are those of the catalog, of the overflow file, or in the record of the file, whose place in the
  catalog is \<open>iindex\<close> (the node in its upper half, the record in its lower half); they have to lie inside the buffer.
\<close>

definition rec_extents :: "byte list \<Rightarrow> int \<Rightarrow> (16 word \<times> 16 word) list option" where
  "rec_extents buf at = do {
     b1 \<leftarrow> fld16 buf at; n1 \<leftarrow> fld16 buf (at + 2); b2 \<leftarrow> fld16 buf (at + 4); n2 \<leftarrow> fld16 buf (at + 6);
     b3 \<leftarrow> fld16 buf (at + 8); n3 \<leftarrow> fld16 buf (at + 10);
     Some [(b1, n1), (b2, n2), (b3, n3)] }"

definition get_file_seg ::
  "'d meta \<Rightarrow> byte list \<Rightarrow> 32 word \<Rightarrow> bool \<Rightarrow> 32 word \<Rightarrow> 'd ldev \<Rightarrow> ((32 word \<times> 32 word \<times> 32 word) option \<times> 'd ldev) option" where
  "get_file_seg K junk iindex rsrc addr s =
     (if hfs_blocksize s = 0 then None
      else if iindex = 0 \<or> iindex = 1
      then (if rsrc then Some (None, s)
            else map_option (\<lambda>r. (r, s)) (file_seg (if iindex = 1 then overflowextents s else catalogextents s) addr s))
      else do {
        (err, c, s) \<leftarrow> get_record_from_node K \<lparr>c_node = [], c_block = ucast (drop_bit 16 iindex), c_rec = ucast iindex, c_buf = junk\<rparr> s;
        if err \<noteq> 0 then Some (None, s)
        else do {
          ext \<leftarrow> rec_extents (c_buf c) (catalog_record (c_buf c) + (if rsrc then 86 else 74));
          map_option (\<lambda>r. (r, s)) (file_seg ext addr s) } })"

definition file_read ::
  "'d meta \<Rightarrow> byte list \<Rightarrow> 32 word \<Rightarrow> bool \<Rightarrow> 32 word \<Rightarrow> nat \<Rightarrow> byte list \<Rightarrow> 'd ldev \<Rightarrow> (int \<times> byte list \<times> 'd ldev) option" where
  "file_read K junk iindex rsrc offset cnt buf s = file_loop K (get_file_seg K junk iindex rsrc offset) offset cnt 0 buf s"

definition hfs_readfile ::
  "'d meta \<Rightarrow> byte list \<Rightarrow> 32 word \<Rightarrow> 32 word \<Rightarrow> 32 word \<Rightarrow> nat \<Rightarrow> byte list \<Rightarrow> 'd ldev \<Rightarrow> (int \<times> byte list \<times> 'd ldev) option" where
  "hfs_readfile K junk start offset iindex cnt buf s = file_read K junk iindex (start AND RSRC_FLAG \<noteq> 0) offset cnt buf s"

subsection \<open>Directory entries\<close>

text \<open>Forward to the first record whose key is not less than a number.\<close>

partial_function (option) skip_below :: "'d meta \<Rightarrow> 32 word \<Rightarrow> cursor \<Rightarrow> 'd ldev \<Rightarrow> (int \<times> cursor \<times> 'd ldev) option" where
  "skip_below K bound c s =
     (if key_FNum (c_buf c) < bound
      then (case next_and_get K c s of
              None \<Rightarrow> None
            | Some (err, c, s) \<Rightarrow> if err \<noteq> 0 then Some (err, c, s) else skip_below K bound c s)
      else Some (0, c, s))"

text \<open>The thread among the records of a directory: the number of the parent, if there is one.\<close>

partial_function (option) find_thread :: "'d meta \<Rightarrow> 32 word \<Rightarrow> cursor \<Rightarrow> 'd ldev \<Rightarrow> (int \<times> 32 word option \<times> cursor \<times> 'd ldev) option" where
  "find_thread K block c s =
     (if key_FNum (c_buf c) \<noteq> block then Some (0, None, c, s)
      else
        (case fld8 (c_buf c) (catalog_record (c_buf c)) of
           None \<Rightarrow> None
         | Some t \<Rightarrow>
             if t = HFS_CDR_THD
             then map_option (\<lambda>par. (0, Some par, c, s)) (fld32 (c_buf c) (catalog_record (c_buf c) + 10))
             else
               (case next_and_get K c s of
                  None \<Rightarrow> None
                | Some (err, c, s) \<Rightarrow> if err \<noteq> 0 then Some (err, None, c, s) else find_thread K block c s)))"

text \<open>Its own record, among those of the parent \<open>fnum\<close>: \<open>True\<close> when it is in the buffer.\<close>

partial_function (option) find_self :: "'d meta \<Rightarrow> 32 word \<Rightarrow> 32 word \<Rightarrow> cursor \<Rightarrow> 'd ldev \<Rightarrow> (int \<times> bool \<times> cursor \<times> 'd ldev) option" where
  "find_self K fnum block c s =
     (if key_FNum (c_buf c) \<noteq> fnum then Some (0, False, c, s)
      else
        (case fld8 (c_buf c) (catalog_record (c_buf c)) of
           None \<Rightarrow> None
         | Some t \<Rightarrow>
             (case (if t = HFS_CDR_DIR then fld32 (c_buf c) (catalog_record (c_buf c) + 6) else Some (block + 1)) of
                None \<Rightarrow> None
              | Some dirid \<Rightarrow>
                  if dirid = block then Some (0, True, c, s)
                  else
                    (case next_and_get K c s of
                       None \<Rightarrow> None
                     | Some (err, c, s) \<Rightarrow> if err \<noteq> 0 then Some (err, False, c, s) else find_self K fnum block c s))))"

text \<open>The entry \<open>.\<close>: the name is put into the key, then the record is converted; the record has been located before.\<close>

definition hfs_dot :: "cursor \<Rightarrow> CDENTRY option" where
  "hfs_dot c = dir2direntry (overwrite 6 [1, 46, 0] (c_buf c)) (catalog_record (c_buf c)) (if c_block c \<noteq> 0 \<or> c_rec c \<noteq> 0 then 1 else 0)"

definition catalog_pos :: "cursor \<Rightarrow> 32 word" where
  "catalog_pos c = push_bit 16 (ucast (c_block c)) + ucast (c_rec c)"

text \<open>
  The next record that is shown, from the place in the cursor on, which is the place \<open>start\<close>.  A thread that leads to the parent of the root is passed
  over.  When an error is returned, the entry is not used by any caller.
\<close>

partial_function (option) list_loop :: "'d meta \<Rightarrow> 32 word \<Rightarrow> cursor \<Rightarrow> 'd ldev \<Rightarrow> (int \<times> 32 word \<times> CDENTRY \<times> 'd ldev) option" where
  "list_loop K start c s =
     (if start = -1 then Some (ENMFIL, start, zero_cd, s)
      else
        (case get_record_from_node K c s of
           None \<Rightarrow> None
         | Some (err, c, s) \<Rightarrow>
             if err \<noteq> 0 then Some (err, start, zero_cd, s)
             else
               (let c' = snd (hfs_next_rec c); r = catalog_record (c_buf c);
                    start' = (if c_block c' = 0 then -1 else catalog_pos c') in
                case fld8 (c_buf c) r of
                  None \<Rightarrow> None
                | Some t \<Rightarrow>
                    (case (if t = HFS_CDR_THD then map_option (\<lambda>par. par \<noteq> 1) (fld32 (c_buf c) (r + 10)) else Some (t = HFS_CDR_DIR \<or> t = HFS_CDR_FIL)) of
                       None \<Rightarrow> None
                     | Some shown \<Rightarrow>
                         (case (if shown then dir2direntry (c_buf c) r start else Some zero_cd) of
                            None \<Rightarrow> None
                          | Some de \<Rightarrow>
                              if c_block c' = 0 then (if shown then Some (0, start', de, s) else list_loop K start' c' s)
                              else
                                (case get_record_from_node K c' s of
                                   None \<Rightarrow> None
                                 | Some (err, c'', s) \<Rightarrow>
                                     if err \<noteq> 0 then Some (err, start', zero_cd, s)
                                     else
                                       (let start'' = (if key_FNum (c_buf c'') \<noteq> key_FNum (c_buf c) then -1 else start') in
                                        if shown then Some (0, start'', de, s) else list_loop K start'' c'' s)))))))"

text \<open>
  The search for the entry of the directory with the number \<open>block\<close>, in the order of the code.  The result is the new value of \<open>*start\<close> and
  the entry \<open>.\<close>, or the place from which the listing goes on, when the directory is not found among the records of its parent.
\<close>

definition dir_search :: "'d meta \<Rightarrow> byte list \<Rightarrow> 32 word \<Rightarrow> 'd ldev \<Rightarrow> (int \<times> 32 word \<times> (bool \<times> cursor) option \<times> 'd ldev) option" where
  "dir_search K junk block s = do {
     (leaf, s) \<leftarrow> find_leaf_node K junk block s;
     if leaf < 0 then Some (leaf, block, None, s)
     else do {
       (err, c, s) \<leftarrow> get_record_from_node K \<lparr>c_node = [], c_block = of_int leaf, c_rec = 0, c_buf = junk\<rparr> s;
       if err \<noteq> 0 then Some (err, block, None, s)
       else do {
         (err, c, s) \<leftarrow> skip_below K block c s;
         if err \<noteq> 0 then Some (err, block, None, s)
         else do {
           start \<leftarrow> Some (catalog_pos c);
           (err, par, c, s) \<leftarrow> find_thread K block c s;
           if err \<noteq> 0 then Some (err, start, None, s)
           else (case par of
             None \<Rightarrow> Some (EPTHNF, -1, None, s)
           | Some par \<Rightarrow> do {
               (leaf, s) \<leftarrow> find_leaf_node K junk par s;
               if leaf < 0 then Some (leaf, start, None, s)
               else do {
                 (err, c, s) \<leftarrow> get_record_from_node K (c\<lparr>c_block := of_int leaf, c_rec := 0\<rparr>) s;
                 if err \<noteq> 0 then Some (err, start, None, s)
                 else do {
                   (err, c, s) \<leftarrow> skip_below K (ucast (ucast par :: 16 word)) c s;
                   if err \<noteq> 0 then Some (err, start, None, s)
                   else do {
                     (err, c, s) \<leftarrow> get_record_from_node K c s;
                     if err \<noteq> 0 then Some (err, start, None, s)
                     else do {
                       (err, found, c, s) \<leftarrow> find_self K (key_FNum (c_buf c)) block c s;
                       Some (err, start, if err \<noteq> 0 then None else Some (found, c), s) } } } } }) } } } }"

definition hfs_get_direntry :: "'d meta \<Rightarrow> byte list \<Rightarrow> 32 word \<Rightarrow> 'd ldev \<Rightarrow> (int \<times> 32 word \<times> CDENTRY \<times> 'd ldev) option" where
  "hfs_get_direntry K junk start s =
     (if start < 0x10000
      then do {
        (err, start, res, s) \<leftarrow> dir_search K junk start s;
        case res of
          None \<Rightarrow> Some (err, start, zero_cd, s)
        | Some (True, c) \<Rightarrow> do { de \<leftarrow> hfs_dot c; Some (0, start, de, s) }
        | Some (False, c) \<Rightarrow> list_loop K start (c\<lparr>c_block := ucast (drop_bit 16 start), c_rec := ucast start\<rparr>) s }
      else list_loop K start \<lparr>c_node = [], c_block = ucast (drop_bit 16 start), c_rec = ucast start, c_buf = junk\<rparr> s)"

subsection \<open>The volume\<close>

definition sizeof_Block0 :: nat where "sizeof_Block0 = 26"
definition sizeof_Partition :: nat where "sizeof_Partition = 80"
definition sizeof_MDB :: nat where "sizeof_MDB = 162"

definition Apple_HFS :: "byte list" where
  "Apple_HFS = [0x41, 0x70, 0x70, 0x6C, 0x65, 0x5F, 0x48, 0x46, 0x53]"

definition mdb_extents :: "byte list \<Rightarrow> nat \<Rightarrow> (16 word \<times> 16 word) list" where
  "mdb_extents mdb at = [(be16 mdb at, be16 mdb (at + 2)), (be16 mdb (at + 4), be16 mdb (at + 6)), (be16 mdb (at + 8), be16 mdb (at + 10))]"

text \<open>A partition with the type \<open>Apple_HFS\<close> has been found; \<open>fslabel\<close> has 65 bytes.\<close>

definition hfs_mount :: "'d meta \<Rightarrow> 32 word \<Rightarrow> byte list \<Rightarrow> 'd ldev \<Rightarrow> (int \<times> 'd ldev) option" where
  "hfs_mount K addr part s = do {
     s \<leftarrow> Some (s\<lparr>totalsize := be32 part 12\<rparr>);
     (err, mdb, s) \<leftarrow> DCRead K (unat (addr + (be32 part 8 + 2) * ld_blocksize s)) sizeof_MDB (replicate sizeof_MDB 0) s;
     if err \<noteq> 0 then Some (ERROR, s)
     else if be16 mdb 0 \<noteq> 0x4244 then Some (ERROR, s)
     else do {
       name \<leftarrow> put_str (unat (mdb ! 36)) 65 (drop 37 mdb);
       Some (0, s\<lparr>partoffset := addr + ld_blocksize s * be32 part 8, hfs_blocksize := be32 mdb 20, allocstart := ucast (be16 mdb 28),
         catalogextents := mdb_extents mdb 150, overflowextents := mdb_extents mdb 134, rootdirsize := -2, rootdir := HFS_ROOT_CNID,
         fslabel := mac2atari name\<rparr>) } }"

text \<open>The loop over the map of partitions; the counter has 16 bits.\<close>

partial_function (option) part_loop :: "'d meta \<Rightarrow> 32 word \<Rightarrow> 32 word \<Rightarrow> 16 word \<Rightarrow> byte list \<Rightarrow> 'd ldev \<Rightarrow> (int \<times> 'd ldev) option" where
  "part_loop K addr blkcnt i part s =
     (if ucast i < blkcnt
      then (case DCRead K (unat (addr + ucast (i + 1) * ld_blocksize s)) sizeof_Partition part s of
              None \<Rightarrow> None
            | Some (err, part, s) \<Rightarrow>
                if err \<noteq> 0 then Some (ERROR, s)
                else if field 48 9 part = Apple_HFS then hfs_mount K addr part s
                else part_loop K addr blkcnt (i + 1) part s)
      else Some (ERROR, s))"

definition hfs_get_root :: "'d meta \<Rightarrow> 32 word \<Rightarrow> 'd ldev \<Rightarrow> (int \<times> 'd ldev) option" where
  "hfs_get_root K lba s =
     (let addr = lba * 2048 in do {
      (err, blk0, s) \<leftarrow> DCRead K (unat addr) sizeof_Block0 (replicate sizeof_Block0 0) s;
      (err, blk0, s) \<leftarrow> (if err = E_CHNG then DCRead K (unat addr) sizeof_Block0 blk0 s else Some (err, blk0, s));
      if err < 0 then Some (err, s)
      else if be16 blk0 0 \<noteq> 0x4552 then Some (ERROR, s)
      else do {
        bs \<leftarrow> Some (scast (be16 blk0 2) :: 32 word);
        s \<leftarrow> Some (s\<lparr>ld_blocksize := if bs AND 0xff \<noteq> 0 then push_bit 8 bs else bs\<rparr>);
        (err, part, s) \<leftarrow> DCRead K (unat (addr + ld_blocksize s)) sizeof_Partition (replicate sizeof_Partition 0) s;
        if err \<noteq> 0 then Some (ERROR, s)
        else if be16 part 0 \<noteq> 0x504D then Some (ERROR, s)
        else part_loop K addr (be32 part 4) 0 part s } })"

text \<open>\<open>label\<close> is the same as that of ISO 9660 discs.\<close>

definition hfs_label :: "int \<Rightarrow> bool \<Rightarrow> 'd ldev \<Rightarrow> (int \<times> byte list option) option" where
  "hfs_label len rw s =
     (if rw then Some (EWRPRO, None)
      else if len \<le> 0 then None
      else Some (if int (length (fslabel s)) \<ge> len then ERANGE else 0, Some (take (nat len - 1) (fslabel s))))"

definition hfs_pathconf :: "int \<Rightarrow> int \<Rightarrow> int" where
  "hfs_pathconf DKMaxOpenFiles mode =
     (if mode = -1 then 7
      else if mode = 0 then DKMaxOpenFiles
      else if mode = 1 then 1
      else if mode = 2 then 512
      else if mode = 3 then HFS_NAMELEN
      else if mode = 4 then 0
      else if mode = 5 then 0
      else if mode = 6 then 2
      else if mode = 7 then 0x00900000 + 0x01 + 0x02
      else EINVFN)"

end
