(* ===== verification/Cd_Mount.thy ===== *)
theory Cd_Mount
  imports Cd_Toc Cd_Hfs
begin

text \<open>
  Mounting of a disc (\<open>get_root\<close> and \<open>DKInitVolume\<close> of \<open>extensio/cd-mxfs/doskern.c\<close>), and the table of functions of the file system
  that has been found: each call through \<open>ldp->fs\<close> is a case distinction, a call through the cleared table is a fault.
\<close>

definition DKMaxOpenFiles :: int where "DKMaxOpenFiles = 0x7fffffff"

definition fs_get_root :: "'d meta \<Rightarrow> proc \<Rightarrow> filesystem \<Rightarrow> 32 word \<Rightarrow> nat \<Rightarrow> 'd ldev \<Rightarrow> (int \<times> 'd ldev) option" where
  "fs_get_root K P f lba count s =
     (case f of No_fs \<Rightarrow> None | Isofs \<Rightarrow> iso_get_root K lba count s | Hfs \<Rightarrow> hfs_get_root K lba s | Tocfs \<Rightarrow> toc_get_root K P s)"

definition fs_get_direntry ::
  "'d meta \<Rightarrow> proc \<Rightarrow> byte list \<Rightarrow> 32 word \<Rightarrow> 32 word \<Rightarrow> 'd ldev \<Rightarrow> (int \<times> 32 word \<times> CDENTRY \<times> 'd ldev) option" where
  "fs_get_direntry K P junk addr dirend s =
     (case ld_fs s of No_fs \<Rightarrow> None | Isofs \<Rightarrow> iso_get_direntry K addr dirend s | Hfs \<Rightarrow> hfs_get_direntry K junk addr s
      | Tocfs \<Rightarrow> toc_get_direntry K P addr s)"

definition fs_readfile ::
  "'d meta \<Rightarrow> proc \<Rightarrow> byte list \<Rightarrow> 32 word \<Rightarrow> 32 word \<Rightarrow> 32 word \<Rightarrow> 32 word \<Rightarrow> nat \<Rightarrow> byte list \<Rightarrow> 'd ldev \<Rightarrow> (int \<times> byte list \<times> 'd ldev) option" where
  "fs_readfile K P junk start offset len iindex cnt buf s =
     (case ld_fs s of No_fs \<Rightarrow> None | Isofs \<Rightarrow> iso_readfile K start offset cnt buf s | Hfs \<Rightarrow> hfs_readfile K junk start offset iindex cnt buf s
      | Tocfs \<Rightarrow> toc_readfile K P start (unat offset) len cnt buf s)"

definition fs_label :: "byte list \<Rightarrow> int \<Rightarrow> bool \<Rightarrow> 'd ldev \<Rightarrow> ((int \<times> byte list option) \<times> 'd ldev) option" where
  "fs_label str len rw s =
     (case ld_fs s of No_fs \<Rightarrow> None | Isofs \<Rightarrow> map_option (\<lambda>r. (r, s)) (iso_label len rw s)
      | Hfs \<Rightarrow> map_option (\<lambda>r. (r, s)) (hfs_label len rw s) | Tocfs \<Rightarrow> toc_label str len rw s)"

definition fs_pathconf :: "int \<Rightarrow> 'd ldev \<Rightarrow> int option" where
  "fs_pathconf mode s =
     (case ld_fs s of No_fs \<Rightarrow> None | Isofs \<Rightarrow> Some (iso_pathconf DKMaxOpenFiles mode s) | Hfs \<Rightarrow> Some (hfs_pathconf DKMaxOpenFiles mode)
      | Tocfs \<Rightarrow> Some (toc_pathconf DKMaxOpenFiles mode))"

text \<open>The data tracks of a list, tried as the start of the file system; the result is \<open>True\<close> when one has been mounted.\<close>

fun root_tracks :: "'d meta \<Rightarrow> proc \<Rightarrow> filesystem \<Rightarrow> nat \<Rightarrow> nat list \<Rightarrow> 'd ldev \<Rightarrow> (bool \<times> 'd ldev) option" where
  "root_tracks K P f count [] s = Some (False, s)"
| "root_tracks K P f count (trk # trks) s =
     (case CDROMREADTOCENTRY K (metadevice s) (of_nat trk) CDROM_LBA (drv s) of ((err, toc), d) \<Rightarrow>
        (let s = s\<lparr>drv := d\<rparr> in
         if err = 0 \<and> cdte_ctrl toc AND CDROM_DATA_TRACK \<noteq> 0
         then do {
           (err, s) \<leftarrow> fs_get_root K P f (if trk = 1 \<and> cdte_addr toc <s 16 then 0 else cdte_addr toc) count s;
           if err = 0 then Some (True, s) else root_tracks K P f count trks s }
         else root_tracks K P f count trks s))"

definition cd_get_root :: "'d meta \<Rightarrow> proc \<Rightarrow> filesystem \<Rightarrow> 'd ldev \<Rightarrow> (int \<times> 'd ldev) option" where
  "cd_get_root K P f s =
     (if f = Tocfs then fs_get_root K P f 0 1 s
      else
        (case CDROMREADOFFSET K (metadevice s) (drv s) of ((err, root_offset), d) \<Rightarrow>
           if err = 0 then fs_get_root K P f root_offset 8 (s\<lparr>drv := d\<rparr>)
           else
             (case CDROMREADTOCHDR K (metadevice s) d of ((err, trk0, trk1), d) \<Rightarrow>
                (let s = s\<lparr>drv := d\<rparr>; trks = rev [unat trk0..<unat trk1 + 1] in
                 if err \<noteq> 0 then fs_get_root K P f 0 8 s
                 else do {
                   (found, s) \<leftarrow> root_tracks K P f 1 trks s;
                   if found then Some (0, s)
                   else do {
                     (found, s) \<leftarrow> root_tracks K P f 8 trks s;
                     if found then Some (0, s) else fs_get_root K P f 0 8 s } }))))"

text \<open>The question for a change of the medium; the result tells whether there was one.\<close>

definition media_check :: "'d meta \<Rightarrow> 'd ldev \<Rightarrow> bool \<times> 'd ldev" where
  "media_check K s =
     (case get_hz K (drv s) of (t, d) \<Rightarrow>
        if t > mediatime s
        then (case Metastatus K (metadevice s) d of (status, d) \<Rightarrow>
                (case get_hz K d of (t, d) \<Rightarrow>
                   (let s = s\<lparr>drv := d, mediatime := t + MEDIADELAY\<rparr> in
                    if status AND 0xffff0008 \<noteq> 0 then (True, DCClear (s\<lparr>ld_fs := No_fs\<rparr>)\<lparr>fspreference := FSPREFERENCE_ISO\<rparr>) else (False, s))))
        else (False, s\<lparr>drv := d\<rparr>))"

text \<open>The number that stands for a file system in \<open>fspreference\<close>.\<close>

definition fs_pref :: "filesystem \<Rightarrow> int" where
  "fs_pref f = (case f of Isofs \<Rightarrow> FSPREFERENCE_ISO | Hfs \<Rightarrow> FSPREFERENCE_HFS | Tocfs \<Rightarrow> FSPREFERENCE_TOC | No_fs \<Rightarrow> -1)"

text \<open>One attempt to mount: when it succeeds the file system becomes the preferred one.\<close>

definition try_mount :: "'d meta \<Rightarrow> proc \<Rightarrow> filesystem \<Rightarrow> 'd ldev \<Rightarrow> (bool \<times> 'd ldev) option" where
  "try_mount K P f s = do {
     (err, s) \<leftarrow> cd_get_root K P f s;
     Some (if err = 0 then (True, s\<lparr>ld_fs := f, fspreference := fs_pref f\<rparr>) else (False, s)) }"

text \<open>The attempts one after the other, until one succeeds.\<close>

fun try_mounts :: "'d meta \<Rightarrow> proc \<Rightarrow> filesystem list \<Rightarrow> 'd ldev \<Rightarrow> (bool \<times> 'd ldev) option" where
  "try_mounts K P [] s = Some (False, s)"
| "try_mounts K P (f # fs) s = do {
     (ok, s) \<leftarrow> try_mount K P f s;
     if ok then Some (True, s) else try_mounts K P fs s }"

definition mount_order :: "int \<Rightarrow> filesystem list" where
  "mount_order pref =
     (if pref = FSPREFERENCE_HFS then [Hfs] else []) @ (if pref = FSPREFERENCE_TOC \<or> pref = FSPREFERENCE_HFS then [Tocfs] else [])
     @ [Isofs, Hfs, Tocfs]"

definition DKInitVolume :: "'d meta \<Rightarrow> proc \<Rightarrow> 'd ldev \<Rightarrow> (int \<times> 'd ldev) option" where
  "DKInitVolume K P s =
     (case media_check K s of (changed, s) \<Rightarrow>
        (let flag = (if changed then 2 else 0) in
         if ld_fs s \<noteq> No_fs \<and> fspreference s = fs_pref (ld_fs s) then Some (1, s)
         else
           (case Tgetdate K (drv s) of (date, d) \<Rightarrow>
              (case Tgettime K d of (time, d) \<Rightarrow> do {
                 (ok, s) \<leftarrow> try_mounts K P (mount_order (fspreference s))
                   (s\<lparr>drv := d, mount_date := date, mount_time := time, lastde_inuse := 0, lastde_name := []\<rparr>);
                 Some (if ok then flag + 1 else flag, s) }))))"

end
