(* ===== verification/Cd_Xfs.thy ===== *)
theory Cd_Xfs
  imports Cd_Mount
begin

text \<open>
  The file system driver of CD-ROM drives for MagiC (\<open>extensio/cd-mxfs/cd-mxfsc.c\<close>).  All functions work on the logical device
  \<open>mydrives[drive]\<close> of one drive, which is the state here, together with the cache.  Descriptors of directories, files and
  directory handles lie in blocks of the kernel (\<open>int_malloc\<close>, which waits until it has a block); they belong to one caller and
  are values here.  A result is an error code (\<open>Inl\<close>) or a descriptor (\<open>Inr\<close>).
\<close>

subsection \<open>State and surroundings\<close>

text \<open>What the driver calls of the kernel and of MetaDOS (\<open>proc_info\<close> is the answer for the calling process), and the memory of the stack that a record of an HFS catalog does not fill.\<close>

record 'd cdenv =
  e_meta :: "'d meta"
  e_proc :: proc
  e_junk :: "byte list"
  diskchange :: "int \<Rightarrow> 'd ldev \<Rightarrow> int \<times> 'd ldev"
  kernel_version :: int
  proc_info :: int
  conv_8_3 :: "byte list \<Rightarrow> byte list"
  match_8_3 :: "byte list \<Rightarrow> byte list \<Rightarrow> bool"
  Metaioctl :: "16 word \<Rightarrow> int \<Rightarrow> 'd \<Rightarrow> int \<times> 'd"

record CDXFS_DD =
  dd_index :: "32 word"
  dd_start :: "32 word"
  dd_length :: "32 word"

record CDXFS_FD =
  cf_refcnt :: int
  cf_mode :: "16 word"
  cf_index :: "32 word"
  cf_pri_start :: "32 word"
  cf_pri_length :: "32 word"
  cf_ass_start :: "32 word"
  cf_ass_length :: "32 word"
  cf_type :: "32 word"
  cf_creator :: "32 word"
  cf_mtime :: "16 word"
  cf_mdate :: "16 word"
  cf_ass :: bool
  cf_pos :: "32 word"

text \<open>\<open>CDXFS_DHD\<close> with the fields of \<open>MYFILE\<close> that are used.\<close>

record CDXFS_DHD =
  dh_index :: "32 word"
  fp_start :: "32 word"
  fp_size :: "32 word"
  fp_offset :: "32 word"
  fp_dirflg :: int

record CDXFS_DTA =
  dta_sname :: "byte list"
  dta_dirindex :: "32 word"
  dta_dirend :: "32 word"
  dta_drive :: int
  dta_attrib :: byte
  dta_time :: "16 word"
  dta_date :: "16 word"
  dta_len :: "32 word"
  dta_name :: "byte list"

definition FMACOPENRES :: int where "FMACOPENRES = 0x4648"
definition FMACGETTYCR :: int where "FMACGETTYCR = 0x4649"
definition FMACSETTYCR :: int where "FMACSETTYCR = 0x464A"

definition cd_stricmp :: "byte list \<Rightarrow> byte list \<Rightarrow> bool" where
  "cd_stricmp a b \<longleftrightarrow> map b_toupper a = map b_toupper b"

abbreviation cd_entry where "cd_entry E \<equiv> fs_get_direntry (e_meta E) (e_proc E) (e_junk E)"

subsection \<open>Volumes\<close>

definition init_vol :: "'d cdenv \<Rightarrow> int \<Rightarrow> 'd ldev \<Rightarrow> (int \<times> 'd ldev) option" where
  "init_vol E drive s = do {
     (ret, s) \<leftarrow> DKInitVolume (e_meta E) (e_proc E) s;
     if 2 \<le> ret then Some (diskchange E drive (DKFlipPreferredReversed s))
     else Some (if ret = 1 then E_OK else EDRIVE, s) }"

definition cdecl_eject :: "'d cdenv \<Rightarrow> int \<Rightarrow> int \<Rightarrow> 'd ldev option \<Rightarrow> int \<times> 'd ldev option" where
  "cdecl_eject E CDROMEJECT fn ldp =
     (if fn = 0
      then (case ldp of
              Some s \<Rightarrow>
                (let s = DKFlipPreferredReversed s in
                 case Metaioctl E (metadevice s) CDROMEJECT (drv s) of (err, d) \<Rightarrow> (err, Some (s\<lparr>drv := d\<rparr>)))
            | None \<Rightarrow> (EDRIVE, None))
      else (EINVFN, ldp))"

text \<open>Which entries have the name: exact, or without regard to case when the file system says so, or by the short name for old programs.\<close>

definition de_named :: "'d cdenv \<Rightarrow> byte list \<Rightarrow> 'd ldev \<Rightarrow> CDENTRY \<Rightarrow> bool option" where
  "de_named E name s de =
     (if name = cd_longname de then Some True
      else
        (case fs_pathconf 6 s of
           None \<Rightarrow> None
         | Some p \<Rightarrow> Some (p \<noteq> 0 \<and> cd_stricmp name (cd_longname de)
             \<or> kernel_version E \<ge> 2 \<and> proc_info E = 0 \<and> cd_stricmp name (cd_truncname de))))"

partial_function (option) lookup_loop ::
  "'d cdenv \<Rightarrow> byte list \<Rightarrow> 32 word \<Rightarrow> 32 word \<Rightarrow> 'd ldev \<Rightarrow> (int \<times> 32 word \<times> CDENTRY \<times> 'd ldev) option" where
  "lookup_loop E name adr dirend s =
     (case cd_entry E adr dirend s of
        None \<Rightarrow> None
      | Some (err, adr', de, s) \<Rightarrow>
          if err \<noteq> E_OK then Some (EFILNF, 0, de, s)
          else
            (case de_named E name s de of
               None \<Rightarrow> None
             | Some show_it \<Rightarrow>
                 if show_it then Some (E_OK, if cd_tosattr de AND FA_SUBDIR \<noteq> 0 then cd_pri_start de else cd_iindex de, de, s)
                 else lookup_loop E name adr' dirend s))"

text \<open>Looking for a name in a directory: error code, index and entry.\<close>

definition cd_lookup :: "'d cdenv \<Rightarrow> int \<Rightarrow> CDXFS_DD \<Rightarrow> byte list \<Rightarrow> 'd ldev \<Rightarrow> (int \<times> 32 word \<times> CDENTRY \<times> 'd ldev) option" where
  "cd_lookup E drive dd name s = do {
     (ret, s) \<leftarrow> init_vol E drive s;
     if ret \<noteq> E_OK then Some (ret, 0, zero_cd, s)
     else if dd_index dd = rootdir s \<and> name = [46, 46] then Some (ELINK, 0, zero_cd, s)
     else do {
       (ret, adr, de, s) \<leftarrow> cd_entry E (dd_index dd) 0 s;
       if ret \<noteq> E_OK then Some (ret, 0, de, s)
       else if name = [] \<or> name = [46] then Some (E_OK, dd_index dd, de, s)
       else lookup_loop E name (cd_pri_start de) (cd_pri_start de + cd_pri_length de) s } }"

definition xfs_garbcoll :: int where "xfs_garbcoll = 0"

text \<open>\<open>opened\<close>: the kernel knows the drive already (\<open>d_xfs\<close>), and asks for a change of the medium.\<close>

definition xfs_drv_open :: "'d cdenv \<Rightarrow> int \<Rightarrow> bool \<Rightarrow> 'd ldev option \<Rightarrow> ((int + CDXFS_DD) \<times> 'd ldev option) option" where
  "xfs_drv_open E drive opened ldp =
     (case ldp of
        None \<Rightarrow> Some (Inl EDRIVE, None)
      | Some s \<Rightarrow>
          if opened then do { (ret, s) \<leftarrow> init_vol E drive s; Some (Inl ret, Some s) }
          else do {
            (ret, s) \<leftarrow> DKInitVolume (e_meta E) (e_proc E) s;
            (ret, adr, de, s) \<leftarrow> cd_entry E (rootdir s) 0 s;
            Some (if ret \<noteq> E_OK then Inl EDRIVE
                  else Inr \<lparr>dd_index = rootdir s, dd_start = cd_pri_start de, dd_length = cd_pri_length de\<rparr>, Some s) })"

definition xfs_drv_close :: "'d ldev \<Rightarrow> int \<times> 'd ldev" where
  "xfs_drv_close s = (E_OK, DKFlipPreferred s)"

subsection \<open>Paths\<close>

text \<open>The next element of a path and what follows it; \<open>None\<close> when the last element is left to the caller or the path is at its end.\<close>

definition path_elem :: "bool \<Rightarrow> byte list \<Rightarrow> (byte list \<times> byte list) option" where
  "path_elem mode path =
     (if 92 \<in> set path then Some (takeWhile (\<lambda>c. c \<noteq> 92) path, tl (dropWhile (\<lambda>c. c \<noteq> 92) path))
      else if path \<noteq> [] \<and> mode then Some (path, []) else None)"

lemma path_elem_shorter:
  assumes "path_elem mode path = Some (e, path')"
  shows "length path' < length path"
proof -
  have "length (dropWhile (\<lambda>c. c \<noteq> 92) path) \<le> length path" by (rule length_dropWhile_le)
  moreover have "path \<noteq> []" using assms by (auto simp: path_elem_def)
  ultimately show ?thesis using assms by (cases path) (auto simp: path_elem_def split: if_splits)
qed

definition path_error :: "int \<Rightarrow> int" where
  "path_error ret = (if ret = EFILNF then EPTHNF else ret)"

function xfs_path2DD ::
  "'d cdenv \<Rightarrow> int \<Rightarrow> bool \<Rightarrow> CDXFS_DD \<Rightarrow> byte list \<Rightarrow> 'd ldev \<Rightarrow> ((int + CDXFS_DD \<times> byte list) \<times> 'd ldev) option" where
  "xfs_path2DD E drive mode current path s =
     (case path_elem mode path of
        None \<Rightarrow> Some (Inr (current, path), s)
      | Some (pathelem, path') \<Rightarrow>
          if length pathelem > 127 then Some (Inl EPTHNF, s)
          else
            (case cd_lookup E drive current pathelem s of
               None \<Rightarrow> None
             | Some (ret, index, de, s) \<Rightarrow>
                 (let ret = (if ret = 0 \<and> cd_mode de AND 0x4000 = 0 then EPTHNF else ret) in
                  if ret \<noteq> 0 then Some (Inl (path_error ret), s)
                  else xfs_path2DD E drive mode \<lparr>dd_index = index, dd_start = cd_pri_start de, dd_length = cd_pri_length de\<rparr> path' s)))"
  by pat_completeness auto
termination
  by (relation "measure (\<lambda>(E, drive, mode, current, path, s). length path)") (auto dest: path_elem_shorter)

declare xfs_path2DD.simps [simp del]

text \<open>\<open>pathname\<close> is extended by the names from \<open>relto\<close> down to the directory.\<close>

partial_function (option) getname_loop :: "'d cdenv \<Rightarrow> int \<Rightarrow> 32 word \<Rightarrow> byte list \<Rightarrow> 32 word \<Rightarrow> 32 word \<Rightarrow> 'd ldev \<Rightarrow> (int \<times> byte list \<times> 'd ldev) option" where
  "getname_loop E buflen current pathname adr dirend s =
     (case cd_entry E adr dirend s of
        None \<Rightarrow> None
      | Some (err, adr', de, s) \<Rightarrow>
          if err \<noteq> E_OK then Some (EFILNF, pathname, s)
          else if cd_pri_start de = current
          then Some (if int (2 + length pathname + length (cd_longname de)) > buflen mod 2 ^ 32 then (ERANGE, pathname, s)
                     else (E_OK, pathname @ 92 # cd_longname de, s))
          else getname_loop E buflen current pathname adr' dirend s)"

partial_function (option) getname ::
  "'d cdenv \<Rightarrow> int \<Rightarrow> int \<Rightarrow> 32 word \<Rightarrow> CDXFS_DD \<Rightarrow> byte list \<Rightarrow> 'd ldev \<Rightarrow> (int \<times> byte list \<times> 'd ldev) option" where
  "getname E drive buflen relto current pathname s = do {
     (ret, parent, de, s) \<leftarrow> cd_lookup E drive current [46, 46] s;
     if ret \<noteq> 0 then Some (ret, pathname, s)
     else do {
       (ret, pathname, s) \<leftarrow> (if parent \<noteq> relto then getname E drive buflen relto (current\<lparr>dd_index := parent\<rparr>) pathname s else Some (0, pathname, s));
       if ret \<noteq> 0 then Some (ret, pathname, s)
       else do {
         (ret, adr, de, s) \<leftarrow> cd_entry E parent 0 s;
         if ret \<noteq> 0 then Some (ret, pathname, s)
         else getname_loop E buflen (dd_index current) pathname (cd_pri_start de) (cd_pri_start de + cd_pri_length de) s } } }"

definition xfs_DD2name :: "'d cdenv \<Rightarrow> int \<Rightarrow> CDXFS_DD \<Rightarrow> int \<Rightarrow> 'd ldev \<Rightarrow> (int \<times> byte list \<times> 'd ldev) option" where
  "xfs_DD2name E drive dd buflen s = do {
     (ret, s) \<leftarrow> init_vol E drive s;
     if ret \<noteq> E_OK then Some (ret, [], s)
     else if dd_index dd = rootdir s then Some (E_OK, [], s)
     else getname E drive buflen (rootdir s) dd [] s }"

end
