(* ===== verification/Cd_Dev.thy ===== *)
theory Cd_Dev
  imports Cd_Xfs
begin

text \<open>
  The rest of \<open>extensio/cd-mxfs/cd-mxfsc.c\<close>: searching with a pattern, opening of files, directory handles, and the devices for
  open files and for the whole disc.  Every operation that would write reports \<open>EWRPRO\<close>.
\<close>

subsection \<open>Searching with a pattern\<close>

partial_function (option) search_loop8 ::
  "'d cdenv \<Rightarrow> CDXFS_DTA \<Rightarrow> 'd ldev \<Rightarrow> (int \<times> CDENTRY \<times> CDXFS_DTA \<times> 'd ldev) option" where
  "search_loop8 E dta s =
     (case cd_entry E (dta_dirindex dta) (dta_dirend dta) s of
        None \<Rightarrow> None
      | Some (ret, adr, de, s) \<Rightarrow>
          (let dta = dta\<lparr>dta_dirindex := adr\<rparr> in
           if ret \<noteq> 0 then Some (ret, de, dta, s)
           else if match_8_3 E (dta_sname dta) (take 11 (conv_8_3 E (cd_truncname de)) @ [cd_tosattr de]) then Some (0, de, dta, s)
           else search_loop8 E dta s))"

definition search :: "'d cdenv \<Rightarrow> CDXFS_DTA \<Rightarrow> bool \<Rightarrow> 'd ldev \<Rightarrow> (int \<times> CDXFS_DTA \<times> 'd ldev) option" where
  "search E dta first s = do {
     (ret, de, dta, s) \<leftarrow> search_loop8 E dta s;
     Some (if ret \<noteq> 0 then (if first \<and> ret = ENMFIL then EFILNF else ret, dta\<lparr>dta_drive := -1\<rparr>, s)
           else (0, dta\<lparr>dta_time := cd_mtime de, dta_date := cd_mdate de, dta_len := cd_pri_length de, dta_name := cd_truncname de,
                       dta_attrib := cd_tosattr de\<rparr>, s)) }"

definition xfs_sfirst :: "'d cdenv \<Rightarrow> int \<Rightarrow> CDXFS_DD \<Rightarrow> byte list \<Rightarrow> CDXFS_DTA \<Rightarrow> byte \<Rightarrow> 'd ldev \<Rightarrow> (int \<times> CDXFS_DTA \<times> 'd ldev) option" where
  "xfs_sfirst E drive dd name dta attrib s = do {
     (ret, s) \<leftarrow> init_vol E drive s;
     if ret \<noteq> E_OK then Some (ret, dta, s)
     else search E (dta\<lparr>dta_sname := take 11 (conv_8_3 E name) @ [attrib], dta_drive := drive, dta_dirindex := dd_start dd,
                        dta_dirend := dd_start dd + dd_length dd\<rparr>) True s }"

definition xfs_snext :: "'d cdenv \<Rightarrow> CDXFS_DTA \<Rightarrow> 'd ldev \<Rightarrow> (int \<times> CDXFS_DTA \<times> 'd ldev) option" where
  "xfs_snext E dta s = search E dta False s"

subsection \<open>Files by name\<close>

definition xfs_fopen :: "'d cdenv \<Rightarrow> int \<Rightarrow> CDXFS_DD \<Rightarrow> byte list \<Rightarrow> 16 word \<Rightarrow> 'd ldev \<Rightarrow> ((int + CDXFS_FD) \<times> 'd ldev) option" where
  "xfs_fopen E drive dd name omode s = do {
     (ret, s) \<leftarrow> init_vol E drive s;
     if ret \<noteq> E_OK then Some (Inl ret, s)
     else do {
       (ret, index, de, s) \<leftarrow> cd_lookup E drive dd name s;
       Some (if ret \<noteq> E_OK \<and> ret \<noteq> EFILNF then Inl ret
             else if ret \<noteq> 0 then Inl (if omode AND O_CREAT \<noteq> 0 then EWRPRO else ret)
             else if omode AND O_TRUNC \<noteq> 0 then Inl EWRPRO
             else if omode AND O_EXCL \<noteq> 0 then Inl EACCDN
             else Inr \<lparr>cf_refcnt = 1, cf_mode = omode, cf_index = index, cf_pri_start = cd_pri_start de, cf_pri_length = cd_pri_length de,
                       cf_ass_start = cd_ass_start de, cf_ass_length = cd_ass_length de, cf_type = cd_type de, cf_creator = cd_creator de,
                       cf_mtime = cd_mtime de, cf_mdate = cd_mdate de, cf_ass = False, cf_pos = 0\<rparr>, s) } }"

definition xfs_fdelete :: int where "xfs_fdelete = EWRPRO"
definition xfs_link :: int where "xfs_link = EWRPRO"
definition xfs_chown :: int where "xfs_chown = EWRPRO"
definition xfs_chmod :: int where "xfs_chmod = EWRPRO"
definition xfs_dcreate :: int where "xfs_dcreate = EWRPRO"
definition xfs_ddelete :: int where "xfs_ddelete = EWRPRO"
definition xfs_symlink :: int where "xfs_symlink = EWRPRO"
definition xfs_readlink :: int where "xfs_readlink = EINVFN"

definition xfs_xattr :: "'d cdenv \<Rightarrow> int \<Rightarrow> CDXFS_DD \<Rightarrow> byte list \<Rightarrow> 'd ldev \<Rightarrow> (int \<times> XATTR option \<times> 'd ldev) option" where
  "xfs_xattr E drive dd name s = do {
     (ret, s) \<leftarrow> init_vol E drive s;
     if ret \<noteq> E_OK then Some (ret, None, s)
     else do {
       (ret, index, de, s) \<leftarrow> cd_lookup E drive dd name s;
       if ret \<noteq> 0 then Some (ret, None, s)
       else do { xa \<leftarrow> DKDirentry2Xattr s de drive; Some (E_OK, Some xa, s) } } }"

definition xfs_attrib :: "'d cdenv \<Rightarrow> int \<Rightarrow> CDXFS_DD \<Rightarrow> byte list \<Rightarrow> bool \<Rightarrow> 'd ldev \<Rightarrow> (int \<times> 'd ldev) option" where
  "xfs_attrib E drive dd name mode s =
     (if mode then Some (EWRPRO, s)
      else do {
        (ret, xa, s) \<leftarrow> xfs_xattr E drive dd name s;
        Some (case xa of None \<Rightarrow> ret | Some x \<Rightarrow> uint (st_attr x AND 0xff), s) })"

text \<open>The type and the creator of the file, for \<open>FMACGETTYCR\<close>.\<close>

definition xfs_dcntl :: "'d cdenv \<Rightarrow> int \<Rightarrow> CDXFS_DD \<Rightarrow> byte list \<Rightarrow> int \<Rightarrow> 'd ldev \<Rightarrow> (int \<times> (32 word \<times> 32 word) option \<times> 'd ldev) option" where
  "xfs_dcntl E drive dd name cmd s = do {
     (ret, s) \<leftarrow> init_vol E drive s;
     if ret \<noteq> E_OK then Some (ret, None, s)
     else if cmd div 256 = 0x43 then Some (case Metaioctl E (metadevice s) cmd (drv s) of (err, d) \<Rightarrow> (err, None, s\<lparr>drv := d\<rparr>))
     else do {
       (ret, index, de, s) \<leftarrow> cd_lookup E drive dd name s;
       Some (if ret \<noteq> 0 then (ret, None, s)
             else if cmd = FMACGETTYCR then (if cd_type de \<noteq> 0 \<and> cd_creator de \<noteq> 0 then E_OK else EINVFN, Some (cd_type de, cd_creator de), s)
             else if cmd = FMACSETTYCR then (EWRPRO, None, s)
             else (EINVFN, None, s)) } }"

subsection \<open>Directory handles\<close>

definition xfs_dopendir :: "'d cdenv \<Rightarrow> int \<Rightarrow> CDXFS_DD \<Rightarrow> int \<Rightarrow> 'd ldev \<Rightarrow> ((int + CDXFS_DHD) \<times> 'd ldev) option" where
  "xfs_dopendir E drive dd tosflag s = do {
     (ret, s) \<leftarrow> init_vol E drive s;
     Some (if ret \<noteq> E_OK then Inl ret
           else Inr \<lparr>dh_index = 0, fp_start = dd_start dd, fp_size = dd_length dd, fp_offset = dd_start dd, fp_dirflg = tosflag\<rparr>, s) }"

text \<open>
  The buffer of the caller has \<open>buflen\<close> bytes: the index of the file, unless the handle is for old programs, and the name with
  its closing zero.  Results: code, index and name, attributes.
\<close>

definition xfs_dreaddir ::
  "'d cdenv \<Rightarrow> int \<Rightarrow> CDXFS_DHD \<Rightarrow> int \<Rightarrow> bool \<Rightarrow> 'd ldev \<Rightarrow> (int \<times> (32 word option \<times> byte list) option \<times> XATTR option \<times> CDXFS_DHD \<times> 'd ldev) option" where
  "xfs_dreaddir E drive dh buflen want_xattr s = do {
     (ret, s) \<leftarrow> init_vol E drive s;
     if ret \<noteq> E_OK then Some (ret, None, None, dh, s)
     else do {
       (ret, adr, de, s) \<leftarrow> cd_entry E (fp_offset dh) (fp_start dh + fp_size dh) s;
       dh \<leftarrow> Some (dh\<lparr>fp_offset := adr\<rparr>);
       if ret \<noteq> 0 then Some (ret, None, None, dh, s)
       else if (if fp_dirflg dh = 0 then 16 else 12) > buflen then Some (ERANGE, None, None, dh, s)
       else do {
         dh \<leftarrow> Some (dh\<lparr>dh_index := if cd_tosattr de AND FA_SUBDIR \<noteq> 0 then cd_pri_start de else cd_iindex de\<rparr>);
         name \<leftarrow> Some (if fp_dirflg dh = 1 then cd_truncname de else cd_longname de);
         if (if fp_dirflg dh = 0 then 4 else 0) + int (length name) + 1 > buflen then None
         else do {
           xa \<leftarrow> (if want_xattr then map_option Some (DKDirentry2Xattr s de drive) else Some None);
           Some (E_OK, Some (if fp_dirflg dh = 0 then Some (cd_pri_start de) else None, name), xa, dh, s) } } } }"

definition xfs_drewinddir :: "CDXFS_DHD \<Rightarrow> int \<times> CDXFS_DHD" where
  "xfs_drewinddir dh = (E_OK, dh\<lparr>dh_index := 0\<rparr>)"

definition xfs_dpathconf :: "'d cdenv \<Rightarrow> int \<Rightarrow> int \<Rightarrow> 'd ldev \<Rightarrow> (int \<times> 'd ldev) option" where
  "xfs_dpathconf E drive which s = do {
     (ret, s) \<leftarrow> init_vol E drive s;
     if ret \<noteq> E_OK then Some (ret, s) else map_option (\<lambda>r. (r, s)) (fs_pathconf which s) }"

text \<open>\<open>DISKINFO\<close>: free, total, sector size, cluster size.\<close>

definition xfs_dfree :: "'d cdenv \<Rightarrow> int \<Rightarrow> 'd ldev \<Rightarrow> (int \<times> (32 word \<times> 32 word \<times> 32 word \<times> 32 word) option \<times> 'd ldev) option" where
  "xfs_dfree E drive s = do {
     (ret, s) \<leftarrow> init_vol E drive s;
     Some (if ret \<noteq> E_OK then (ret, None, s) else (E_OK, Some (0, totalsize s, ld_blocksize s, 1), s)) }"

definition xfs_wlabel :: "'d cdenv \<Rightarrow> int \<Rightarrow> byte list \<Rightarrow> 'd ldev \<Rightarrow> (int \<times> 'd ldev) option" where
  "xfs_wlabel E drive name s = do {
     (ret, s) \<leftarrow> init_vol E drive s;
     if ret \<noteq> E_OK then Some (ret, s) else map_option (\<lambda>((r, str), s). (r, s)) (fs_label name (s16 (int (length name))) True s) }"

definition xfs_rlabel :: "'d cdenv \<Rightarrow> int \<Rightarrow> int \<Rightarrow> 'd ldev \<Rightarrow> ((int \<times> byte list option) \<times> 'd ldev) option" where
  "xfs_rlabel E drive buflen s = do {
     (ret, s) \<leftarrow> init_vol E drive s;
     if ret \<noteq> E_OK then Some ((ret, None), s) else fs_label [] buflen False s }"

subsection \<open>Open files\<close>

definition dev_close :: "CDXFS_FD \<Rightarrow> int \<times> CDXFS_FD option" where
  "dev_close fd = (let n = (if cf_refcnt fd \<noteq> 0 then cf_refcnt fd - 1 else 0) in (E_OK, if n = 0 then None else Some (fd\<lparr>cf_refcnt := n\<rparr>)))"

definition cf_len :: "CDXFS_FD \<Rightarrow> 32 word" where
  "cf_len fd = (if cf_ass fd then cf_ass_length fd else cf_pri_length fd)"

definition dev_read :: "'d cdenv \<Rightarrow> CDXFS_FD \<Rightarrow> 32 word \<Rightarrow> byte list \<Rightarrow> 'd ldev \<Rightarrow> (int \<times> byte list \<times> CDXFS_FD \<times> 'd ldev) option" where
  "dev_read E fd count buf s =
     (let start = (if cf_ass fd then cf_ass_start fd else cf_pri_start fd); datalen = cf_len fd;
          count = (if cf_pos fd + count > datalen then datalen - cf_pos fd else count) in do {
      (ret, buf, s) \<leftarrow> fs_readfile (e_meta E) (e_proc E) (e_junk E) start (cf_pos fd) datalen (cf_index fd) (unat count) buf s;
      Some (if ret \<noteq> 0 then (ret, buf, fd, s) else (sint count, buf, fd\<lparr>cf_pos := cf_pos fd + count\<rparr>, s)) })"

definition dev_write :: int where "dev_write = EWRPRO"
definition dev_stat :: int where "dev_stat = 1"

definition dev_seek :: "CDXFS_FD \<Rightarrow> int \<Rightarrow> int \<Rightarrow> int \<times> CDXFS_FD" where
  "dev_seek fd offset whence =
     (let datalen = sint (cf_len fd);
          newoff = (if whence = 0 then offset else if whence = 1 then s32 (uint (cf_pos fd) + offset) else s32 (datalen + offset)) in
      if whence \<noteq> 0 \<and> whence \<noteq> 1 \<and> whence \<noteq> 2 then (EINVFN, fd)
      else if newoff < 0 \<or> newoff > datalen then (ERANGE, fd)
      else (newoff, fd\<lparr>cf_pos := of_int newoff\<rparr>))"

definition dev_datime :: "bool \<Rightarrow> CDXFS_FD \<Rightarrow> int \<times> (16 word \<times> 16 word) option" where
  "dev_datime set_it fd = (if set_it then (EWRPRO, None) else (E_OK, Some (cf_mtime fd, cf_mdate fd)))"

datatype ioctl_res = No_res | Stat_res XATTR | Type_res "32 word" "32 word"

definition dev_ioctl :: "'d cdenv \<Rightarrow> int \<Rightarrow> CDXFS_FD \<Rightarrow> int \<Rightarrow> 'd ldev \<Rightarrow> (int \<times> ioctl_res \<times> CDXFS_FD \<times> 'd ldev) option" where
  "dev_ioctl E drive fd cmd s =
     (if cmd = FSTAT
      then do {
        (ret, adr, de, s) \<leftarrow> cd_entry E (cf_index fd) 0 s;
        if ret \<noteq> E_OK then Some (ret, No_res, fd, s)
        else do { xa \<leftarrow> DKDirentry2Xattr s de drive; Some (E_OK, Stat_res xa, fd, s) } }
      else if cmd = FMACGETTYCR
      then Some (if cf_type fd \<noteq> 0 \<and> cf_creator fd \<noteq> 0 then E_OK else EINVFN, Type_res (cf_type fd) (cf_creator fd), fd, s)
      else if cmd = FMACSETTYCR then Some (EWRPRO, No_res, fd, s)
      else if cmd = FMACOPENRES
      then Some (if cf_ass_start fd = 0 then (EFILNF, No_res, fd, s) else (E_OK, No_res, fd\<lparr>cf_ass := True, cf_pos := 0\<rparr>, s))
      else Some (EINVFN, No_res, fd, s))"

definition dev_getc :: "'d cdenv \<Rightarrow> CDXFS_FD \<Rightarrow> 'd ldev \<Rightarrow> (int \<times> CDXFS_FD \<times> 'd ldev) option" where
  "dev_getc E fd s = do {
     (ret, c, fd, s) \<leftarrow> dev_read E fd 1 [0] s;
     Some (if ret < 0 then ret else if ret = 0 then 0xff1a else uint (hd c), fd, s) }"

text \<open>\<open>buf\<close> holds the characters stored so far; there is room for \<open>n\<close> more.\<close>

partial_function (option) cd_getline :: "'d cdenv \<Rightarrow> nat \<Rightarrow> byte list \<Rightarrow> CDXFS_FD \<Rightarrow> 'd ldev \<Rightarrow> (int \<times> byte list \<times> CDXFS_FD \<times> 'd ldev) option" where
  "cd_getline E n buf fd s =
     (if n = 0 then Some (int (length buf), buf, fd, s)
      else
        (case dev_read E fd 1 [0] s of
           None \<Rightarrow> None
         | Some (ret, c, fd, s) \<Rightarrow>
             if ret < 0 then Some (ret, buf, fd, s)
             else if ret = 0 then Some (int (length buf), buf, fd, s)
             else if hd c = 13 then cd_getline E n buf fd s
             else if hd c = 10 then Some (int (length buf), buf, fd, s)
             else cd_getline E (n - 1) (buf @ [hd c]) fd s))"

definition dev_getline :: "'d cdenv \<Rightarrow> CDXFS_FD \<Rightarrow> int \<Rightarrow> 'd ldev \<Rightarrow> (int \<times> byte list \<times> CDXFS_FD \<times> 'd ldev) option" where
  "dev_getline E fd len s = cd_getline E (nat len) [] fd s"

definition dev_putc :: int where "dev_putc = dev_write"

subsection \<open>The disc as a device\<close>

text \<open>\<open>fd_user1\<close>, the number of the drive, and \<open>fd_fpos\<close> of \<open>MX_DOSFD\<close>.\<close>

record DOSFD =
  bd_drive :: nat
  bd_fpos :: "32 word"

text \<open>\<open>ddevs\<close> are the addresses of the field \<open>ddev\<close> of the 32 drives, as far as they exist.\<close>

definition blkdev_open :: "nat option list \<Rightarrow> nat \<Rightarrow> DOSFD \<Rightarrow> int \<times> DOSFD" where
  "blkdev_open ddevs ddev fd =
     (case find (\<lambda>i. ddevs ! i = Some ddev) [0..<length ddevs] of None \<Rightarrow> (EINTRN, fd) | Some i \<Rightarrow> (E_OK, fd\<lparr>bd_drive := i\<rparr>))"

definition blkdev_close :: int where "blkdev_close = E_OK"

definition blkdev_read :: "'d cdenv \<Rightarrow> DOSFD \<Rightarrow> 32 word \<Rightarrow> byte list \<Rightarrow> 'd ldev \<Rightarrow> (int \<times> byte list \<times> DOSFD \<times> 'd ldev) option" where
  "blkdev_read E f count buf s = do {
     (ret, buf, s) \<leftarrow> DCRead (e_meta E) (unat (bd_fpos f)) (unat count) buf s;
     Some (if ret \<noteq> E_OK then (ret, buf, f, s) else (sint count, buf, f\<lparr>bd_fpos := bd_fpos f + count\<rparr>, s)) }"

definition blkdev_write :: int where "blkdev_write = EWRPRO"
definition blkdev_stat :: int where "blkdev_stat = 1"
definition blkdev_delete :: int where "blkdev_delete = EWRPRO"

definition blkdev_seek :: "DOSFD \<Rightarrow> 32 word \<Rightarrow> int \<Rightarrow> int \<times> DOSFD" where
  "blkdev_seek f offset whence =
     (let newoff = (if whence = 1 then bd_fpos f + offset else offset) in
      if whence = 0 \<or> whence = 1 \<or> whence = 2 then (sint newoff, f\<lparr>bd_fpos := newoff\<rparr>) else (EINVFN, f))"

definition blkdev_ioctl :: "'d cdenv \<Rightarrow> int \<Rightarrow> 'd ldev \<Rightarrow> int \<times> 'd ldev" where
  "blkdev_ioctl E cmd s = (case Metaioctl E (metadevice s) cmd (drv s) of (err, d) \<Rightarrow> (err, s\<lparr>drv := d\<rparr>))"

end
