(* ===== verification/Cd_Listing.thy ===== *)
theory Cd_Listing
  imports Cd_Kern
begin

text \<open>
  The contract between \<open>get_direntry\<close> of a file system and the code that runs over a directory with it: it returns, with an error or
  with an entry and a greater address.  From this the loops of the driver return and find the first entry they look for.
\<close>

text \<open>The entries of a directory from an address on, as \<open>get\<close> delivers them until it reports an error.\<close>

inductive entries_from :: "(32 word \<Rightarrow> 's \<Rightarrow> (int \<times> 32 word \<times> 'e \<times> 's) option) \<Rightarrow> 32 word \<Rightarrow> 's \<Rightarrow> 'e list \<Rightarrow> bool"
  for get where
  stop: "get a s = Some (err, a', de, s') \<Longrightarrow> err \<noteq> 0 \<Longrightarrow> entries_from get a s []"
| more: "get a s = Some (0, a', de, s') \<Longrightarrow> entries_from get a' s' des \<Longrightarrow> entries_from get a s (de # des)"

inductive_cases entries_from_ConsE: "entries_from get a s (de # des)"

locale dir_reader =
  fixes get :: "32 word \<Rightarrow> 's \<Rightarrow> (int \<times> 32 word \<times> 'e \<times> 's) option" and ok :: "32 word \<Rightarrow> 's \<Rightarrow> bool"
  assumes get_returns: "ok a s \<Longrightarrow> \<exists>err a' de s'. get a s = Some (err, a', de, s') \<and> (err \<noteq> 0 \<or> ok a' s' \<and> a < a')"
begin

lemma listing_ends:
  assumes "ok a s"
  shows "\<exists>des. entries_from get a s des"
  using assms
proof (induction "2 ^ 32 - unat a" arbitrary: a s rule: less_induct)
  case less
  obtain err a' de s' where g: "get a s = Some (err, a', de, s')" "err \<noteq> 0 \<or> ok a' s' \<and> a < a'" using get_returns [OF less.prems] by blast
  show ?case
  proof (cases "err = 0")
    case True
    then have "ok a' s'" "a < a'" using g(2) by auto
    moreover have "unat a' < 2 ^ 32" by (rule order_less_le_trans [OF unsigned_less]) simp
    ultimately have "2 ^ 32 - unat a' < 2 ^ 32 - unat a" by (simp add: word_less_nat_alt)
    then show ?thesis using less.hyps [of a' s'] \<open>ok a' s'\<close> g(1) True by (metis entries_from.more)
  qed (use g in \<open>metis entries_from.stop\<close>)
qed
end

text \<open>A loop that looks for the first entry with a property.\<close>

locale dir_loop = dir_reader get ok
  for get :: "32 word \<Rightarrow> 's \<Rightarrow> (int \<times> 32 word \<times> 'e \<times> 's) option" and ok +
  fixes wanted :: "'s \<Rightarrow> 'e \<Rightarrow> bool" and hit miss :: "32 word \<Rightarrow> int \<Rightarrow> 'e \<Rightarrow> 's \<Rightarrow> 'r"
    and loop :: "32 word \<Rightarrow> 's \<Rightarrow> 'r option"
  assumes wanted_keep: "ok a s \<Longrightarrow> get a s = Some (err, a', de, s') \<Longrightarrow> wanted s' = wanted s"
    and loop_step: "ok a s \<Longrightarrow> get a s = Some (err, a', de, s') \<Longrightarrow>
      loop a s = (if err \<noteq> 0 then Some (miss a' err de s') else if wanted s' de then Some (hit a' err de s') else loop a' s')"
begin

lemma loop_finds:
  assumes "ok a s"
  shows "\<exists>des a' err de s'. entries_from get a s des
    \<and> (case find (wanted s) des of
         None \<Rightarrow> err \<noteq> 0 \<and> loop a s = Some (miss a' err de s')
       | Some e \<Rightarrow> loop a s = Some (hit a' 0 e s'))"
  using assms
proof (induction "2 ^ 32 - unat a" arbitrary: a s rule: less_induct)
  case less
  obtain err a' de s' where g: "get a s = Some (err, a', de, s')" "err \<noteq> 0 \<or> ok a' s' \<and> a < a'" using get_returns [OF less.prems] by blast
  note step = loop_step [OF less.prems g(1)] and keep = wanted_keep [OF less.prems g(1)]
  show ?case
  proof (cases "err = 0")
    case False
    then have "entries_from get a s []" using g(1) by (metis entries_from.stop)
    then show ?thesis using step False by (intro exI [of _ "[]"] exI [of _ a'] exI [of _ err] exI [of _ de] exI [of _ s']) simp
  next
    case True
    then have n: "ok a' s'" "a < a'" using g(2) by auto
    moreover have "unat a' < 2 ^ 32" by (rule order_less_le_trans [OF unsigned_less]) simp
    ultimately have m: "2 ^ 32 - unat a' < 2 ^ 32 - unat a" by (simp add: word_less_nat_alt)
    show ?thesis
    proof (cases "wanted s de")
      case w: True
      obtain des where "entries_from get a' s' des" using listing_ends [OF n(1)] by blast
      then have "entries_from get a s (de # des)" using g(1) True by (metis entries_from.more)
      then show ?thesis using step keep True w by (intro exI [of _ "de # des"] exI [of _ a'] exI [of _ 0] exI [of _ de] exI [of _ s']) auto
    next
      case w: False
      obtain des b err2 de2 s2 where r: "entries_from get a' s' des"
        "case find (wanted s') des of None \<Rightarrow> err2 \<noteq> 0 \<and> loop a' s' = Some (miss b err2 de2 s2) | Some e \<Rightarrow> loop a' s' = Some (hit b 0 e s2)"
        using less.hyps [OF m n(1)] by blast
      have "entries_from get a s (de # des)" using r(1) g(1) True by (metis entries_from.more)
      then show ?thesis using step keep True w r(2)
        by (intro exI [of _ "de # des"] exI [of _ b] exI [of _ err2] exI [of _ de2] exI [of _ s2]) (simp split: option.splits)
    qed
  qed
qed
end

end
