(* ===== verification/Cd_Lookup.thy ===== *)
theory Cd_Lookup
  imports Cd_Dev Cd_Listing Cd_Toc_Props
begin

text \<open>
  The loops of the driver over a directory: the contract of \<open>get_direntry\<close> holds for ISO 9660 discs whose entries fit, and for audio discs;
  so looking for a name, for a directory and for a pattern finds the first such entry.
\<close>

subsection \<open>Records of a directory\<close>

text \<open>The addresses of the records that are shown, one after the other.\<close>

inductive rec_chain :: "(32 word \<Rightarrow> byte list) \<Rightarrow> (32 word \<Rightarrow> bool) \<Rightarrow> 32 word \<Rightarrow> 32 word \<Rightarrow> 32 word list \<Rightarrow> bool"
  for R H dirend where
  nil: "rec_chain R H dirend a []"
| cons: "next_rec R H dirend a b \<Longrightarrow> rec_chain R H dirend (b + ucast (R b ! 0)) bs \<Longrightarrow> rec_chain R H dirend a (b # bs)"

text \<open>All entries that a listing from the address can come to fit their arrays.\<close>

definition dir_fits :: "medium \<Rightarrow> 'd ldev \<Rightarrow> 32 word \<Rightarrow> 32 word \<Rightarrow> bool" where
  "dir_fits med s dirend a \<longleftrightarrow> (\<forall>bs b. rec_chain (rec_at med (metadevice s)) (hidden_rec med s) dirend a bs \<longrightarrow> b \<in> set bs \<longrightarrow>
     rec_fits (fsprivate s) (rec_at med (metadevice s) b))"

lemma hidden_rec_same: "iso_same s s' \<Longrightarrow> hidden_rec med s' = hidden_rec med s"
  by (rule ext) (simp add: hidden_rec_def iso_same_def)

lemma dir_fits_same: "iso_same s s' \<Longrightarrow> dir_fits med s' dirend a = dir_fits med s dirend a"
  using hidden_rec_same [of s s' med] by (simp add: dir_fits_def iso_same_def)

lemma dir_fits_next:
  assumes "dir_fits med s dirend a" "next_rec (rec_at med (metadevice s)) (hidden_rec med s) dirend a b"
  shows "rec_fits (fsprivate s) (rec_at med (metadevice s) b)" "dir_fits med s dirend (b + ucast (rec_at med (metadevice s) b ! 0))"
proof -
  show "rec_fits (fsprivate s) (rec_at med (metadevice s) b)"
    using assms unfolding dir_fits_def by (metis list.set_intros(1) rec_chain.simps)
  show "dir_fits med s dirend (b + ucast (rec_at med (metadevice s) b ! 0))"
    using assms unfolding dir_fits_def by (metis list.set_intros(2) rec_chain.cons)
qed

definition iso_at :: "'d meta \<Rightarrow> medium \<Rightarrow> 32 word \<Rightarrow> 32 word \<Rightarrow> 'd ldev \<Rightarrow> bool" where
  "iso_at K med dirend a s \<longleftrightarrow> iso_ready K med s \<and> ld_fs s = Isofs \<and> dir_fits med s dirend a"

lemma iso_at_step:
  assumes "iso_at K med dirend a s"
  shows "\<exists>err a' de s'. iso_get_direntry K a dirend s = Some (err, a', de, s') \<and> iso_ready K med s' \<and> iso_same s s'
    \<and> (err < 0 \<or> err = 0 \<and> iso_at K med dirend a' s' \<and> a < a'
        \<and> (\<exists>b. next_rec (rec_at med (metadevice s)) (hidden_rec med s) dirend a b \<and> a' = b + ucast (rec_at med (metadevice s) b ! 0)
            \<and> entry_of (fsprivate s) (ld_blocksize s) (rec_at med (metadevice s) b) de))"
proof -
  have r: "iso_ready K med s" "ld_fs s = Isofs" "dir_fits med s dirend a" using assms by (auto simp: iso_at_def)
  obtain err a' de s' where g: "iso_get_direntry K a dirend s = Some (err, a', de, s')" "iso_ready K med s'" "iso_same s s'" "err < 0 \<or> err = 0 \<and> a < a'"
    using direntry_returns [OF r(1), of dirend a] dir_fits_next(1) [OF r(3)] by blast
  show ?thesis
  proof (cases "err < 0")
    case False
    then have g0: "iso_get_direntry K a dirend s = Some (0, a', de, s')" "a < a'" "err = 0" using g by auto
    obtain b where b: "next_rec (rec_at med (metadevice s)) (hidden_rec med s) dirend a b" "a' = b + ucast (rec_at med (metadevice s) b ! 0)"
      "entry_of (fsprivate s) (ld_blocksize s) (rec_at med (metadevice s) b) de" using direntry_next [OF r(1) g0(1)] by blast
    have "iso_at K med dirend a' s'" using g(2,3) r(2) dir_fits_next(2) [OF r(3) b(1)] dir_fits_same [OF g(3)] b(2)
      by (auto simp: iso_at_def iso_same_def)
    then show ?thesis using g g0 b by blast
  qed (use g in blast)
qed

definition toc_at :: "'d meta \<Rightarrow> 32 word \<Rightarrow> 'd ldev \<Rightarrow> bool" where
  "toc_at K a s \<longleftrightarrow> toc_io_ok K \<and> 512 \<le> length (scratch s) \<and> ld_fs s = Tocfs \<and> (a = -1 \<or> unat a \<le> 199)"

lemma toc_at_step:
  assumes "toc_at K a s"
  shows "\<exists>err a' de s'. toc_get_direntry K P a s = Some (err, a', de, s') \<and> fsprivate s' = fsprivate s \<and> ld_fs s' = ld_fs s
    \<and> (err \<noteq> 0 \<or> toc_at K a' s' \<and> a < a')"
  using toc_direntry_returns [of K s a P] assms unfolding toc_at_def by (metis (no_types, lifting))

text \<open>The contract holds for the tables of functions of both file systems.\<close>

interpretation iso_dir: dir_reader "\<lambda>a. fs_get_direntry K P junk a dirend" "iso_at K med dirend" for K P junk dirend med
proof
  fix a s
  assume o: "iso_at K med dirend a s"
  then have "ld_fs s = Isofs" by (simp add: iso_at_def)
  then show "\<exists>err a' de s'. fs_get_direntry K P junk a dirend s = Some (err, a', de, s') \<and> (err \<noteq> 0 \<or> iso_at K med dirend a' s' \<and> a < a')"
    using iso_at_step [OF o] by (auto simp: fs_get_direntry_def)
qed

interpretation toc_dir: dir_reader "\<lambda>a. fs_get_direntry K P junk a dirend" "toc_at K" for K P junk dirend
proof
  fix a s
  assume o: "toc_at K a s"
  then have "ld_fs s = Tocfs" by (simp add: toc_at_def)
  then show "\<exists>err a' de s'. fs_get_direntry K P junk a dirend s = Some (err, a', de, s') \<and> (err \<noteq> 0 \<or> toc_at K a' s' \<and> a < a')"
    using toc_at_step [OF o, of P] by (auto simp: fs_get_direntry_def)
qed

text \<open>The listing of an ISO 9660 directory is the sequence of its records.\<close>

lemma iso_listing:
  assumes "entries_from (\<lambda>a. fs_get_direntry K P junk a dirend) a s des" "iso_at K med dirend a s"
  shows "\<exists>bs. rec_chain (rec_at med (metadevice s)) (hidden_rec med s) dirend a bs
    \<and> list_all2 (\<lambda>b de. entry_of (fsprivate s) (ld_blocksize s) (rec_at med (metadevice s) b) de) bs des"
  using assms
proof (induction a s des rule: entries_from.induct)
  case (more a s a' de s' des)
  have "ld_fs s = Isofs" using more.prems by (simp add: iso_at_def)
  then have g: "iso_get_direntry K a dirend s = Some (0, a', de, s')" using more.hyps(1) by (simp add: fs_get_direntry_def)
  obtain b where b: "iso_same s s'" "iso_at K med dirend a' s'" "next_rec (rec_at med (metadevice s)) (hidden_rec med s) dirend a b"
    "a' = b + ucast (rec_at med (metadevice s) b ! 0)" "entry_of (fsprivate s) (ld_blocksize s) (rec_at med (metadevice s) b) de"
    using iso_at_step [OF more.prems] g by auto
  obtain bs where "rec_chain (rec_at med (metadevice s)) (hidden_rec med s) dirend a' bs"
    "list_all2 (\<lambda>b de. entry_of (fsprivate s) (ld_blocksize s) (rec_at med (metadevice s) b) de) bs des"
    using more.IH [OF b(2)] b(1) hidden_rec_same [OF b(1), of med] by (auto simp: iso_same_def)
  then show ?case using b by (intro exI [of _ "b # bs"]) (auto intro: rec_chain.cons)
qed (auto intro: rec_chain.nil)

subsection \<open>Looking for a name\<close>

text \<open>The condition of the loop, and the index that is delivered for an entry.\<close>

definition cd_named :: "'d cdenv \<Rightarrow> byte list \<Rightarrow> 'd ldev \<Rightarrow> CDENTRY \<Rightarrow> bool" where
  "cd_named E name s de \<longleftrightarrow> de_named E name s de = Some True"

definition de_index :: "CDENTRY \<Rightarrow> 32 word" where
  "de_index de = (if cd_tosattr de AND FA_SUBDIR \<noteq> 0 then cd_pri_start de else cd_iindex de)"

lemma fs_pathconf_same: "ld_fs s' = ld_fs s \<Longrightarrow> fsprivate s' = fsprivate s \<Longrightarrow> fs_pathconf m s' = fs_pathconf m s"
  by (auto simp: fs_pathconf_def iso_pathconf_def split: filesystem.split)

lemma de_named_same: "ld_fs s' = ld_fs s \<Longrightarrow> fsprivate s' = fsprivate s \<Longrightarrow> de_named E name s' = de_named E name s"
  using fs_pathconf_same [of s' s] by (intro ext) (simp add: de_named_def)

lemma de_named_mounted: "ld_fs s \<noteq> No_fs \<Longrightarrow> de_named E name s de = Some (cd_named E name s de)"
  by (auto simp: de_named_def cd_named_def fs_pathconf_def split: filesystem.split)

lemma lookup_step:
  assumes "cd_entry E a dirend s = Some (err, a', de, s')" "ld_fs s' \<noteq> No_fs"
  shows "lookup_loop E name a dirend s =
    (if err \<noteq> 0 then Some (EFILNF, 0, de, s') else if cd_named E name s' de then Some (E_OK, de_index de, de, s') else lookup_loop E name a' dirend s')"
  using assms de_named_mounted [OF assms(2), of E name de] by (simp add: lookup_loop.simps [of E name a] de_index_def E_OK_def)

lemma iso_at_fs: "iso_at K med dirend a s \<Longrightarrow> fs_get_direntry K P junk a dirend s = Some (err, a', de, s') \<Longrightarrow>
    ld_fs s' = ld_fs s \<and> fsprivate s' = fsprivate s \<and> ld_fs s = Isofs"
  using iso_at_step [of K med dirend a s] by (auto simp: fs_get_direntry_def iso_at_def iso_same_def)

lemma toc_at_fs: "toc_at K a s \<Longrightarrow> fs_get_direntry K P junk a dirend s = Some (err, a', de, s') \<Longrightarrow>
    ld_fs s' = ld_fs s \<and> fsprivate s' = fsprivate s \<and> ld_fs s = Tocfs"
  using toc_at_step [of K a s P] by (auto simp: fs_get_direntry_def toc_at_def)

interpretation iso_lookup: dir_loop "\<lambda>a. cd_entry E a dirend" "iso_at (e_meta E) med dirend" "cd_named E name"
  "\<lambda>a err de s. (E_OK, de_index de, de, s)" "\<lambda>a err de s. (EFILNF, 0, de, s)" "\<lambda>a. lookup_loop E name a dirend" for E name dirend med
proof
  fix a s err a' de s'
  assume o: "iso_at (e_meta E) med dirend a s" "cd_entry E a dirend s = Some (err, a', de, s')"
  note f = iso_at_fs [OF o]
  then show "cd_named E name s' = cd_named E name s" using de_named_same [of s' s E name] by (intro ext) (simp add: cd_named_def)
  show "lookup_loop E name a dirend s = (if err \<noteq> 0 then Some (EFILNF, 0, de, s') else if cd_named E name s' de
    then Some (E_OK, de_index de, de, s') else lookup_loop E name a' dirend s')" using f by (intro lookup_step [OF o(2)]) simp
qed

interpretation toc_lookup: dir_loop "\<lambda>a. cd_entry E a dirend" "toc_at (e_meta E)" "cd_named E name"
  "\<lambda>a err de s. (E_OK, de_index de, de, s)" "\<lambda>a err de s. (EFILNF, 0, de, s)" "\<lambda>a. lookup_loop E name a dirend" for E name dirend
proof
  fix a s err a' de s'
  assume o: "toc_at (e_meta E) a s" "cd_entry E a dirend s = Some (err, a', de, s')"
  note f = toc_at_fs [OF o]
  then show "cd_named E name s' = cd_named E name s" using de_named_same [of s' s E name] by (intro ext) (simp add: cd_named_def)
  show "lookup_loop E name a dirend s = (if err \<noteq> 0 then Some (EFILNF, 0, de, s') else if cd_named E name s' de
    then Some (E_OK, de_index de, de, s') else lookup_loop E name a' dirend s')" using f by (intro lookup_step [OF o(2)]) simp
qed

text \<open>A drive whose disc is mounted and not changed.\<close>

definition no_change :: "'d meta \<Rightarrow> bool" where
  "no_change K \<longleftrightarrow> (\<forall>dev d. fst (Metastatus K dev d) AND 0xffff0008 = 0)"

definition mounted :: "'d meta \<Rightarrow> 'd ldev \<Rightarrow> bool" where
  "mounted K s \<longleftrightarrow> ld_fs s \<noteq> No_fs \<and> fspreference s = fs_pref (ld_fs s) \<and> no_change K"

lemma media_check_same:
  assumes "no_change K"
  shows "\<exists>d t. media_check K s = (False, s\<lparr>drv := d, mediatime := t\<rparr>)"
proof -
  obtain t1 d1 where h1: "get_hz K (drv s) = (t1, d1)" by fastforce
  obtain st d2 where m: "Metastatus K (metadevice s) d1 = (st, d2)" by fastforce
  obtain t3 d3 where h3: "get_hz K d2 = (t3, d3)" by fastforce
  have "st AND 0xffff0008 = 0" using assms m unfolding no_change_def by (metis fst_conv)
  then have "media_check K s = (False, if t1 > mediatime s then s\<lparr>drv := d3, mediatime := t3 + MEDIADELAY\<rparr> else s\<lparr>drv := d1\<rparr>)"
    using h1 m h3 by (simp add: media_check_def)
  moreover have "s\<lparr>drv := d1\<rparr> = s\<lparr>drv := d1, mediatime := mediatime s\<rparr>" by (cases s) simp
  ultimately show ?thesis by metis
qed

lemma init_vol_mounted:
  assumes "mounted (e_meta E) s"
  shows "\<exists>d t. init_vol E drive s = Some (E_OK, s\<lparr>drv := d, mediatime := t\<rparr>)"
proof -
  obtain d t where "media_check (e_meta E) s = (False, s\<lparr>drv := d, mediatime := t\<rparr>)"
    using media_check_same [of "e_meta E" s] assms by (auto simp: mounted_def)
  then have "DKInitVolume (e_meta E) (e_proc E) s = Some (1, s\<lparr>drv := d, mediatime := t\<rparr>)" using assms by (simp add: DKInitVolume_def mounted_def)
  then show ?thesis by (auto simp: init_vol_def)
qed

text \<open>The clock and the state of the drive have no influence on a directory.\<close>

lemma same_drive:
  "iso_ready K med (s\<lparr>drv := d, mediatime := t\<rparr>) = iso_ready K med s" "hidden_rec med (s\<lparr>drv := d, mediatime := t\<rparr>) = hidden_rec med s"
  "dir_fits med (s\<lparr>drv := d, mediatime := t\<rparr>) e a = dir_fits med s e a" "cd_named E name (s\<lparr>drv := d, mediatime := t\<rparr>) = cd_named E name s"
proof -
  show "iso_ready K med (s\<lparr>drv := d, mediatime := t\<rparr>) = iso_ready K med s" by (simp add: iso_ready_def cache_ok_def)
  have "iso_same s (s\<lparr>drv := d, mediatime := t\<rparr>)" by (simp add: iso_same_def)
  then show "hidden_rec med (s\<lparr>drv := d, mediatime := t\<rparr>) = hidden_rec med s" "dir_fits med (s\<lparr>drv := d, mediatime := t\<rparr>) e a = dir_fits med s e a"
    by (rule hidden_rec_same, rule dir_fits_same)
  show "cd_named E name (s\<lparr>drv := d, mediatime := t\<rparr>) = cd_named E name s"
    using de_named_same [of "s\<lparr>drv := d, mediatime := t\<rparr>" s E name] by (intro ext) (simp add: cd_named_def)
qed

text \<open>The directory a record describes: all that its listing can come to fits.\<close>

definition rec_dir_fits :: "medium \<Rightarrow> 'd ldev \<Rightarrow> 32 word \<Rightarrow> bool" where
  "rec_dir_fits med s a = (let r = rec_at med (metadevice s) a; start = be32 r 6 * ld_blocksize s in dir_fits med s (start + be32 r 14) start)"

definition found_in :: "'d cdenv \<Rightarrow> byte list \<Rightarrow> 'd ldev \<Rightarrow> CDENTRY list \<Rightarrow> int \<Rightarrow> 32 word \<Rightarrow> CDENTRY \<Rightarrow> bool" where
  "found_in E name s des ret idx de \<longleftrightarrow>
     (case find (cd_named E name s) des of None \<Rightarrow> ret = EFILNF | Some e \<Rightarrow> ret = E_OK \<and> idx = de_index e \<and> de = e)"

lemma lookup_listing:
  assumes "iso_at (e_meta E) med dirend a s"
  shows "\<exists>ret idx de s' bs des. lookup_loop E name a dirend s = Some (ret, idx, de, s')
    \<and> entries_from (\<lambda>a. cd_entry E a dirend) a s des \<and> rec_chain (rec_at med (metadevice s)) (hidden_rec med s) dirend a bs
    \<and> list_all2 (\<lambda>b de. entry_of (fsprivate s) (ld_blocksize s) (rec_at med (metadevice s) b) de) bs des
    \<and> found_in E name s des ret idx de"
  using iso_lookup.loop_finds [OF assms, of name]
proof (elim exE conjE)
  fix des a' err e s'
  assume l: "entries_from (\<lambda>a. cd_entry E a dirend) a s des"
    "case find (cd_named E name s) des of None \<Rightarrow> err \<noteq> 0 \<and> lookup_loop E name a dirend s = Some (EFILNF, 0, e, s')
      | Some e \<Rightarrow> lookup_loop E name a dirend s = Some (E_OK, de_index e, e, s')"
  note b = iso_listing [OF l(1) assms]
  then show ?thesis using l by (cases "find (cd_named E name s) des") (fastforce simp: found_in_def)+
qed


subsection \<open>A disc with one file\<close>

text \<open>A directory of two records, itself and the file \<open>A\<close>, in block 1.\<close>

definition file_disc_dir :: "byte list" where
  "file_disc_dir = [34, 0, 0, 0, 0, 0, 0, 0, 0, 1, 0, 0, 0, 0, 0, 0, 8, 0, 97, 5, 30, 12, 0, 0, 0, 2, 0, 0, 0, 0, 0, 0, 1, 0]
     @ [34, 0, 0, 0, 0, 0, 0, 0, 0, 2, 0, 0, 0, 0, 0, 0, 0, 3, 97, 5, 30, 12, 0, 0, 0, 0, 0, 0, 0, 0, 0, 0, 1, 65] @ replicate 1980 0"

definition file_disc :: medium where
  "file_disc = \<lparr>m_data = \<lambda>dev b. if b = 1 then file_disc_dir else replicate BLOCKSIZE (ucast b), m_ok = \<lambda>dev b. unat b < 4\<rparr>"

definition file_meta :: "nat meta" where
  "file_meta = demo_meta\<lparr>Metaread := \<lambda>dev b n d.
     ((if unat b + n \<le> 4 then (0, concat (map (\<lambda>i. m_data file_disc dev (b + of_nat i)) [0..<n])) else (- 11, [])), d)\<rparr>"

definition file_ldev :: "nat ldev" where
  "file_ldev = (demo_ldev 1)\<lparr>ld_fs := Isofs\<rparr>"

definition file_env :: "nat cdenv" where
  "file_env = \<lparr>e_meta = file_meta, e_proc = \<lparr>proc_len = 0, proc_file = \<lambda>d t. []\<rparr>, e_junk = replicate 142 0, diskchange = \<lambda>drive s. (0, s),
     kernel_version = 3, proc_info = 1, conv_8_3 = id, match_8_3 = (\<lambda>x y. x = y), Metaioctl = \<lambda>dev cmd d. (0, d)\<rparr>"

lemma file_drive_ok: "drive_ok file_meta file_disc"
proof -
  have "blocks_ok file_disc dev b n" if "unat b + n \<le> 4" for dev b n
  proof -
    have "unat (b + of_nat i) < 4" if "i < n" for i
      using \<open>unat b + n \<le> 4\<close> that by (simp add: unat_word_ariths unat_of_nat)
    then show ?thesis by (simp add: blocks_ok_def file_disc_def)
  qed
  moreover have "length (m_data file_disc dev b) = BLOCKSIZE" for dev b by (simp add: file_disc_def file_disc_dir_def BLOCKSIZE_def)
  ultimately show ?thesis by (auto simp: drive_ok_def file_meta_def)
qed

lemma file_reliable: "reliable file_meta file_disc"
  using four_blocks [of _ file_disc] by (simp add: reliable_def file_meta_def file_disc_def)

lemma file_ready: "iso_ready file_meta file_disc file_ldev"
  using file_drive_ok demo_cache_ok [of file_disc 1]
  by (simp add: iso_ready_def small_medium_def file_disc_def demo_ldev_def file_ldev_def cache_ok_def)

lemma file_dev: "metadevice file_ldev = 65" "fsprivate file_ldev = 0" "ld_blocksize file_ldev = 2048" "rootdir file_ldev = 0" "ld_fs file_ldev = Isofs"
  by (simp_all add: file_ldev_def demo_ldev_def)

lemma file_recs:
  "rec_at file_disc dev 2048 = take 512 file_disc_dir" "rec_at file_disc dev 2082 = take 512 (drop 34 file_disc_dir)"
  "rec_at file_disc dev 2116 = replicate 512 0"
proof -
  have r: "rec_at file_disc dev (of_nat (2048 + i)) = take 512 (drop i file_disc_dir)" if "i < 1000" for i
  proof -
    have u: "unat (of_nat (2048 + i) :: 32 word) = 2048 + i" using that by (simp only: unat_of_nat) simp
    have d: "(2048 + i) div BLOCKSIZE = 1" "(2048 + i) mod BLOCKSIZE = i" using that by (simp_all add: BLOCKSIZE_def)
    have "take 512 (drop ((2048 + i) mod BLOCKSIZE) (m_data file_disc dev (of_nat ((2048 + i) div BLOCKSIZE)))) = disc_bytes file_disc dev (2048 + i) 512"
      using that file_drive_ok d by (intro disc_bytes_block) (simp_all add: drive_ok_def BLOCKSIZE_def)
    then show ?thesis using d u by (simp add: rec_at_def RR_BUFSIZE_def file_disc_def)
  qed
  show "rec_at file_disc dev 2048 = take 512 file_disc_dir" using r [of 0] by simp
  show "rec_at file_disc dev 2082 = take 512 (drop 34 file_disc_dir)" using r [of 34] by simp
  show "rec_at file_disc dev 2116 = replicate 512 0" using r [of 68] by (simp add: file_disc_dir_def)
qed

lemma file_next:
  assumes "next_rec (rec_at file_disc (metadevice file_ldev)) (hidden_rec file_disc file_ldev) dirend a b" "dirend \<le> 4096"
  shows "a = 2048 \<Longrightarrow> b = 2048" "a = 2082 \<Longrightarrow> b = 2082" "a \<noteq> 2116"
proof -
  let ?R = "rec_at file_disc (metadevice file_ldev)"
  have h: "\<not> hidden_rec file_disc file_ldev 2048" "\<not> hidden_rec file_disc file_ldev 2082"
    by (simp_all add: hidden_rec_def file_recs rec_flags_def file_dev de_flag_defs block_start_def file_disc_dir_def)
  have z: "?R 2048 ! 0 = 34" "?R 2082 ! 0 = 34" "?R 2116 ! 0 = 0" by (simp_all add: file_recs file_disc_dir_def)
  have p: "block_start 2116 + 2048 = 4096" by (simp add: block_start_def)
  note n = next_rec.simps [of ?R "hidden_rec file_disc file_ldev" dirend a b]
  show "a = 2048 \<Longrightarrow> b = 2048" using assms(1) n h z by auto
  show "a = 2082 \<Longrightarrow> b = 2082" using assms(1) n h z by auto
  show "a \<noteq> 2116" using assms n z p by auto
qed

lemma file_chain:
  assumes "rec_chain (rec_at file_disc (metadevice file_ldev)) (hidden_rec file_disc file_ldev) dirend a bs" "dirend \<le> 4096" "a \<in> {2048, 2082, 2116}"
  shows "set bs \<subseteq> {2048, 2082}"
  using assms
proof (induction a bs rule: rec_chain.induct)
  case (cons a b bs)
  have z: "rec_at file_disc (metadevice file_ldev) 2048 ! 0 = 34" "rec_at file_disc (metadevice file_ldev) 2082 ! 0 = 34"
    by (simp_all add: file_recs file_disc_dir_def)
  have "b = 2048 \<or> b = 2082" using file_next [OF cons.hyps(1) cons.prems(1)] cons.prems(2) by auto
  then show ?case using cons.IH cons.prems(1) z by auto
qed simp

lemma file_fits: "rec_fits 0 (take 512 file_disc_dir)" "rec_fits 0 (take 512 (drop 34 file_disc_dir))"
proof -
  have "susp_loop (take 512 file_disc_dir) 34 (0x4E, 0x4D) 0 34 = None" "susp_loop (take 512 (drop 34 file_disc_dir)) 34 (0x4E, 0x4D) 0 34 = None"
    by (subst susp_loop.simps, simp)+
  then show "rec_fits 0 (take 512 file_disc_dir)" "rec_fits 0 (take 512 (drop 34 file_disc_dir))"
    by (simp_all add: rec_fits_def shown_rec_def tune_rec_def rec_longname_def rec_truncname_def copyfn_def copyfn_long_def dot_name_def LONGNAMELENGTH_def
      file_disc_dir_def susp_start_def name_end_def drop_last_dot_def Let_def)
qed

lemma file_dir_fits: "dirend \<le> 4096 \<Longrightarrow> dir_fits file_disc file_ldev dirend 2048"
  using file_chain [of dirend 2048] file_fits by (fastforce simp: dir_fits_def file_recs file_dev)


end
