(* ===== verification/Cd_Xfs_Props.thy ===== *)
theory Cd_Xfs_Props
  imports Cd_Lookup
begin

text \<open>
  Properties of the driver for CD-ROM drives: a volume is always mounted consistently with the preferred file system, reading an open
  file delivers its bytes on the disc, and the operations on directory handles that do not do what they should.
\<close>

subsection \<open>Mounting\<close>

lemma toc_get_root_ok: "toc_get_root K P s = Some (err, s') \<Longrightarrow> err = 0"
  by (auto simp: toc_get_root_def Let_def split: prod.splits Option.bind_splits if_splits)

lemma try_mount_ok:
  assumes "try_mount K P f s = Some (ok, s')"
  shows "ok \<Longrightarrow> ld_fs s' = f \<and> fspreference s' = fs_pref f" "f = Tocfs \<Longrightarrow> ok"
proof -
  show "ok \<Longrightarrow> ld_fs s' = f \<and> fspreference s' = fs_pref f"
    using assms by (auto simp: try_mount_def split: Option.bind_splits if_splits)
  show "f = Tocfs \<Longrightarrow> ok"
    using assms toc_get_root_ok by (fastforce simp: try_mount_def cd_get_root_def fs_get_root_def split: Option.bind_splits if_splits)
qed

lemma try_mounts_ok:
  assumes "try_mounts K P fs s = Some (ok, s')" "Tocfs \<in> set fs"
  shows "ok \<and> ld_fs s' \<in> set fs \<and> fspreference s' = fs_pref (ld_fs s')"
  using assms
proof (induction fs arbitrary: s)
  case (Cons f fs)
  obtain ok1 s1 where t: "try_mount K P f s = Some (ok1, s1)" using Cons.prems(1) by (auto split: Option.bind_splits)
  show ?case
  proof (cases ok1)
    case True
    then show ?thesis using Cons.prems(1) t try_mount_ok(1) [OF t] by auto
  next
    case False
    then have "Tocfs \<in> set fs" using try_mount_ok(2) [OF t] Cons.prems(2) by auto
    then show ?thesis using Cons.IH [of s1] Cons.prems(1) t False by auto
  qed
qed simp

lemma mount_order_ok: "Tocfs \<in> set (mount_order p)" "No_fs \<notin> set (mount_order p)"
  by (simp_all add: mount_order_def)

text \<open>C11: A volume is always mounted.  Whenever \<open>DKInitVolume\<close> returns, a file system is mounted and it is the one that \<open>fspreference\<close> names, whatever
  was mounted before and whichever attempts failed, since a disc that nothing else fits is taken for an audio disc; the result is 1, and
  3 exactly when the drive has reported a change of the medium.\<close>

theorem DKInitVolume_mounts:
  assumes "DKInitVolume K P s = Some (ret, s')"
  shows "ld_fs s' \<noteq> No_fs \<and> fspreference s' = fs_pref (ld_fs s') \<and> ret = (if fst (media_check K s) then 3 else 1)"
proof -
  obtain ch s1 where m: "media_check K s = (ch, s1)" by fastforce
  have c: "ld_fs s1 = No_fs" if ch using m that by (auto simp: media_check_def DCClear_def Let_def split: prod.splits if_splits)
  show ?thesis
  proof (cases "ld_fs s1 \<noteq> No_fs \<and> fspreference s1 = fs_pref (ld_fs s1)")
    case True
    then show ?thesis using assms m c by (auto simp: DKInitVolume_def)
  next
    case False
    obtain ok s0 where t: "try_mounts K P (mount_order (fspreference s1)) s0 = Some (ok, s')" "ret = (if ch then 2 else 0) + (if ok then 1 else 0)"
      using assms m False by (auto simp: DKInitVolume_def Let_def split: prod.splits Option.bind_splits if_splits)
    from try_mounts_ok [OF t(1) mount_order_ok(1)] have "ok" "ld_fs s' \<in> set (mount_order (fspreference s1))" "fspreference s' = fs_pref (ld_fs s')"
      by auto
    then show ?thesis using t(2) m mount_order_ok(2) [of "fspreference s1"] by auto
  qed
qed

theorem DKInitVolume_mounts_witness:
  "\<exists>ret s'. DKInitVolume demo_meta \<lparr>proc_len = 0, proc_file = \<lambda>d t. []\<rparr> ((demo_ldev 1)\<lparr>fspreference := 2\<rparr>) = Some (ret, s')
    \<and> ld_fs s' \<noteq> No_fs \<and> fspreference s' = fs_pref (ld_fs s') \<and> ret = (if fst (media_check demo_meta ((demo_ldev 1)\<lparr>fspreference := 2\<rparr>)) then 3 else 1)"
proof -
  have "\<exists>ret s'. DKInitVolume demo_meta \<lparr>proc_len = 0, proc_file = \<lambda>d t. []\<rparr> ((demo_ldev 1)\<lparr>fspreference := 2\<rparr>) = Some (ret, s')"
    by (simp add: DKInitVolume_def media_check_def demo_meta_def demo_ldev_def mount_order_def fspref_defs try_mount_def cd_get_root_def fs_get_root_def
        toc_get_root_def store_def Let_def length_overwrite del: upt_Suc)
  then show ?thesis using DKInitVolume_mounts by blast
qed

subsection \<open>Reading of open files\<close>

lemma disc_bytes_part: "p + n \<le> m \<Longrightarrow> take n (drop p (disc_bytes med dev a m)) = disc_bytes med dev (a + p) n"
proof -
  assume "p + n \<le> m"
  then have "disc_bytes med dev a m = disc_bytes med dev a p @ disc_bytes med dev (a + p) n @ disc_bytes med dev (a + p + n) (m - (p + n))"
    using disc_bytes_append [of med dev "a + p" n "m - (p + n)"] disc_bytes_append [of med dev a p "m - p"] by simp
  then show ?thesis by simp
qed

definition cf_start :: "CDXFS_FD \<Rightarrow> 32 word" where
  "cf_start fd = (if cf_ass fd then cf_ass_start fd else cf_pri_start fd)"

text \<open>The bytes of the fork of a file that is open for reading.\<close>

definition cf_content :: "medium \<Rightarrow> 16 word \<Rightarrow> CDXFS_FD \<Rightarrow> byte list" where
  "cf_content med dev fd = disc_bytes med dev (unat (cf_start fd)) (unat (cf_len fd))"

lemma clipped_count:
  fixes pos len count :: "32 word"
  assumes "pos \<le> len" "unat pos + unat count < 2 ^ 32"
  shows "unat (if pos + count > len then len - pos else count) = min (unat count) (unat len - unat pos)"
proof -
  have u: "unat (pos + count) = unat pos + unat count" using assms(2) by (simp add: unat_word_ariths)
  have d: "unat (len - pos) = unat len - unat pos" using assms(1) by (simp add: unat_sub)
  show ?thesis using u d by (auto simp: word_less_nat_alt)
qed

text \<open>C8: Reading from a file on an ISO 9660 disc.  From every position inside the file and for every count below 128 MB, \<open>dev_read\<close> returns: with a negative
  error code and the position unchanged, which does not happen when the drive is reliable and the blocks can be read, or with the number of bytes there are up to the end of the file, and then exactly these bytes of the fork are
  in the buffer, the rest of the buffer is untouched, and the position has moved behind them.\<close>

theorem dev_read_delivers:
  assumes "iso_ready (e_meta E) med s" "ld_fs s = Isofs" "cf_pos fd \<le> cf_len fd" "unat (cf_start fd) + unat (cf_len fd) < 2 ^ 32"
    and "unat count < 2 ^ 27" "n = min (unat count) (unat (cf_len fd) - unat (cf_pos fd))" "n \<le> length buf" "unat (cf_pos fd) + unat count < 2 ^ 32"
  shows "\<exists>ret buf' fd' s'. dev_read E fd count buf s = Some (ret, buf', fd', s') \<and> iso_ready (e_meta E) med s' \<and> ld_fs s' = Isofs
    \<and> (ret < 0 \<and> fd' = fd \<and> \<not> (reliable (e_meta E) med \<and> readable med (metadevice s) (unat (cf_start fd) + unat (cf_pos fd)) n)
       \<or> ret = int n \<and> buf' = take n (drop (unat (cf_pos fd)) (cf_content med (metadevice s) fd)) @ drop n buf \<and> fd' = fd\<lparr>cf_pos := cf_pos fd + of_nat n\<rparr>)"
proof -
  let ?c = "if cf_pos fd + count > cf_len fd then cf_len fd - cf_pos fd else count"
  have n: "unat ?c = n" using clipped_count [OF assms(3,8)] assms(6) by simp
  have le: "unat (cf_pos fd) \<le> unat (cf_len fd)" using assms(3) by (simp add: word_le_nat_alt)
  have a: "unat (cf_start fd + cf_pos fd) = unat (cf_start fd) + unat (cf_pos fd)" using assms(4) le by (simp add: unat_word_ariths)
  have sm: "n < 2 ^ 27" "unat (cf_pos fd) + n \<le> unat (cf_len fd)" using assms(5,6) le by auto
  have si: "sint ?c = int n"
  proof -
    have "of_nat n = ?c" unfolding n [symmetric] by simp
    moreover have "sint (of_nat n :: 32 word) = int n" using sm(1) by (simp add: signed_of_nat signed_take_bit_int_eq_self)
    ultimately show ?thesis by simp
  qed
  have K: "drive_ok (e_meta E) med" "cache_ok med s" "DCCache s \<noteq> []" using assms(1) by (auto simp: iso_ready_def)
  obtain err buf' s' where r: "DCRead (e_meta E) (unat (cf_start fd + cf_pos fd)) n buf s = Some (err, buf', s')" "cache_ok med s'" "same_cd s s'"
    "err < 0 \<and> \<not> (reliable (e_meta E) med \<and> readable med (metadevice s) (unat (cf_start fd + cf_pos fd)) n)
      \<or> err = 0 \<and> buf' = disc_bytes med (metadevice s) (unat (cf_start fd + cf_pos fd)) n @ drop n buf"
  proof -
    have "n < 65536 * BLOCKSIZE" "unat (cf_start fd + cf_pos fd) + n < 2 ^ 32" using sm a assms(4) by (auto simp: BLOCKSIZE_def)
    from DCRead_ok [OF K this assms(7)] show ?thesis using that by metis
  qed
  have ready: "iso_ready (e_meta E) med s'" "ld_fs s' = Isofs"
    using assms(1,2) r(2) same_cd_keep [OF r(3)] by (auto simp: iso_ready_def)
  have d: "dev_read E fd count buf s = Some (if err \<noteq> 0 then (err, buf', fd, s') else (sint ?c, buf', fd\<lparr>cf_pos := cf_pos fd + ?c\<rparr>, s'))"
    using r(1) n assms(2) unfolding dev_read_def Let_def cf_start_def by (simp add: fs_readfile_def iso_readfile_def)
  have "take n (drop (unat (cf_pos fd)) (cf_content med (metadevice s) fd)) = disc_bytes med (metadevice s) (unat (cf_start fd + cf_pos fd)) n"
    unfolding cf_content_def a using sm(2) by (rule disc_bytes_part)
  moreover have "of_nat n = ?c" unfolding n [symmetric] by simp
  ultimately show ?thesis using d r(4) ready si unfolding a by auto
qed

definition file_fd :: CDXFS_FD where
  "file_fd = \<lparr>cf_refcnt = 1, cf_mode = 0, cf_index = 2082, cf_pri_start = 4096, cf_pri_length = 3, cf_ass_start = 0, cf_ass_length = 0, cf_type = 0,
     cf_creator = 0, cf_mtime = 0, cf_mdate = 0, cf_ass = False, cf_pos = 1\<rparr>"

theorem dev_read_delivers_witness:
  "\<exists>buf' fd' s'. dev_read file_env file_fd 100 [9, 9, 9] file_ldev = Some (2, buf', fd', s') \<and> iso_ready (e_meta file_env) file_disc s' \<and> ld_fs s' = Isofs
    \<and> buf' = take 2 (drop (unat (cf_pos file_fd)) (cf_content file_disc (metadevice file_ldev) file_fd)) @ drop 2 [9, 9, 9]
    \<and> fd' = file_fd\<lparr>cf_pos := cf_pos file_fd + of_nat 2\<rparr>"
proof -
  have "unat (of_nat ((4097 + i) div BLOCKSIZE) :: 32 word) < 4" if "i < 2" for i using that by (simp add: BLOCKSIZE_def unat_of_nat)
  then have "readable file_disc (metadevice file_ldev) (unat (cf_start file_fd) + unat (cf_pos file_fd)) 2"
    by (simp add: readable_def file_disc_def file_fd_def cf_start_def)
  moreover have "reliable (e_meta file_env) file_disc" using file_reliable by (simp add: file_env_def)
  moreover have h: "iso_ready (e_meta file_env) file_disc file_ldev" "ld_fs file_ldev = Isofs" "cf_pos file_fd \<le> cf_len file_fd"
    "unat (cf_start file_fd) + unat (cf_len file_fd) < 2 ^ 32" "unat (100 :: 32 word) < 2 ^ 27" "2 = min (unat (100 :: 32 word)) (unat (cf_len file_fd) - unat (cf_pos file_fd))"
    "2 \<le> length [9 :: byte, 9, 9]" "unat (cf_pos file_fd) + unat (100 :: 32 word) < 2 ^ 32"
    using file_ready by (simp_all add: file_env_def file_dev file_fd_def cf_len_def cf_start_def)
  ultimately show ?thesis using dev_read_delivers [OF h] unfolding of_nat_numeral by blast
qed

subsection \<open>Directory handles\<close>

text \<open>Rewinding a directory has no effect.  \<open>xfs_drewinddir\<close> clears the index of the handle, but \<open>xfs_dreaddir\<close> goes on from the offset
  in \<open>fp\<close>; a handle that has come to the end of an ISO 9660 directory reports \<open>ENMFIL\<close> after it has been rewound.\<close>

theorem rewound_handle_stays_at_end:
  assumes "mounted (e_meta E) s" "ld_fs s = Isofs" "fp_offset dh = -1"
  shows "\<exists>dh' s'. xfs_dreaddir E drive (snd (xfs_drewinddir dh)) buflen want s = Some (ENMFIL, None, None, dh', s') \<and> fp_offset dh' = -1"
proof -
  obtain d t where "init_vol E drive s = Some (E_OK, s\<lparr>drv := d, mediatime := t\<rparr>)" using init_vol_mounted [OF assms(1)] by blast
  then show ?thesis using assms(2,3)
    by (simp add: xfs_dreaddir_def xfs_drewinddir_def fs_get_direntry_def iso_get_direntry_def iso_scan.simps [of _ _ "\<lparr>l_addr = - 1, l_iindex = 0, l_assoc = 0, l_sname = [], l_extent = None\<rparr>"]
        ENMFIL_def E_OK_def)
qed

lemma file_mounted: "mounted (e_meta file_env) file_ldev"
  by (simp add: mounted_def no_change_def file_env_def file_meta_def demo_meta_def file_dev fs_pref_def FSPREFERENCE_ISO_def) (simp add: file_ldev_def demo_ldev_def)

theorem rewound_handle_stays_at_end_witness:
  "\<exists>dh' s'. xfs_dreaddir file_env 3 (snd (xfs_drewinddir \<lparr>dh_index = 2082, fp_start = 2048, fp_size = 2048, fp_offset = -1, fp_dirflg = 0\<rparr>)) 100 False file_ldev
    = Some (ENMFIL, None, None, dh', s') \<and> fp_offset dh' = -1"
  by (rule rewound_handle_stays_at_end [OF file_mounted]) (simp_all add: file_dev)

text \<open>The length of the buffer is compared with the space for the shortest record only: a longer name is written past its end.\<close>

lemma dreaddir_overflows:
  assumes "mounted (e_meta E) s" "\<And>s. cd_entry E (fp_offset dh) (fp_start dh + fp_size dh) s = Some (0, adr, de, s1)" "fp_dirflg dh = 0"
    and "16 \<le> buflen" "buflen < int (length (cd_longname de)) + 5"
  shows "xfs_dreaddir E drive dh buflen want s = None"
proof -
  obtain d t where "init_vol E drive s = Some (E_OK, s\<lparr>drv := d, mediatime := t\<rparr>)" using init_vol_mounted [OF assms(1)] by blast
  then show ?thesis using assms(2-5) by (simp add: xfs_dreaddir_def)
qed

end
