(* ===== verification/Cd_Config.thy ===== *)
theory Cd_Config
  imports Cd_Xfs
begin

unbundle bit_operations_syntax

text \<open>
  The configuration of the CD-ROM driver (\<open>extensio/cd-mxfs/cfgread.c\<close>): the lines \<open>*DOS,driver,drives\<close> of \<open>\auto\config.sys\<close> give the size of the cache and the
  drives with their devices.  Strings are lists of bytes without the end.  What the code calls of GEMDOS is a parameter.
\<close>

subsection \<open>Tokens\<close>

text \<open>The next token and what is left of the string, as the pointer is left: \<open>NULL\<close> when nothing follows.\<close>

definition strtok2 :: "byte list option \<Rightarrow> byte list \<Rightarrow> byte list option \<times> byte list option" where
  "strtok2 string toks =
     (case string of
        None \<Rightarrow> (None, None)
      | Some s1 \<Rightarrow>
          (let ret = dropWhile (\<lambda>c. c \<in> set toks) s1 in
           (Some (takeWhile (\<lambda>c. c \<notin> set toks) ret),
            (case dropWhile (\<lambda>c. c \<notin> set toks) ret of
               [] \<Rightarrow> None
             | _ # r \<Rightarrow> if r = [] then None else Some r))))"

lemma strtok2_shorter:
  assumes "strtok2 (Some s) toks = (t, Some r)"
  shows "length r < length s"
proof -
  define d where "d = dropWhile (\<lambda>c. c \<in> set toks) s"
  define e where "e = dropWhile (\<lambda>c. c \<notin> set toks) d"
  have "(case e of [] \<Rightarrow> None | _ # r \<Rightarrow> if r = [] then None else Some r) = Some r" using assms by (simp add: strtok2_def Let_def d_def e_def)
  then have "length r < length e" by (auto split: list.splits if_splits)
  then show ?thesis using length_dropWhile_le [of "\<lambda>c. c \<notin> set toks" d] length_dropWhile_le [of "\<lambda>c. c \<in> set toks" s] by (simp add: d_def e_def)
qed

text \<open>All tokens, as a loop over \<open>strtok2\<close> gets them.\<close>

function tokens :: "byte list option \<Rightarrow> byte list \<Rightarrow> byte list list" where
  "tokens string toks = (case string of None \<Rightarrow> [] | Some s \<Rightarrow> the (fst (strtok2 (Some s) toks)) # tokens (snd (strtok2 (Some s) toks)) toks)"
  by auto

termination tokens
proof (relation "measure (\<lambda>(string, toks). case string of None \<Rightarrow> 0 | Some s \<Rightarrow> Suc (length s))")
  fix string :: "byte list option" and toks s
  assume "string = Some s"
  then show "((snd (strtok2 (Some s) toks), toks), (string, toks)) \<in> measure (\<lambda>(string, toks). case string of None \<Rightarrow> 0 | Some s \<Rightarrow> Suc (length s))"
    using strtok2_shorter [of s toks "fst (strtok2 (Some s) toks)"] by (cases "snd (strtok2 (Some s) toks)") (auto simp: prod_eq_iff)
qed simp

declare tokens.simps [simp del]

definition after_last :: "byte \<Rightarrow> byte list \<Rightarrow> byte list" where
  "after_last c s = (if c \<in> set s then rev (takeWhile (\<lambda>x. x \<noteq> c) (rev s)) else s)"

subsection \<open>Letters of drives\<close>

definition b_tolower :: "byte \<Rightarrow> byte" where
  "b_tolower c = (if 65 \<le> c \<and> c \<le> 90 then c + 32 else c)"

definition cd_drive_from_letter :: "byte \<Rightarrow> int" where
  "cd_drive_from_letter c =
     (if 65 \<le> c \<and> c \<le> 90 then uint c - 65
      else if 97 \<le> c \<and> c \<le> 122 then uint c - 97
      else if 49 \<le> c \<and> c \<le> 54 then uint c - 49 + 26
      else -1)"

definition cd_letter_from_drive :: "int \<Rightarrow> int" where
  "cd_letter_from_drive d = (if 26 \<le> d then d - 26 + 49 else d + 65)"

subsection \<open>Memory, console and files\<close>

text \<open>
  The calls, over a state \<open>'h\<close> of the system: whether memory was allocated, the output of \<open>kernel__sprintf\<close>, the file \<open>\auto\config.sys\<close>, and the bytes in memory
  from the end of the allocated buffer to the next zero byte.
\<close>

record 'h cfgenv =
  sizeof_LOGICAL_DEV :: nat
  Mxalloc :: "nat \<Rightarrow> 'h \<Rightarrow> bool \<times> 'h"
  Malloc :: "int \<Rightarrow> 'h \<Rightarrow> bool \<times> 'h"
  Mfree :: "'h \<Rightarrow> 'h"
  kernel_sprintf :: "byte list \<Rightarrow> 32 word \<Rightarrow> byte list"
  cf_Fopen :: "'h \<Rightarrow> int \<times> 'h"
  cf_Fsize :: "int \<Rightarrow> 'h \<Rightarrow> int \<times> 'h"
  cf_Fread :: "int \<Rightarrow> int \<Rightarrow> 'h \<Rightarrow> (int \<times> byte list) \<times> 'h"
  cf_Fclose :: "int \<Rightarrow> 'h \<Rightarrow> 'h"
  behind :: "'h \<Rightarrow> byte list"

text \<open>The cache, the drives and what was written to the console.  The cache is shared by all drives, and the state of the
  hardware belongs to the system; \<open>device\<close> is a drive together with them, as the operations of the file systems have it.\<close>

record 'h cd_config =
  c_cache :: "CACHEENTRY list"
  mydrives :: "nat \<Rightarrow> 'h ldev option"
  c_out :: "byte list list"
  c_sys :: 'h

definition DEFAULTCACHESIZE :: int where "DEFAULTCACHESIZE = 8"
definition sizeof_CACHEENTRY :: nat where "sizeof_CACHEENTRY = 2058"

definition zero_cache :: CACHEENTRY where
  "zero_cache = \<lparr>ce_data = replicate BLOCKSIZE 0, ce_timestamp = 0, ce_blkno = 0, ce_device = 0\<rparr>"

definition zero_ldev :: "'h \<Rightarrow> 'h ldev" where
  "zero_ldev h = \<lparr>DCCache = [], drv = h, metadevice = 0, fspreference = 0, ld_fs = No_fs,
     scratch = replicate 2352 0, fsprivate = 0, fslabel = [], ld_blocksize = 0, totalsize = 0, rootdir = 0, rootdirsize = 0,
     mediatime = 0, mount_date = 0, mount_time = 0, partoffset = 0, allocstart = 0, hfs_blocksize = 0, catalogextents = replicate 3 (0, 0),
     overflowextents = replicate 3 (0, 0), lastde_name = [], lastde_inuse = 0\<rparr>"

definition device :: "'h cd_config \<Rightarrow> nat \<Rightarrow> 'h ldev option" where
  "device s i = map_option (\<lambda>l. l\<lparr>DCCache := c_cache s, drv := c_sys s\<rparr>) (mydrives s i)"

definition Cconws :: "byte list \<Rightarrow> 'h cd_config \<Rightarrow> 'h cd_config" where
  "Cconws str s = s\<lparr>c_out := c_out s @ [str]\<rparr>"

definition c_Mxalloc :: "'h cfgenv \<Rightarrow> nat \<Rightarrow> 'h cd_config \<Rightarrow> bool \<times> 'h cd_config" where
  "c_Mxalloc E n s = (case Mxalloc E n (c_sys s) of (ok, h) \<Rightarrow> (ok, s\<lparr>c_sys := h\<rparr>))"

definition bytes_of :: "string \<Rightarrow> byte list" where
  "bytes_of str = map (\<lambda>c. of_nat (of_char c)) str"

subsection \<open>Lines\<close>

text \<open>The number behind \<open>-c\<close>, in Kbytes, a \<open>long\<close> that wraps around; a block of the cache has two Kbytes.\<close>

definition digits_value :: "byte list \<Rightarrow> 32 word" where
  "digits_value ds = foldl (\<lambda>n c. n * 10 + (ucast c - 48)) 0 (takeWhile (\<lambda>c. 48 \<le> c \<and> c \<le> 57) ds)"

definition cacheblocks :: "byte list option \<Rightarrow> int" where
  "cacheblocks l =
     (case l of
        Some (x # y # c) \<Rightarrow>
          if x = 45 \<and> y = 99
          then (let n = sint (digits_value (dropWhile (\<lambda>c. c = 32) c));
                    cachesize = (if n < 0 then - ((- n) div 2) else n div 2) in
                if DEFAULTCACHESIZE < cachesize \<and> cachesize < 500 then cachesize else DEFAULTCACHESIZE)
          else DEFAULTCACHESIZE
      | _ \<Rightarrow> DEFAULTCACHESIZE)"

text \<open>The cache, when there is none yet; \<open>False\<close>: no memory, and the line is given up.\<close>

definition make_cache :: "'h cfgenv \<Rightarrow> int \<Rightarrow> 'h cd_config \<Rightarrow> bool \<times> 'h cd_config" where
  "make_cache E blocks s =
     (if c_cache s \<noteq> [] then (True, s)
      else
        let (ok, s) = c_Mxalloc E (nat blocks * sizeof_CACHEENTRY) s;
            (ok, blocks, s) =
              (if \<not> ok \<and> DEFAULTCACHESIZE < blocks
               then (case c_Mxalloc E (nat DEFAULTCACHESIZE * sizeof_CACHEENTRY) s of (ok, s) \<Rightarrow> (ok, DEFAULTCACHESIZE, s))
               else (ok, blocks, s));
            data = of_nat (nat blocks * sizeof_CACHEENTRY div 1024) in
        if ok
        then (True, Cconws (kernel_sprintf E (bytes_of ''(%L Kbytes of sector cache)'' @ [13, 10]) data) (s\<lparr>c_cache := replicate (nat blocks) zero_cache\<rparr>))
        else (False, Cconws (kernel_sprintf E (bytes_of ''Can't allocate %L bytes for sector caching, aborting...'' @ [13, 10]) data) s))"

text \<open>One drive, \<open>X:Y\<close> with the letter of the drive and of the device.  In the message about the memory the number of the drive is put where its letter should be.\<close>

definition add_drive :: "'h cfgenv \<Rightarrow> byte list \<Rightarrow> 'h cd_config \<Rightarrow> 'h cd_config" where
  "add_drive E arg s =
     (if length arg = 3 \<and> arg ! 1 = 58 \<and> 0 \<le> cd_drive_from_letter (arg ! 0) \<and> 0 \<le> cd_drive_from_letter (arg ! 2)
      then
        let dosdrive = cd_drive_from_letter (arg ! 0); metadrive = cd_drive_from_letter (arg ! 2);
            s = Cconws ((bytes_of ''MetaDOS XBIOS device X on X:'' @ [13, 10])
                          [21 := of_int (cd_letter_from_drive metadrive), 26 := of_int (cd_letter_from_drive dosdrive)]) s;
            (ok, s) = c_Mxalloc E (sizeof_LOGICAL_DEV E) s in
        if \<not> ok
        then Cconws (takeWhile (\<lambda>c. c \<noteq> 0) ((bytes_of ''Not enough memory for drive X:'' @ [13, 10])[28 := of_int dosdrive])) (s\<lparr>mydrives := (mydrives s)(nat dosdrive := None)\<rparr>)
        else s\<lparr>mydrives := (mydrives s)(nat dosdrive \<mapsto> (zero_ldev (c_sys s))\<lparr>metadevice := of_int (cd_letter_from_drive metadrive)\<rparr>)\<rparr>
      else s)"

definition driver_names :: "byte list list" where
  "driver_names = [bytes_of ''hs-iso.dos'', bytes_of ''iso9660f.dos'']"

definition parse_line :: "'h cfgenv \<Rightarrow> byte list \<Rightarrow> 'h cd_config \<Rightarrow> 'h cd_config" where
  "parse_line E line s =
     (let (c, l) = strtok2 (Some line) [44];
          (driver, args) = strtok2 l [44] in
      if driver = None \<or> args = None then s
      else
        let (driver, l) = strtok2 driver [32, 9];
            name = after_last 58 (after_last 92 (the driver)) in
        if \<not> list_ex (cd_stricmp name) driver_names then s
        else
          let (ok, s) = make_cache E (cacheblocks l) s in
          if ok then fold (add_drive E) (tokens args [32, 44, 9]) s else s)"

definition dos_line :: "byte list \<Rightarrow> bool" where
  "dos_line line \<longleftrightarrow> map b_toupper (take 5 line) = bytes_of ''*DOS,''"

definition parse_config :: "'h cfgenv \<Rightarrow> byte list \<Rightarrow> 'h cd_config \<Rightarrow> int \<times> 'h cd_config" where
  "parse_config E conf s = (1, fold (\<lambda>line s. if dos_line line then parse_line E line s else s) (tokens (Some conf) [13, 10]) s)"

text \<open>The file is read into a buffer of its size; the string that is parsed ends at the next zero byte, in the buffer or behind it.\<close>

definition read_config :: "'h cfgenv \<Rightarrow> 'h cd_config \<Rightarrow> int \<times> 'h cd_config" where
  "read_config E s =
     (let (handle, h) = cf_Fopen E (c_sys s); s = s\<lparr>c_sys := h\<rparr> in
      if handle < 0 then (0, Cconws (bytes_of ''Can't open `'' @ [92] @ bytes_of ''auto'' @ [92] @ bytes_of ''config.sys'' @ [39] @ bytes_of ''!'' @ [13, 10]) s)
      else
        let (filesize, h) = cf_Fsize E handle (c_sys s); (ok, h) = Malloc E filesize h; s = s\<lparr>c_sys := h\<rparr> in
        if \<not> ok then (0, Cconws (bytes_of ''Not enough memory!'' @ [13, 10] @ bytes_of ''!'') (s\<lparr>c_sys := cf_Fclose E handle (c_sys s)\<rparr>))
        else
          let ((count, file), h) = cf_Fread E handle filesize (c_sys s); s = s\<lparr>c_sys := cf_Fclose E handle h\<rparr> in
          if count \<noteq> filesize
          then (0, Cconws (bytes_of ''Read error in `'' @ [92] @ bytes_of ''auto'' @ [92] @ bytes_of ''config.sys'' @ [39] @ bytes_of ''!'' @ [13, 10] @ bytes_of ''!'') s)
          else
            let (isok, s) = parse_config E (takeWhile (\<lambda>c. c \<noteq> 0) (file @ behind E (c_sys s))) s;
                s = s\<lparr>c_sys := Mfree E (c_sys s)\<rparr> in
            (isok, if isok = 0 \<and> c_cache s \<noteq> [] then s\<lparr>c_sys := Mfree E (c_sys s)\<rparr> else s))"

subsection \<open>Installation of the drives\<close>

definition to_digit :: "16 word \<Rightarrow> byte" where
  "to_digit num = (if num < 10 then 48 + ucast num else ucast (num - 10) + 97)"

record META_DEVINFO =
  mdi_length :: int
  mdi_major :: "16 word"
  mdi_minor :: "16 word"
  mdi_controller :: "16 word"
  mdi_target :: "16 word"
  mdi_lun :: "16 word"

text \<open>The place of \<open>mdi_lun\<close> in the structure.\<close>

definition offset_mdi_lun :: int where "offset_mdi_lun = 86"

text \<open>\<open>mdi_major\<close> and \<open>mdi_minor\<close> are signed; a \<open>char\<close> of the name is written from the low byte.\<close>

definition device_name :: "16 word \<Rightarrow> META_DEVINFO option \<Rightarrow> byte list" where
  "device_name md info =
     (case info of
        None \<Rightarrow> bytes_of ''u:'' @ [92] @ bytes_of ''dev'' @ [92] @ bytes_of ''cmt'' @ [b_tolower (ucast md)] @ bytes_of ''.dsk''
      | Some mdi \<Rightarrow>
          let buff = bytes_of ''u:'' @ [92] @ bytes_of ''dev'' @ [92] @ bytes_of ''cxtxdxs0.dsk'';
              q = (let n = sint (mdi_major mdi) in if n < 0 then - ((- n) div 8) else n div 8);
              buff = buff[8 := of_int (48 + q), 10 := of_int (48 + uint (mdi_major mdi) mod 8), 12 := of_int (48 + uint (mdi_minor mdi) mod 8)] in
          if offset_mdi_lun \<le> mdi_length mdi
          then buff[8 := to_digit (mdi_controller mdi), 10 := to_digit (mdi_target mdi), 12 := to_digit (mdi_lun mdi)]
          else buff)"

text \<open>What the installation changes: the map of drives of the system, the table of MetaDOS, the first drive and the devices that are installed with their drives.\<close>

record install =
  drvbits :: "32 word"
  log2phys :: "nat \<Rightarrow> 16 word"
  firstdrive :: int
  devices :: "(byte list \<times> nat) list"

definition install_drive :: "bool \<Rightarrow> (16 word \<Rightarrow> META_DEVINFO option) \<Rightarrow> nat \<Rightarrow> 'h ldev option \<Rightarrow> install \<Rightarrow> install" where
  "install_drive table devinfo i ldp t =
     (case ldp of
        None \<Rightarrow> t
      | Some ldp \<Rightarrow>
          let first = devices t = [];
              t = t\<lparr>firstdrive := if firstdrive t < 0 then int i else firstdrive t, drvbits := drvbits t OR push_bit i 1,
                    log2phys := if table then (log2phys t)(i := metadevice ldp) else log2phys t\<rparr>;
              t = (if first then t\<lparr>devices := devices t @ [(bytes_of ''u:'' @ [92] @ bytes_of ''dev'' @ [92] @ bytes_of ''cdrom'', i)]\<rparr> else t) in
          t\<lparr>devices := devices t @ [(device_name (metadevice ldp) (devinfo (metadevice ldp)), i)]\<rparr>)"

definition install_drives :: "bool \<Rightarrow> (16 word \<Rightarrow> META_DEVINFO option) \<Rightarrow> (nat \<Rightarrow> 'h ldev option) \<Rightarrow> install \<Rightarrow> install" where
  "install_drives table devinfo drives t = fold (\<lambda>i. install_drive table devinfo i (drives i)) [0..<32] t"

text \<open>
  The program.  \<open>ker\<close>, \<open>dfs\<close> and \<open>inst\<close> are the results of \<open>Dcntl\<close> for the kernel, for the DOS file systems and for the installation of the driver,
  \<open>msize\<close> is the size of a block of the kernel and \<open>fdsize\<close> the size of the largest descriptor of the driver.  \<open>metas\<close> are the answers of
  \<open>Metainit\<close> (magic and version), before and after each of the three attempts to start MetaXBS.
\<close>

datatype main_result = Exit int | Resident

definition first_answer :: "'a option list \<Rightarrow> 'a option" where
  "first_answer xs = (case dropWhile (\<lambda>x. x = None) xs of [] \<Rightarrow> None | x # _ \<Rightarrow> x)"

definition cd_main ::
  "'h cfgenv \<Rightarrow> int \<Rightarrow> int \<Rightarrow> nat \<Rightarrow> nat \<Rightarrow> (32 word \<times> 16 word) option list \<Rightarrow> (16 word \<Rightarrow> META_DEVINFO option) \<Rightarrow> int \<Rightarrow> 'h cd_config \<Rightarrow> install
     \<Rightarrow> main_result \<times> 'h cd_config \<times> install" where
  "cd_main E ker dfs msize fdsize metas devinfo inst s t =
     (let s = Cconws ([27] @ bytes_of ''p SPIN! CD filesystem 0.34 '' @ [27] @ bytes_of ''q'' @ [13, 10]) s;
          s = Cconws (bytes_of '' Copyright (c) 1997   Julian F. Reschke'' @ [13, 10]) s;
          s = Cconws (bytes_of '' MagiC-Umsetzung (c) 1997   Andreas Kromke'' @ [13, 10]) s in
      if ker < 0 then (Exit (sint (of_int ker :: 16 word)), s, t)
      else if dfs < 0 then (Exit (sint (of_int dfs :: 16 word)), s, t)
      else if msize < fdsize then (Exit 1, Cconws (bytes_of ''SPIN: internal error'' @ [10]) s, t)
      else
        let (ok, s) = read_config E s in
        if ok = 0 then (Exit 1, s, t)
        else
          case first_answer (take 4 metas) of
            None \<Rightarrow> (Exit 1, Cconws ([7, 27] @ bytes_of ''pMetaXBS not installed. No drives installed!'' @ [27] @ bytes_of ''q'' @ [13, 10]) s, t)
          | Some (magic, version) \<Rightarrow>
              let t = install_drives (magic = 0x5F4D4554 \<and> 0x270 \<le> version) devinfo (mydrives s) t in
              (if inst < 0 then Exit (sint (of_int inst :: 16 word)) else Resident, s, t))"

end
