(* ===== verification/Cd_Hfs_Props.thy ===== *)
theory Cd_Hfs_Props
  imports Cd_Dev Cd_Iso_Props
begin

text \<open>
  Properties of the HFS reader: what a read of the catalog delivers, in which order the extents of a file are searched, what the record
  of a node is, and what becomes of the entry of a directory whose name has one letter.
\<close>

subsection \<open>Extents\<close>

lemma unat_up: "unat (ucast (x :: 16 word) :: 32 word) = unat x"
proof -
  have "unat x < 2 ^ 16" using unsigned_less [of x] by simp
  then have "unat x < 2 ^ 32" by simp
  then show ?thesis by (simp add: unsigned_ucast_eq take_bit_nat_eq_self)
qed

text \<open>The search for a block ends at the extent that holds it.\<close>

lemma find_extent_at:
  assumes "unat tot + sum_list (map (\<lambda>e. unat (snd e)) before) + unat cnt < 65536"
    and "unat tot + sum_list (map (\<lambda>e. unat (snd e)) before) \<le> unat block" "unat block < unat tot + sum_list (map (\<lambda>e. unat (snd e)) before) + unat cnt"
  shows "find_extent s block (before @ (blk, cnt) # behind) tot =
    Some (allocstart s * 512 + ucast blk * hfs_blocksize s, of_nat (unat tot + sum_list (map (\<lambda>e. unat (snd e)) before)) * hfs_blocksize s, ucast cnt * hfs_blocksize s)"
  using assms
proof (induction before arbitrary: tot)
  case Nil
  have "unat (ucast cnt + ucast tot :: 32 word) = unat cnt + unat tot" using Nil(1) by (simp add: unat_word_ariths unat_up)
  moreover have "cnt \<noteq> 0" using Nil by auto
  ultimately show ?case using Nil by (simp add: word_less_nat_alt HFS_BLOCKSZ_def)
next
  case (Cons e before)
  obtain b c where e: "e = (b, c)" by fastforce
  have t: "unat (tot + c) = unat tot + unat c" using Cons.prems(1) e by (simp add: unat_word_ariths)
  have "unat (ucast c + ucast tot :: 32 word) = unat c + unat tot" using Cons.prems(1) e by (simp add: unat_word_ariths unat_up)
  then have "\<not> ucast c + ucast tot > block" using Cons.prems(2) e by (simp add: word_less_nat_alt)
  then show ?case using Cons.IH [of "tot + c"] Cons.prems e t by (simp add: add.assoc)
qed

text \<open>
  The byte \<open>off\<close> of a file with these extents lies at the address \<open>a\<close> of the disc, and the extent goes on for \<open>k\<close> bytes; no address wraps
  around, and an extent has less than 128 MB.
\<close>

definition in_extent :: "'d ldev \<Rightarrow> (16 word \<times> 16 word) list \<Rightarrow> nat \<Rightarrow> nat \<Rightarrow> nat \<Rightarrow> bool" where
  "in_extent s ext off a k \<longleftrightarrow> (\<exists>before blk n behind. let t = sum_list (map (\<lambda>e. unat (snd e)) before); bs = unat (hfs_blocksize s) in
     ext = before @ (blk, n) # behind \<and> t + unat n < 65536 \<and> t * bs \<le> off \<and> off < (t + unat n) * bs \<and> (t + unat n) * bs < 2 ^ 32 \<and> unat n * bs < 2 ^ 27
     \<and> a = unat (partoffset s) + unat (allocstart s) * 512 + unat blk * bs + (off - t * bs) \<and> k = (t + unat n) * bs - off \<and> a + k < 2 ^ 32)"

lemma in_extent_seg:
  assumes "in_extent s ext (unat off) a k"
  obtains start extstart extlen where "file_seg ext off s = Some (Some (start, extstart, extlen))" "unat (extlen - (off - extstart)) = k"
    "unat (off - extstart + start + partoffset s) = a" "0 < k" "k < 65536 * BLOCKSIZE" "a + k < 2 ^ 32"
proof -
  obtain before blk n behind T B where e: "T = sum_list (map (\<lambda>e. unat (snd e)) before)" "B = unat (hfs_blocksize s)" "ext = before @ (blk, n) # behind"
    "T + unat n < 65536" "T * B \<le> unat off" "unat off < (T + unat n) * B" "(T + unat n) * B < 2 ^ 32" "unat n * B < 2 ^ 27"
    "a = unat (partoffset s) + unat (allocstart s) * 512 + unat blk * B + (unat off - T * B)" "k = (T + unat n) * B - unat off" "a + k < 2 ^ 32"
    using assms unfolding in_extent_def Let_def by blast
  have B: "0 < B" using e(6) by (cases B) auto
  have d: "unat (off div hfs_blocksize s) = unat off div B" by (simp add: unat_div e(2))
  have "T \<le> unat off div B" using e(5) B by (simp add: less_eq_div_iff_mult_less_eq)
  moreover have "unat off div B < T + unat n" using e(6) B by (simp add: less_mult_imp_div_less)
  ultimately have f: "find_extent s (off div hfs_blocksize s) ext 0 = Some (allocstart s * 512 + ucast blk * hfs_blocksize s, of_nat T * hfs_blocksize s, ucast n * hfs_blocksize s)"
    using find_extent_at [of 0 before n "off div hfs_blocksize s" s blk behind] e(1,3,4) d by simp
  let ?st = "allocstart s * 512 + ucast blk * hfs_blocksize s" and ?xs = "of_nat T * hfs_blocksize s" and ?xl = "ucast n * hfs_blocksize s :: 32 word"
  have nb: "T * B < 2 ^ 32" "unat n * B < 2 ^ 32" using e(7) by (auto simp: add_mult_distrib)
  have TB: "T < 2 ^ 32" using e(4) by simp
  have xs: "unat ?xs = T * B" using nb(1) TB by (simp add: unat_word_ariths unat_of_nat e(2))
  have xl: "unat ?xl = unat n * B" using nb(2) by (simp add: unat_word_ariths unat_up e(2))
  have o: "unat (off - ?xs) = unat off - T * B" using xs e(5) by (simp add: unat_sub word_le_nat_alt)
  have "unat (?xl - (off - ?xs)) = k" using o xl e(5,6,10) by (subst unat_sub) (auto simp: word_le_nat_alt add_mult_distrib)
  moreover have "unat (off - ?xs + ?st + partoffset s) = a"
  proof -
    have l: "unat (partoffset s) + unat (allocstart s) * 512 + unat blk * B + (unat off - T * B) < 2 ^ 32" using e(9,11) by simp
    have s1: "unat (allocstart s * 512) = unat (allocstart s) * 512" using l by (simp add: unat_word_ariths)
    have s2: "unat (ucast blk * hfs_blocksize s :: 32 word) = unat blk * B" using l by (simp add: unat_word_ariths unat_up e(2))
    have st: "unat ?st = unat (allocstart s) * 512 + unat blk * B" using l s1 s2 by (subst unat_word_ariths) simp
    have "unat (off - ?xs + ?st) = unat off - T * B + (unat (allocstart s) * 512 + unat blk * B)" using l o st by (subst unat_word_ariths) simp
    then show ?thesis using l e(9) by (subst unat_word_ariths) simp
  qed
  moreover have "file_seg ext off s = Some (Some (?st, ?xs, ?xl))" using f B e(2) by (auto simp: file_seg_def)
  moreover have "0 < k" "k < 65536 * BLOCKSIZE" using e(5,6,8,10) by (auto simp: BLOCKSIZE_def add_mult_distrib)
  ultimately show ?thesis using that e(11) by blast
qed

lemma in_extent_same: "partoffset s' = partoffset s \<Longrightarrow> hfs_blocksize s' = hfs_blocksize s \<Longrightarrow> allocstart s' = allocstart s \<Longrightarrow> in_extent s' = in_extent s"
  by (intro ext) (simp add: in_extent_def)

subsection \<open>Reading of the catalog\<close>

text \<open>A list repeated up to a length.\<close>

definition cycle :: "'a list \<Rightarrow> nat \<Rightarrow> 'a list" where
  "cycle xs n = map (\<lambda>i. xs ! (i mod length xs)) [0..<n]"

lemma length_cycle [simp]: "length (cycle xs n) = n"
  by (simp add: cycle_def)

lemma cycle_once: "n \<le> length xs \<Longrightarrow> cycle xs n = take n xs"
  by (rule nth_equalityI) (auto simp: cycle_def)

lemma cycle_more: "xs \<noteq> [] \<Longrightarrow> cycle xs (length xs + n) = xs @ cycle xs n"
  by (rule nth_equalityI) (auto simp: cycle_def nth_append le_mod_geq)

lemma same_cd_hfs: "same_cd s s' \<Longrightarrow> partoffset s' = partoffset s \<and> hfs_blocksize s' = hfs_blocksize s \<and> allocstart s' = allocstart s
    \<and> catalogextents s' = catalogextents s \<and> overflowextents s' = overflowextents s"
  unfolding same_cd_def by (cases s; cases s') auto

text \<open>
  The loop of \<open>file_read\<close>, when the search for the extent finds the same one in every round, or fails; \<open>I\<close> is what holds between the rounds.
\<close>

lemma file_loop_cycles:
  fixes offset extstart extlen start :: "32 word"
  assumes K: "drive_ok K med"
    and seg: "\<And>t. I t \<Longrightarrow> (\<exists>t'. seg t = Some (None, t') \<and> I t' \<and> \<not> good) \<or> (\<exists>t'. seg t = Some (Some (start, extstart, extlen), t') \<and> I t')"
    and I: "\<And>t. I t \<Longrightarrow> cache_ok med t \<and> DCCache t \<noteq> [] \<and> metadevice t = dev \<and> partoffset t = part"
      "\<And>t t'. I t \<Longrightarrow> cache_ok med t' \<Longrightarrow> same_cd t t' \<Longrightarrow> I t'"
    and k: "unat (extlen - (offset - extstart)) = k" "0 < k" "k < 65536 * BLOCKSIZE"
    and a: "unat (offset - extstart + start + part) = a" "a + k < 2 ^ 32"
  shows "I s \<Longrightarrow> p + cnt \<le> length buf \<Longrightarrow>
    \<exists>err buf' s'. file_loop K seg offset cnt p buf s = Some (err, buf', s') \<and> I s' \<and> length buf' = length buf
      \<and> (err < 0 \<and> \<not> (good \<and> reliable K med \<and> readable med dev a (min cnt k)) \<or> err = 0 \<and> buf' = overwrite p (cycle (disc_bytes med dev a k) cnt) buf)"
proof (induction cnt arbitrary: p buf s rule: less_induct)
  case (less cnt)
  let ?X = "disc_bytes med dev a k" and ?n = "min cnt k"
  consider "cnt = 0" | t where "cnt \<noteq> 0" "seg s = Some (None, t)" "I t" "\<not> good" | t where "cnt \<noteq> 0" "seg s = Some (Some (start, extstart, extlen), t)" "I t"
    using seg [OF less.prems(1)] by blast
  then show ?case
  proof cases
    case 1
    then show ?thesis using less.prems by (subst file_loop.simps) (simp add: cycle_def overwrite_def)
  next
    case 2
    then show ?thesis by (subst file_loop.simps) (simp add: ERANGE_def)
  next
    case 3
    have t: "cache_ok med t" "DCCache t \<noteq> []" "metadevice t = dev" "partoffset t = part" using I(1) [OF 3(3)] by auto
    have n: "0 < ?n" "?n < 65536 * BLOCKSIZE" "a + ?n < 2 ^ 32" "p + ?n \<le> length buf" using 3(1) k a less.prems(2) by auto
    obtain err buf1 s1 where r: "DCRead_loop K a ?n p buf t = Some (err, buf1, s1)" "length buf1 = length buf" "cache_ok med s1" "same_cd t s1"
      "err < 0 \<and> \<not> (reliable K med \<and> readable med dev a ?n) \<or> err = 0 \<and> buf1 = overwrite p (disc_bytes med (metadevice t) a ?n) buf"
      unfolding t(3) [symmetric] using DCRead_loop_ok [OF K t(1,2) n(2-4)] by metis
    have un: "file_loop K seg offset cnt p buf s = (if err \<noteq> 0 then Some (err, buf1, s1) else file_loop K seg offset (cnt - ?n) (p + ?n) buf1 s1)"
      using 3 r(1) k(1) a(1) t(4) by (subst file_loop.simps) (simp add: dc_read_def Let_def)
    have I1: "I s1" using I(2) [OF 3(3) r(3,4)] .
    show ?thesis
    proof (cases "err = 0")
      case False
      then show ?thesis unfolding un using r I1 by auto
    next
      case True
      have b1: "buf1 = overwrite p (disc_bytes med dev a ?n) buf" using r(5) True t(3) by simp
      have lt: "cnt - ?n < cnt" "p + ?n + (cnt - ?n) \<le> length buf1" using n 3(1) less.prems(2) r(2) by auto
      obtain err2 buf2 s2 where i: "file_loop K seg offset (cnt - ?n) (p + ?n) buf1 s1 = Some (err2, buf2, s2)" "I s2"
        "length buf2 = length buf1" "err2 < 0 \<and> \<not> (good \<and> reliable K med \<and> readable med dev a (min (cnt - ?n) k)) \<or> err2 = 0 \<and> buf2 = overwrite (p + ?n) (cycle ?X (cnt - ?n)) buf1"
        using less.IH [OF lt(1) I1 lt(2)] by blast
      have X: "?X \<noteq> []" using k(2) by (simp flip: length_greater_0_conv)
      have "disc_bytes med dev a ?n @ cycle ?X (cnt - ?n) = cycle ?X cnt"
      proof (cases "cnt \<le> k")
        case True
        have "disc_bytes med dev a cnt = take cnt ?X" using disc_bytes_append [of med dev a cnt "k - cnt"] True
          by (metis append_eq_conv_conj le_add_diff_inverse length_disc_bytes)
        then show ?thesis using True cycle_once [of cnt ?X] by (simp add: cycle_def [of _ 0])
      next
        case False
        then show ?thesis using cycle_more [OF X, of "cnt - k"] by simp
      qed
      then have "overwrite (p + ?n) (cycle ?X (cnt - ?n)) buf1 = overwrite p (cycle ?X cnt) buf"
        using overwrite_next [of p "disc_bytes med dev a ?n" buf "cycle ?X (cnt - ?n)"] n(4) b1 by simp
      moreover have "readable med dev a ?n \<Longrightarrow> readable med dev a (min (cnt - ?n) k)"
        using readable_part [of med dev a ?n 0 "min (cnt - ?n) k"] by simp
      ultimately show ?thesis unfolding un using True i r(2) by auto
    qed
  qed
qed

lemma dc_cat_read_ok:
  assumes "drive_ok K med" "cache_ok med s" "DCCache s \<noteq> []" "in_extent s (catalogextents s) (unat off) a k" "cnt \<le> length buf"
  obtains err buf' s' where "dc_cat_read K off cnt buf s = Some (err, buf', s')" "cache_ok med s'" "same_cd s s'" "length buf' = length buf"
    "err < 0 \<and> \<not> (reliable K med \<and> readable med (metadevice s) a (min cnt k)) \<or> err = 0 \<and> buf' = cycle (disc_bytes med (metadevice s) a k) cnt @ drop cnt buf"
proof -
  obtain start extstart extlen where e: "file_seg (catalogextents s) off s = Some (Some (start, extstart, extlen))" "unat (extlen - (off - extstart)) = k"
    "unat (off - extstart + start + partoffset s) = a" "0 < k" "k < 65536 * BLOCKSIZE" "a + k < 2 ^ 32"
    using in_extent_seg [OF assms(4)] by blast
  let ?I = "\<lambda>t. cache_ok med t \<and> same_cd s t" and ?seg = "\<lambda>s. map_option (\<lambda>r. (r, s)) (file_seg (catalogextents s) off s)"
  have fe: "find_extent t b ex tot = find_extent s b ex tot" if "same_cd s t" for t b ex tot
    using same_cd_hfs [OF that] by (induction ex arbitrary: tot) (auto simp: Let_def)
  have sg: "?seg t = Some (Some (start, extstart, extlen), t)" if "?I t" for t
    using e(1) same_cd_hfs [of s t] fe [of t] that by (auto simp: file_seg_def split: if_splits)
  have i: "cache_ok med t \<and> DCCache t \<noteq> [] \<and> metadevice t = metadevice s \<and> partoffset t = partoffset s" if "?I t" for t
    using same_cd_keep [of s t] same_cd_hfs [of s t] assms(3) that by auto
  have "\<exists>err buf' s'. file_loop K ?seg off cnt 0 buf s = Some (err, buf', s') \<and> ?I s' \<and> length buf' = length buf
      \<and> (err < 0 \<and> \<not> (True \<and> reliable K med \<and> readable med (metadevice s) a (min cnt k)) \<or> err = 0 \<and> buf' = overwrite 0 (cycle (disc_bytes med (metadevice s) a k) cnt) buf)"
    by (rule file_loop_cycles [where I = ?I, OF assms(1) _ i _ e(2,4,5,3,6)]) (use sg same_cd_trans assms(2,5) in auto)
  then show ?thesis using that by (auto simp: dc_cat_read_def overwrite_start)
qed

subsection \<open>Records of a node\<close>

definition hfs_ready :: "'d meta \<Rightarrow> medium \<Rightarrow> 'd ldev \<Rightarrow> bool" where
  "hfs_ready K med s \<longleftrightarrow> drive_ok K med \<and> cache_ok med s \<and> DCCache s \<noteq> [] \<and> 512 \<le> length (scratch s)"

lemma same_ld_hfs: "same_ld s s' \<Longrightarrow> partoffset s' = partoffset s \<and> hfs_blocksize s' = hfs_blocksize s \<and> allocstart s' = allocstart s
    \<and> catalogextents s' = catalogextents s \<and> overflowextents s' = overflowextents s"
  unfolding same_ld_def same_cd_def by (cases s; cases s') auto

text \<open>The bytes of a node of the catalog, which lies in one extent, with its address, and of a record of a node.\<close>

definition cat_node :: "medium \<Rightarrow> 'd ldev \<Rightarrow> 16 word \<Rightarrow> nat \<Rightarrow> byte list \<Rightarrow> bool" where
  "cat_node med s b a N \<longleftrightarrow> (\<exists>k. in_extent s (catalogextents s) (unat b * 512) a k \<and> 512 \<le> k \<and> N = disc_bytes med (metadevice s) a 512)"

definition node_rec :: "byte list \<Rightarrow> nat \<Rightarrow> byte list \<Rightarrow> bool" where
  "node_rec N i r \<longleftrightarrow> (let first = unat (be16 N (510 - 2 * i)); behind = unat (be16 N (508 - 2 * i)) in
     i < 249 \<and> int i < sint (be16 N 10) \<and> first \<le> behind \<and> behind \<le> 512 \<and> behind - first \<le> sizeof_xbuf \<and> r = take (behind - first) (drop first N))"

lemma cat_node_same: "same_ld s s' \<Longrightarrow> cat_node med s' = cat_node med s"
  using same_ld_hfs [of s s'] same_ld_keep [of s s'] in_extent_same [of s' s] by (intro ext) (simp add: cat_node_def)

lemma be16_front: "i + 2 \<le> length xs \<Longrightarrow> be16 (xs @ ys) i = be16 xs i"
  by (simp add: be16_def nth_append)

lemma get_record_ok:
  assumes rd: "hfs_ready K med s" and nd: "cat_node med s (c_block c) na N" and nr: "node_rec N (unat (c_rec c)) r"
  shows "\<exists>err c' s'. get_record_from_node K c s = Some (err, c', s') \<and> hfs_ready K med s' \<and> same_ld s s'
    \<and> (err < 0 \<and> \<not> (reliable K med \<and> readable med (metadevice s) na 512) \<or> err = 0 \<and> c' = c\<lparr>c_node := take 14 N, c_buf := overwrite 0 r (c_buf c)\<rparr>)"
proof -
  obtain k where x: "in_extent s (catalogextents s) (unat (c_block c) * 512) na k" "512 \<le> k" "N = disc_bytes med (metadevice s) na 512"
    using nd by (auto simp: cat_node_def)
  have K: "drive_ok K med" "cache_ok med s" "DCCache s \<noteq> []" "512 \<le> length (scratch s)" using rd by (auto simp: hfs_ready_def)
  have "unat (c_block c) < 2 ^ 16" using unsigned_less [of "c_block c"] by simp
  then have off: "unat (ucast (c_block c) * of_nat HFS_BLOCKSZ :: 32 word) = unat (c_block c) * 512"
    by (simp add: unat_word_ariths unat_up HFS_BLOCKSZ_def)
  obtain err node s1 where g: "dc_cat_read K (ucast (c_block c) * of_nat HFS_BLOCKSZ) HFS_BLOCKSZ (scratch s) s = Some (err, node, s1)"
    "cache_ok med s1" "same_cd s s1" "length node = length (scratch s)"
    "err < 0 \<and> \<not> (reliable K med \<and> readable med (metadevice s) na (min HFS_BLOCKSZ k)) \<or> err = 0 \<and> node = cycle (disc_bytes med (metadevice s) na k) HFS_BLOCKSZ @ drop HFS_BLOCKSZ (scratch s)"
    using dc_cat_read_ok [OF K(1-3), of "ucast (c_block c) * of_nat HFS_BLOCKSZ" na k HFS_BLOCKSZ "scratch s"] x(1) K(4) unfolding off
    by (metis HFS_BLOCKSZ_def)
  have sm: "same_ld s (s1\<lparr>scratch := node\<rparr>)" using same_cd_ld [OF g(3,4)] .
  have hr: "hfs_ready K med (s1\<lparr>scratch := node\<rparr>)" using K g(2,4) same_cd_keep [OF g(3)] by (auto simp: hfs_ready_def)
  show ?thesis
  proof (cases "err = 0")
    case False
    moreover have "min HFS_BLOCKSZ k = 512" using x(2) by (simp add: HFS_BLOCKSZ_def)
    ultimately show ?thesis using g hr sm by (auto simp: get_record_from_node_def)
  next
    case True
    have "cycle (disc_bytes med (metadevice s) na k) 512 = N" using x(2,3) cycle_once [of 512 "disc_bytes med (metadevice s) na k"]
        disc_bytes_append [of med "metadevice s" na 512 "k - 512"] by (metis append_eq_conv_conj le_add_diff_inverse length_disc_bytes)
    then have nodeN: "node = N @ drop 512 (scratch s)" using g(5) True by (simp add: HFS_BLOCKSZ_def)
    have lN: "length N = 512" using x(3) by simp
    let ?i = "unat (c_rec c)" and ?f = "be16 N (510 - 2 * unat (c_rec c))" and ?b = "be16 N (508 - 2 * unat (c_rec c))"
    have n: "?i < 249" "int ?i < sint (be16 N 10)" "unat ?f \<le> unat ?b" "unat ?b \<le> 512" "unat ?b - unat ?f \<le> sizeof_xbuf" "r = take (unat ?b - unat ?f) (drop (unat ?f) N)"
      using nr by (auto simp: node_rec_def Let_def)
    have si: "sint (c_rec c) = int ?i"
    proof -
      have "c_rec c = of_nat ?i" by simp
      moreover have "sint (of_nat ?i :: 16 word) = int ?i" using n(1) by (simp add: signed_of_nat signed_take_bit_int_eq_self del: of_nat_unat unat_cong)
      ultimately show ?thesis by metis
    qed
    have f16: "fld16 (N @ ys) (510 - 2 * int i) = Some (be16 N (510 - 2 * i)) \<and> fld16 (N @ ys) (510 - 2 * (int i + 1)) = Some (be16 N (508 - 2 * i))"
      if "i < 249" for i ys
    proof -
      have "nat (510 - 2 * int i) = 510 - 2 * i" "nat (510 - 2 * (int i + 1)) = 508 - 2 * i" using that by auto
      then show ?thesis using that lN by (simp add: fld16_def be16_front)
    qed
    have o: "rec_off node (sint (c_rec c)) = Some ?f" "rec_off node (sint (c_rec c) + 1) = Some ?b" "be16 node 10 = be16 N 10"
      using f16 [OF n(1), of "drop 512 (scratch s)"] lN unfolding nodeN rec_off_def si by (simp_all add: be16_front)
    have cr: "sint (c_rec c) < sint (be16 N 10)" unfolding si by (rule n(2))
    have d: "unat (?b - ?f) = unat ?b - unat ?f" using n(3) by (simp add: unat_sub word_le_nat_alt)
    have tk: "take 14 node = take 14 N" "take (unat ?b - unat ?f) (drop (unat ?f) node) = r" using lN n(3,4,6) unfolding nodeN by auto
    have ln: "unat ?f + (unat ?b - unat ?f) \<le> length node" using n(3,4) g(4) K(4) by simp
    have "get_record_from_node K c s = Some (0, c\<lparr>c_node := take 14 N, c_buf := overwrite 0 r (c_buf c)\<rparr>, s1\<lparr>scratch := node\<rparr>)"
      using g(1) True cr n(5) ln by (simp add: get_record_from_node_def o d tk)
    then show ?thesis using hr sm by simp
  qed
qed

text \<open>C9: A record of the catalog.  For a node that lies in one extent and a record whose offsets are in order, \<open>get_record_from_node\<close> returns, with an
  error, which does not happen when the drive is reliable and the node can be read, or with the bytes of the record at the front of the buffer and the descriptor of the node; it changes nothing else of the device but the
  cache and the buffer for nodes.\<close>

theorem get_record_reads_node:
  assumes "hfs_ready K med s" "cat_node med s (c_block c) na N" "node_rec N (unat (c_rec c)) r"
  shows "\<exists>err c' s'. get_record_from_node K c s = Some (err, c', s') \<and> hfs_ready K med s' \<and> same_ld s s'
    \<and> (err < 0 \<and> \<not> (reliable K med \<and> readable med (metadevice s) na 512) \<or> err = 0 \<and> c' = c\<lparr>c_node := take 14 N, c_buf := overwrite 0 r (c_buf c)\<rparr>)"
  using assms by (rule get_record_ok)

subsection \<open>Reading of files\<close>

lemma get_file_seg_ok:
  assumes rd: "hfs_ready K med s" and nd: "cat_node med s (ucast (drop_bit 16 iindex)) na N" and nr: "node_rec N (unat (ucast iindex :: 16 word)) r"
    and ii: "iindex \<noteq> 0" "iindex \<noteq> 1" and bs: "hfs_blocksize s \<noteq> 0"
    and ex: "rec_extents (overwrite 0 r junk) (catalog_record (overwrite 0 r junk) + (if rsrc then 86 else 74)) = Some ext"
  shows "\<exists>s'. hfs_ready K med s' \<and> same_ld s s' \<and>
    (get_file_seg K junk iindex rsrc off s = Some (None, s') \<and> \<not> (reliable K med \<and> readable med (metadevice s) na 512) \<or> get_file_seg K junk iindex rsrc off s = map_option (\<lambda>x. (x, s')) (file_seg ext off s'))"
proof -
  let ?c = "\<lparr>c_node = [], c_block = ucast (drop_bit 16 iindex), c_rec = ucast iindex, c_buf = junk\<rparr>"
  obtain err c' s' where g: "get_record_from_node K ?c s = Some (err, c', s')" "hfs_ready K med s'" "same_ld s s'"
    "err < 0 \<and> \<not> (reliable K med \<and> readable med (metadevice s) na 512) \<or> err = 0 \<and> c' = ?c\<lparr>c_node := take 14 N, c_buf := overwrite 0 r junk\<rparr>"
    using get_record_ok [OF rd, of ?c na N r] nd nr by auto
  then show ?thesis using ii bs ex by (intro exI [of _ s']) (auto simp: get_file_seg_def)
qed

text \<open>C38: Reading a file on an HFS disc.  The record of the file in the catalog gives its extents, and \<open>a\<close> is the address of the byte at \<open>offset\<close> on the disc, \<open>k\<close> the
  number of bytes of the extent from there on.  \<open>readfile\<close> returns with an error, which does not happen when the drive is reliable and the node and the extent can be read, or with the \<open>cnt\<close> bytes from there, when they lie in the extent.  When
  they do not, it does not go on with the next extent but begins again at the same place: the rest of the extent is delivered repeatedly.\<close>

theorem hfs_readfile_cycles:
  assumes "hfs_ready K med s" "cat_node med s (ucast (drop_bit 16 iindex)) na N" "node_rec N (unat (ucast iindex :: 16 word)) r" "iindex \<noteq> 0" "iindex \<noteq> 1"
    and "rec_extents (overwrite 0 r junk) (catalog_record (overwrite 0 r junk) + (if start AND RSRC_FLAG \<noteq> 0 then 86 else 74)) = Some ext"
    and "in_extent s ext (unat offset) a k" "cnt \<le> length buf"
  shows "\<exists>err buf' s'. hfs_readfile K junk start offset iindex cnt buf s = Some (err, buf', s') \<and> hfs_ready K med s'
    \<and> (err < 0 \<and> \<not> (reliable K med \<and> readable med (metadevice s) na 512 \<and> readable med (metadevice s) a (min cnt k))
       \<or> err = 0 \<and> buf' = cycle (disc_bytes med (metadevice s) a k) cnt @ drop cnt buf
        \<and> (cnt \<le> k \<longrightarrow> buf' = disc_bytes med (metadevice s) a cnt @ drop cnt buf))"
proof -
  obtain st xs xl where e: "file_seg ext offset s = Some (Some (st, xs, xl))" "unat (xl - (offset - xs)) = k"
    "unat (offset - xs + st + partoffset s) = a" "0 < k" "k < 65536 * BLOCKSIZE" "a + k < 2 ^ 32"
    using in_extent_seg [OF assms(7)] by blast
  have bs: "hfs_blocksize s \<noteq> 0" using e(1) by (auto simp: file_seg_def)
  have fe: "find_extent t b ex tot = find_extent s b ex tot" if "same_ld s t" for t b ex tot
    using same_ld_hfs [OF that] by (induction ex arbitrary: tot) (auto simp: Let_def)
  let ?I = "\<lambda>t. hfs_ready K med t \<and> same_ld s t" and ?seg = "get_file_seg K junk iindex (start AND RSRC_FLAG \<noteq> 0) offset"
  have sg: "(\<exists>t'. ?seg t = Some (None, t') \<and> ?I t' \<and> \<not> (reliable K med \<and> readable med (metadevice s) na 512)) \<or> (\<exists>t'. ?seg t = Some (Some (st, xs, xl), t') \<and> ?I t')" if It: "?I t" for t
  proof -
    have md: "metadevice t = metadevice s" using same_ld_keep [of s t] It by simp
    have "cat_node med t (ucast (drop_bit 16 iindex)) na N" "hfs_blocksize t \<noteq> 0" using cat_node_same [of s t med] same_ld_hfs [of s t] It assms(2) bs by auto
    then obtain t' where t': "hfs_ready K med t'" "same_ld t t'" "?seg t = Some (None, t') \<and> \<not> (reliable K med \<and> readable med (metadevice s) na 512) \<or> ?seg t = map_option (\<lambda>x. (x, t')) (file_seg ext offset t')"
      unfolding md [symmetric] using get_file_seg_ok [OF conjunct1 [OF It] _ assms(3-5) _ assms(6), where off = offset] by blast
    have sl: "same_ld s t'" using same_ld_trans [of s t t'] It t'(2) by simp
    have "file_seg ext offset t' = Some (Some (st, xs, xl))" using e(1) same_ld_hfs [OF sl] fe [OF sl] by (auto simp: file_seg_def split: if_splits)
    then show ?thesis using t' sl by auto
  qed
  have i: "cache_ok med t \<and> DCCache t \<noteq> [] \<and> metadevice t = metadevice s \<and> partoffset t = partoffset s" if "?I t" for t
    using same_ld_keep [of s t] same_ld_hfs [of s t] that by (auto simp: hfs_ready_def)
  have j: "?I t'" if "?I t" "cache_ok med t'" "same_cd t t'" for t t'
  proof -
    have "same_ld t t'" using same_cd_ld [OF that(3), of "scratch t'"] same_cd_keep [OF that(3)] by (cases t') simp
    then show ?thesis using that same_ld_trans [of s t t'] same_cd_keep [OF that(3)] by (auto simp: hfs_ready_def)
  qed
  have "\<exists>err buf' s'. file_loop K ?seg offset cnt 0 buf s = Some (err, buf', s') \<and> ?I s' \<and> length buf' = length buf
      \<and> (err < 0 \<and> \<not> ((reliable K med \<and> readable med (metadevice s) na 512) \<and> reliable K med \<and> readable med (metadevice s) a (min cnt k))
        \<or> err = 0 \<and> buf' = overwrite 0 (cycle (disc_bytes med (metadevice s) a k) cnt) buf)"
    by (rule file_loop_cycles [where I = ?I, OF _ sg i j e(2,4,5,3,6)]) (use assms(1,8) in \<open>auto simp: hfs_ready_def\<close>)
  then obtain err buf' s' where l: "file_loop K ?seg offset cnt 0 buf s = Some (err, buf', s')" "?I s'"
    "err < 0 \<and> \<not> (reliable K med \<and> readable med (metadevice s) na 512 \<and> readable med (metadevice s) a (min cnt k))
      \<or> err = 0 \<and> buf' = overwrite 0 (cycle (disc_bytes med (metadevice s) a k) cnt) buf" by blast
  have "cycle (disc_bytes med (metadevice s) a k) cnt = disc_bytes med (metadevice s) a cnt" if "cnt \<le> k"
    using that cycle_once [of cnt "disc_bytes med (metadevice s) a k"] disc_bytes_append [of med "metadevice s" a cnt "k - cnt"]
    by (metis append_eq_conv_conj le_add_diff_inverse length_disc_bytes)
  then show ?thesis using l by (auto simp: hfs_readfile_def file_read_def overwrite_start)
qed

text \<open>A disc with a catalog in block 1; its node 1 has the record of a file with two extents of one block each.\<close>

definition hfs_rec :: "byte list" where
  "hfs_rec = [7, 0, 0, 0, 0, 2, 1, 65, 2, 0] @ replicate 72 0 @ [0, 2, 0, 1, 0, 3, 0, 1, 0, 0, 0, 0] @ replicate 16 0"

definition hfs_disc_node :: "byte list" where
  "hfs_disc_node = [0, 0, 0, 0, 0, 0, 0, 0, 255, 1, 0, 1, 0, 0] @ hfs_rec @ replicate 384 0 @ [0, 124, 0, 14]"

definition hfs_disc_cat :: "byte list" where
  "hfs_disc_cat = replicate 512 0 @ hfs_disc_node @ replicate 1024 0"

definition hfs_disc :: medium where
  "hfs_disc = \<lparr>m_data = \<lambda>dev b. if b = 1 then hfs_disc_cat else replicate BLOCKSIZE (ucast b), m_ok = \<lambda>dev b. unat b < 4\<rparr>"

definition hfs_meta :: "nat meta" where
  "hfs_meta = demo_meta\<lparr>Metaread := \<lambda>dev b n d.
     ((if unat b + n \<le> 4 then (0, concat (map (\<lambda>i. m_data hfs_disc dev (b + of_nat i)) [0..<n])) else (- 11, [])), d)\<rparr>"

definition hfs_ldev :: "nat ldev" where
  "hfs_ldev = (demo_ldev 1)\<lparr>ld_fs := Hfs, hfs_blocksize := 2048, catalogextents := [(1, 1), (0, 0), (0, 0)]\<rparr>"

lemma hfs_demo_ready: "hfs_ready hfs_meta hfs_disc hfs_ldev"
proof -
  have "blocks_ok hfs_disc dev b n" if "unat b + n \<le> 4" for dev b n
  proof -
    have "unat (b + of_nat i) < 4" if "i < n" for i
      using \<open>unat b + n \<le> 4\<close> that by (simp add: unat_word_ariths unat_of_nat)
    then show ?thesis by (simp add: blocks_ok_def hfs_disc_def)
  qed
  moreover have "length (m_data hfs_disc dev b) = BLOCKSIZE" for dev b by (simp add: hfs_disc_def hfs_disc_cat_def hfs_disc_node_def hfs_rec_def BLOCKSIZE_def)
  ultimately have "drive_ok hfs_meta hfs_disc" by (auto simp: drive_ok_def hfs_meta_def)
  then show ?thesis using demo_cache_ok [of hfs_disc 1] by (simp add: hfs_ready_def hfs_ldev_def demo_ldev_def cache_ok_def)
qed

lemma hfs_demo_reliable: "reliable hfs_meta hfs_disc"
  using four_blocks [of _ hfs_disc] by (simp add: reliable_def hfs_meta_def hfs_disc_def)

lemma hfs_demo_readable: "a + n \<le> 8192 \<Longrightarrow> readable hfs_disc dev a n"
proof -
  assume "a + n \<le> 8192"
  then have "unat (of_nat ((a + i) div BLOCKSIZE) :: 32 word) < 4" if "i < n" for i using that by (simp add: unat_of_nat BLOCKSIZE_def)
  then show ?thesis by (simp add: readable_def hfs_disc_def)
qed

lemma hfs_demo_node: "cat_node hfs_disc hfs_ldev 1 2560 hfs_disc_node"
proof -
  have "drive_ok hfs_meta hfs_disc" using hfs_demo_ready by (simp add: hfs_ready_def)
  then have "take 512 (drop (2560 mod BLOCKSIZE) (m_data hfs_disc 65 (of_nat (2560 div BLOCKSIZE)))) = disc_bytes hfs_disc 65 2560 512"
    by (intro disc_bytes_block) (simp_all add: drive_ok_def BLOCKSIZE_def)
  then have "hfs_disc_node = disc_bytes hfs_disc 65 2560 512" by (simp add: BLOCKSIZE_def hfs_disc_def hfs_disc_cat_def hfs_disc_node_def hfs_rec_def)
  moreover have "in_extent hfs_ldev (catalogextents hfs_ldev) 512 2560 1536"
    unfolding in_extent_def Let_def by (rule exI [of _ "[]"]) (simp add: hfs_ldev_def demo_ldev_def)
  ultimately show ?thesis unfolding cat_node_def by (intro exI [of _ 1536]) (simp add: hfs_ldev_def demo_ldev_def)
qed

lemma hfs_demo_rec: "node_rec hfs_disc_node 0 hfs_rec"
  by (simp add: node_rec_def Let_def hfs_disc_node_def hfs_rec_def sizeof_xbuf_def be16_def nth_append)

theorem get_record_reads_node_witness:
  "\<exists>c' s'. get_record_from_node hfs_meta \<lparr>c_node = [], c_block = 1, c_rec = 0, c_buf = replicate 142 0\<rparr> hfs_ldev = Some (0, c', s')
    \<and> hfs_ready hfs_meta hfs_disc s' \<and> same_ld hfs_ldev s'
    \<and> c' = \<lparr>c_node = take 14 hfs_disc_node, c_block = 1, c_rec = 0, c_buf = overwrite 0 hfs_rec (replicate 142 0)\<rparr>"
  using get_record_reads_node [OF hfs_demo_ready, of "\<lparr>c_node = [], c_block = 1, c_rec = 0, c_buf = replicate 142 0\<rparr>" 2560 hfs_disc_node hfs_rec]
    hfs_demo_node hfs_demo_rec hfs_demo_reliable hfs_demo_readable [of 2560 512] by simp

text \<open>The file has its first block in block 2 of the disc and its second in block 3; a read of 3000 bytes delivers block 2 and then block 2 again.\<close>

theorem hfs_readfile_cycles_witness:
  "\<exists>buf' s'. hfs_readfile hfs_meta (replicate 142 0) 0 0 0x10000 3000 (replicate 3000 9) hfs_ldev = Some (0, buf', s') \<and> hfs_ready hfs_meta hfs_disc s'
    \<and> buf' = cycle (disc_bytes hfs_disc 65 4096 2048) 3000"
proof -
  have "rec_extents (overwrite 0 hfs_rec (replicate 142 0)) (catalog_record (overwrite 0 hfs_rec (replicate 142 0)) + 74) = Some [(2, 1), (3, 1), (0, 0)]"
    by (simp add: rec_extents_def catalog_record_def overwrite_def hfs_rec_def fld16_def be16_def nth_append)
  moreover have "in_extent hfs_ldev [(2, 1), (3, 1), (0, 0)] (unat (0 :: 32 word)) 4096 2048"
    unfolding in_extent_def Let_def by (rule exI [of _ "[]"]) (simp add: hfs_ldev_def demo_ldev_def)
  moreover have "metadevice hfs_ldev = 65" by (simp add: hfs_ldev_def demo_ldev_def)
  ultimately show ?thesis
    using hfs_readfile_cycles [OF hfs_demo_ready, where iindex = "0x10000" and N = hfs_disc_node and r = hfs_rec and junk = "replicate 142 0" and start = 0
        and ext = "[(2, 1), (3, 1), (0, 0)]" and offset = 0 and na = 2560 and a = 4096 and k = 2048 and cnt = 3000 and buf = "replicate 3000 9"]
      hfs_demo_node hfs_demo_rec hfs_demo_reliable hfs_demo_readable [of 2560 512] hfs_demo_readable [of 4096 2048] by simp
qed

subsection \<open>Directories with one letter\<close>

text \<open>C39: The entry \<open>.\<close> of a directory whose name has one letter (the key has length 7).  The record begins directly behind that letter, and the end of the
  string \<open>.\<close> that is put into the key falls on the type of the record: the directory is taken for something that is neither a directory nor a file, and the
  entry has the name \<open>..\<close> and the bytes at 18 of the buffer as its place, not the number of the directory.\<close>

theorem one_letter_directory_lost:
  assumes "length (c_buf c) = 142" "c_buf c ! 0 = 7"
  shows "\<exists>de. hfs_dot c = Some de \<and> cd_longname de = [46, 46] \<and> cd_pri_start de = be32 (c_buf c) 18 \<and> cd_tosattr de = FA_SUBDIR"
proof -
  have r: "catalog_record (c_buf c) = 8" using assms(2) by (simp add: catalog_record_def)
  let ?b = "overwrite 6 [1, 46, 0] (c_buf c)"
  have b: "length ?b = 142" "?b ! 6 = 1" "?b ! 8 = 0" "be32 ?b 18 = be32 (c_buf c) 18"
    using assms(1) by (simp_all add: overwrite_def be32_def be16_def nth_append)
  then show ?thesis by (simp add: hfs_dot_def r dir2direntry_def d2d_thd_def fld8_def fld32_def put_str_def LONGNAMELENGTH_def HFS_CDR_DIR_def HFS_CDR_FIL_def)
qed

theorem one_letter_directory_lost_witness:
  "\<exists>de. hfs_dot \<lparr>c_node = [], c_block = 0, c_rec = 1, c_buf = 7 # replicate 7 65 @ 1 # replicate 133 0\<rparr> = Some de \<and> cd_longname de = [46, 46]
    \<and> cd_pri_start de = be32 (7 # replicate 7 65 @ 1 # replicate 133 0) 18 \<and> cd_tosattr de = FA_SUBDIR"
  using one_letter_directory_lost [of "\<lparr>c_node = [], c_block = 0, c_rec = 1, c_buf = 7 # replicate 7 65 @ 1 # replicate 133 0\<rparr>"] by simp

end
