(* ===== verification/Cd_Config_Props.thy ===== *)
theory Cd_Config_Props
  imports Cd_Config Cd_Lookup Cd_Hfs_Props
begin

text \<open>
  Properties of the configuration: a line that is written for some drives is read back as these drives, every drive that is configured has a cache
  and is ready for the file systems, and the drives that are installed are the ones of the configuration.
\<close>

subsection \<open>Tokens\<close>

fun join_tokens :: "byte \<Rightarrow> byte list list \<Rightarrow> byte list" where
  "join_tokens c [] = []"
| "join_tokens c [x] = x"
| "join_tokens c (x # xs) = x @ c # join_tokens c xs"

definition is_token :: "byte list \<Rightarrow> byte list \<Rightarrow> bool" where
  "is_token toks x \<longleftrightarrow> x \<noteq> [] \<and> set x \<inter> set toks = {}"

lemma token_drop:
  assumes "is_token toks x"
  shows "dropWhile (\<lambda>c. c \<in> set toks) (x @ r) = x @ r" "dropWhile (\<lambda>c. c \<notin> set toks) (x @ r) = dropWhile (\<lambda>c. c \<notin> set toks) r"
    "takeWhile (\<lambda>c. c \<notin> set toks) (x @ r) = x @ takeWhile (\<lambda>c. c \<notin> set toks) r"
proof -
  have x: "\<forall>c \<in> set x. c \<notin> set toks" and n: "x \<noteq> []" using assms by (auto simp: is_token_def)
  show "dropWhile (\<lambda>c. c \<in> set toks) (x @ r) = x @ r" using x n by (cases x) simp_all
  show "dropWhile (\<lambda>c. c \<notin> set toks) (x @ r) = dropWhile (\<lambda>c. c \<notin> set toks) r" using x by (simp add: dropWhile_append2)
  show "takeWhile (\<lambda>c. c \<notin> set toks) (x @ r) = x @ takeWhile (\<lambda>c. c \<notin> set toks) r" using x by (simp add: takeWhile_append2)
qed

lemma strtok2_last: "is_token toks x \<Longrightarrow> strtok2 (Some x) toks = (Some x, None)"
  using token_drop [of toks x "[]"] by (simp add: strtok2_def Let_def del: dropWhile_eq_Nil_conv)

lemma strtok2_token: "is_token toks x \<Longrightarrow> c \<in> set toks \<Longrightarrow> strtok2 (Some (x @ c # r)) toks = (Some x, if r = [] then None else Some r)"
  using token_drop [of toks x "c # r"] by (simp add: strtok2_def Let_def)

lemma strtok2_sep: "c \<in> set toks \<Longrightarrow> strtok2 (Some (c # s)) toks = strtok2 (Some s) toks"
  by (simp add: strtok2_def)

lemma tokens_None [simp]: "tokens None toks = []"
  by (simp add: tokens.simps)

lemma tokens_Some: "tokens (Some s) toks = the (fst (strtok2 (Some s) toks)) # tokens (snd (strtok2 (Some s) toks)) toks"
  by (subst tokens.simps) simp

lemma join_nonempty: "xs \<noteq> [] \<Longrightarrow> \<forall>x \<in> set xs. is_token toks x \<Longrightarrow> join_tokens c xs \<noteq> []"
  by (cases "(c, xs)" rule: join_tokens.cases) (auto simp: is_token_def)

lemma tokens_join:
  assumes "xs \<noteq> []" "\<forall>x \<in> set xs. is_token toks x" "c \<in> set toks"
  shows "tokens (Some (join_tokens c xs)) toks = xs"
  using assms
proof (induction c xs rule: join_tokens.induct)
  case (2 c x)
  then show ?case by (simp add: tokens_Some strtok2_last)
next
  case (3 c x y ys)
  then have "join_tokens c (y # ys) \<noteq> []" using join_nonempty [of "y # ys" toks c] by simp
  then have "strtok2 (Some (x @ c # join_tokens c (y # ys))) toks = (Some x, Some (join_tokens c (y # ys)))"
    using strtok2_token [of toks x c "join_tokens c (y # ys)"] 3(2-4) by simp
  then show ?case using 3 by (simp add: tokens_Some [of "x @ _"])
qed simp

lemma tokens_sep: "c \<in> set toks \<Longrightarrow> tokens (Some (c # s)) toks = tokens (Some s) toks"
  by (simp add: tokens_Some strtok2_sep)

subsection \<open>Letters\<close>

definition drive_letter :: "nat \<Rightarrow> byte" where
  "drive_letter d = of_int (cd_letter_from_drive (int d))"

lemma drive_letter_cases:
  assumes "d < 32"
  shows "drive_letter d \<in> {65..90} \<union> {49..54}" "cd_drive_from_letter (drive_letter d) = int d" "cd_letter_from_drive (int d) = uint (drive_letter d)"
proof -
  have u: "uint (drive_letter d) = cd_letter_from_drive (int d)"
    using assms by (auto simp: drive_letter_def cd_letter_from_drive_def uint_word_of_int take_bit_int_eq_self)
  then show "cd_letter_from_drive (int d) = uint (drive_letter d)" by simp
  show "drive_letter d \<in> {65..90} \<union> {49..54}" "cd_drive_from_letter (drive_letter d) = int d"
    using assms u by (auto simp: word_le_def cd_drive_from_letter_def cd_letter_from_drive_def split: if_splits)
qed

lemma drive_from_letter_range:
  assumes "0 \<le> cd_drive_from_letter c"
  shows "cd_drive_from_letter c < 32" "\<exists>d < 32. cd_drive_from_letter c = int d"
proof -
  show r: "cd_drive_from_letter c < 32" by (auto simp: cd_drive_from_letter_def word_le_def)
  then show "\<exists>d < 32. cd_drive_from_letter c = int d" using assms by (intro exI [of _ "nat (cd_drive_from_letter c)"]) auto
qed

subsection \<open>Every configured drive has a cache\<close>

definition configured :: "'h ldev \<Rightarrow> bool" where
  "configured l \<longleftrightarrow> (\<exists>m < 32. \<exists>h. l = (zero_ldev h)\<lparr>metadevice := ucast (drive_letter m)\<rparr>)"

definition config_ok :: "'h cd_config \<Rightarrow> bool" where
  "config_ok s \<longleftrightarrow> (c_cache s \<noteq> [] \<longrightarrow> 8 \<le> length (c_cache s) \<and> length (c_cache s) < 500) \<and> set (c_cache s) \<subseteq> {zero_cache}
     \<and> (\<forall>d l. mydrives s d = Some l \<longrightarrow> d < 32 \<and> configured l \<and> c_cache s \<noteq> [])"

lemma config_ok_sys [simp]: "config_ok (s\<lparr>c_sys := h\<rparr>) = config_ok s" "config_ok (Cconws str s) = config_ok s"
  by (simp_all add: config_ok_def Cconws_def)

lemma Cconws_keep [simp]: "c_cache (Cconws str s) = c_cache s" "mydrives (Cconws str s) = mydrives s" "c_sys (Cconws str s) = c_sys s"
  by (simp_all add: Cconws_def)

lemma c_Mxalloc_keep: "c_Mxalloc E n s = (ok, s') \<Longrightarrow> c_cache s' = c_cache s \<and> mydrives s' = mydrives s \<and> config_ok s' = config_ok s"
  by (auto simp: c_Mxalloc_def config_ok_def split: prod.splits)

lemma cacheblocks_range: "8 \<le> cacheblocks l \<and> cacheblocks l < 500"
  by (auto simp: cacheblocks_def DEFAULTCACHESIZE_def Let_def split: option.splits list.splits)

lemma make_cache_ok:
  assumes "make_cache E blocks s = (ok, s')" "config_ok s" "8 \<le> blocks" "blocks < 500"
  shows "config_ok s' \<and> mydrives s' = mydrives s \<and> (ok \<longrightarrow> c_cache s' \<noteq> [])"
proof (cases "c_cache s \<noteq> []")
  case True
  then show ?thesis using assms by (simp add: make_cache_def)
next
  case False
  then have none: "mydrives s d = None" for d using assms(2) by (cases "mydrives s d") (auto simp: config_ok_def)
  obtain ok1 s1 where a: "c_Mxalloc E (nat blocks * sizeof_CACHEENTRY) s = (ok1, s1)" by fastforce
  obtain ok2 s2 where b: "c_Mxalloc E (nat DEFAULTCACHESIZE * sizeof_CACHEENTRY) s1 = (ok2, s2)" by fastforce
  have k: "c_cache s1 = []" "mydrives s1 = mydrives s" "c_cache s2 = []" "mydrives s2 = mydrives s"
    using False c_Mxalloc_keep [OF a] c_Mxalloc_keep [OF b] by auto
  have fill: "config_ok (Cconws str (t\<lparr>c_cache := replicate n zero_cache\<rparr>))" if "mydrives t = mydrives s" "8 \<le> n" "n < 500" for t :: "'a cd_config" and n str
    using that none by (auto simp: config_ok_def)
  have empty: "config_ok (Cconws str t)" if "mydrives t = mydrives s" "c_cache t = []" for t :: "'a cd_config" and str
    using that none by (auto simp: config_ok_def)
  have "8 \<le> nat blocks" "nat blocks < 500" using assms(3,4) by auto
  then show ?thesis using assms(1,3,4) a b False k fill empty
    by (auto simp: make_cache_def Let_def DEFAULTCACHESIZE_def split: if_splits)
qed

lemma add_drive_ok:
  assumes "config_ok s" "c_cache s \<noteq> []"
  shows "config_ok (add_drive E arg s) \<and> c_cache (add_drive E arg s) \<noteq> []"
proof (cases "length arg = 3 \<and> arg ! 1 = 58 \<and> 0 \<le> cd_drive_from_letter (arg ! 0) \<and> 0 \<le> cd_drive_from_letter (arg ! 2)")
  case True
  obtain d m where dm: "d < 32" "cd_drive_from_letter (arg ! 0) = int d" "m < 32" "cd_drive_from_letter (arg ! 2) = int m"
    using True drive_from_letter_range(2) by blast
  define s1 where "s1 = Cconws ((bytes_of ''MetaDOS XBIOS device X on X:'' @ [13, 10])[21 := of_int (cd_letter_from_drive (int m)), 26 := of_int (cd_letter_from_drive (int d))]) s"
  obtain ok s2 where a: "c_Mxalloc E (sizeof_LOGICAL_DEV E) s1 = (ok, s2)" by fastforce
  have k: "config_ok s2" "c_cache s2 \<noteq> []" using c_Mxalloc_keep [OF a] assms by (auto simp: s1_def)
  have "configured ((zero_ldev (c_sys s2))\<lparr>metadevice := of_int (cd_letter_from_drive (int m))\<rparr>)"
    unfolding configured_def using dm(3) drive_letter_cases(3) [OF dm(3)] by (intro exI [of _ m]) auto
  then have "config_ok (s2\<lparr>mydrives := (mydrives s2)(d := v)\<rparr>)" if "v = None \<or> v = Some ((zero_ldev (c_sys s2))\<lparr>metadevice := of_int (cd_letter_from_drive (int m))\<rparr>)" for v
    using k dm(1) that by (auto simp: config_ok_def split: if_splits)
  then show ?thesis using True a k by (auto simp: add_drive_def dm Let_def simp flip: s1_def)
qed (use assms in \<open>auto simp: add_drive_def\<close>)

lemma fold_add_drive_ok: "config_ok s \<Longrightarrow> c_cache s \<noteq> [] \<Longrightarrow> config_ok (fold (add_drive E) args s)"
  by (induction args arbitrary: s) (simp_all add: add_drive_ok)

lemma parse_line_ok: "config_ok s \<Longrightarrow> config_ok (parse_line E line s)"
proof -
  assume c: "config_ok s"
  have "config_ok (case make_cache E (cacheblocks l) s of (ok, s) \<Rightarrow> if ok then fold (add_drive E) args s else s)" for l args
  proof -
    obtain ok s1 where m: "make_cache E (cacheblocks l) s = (ok, s1)" by fastforce
    show ?thesis using make_cache_ok [OF m c] cacheblocks_range [of l] fold_add_drive_ok by (auto simp: m)
  qed
  then show ?thesis using c by (simp add: parse_line_def Let_def split: prod.split)
qed

lemma parse_config_ok: "parse_config E conf s = (r, s') \<Longrightarrow> config_ok s \<Longrightarrow> config_ok s'"
proof -
  have "config_ok s \<Longrightarrow> config_ok (fold (\<lambda>line s. if dos_line line then parse_line E line s else s) lines s)" for lines
    by (induction lines arbitrary: s) (simp_all add: parse_line_ok)
  then show "parse_config E conf s = (r, s') \<Longrightarrow> config_ok s \<Longrightarrow> ?thesis" by (auto simp: parse_config_def)
qed

lemma read_config_ok: "read_config E s = (r, s') \<Longrightarrow> config_ok s \<Longrightarrow> config_ok s'"
  by (auto simp: read_config_def Let_def dest: parse_config_ok split: prod.splits if_splits)

text \<open>The medium with the contents of the zeroed buffers: block 0 of the device 0, which is not the device of any drive.\<close>

definition with_zero_block :: "medium \<Rightarrow> medium" where
  "with_zero_block med = \<lparr>m_data = \<lambda>dev b. if dev = 0 \<and> b = 0 then replicate BLOCKSIZE 0 else m_data med dev b,
     m_ok = \<lambda>dev b. dev = 0 \<and> b = 0 \<or> m_ok med dev b\<rparr>"

lemma with_zero_drive_ok:
  assumes "drive_ok K med" "\<forall>b n d. fst (fst (Metaread K 0 b n d)) < 0"
  shows "drive_ok K (with_zero_block med)"
proof -
  have "\<exists>err bytes d'. Metaread K dev b n d = ((err, bytes), d')
      \<and> (err = 0 \<and> blocks_ok (with_zero_block med) dev b n \<and> bytes = concat (map (\<lambda>i. m_data (with_zero_block med) dev (b + of_nat i)) [0..<n]) \<or> err < 0 \<and> bytes = [])"
    for dev b n d
  proof -
    obtain err bytes d' where r: "Metaread K dev b n d = ((err, bytes), d')"
      "err = 0 \<and> blocks_ok med dev b n \<and> bytes = concat (map (\<lambda>i. m_data med dev (b + of_nat i)) [0..<n]) \<or> err < 0 \<and> bytes = []"
      using assms(1) unfolding drive_ok_def by blast
    have "dev = 0 \<longrightarrow> err < 0" using assms(2) r(1) by (metis fst_conv)
    then show ?thesis using r by (auto simp: with_zero_block_def blocks_ok_def)
  qed
  then show ?thesis using assms(1) by (simp add: drive_ok_def) (simp add: with_zero_block_def)
qed

text \<open>C18: Every configured drive is ready.  Whatever the file \<open>config.sys\<close> has, and whichever calls for memory failed: when \<open>read_config\<close> has returned, every drive is one of
  the 32, its device has the letter or digit of a drive of MetaDOS, the cache has at least 8 and less than 500 buffers, and the device satisfies what
  the operations on ISO 9660 and HFS discs rely on, since the zeroed buffers belong to a device that does not exist.\<close>

theorem configured_drive_ready:
  assumes "read_config E s = (r, s')" "c_cache s = []" "\<forall>d. mydrives s d = None" "device s' i = Some l"
    and "drive_ok K med" "\<forall>b n d. fst (fst (Metaread K 0 b n d)) < 0" "\<forall>dev. small_medium med dev"
  shows "i < 32 \<and> (\<exists>m < 32. metadevice l = ucast (drive_letter m)) \<and> 8 \<le> length (DCCache l) \<and> length (DCCache l) < 500
    \<and> iso_ready K (with_zero_block med) l \<and> hfs_ready K (with_zero_block med) l"
proof -
  have c: "config_ok s'" using read_config_ok [OF assms(1)] assms(2,3) by (simp add: config_ok_def)
  obtain m h where l: "i < 32" "m < 32" "l = (zero_ldev h)\<lparr>metadevice := ucast (drive_letter m), DCCache := c_cache s', drv := c_sys s'\<rparr>" "c_cache s' \<noteq> []"
  proof -
    obtain z where z: "mydrives s' i = Some z" "l = z\<lparr>DCCache := c_cache s', drv := c_sys s'\<rparr>" using assms(4) by (auto simp: device_def)
    then have "i < 32" "configured z" "c_cache s' \<noteq> []" using c by (auto simp: config_ok_def)
    then show ?thesis using that z(2) by (auto simp: configured_def)
  qed
  have z: "set (c_cache s') \<subseteq> {zero_cache}" "8 \<le> length (c_cache s')" "length (c_cache s') < 500" using c l(4) by (auto simp: config_ok_def)
  have "cache_ok (with_zero_block med) l" using z(1) l(3) by (auto simp: cache_ok_def zero_cache_def with_zero_block_def)
  moreover have "small_medium (with_zero_block med) dev" for dev using assms(7) by (auto simp: small_medium_def with_zero_block_def)
  moreover have "1024 \<le> length (scratch l)" using l(3) by (simp add: zero_ldev_def)
  ultimately show ?thesis using l z with_zero_drive_ok [OF assms(5,6)] by (auto simp: iso_ready_def hfs_ready_def)
qed

subsection \<open>A line and its drives\<close>

definition drive_arg :: "nat \<times> nat \<Rightarrow> byte list" where
  "drive_arg = (\<lambda>(d, m). [drive_letter d, 58, drive_letter m])"

text \<open>A line for the driver \<open>name\<close> in the directory \<open>dir\<close>, with options and drives.\<close>

definition config_line :: "byte list \<Rightarrow> byte list \<Rightarrow> byte list \<Rightarrow> (nat \<times> nat) list \<Rightarrow> byte list" where
  "config_line dir name opt ds = bytes_of ''*DOS'' @ 44 # (dir @ 92 # name @ 32 # opt) @ 44 # 32 # join_tokens 44 (map drive_arg ds)"

definition drives_of :: "(nat \<times> nat) list \<Rightarrow> nat \<Rightarrow> 16 word option" where
  "drives_of ds = map_of (rev (map (\<lambda>(d, m). (d, ucast (drive_letter m))) ds))"

lemma add_drive_arg:
  assumes "\<forall>n h. fst (Mxalloc E n h)" "d < 32" "m < 32"
  shows "map_option metadevice \<circ> mydrives (add_drive E (drive_arg (d, m)) s) = (map_option metadevice \<circ> mydrives s)(d \<mapsto> ucast (drive_letter m))
    \<and> c_cache (add_drive E (drive_arg (d, m)) s) = c_cache s"
proof -
  have ok: "\<exists>s'. c_Mxalloc E n t = (True, s') \<and> mydrives s' = mydrives t \<and> c_cache s' = c_cache t" for n t
    using assms(1) by (auto simp: c_Mxalloc_def split: prod.splits) (metis fst_conv)
  define s1 where "s1 = Cconws ((bytes_of ''MetaDOS XBIOS device X on X:'' @ [13, 10])[21 := of_int (cd_letter_from_drive (int m)), 26 := of_int (cd_letter_from_drive (int d))]) s"
  obtain s2 where s2: "c_Mxalloc E (sizeof_LOGICAL_DEV E) s1 = (True, s2)" "mydrives s2 = mydrives s1" "c_cache s2 = c_cache s1" using ok by blast
  have "add_drive E (drive_arg (d, m)) s = s2\<lparr>mydrives := (mydrives s2)(d \<mapsto> (zero_ldev (c_sys s2))\<lparr>metadevice := of_int (cd_letter_from_drive (int m))\<rparr>)\<rparr>"
    using drive_letter_cases(2) [OF assms(2)] drive_letter_cases(2) [OF assms(3)] s2(1) by (simp add: add_drive_def drive_arg_def Let_def flip: s1_def)
  then show ?thesis using s2(2,3) drive_letter_cases(3) [OF assms(3)] by (auto simp: s1_def)
qed

lemma add_drive_args:
  assumes "\<forall>n h. fst (Mxalloc E n h)" "\<forall>(d, m) \<in> set ds. d < 32 \<and> m < 32"
  shows "map_option metadevice \<circ> mydrives (fold (add_drive E) (map drive_arg ds) s) = (map_option metadevice \<circ> mydrives s) ++ drives_of ds
    \<and> c_cache (fold (add_drive E) (map drive_arg ds) s) = c_cache s"
  using assms(2)
proof (induction ds arbitrary: s)
  case (Cons p ds)
  obtain d m where p: "p = (d, m)" by fastforce
  have "drives_of (p # ds) = [d \<mapsto> ucast (drive_letter m)] ++ drives_of ds" by (simp add: drives_of_def p map_add_def fun_eq_iff split: option.split)
  then show ?case using Cons.IH [of "add_drive E (drive_arg p) s"] Cons.prems add_drive_arg [OF assms(1), of d m s] p by (simp add: map_add_def fun_eq_iff split: option.splits)
qed (simp add: drives_of_def)

lemma after_last_dir: "c \<notin> set name \<Longrightarrow> after_last c (dir @ c # name) = name"
proof -
  assume "c \<notin> set name"
  then have "takeWhile (\<lambda>x. x \<noteq> c) (rev name @ c # rev dir) = rev name" by (subst takeWhile_append2) auto
  then show ?thesis by (simp add: after_last_def)
qed

lemma after_last_none: "c \<notin> set name \<Longrightarrow> after_last c name = name"
  by (simp add: after_last_def)

lemma drive_arg_token: "d < 32 \<Longrightarrow> m < 32 \<Longrightarrow> is_token [32, 44, 9] (drive_arg (d, m))"
  using drive_letter_cases(1) [of d] drive_letter_cases(1) [of m] by (auto simp: is_token_def drive_arg_def word_le_nat_alt)

lemma make_cache_success:
  assumes "\<forall>n h. fst (Mxalloc E n h)"
  obtains s' where "make_cache E blocks s = (True, s')" "mydrives s' = mydrives s" "c_cache s = [] \<Longrightarrow> length (c_cache s') = nat blocks"
proof (cases "c_cache s = []")
  case True
  obtain h where "Mxalloc E (nat blocks * sizeof_CACHEENTRY) (c_sys s) = (True, h)" using assms by (metis prod.collapse)
  then show ?thesis using that True by (simp add: make_cache_def c_Mxalloc_def)
qed (use that in \<open>simp add: make_cache_def\<close>)

text \<open>C17: A line of the configuration and its drives.  A line for the driver in a directory, with an option and a list of drives with their devices, is read back as
  these drives (a later one overrides an earlier one for the same drive), when there is memory; the other drives are kept, and the first such
  line makes the cache with the size of the option.\<close>

theorem config_round_trip:
  assumes "\<forall>n h. fst (Mxalloc E n h)" "set dir \<inter> {44, 32, 9} = {}" "set name \<inter> {44, 32, 9, 92, 58} = {}" "list_ex (cd_stricmp name) driver_names"
    and "opt \<noteq> []" "44 \<notin> set opt" "ds \<noteq> []" "\<forall>(d, m) \<in> set ds. d < 32 \<and> m < 32"
  shows "dos_line (config_line dir name opt ds)
    \<and> map_option metadevice \<circ> mydrives (parse_line E (config_line dir name opt ds) s) = (map_option metadevice \<circ> mydrives s) ++ drives_of ds
    \<and> (c_cache s = [] \<longrightarrow> length (c_cache (parse_line E (config_line dir name opt ds) s)) = nat (cacheblocks (Some opt)))"
proof -
  let ?args = "join_tokens 44 (map drive_arg ds)" and ?drv = "dir @ 92 # name @ 32 # opt"
  have a: "tokens (Some (32 # ?args)) [32, 44, 9] = map drive_arg ds"
  proof -
    have "\<forall>x \<in> set (map drive_arg ds). is_token [32, 44, 9] x" using assms(8) drive_arg_token by fastforce
    then show ?thesis using tokens_join [of "map drive_arg ds" "[32, 44, 9]" 44] assms(7) by (simp add: tokens_sep)
  qed
  have "strtok2 (Some (config_line dir name opt ds)) [44] = (Some (bytes_of ''*DOS''), Some (?drv @ 44 # 32 # ?args))"
    using strtok2_token [of "[44]" "bytes_of ''*DOS''" 44 "?drv @ 44 # 32 # ?args"] by (simp add: config_line_def is_token_def bytes_of_def)
  moreover have "strtok2 (Some (?drv @ 44 # 32 # ?args)) [44] = (Some ?drv, Some (32 # ?args))"
    using strtok2_token [of "[44]" ?drv 44 "32 # ?args"] assms(2,3,6) by (auto simp: is_token_def)
  moreover have "strtok2 (Some ?drv) [32, 9] = (Some (dir @ 92 # name), Some opt)"
    using strtok2_token [of "[32, 9]" "dir @ 92 # name" 32 opt] assms(2,3,5) by (auto simp: is_token_def)
  moreover have "after_last 58 (after_last 92 (dir @ 92 # name)) = name" using assms(3) by (simp add: after_last_dir after_last_none)
  ultimately have p: "parse_line E (config_line dir name opt ds) s =
      (case make_cache E (cacheblocks (Some opt)) s of (ok, s) \<Rightarrow> if ok then fold (add_drive E) (map drive_arg ds) s else s)"
    using assms(4) a by (simp add: parse_line_def split: prod.split)
  obtain s1 where m: "make_cache E (cacheblocks (Some opt)) s = (True, s1)" "mydrives s1 = mydrives s"
    "c_cache s = [] \<Longrightarrow> length (c_cache s1) = nat (cacheblocks (Some opt))"
    using make_cache_success [OF assms(1)] by metis
  have "dos_line (config_line dir name opt ds)" by (simp add: dos_line_def config_line_def bytes_of_def b_toupper_def)
  then show ?thesis using p m add_drive_args [OF assms(1,8), of s1] by simp
qed

definition cfg_env :: "nat cfgenv" where
  "cfg_env = \<lparr>sizeof_LOGICAL_DEV = 4000, Mxalloc = \<lambda>n h. (True, h), Malloc = \<lambda>n h. (True, h), Mfree = \<lambda>h. h, kernel_sprintf = \<lambda>f n. f,
     cf_Fopen = \<lambda>h. (6, h), cf_Fsize = \<lambda>f h. (28, h), cf_Fread = \<lambda>f n h. ((28, bytes_of ''*DOS,hs-iso.dos -c64,M:A,N:B''), h), cf_Fclose = \<lambda>f h. h, behind = \<lambda>h. []\<rparr>"

definition cfg_empty :: "nat cd_config" where
  "cfg_empty = \<lparr>c_cache = [], mydrives = \<lambda>d. None, c_out = [], c_sys = 0\<rparr>"

theorem config_round_trip_witness:
  "dos_line (config_line [67, 58] (bytes_of ''HS-ISO.DOS'') (bytes_of ''-c 64'') [(12, 0), (13, 1)])
    \<and> map_option metadevice \<circ> mydrives (parse_line cfg_env (config_line [67, 58] (bytes_of ''HS-ISO.DOS'') (bytes_of ''-c 64'') [(12, 0), (13, 1)]) cfg_empty)
      = (map_option metadevice \<circ> mydrives cfg_empty) ++ drives_of [(12, 0), (13, 1)]
    \<and> length (c_cache (parse_line cfg_env (config_line [67, 58] (bytes_of ''HS-ISO.DOS'') (bytes_of ''-c 64'') [(12, 0), (13, 1)]) cfg_empty)) = 32"
proof -
  have "cacheblocks (Some (bytes_of ''-c 64'')) = 32" by (simp add: cacheblocks_def bytes_of_def digits_value_def DEFAULTCACHESIZE_def)
  moreover have "c_cache cfg_empty = []" by (simp add: cfg_empty_def)
  moreover have "\<forall>n h. fst (Mxalloc cfg_env n h)" by (simp add: cfg_env_def)
  moreover have "list_ex (cd_stricmp (bytes_of ''HS-ISO.DOS'')) driver_names" by (simp add: driver_names_def cd_stricmp_def bytes_of_def b_toupper_def)
  moreover have "set (bytes_of ''HS-ISO.DOS'') \<inter> {44, 32, 9, 92, 58} = {}" "bytes_of ''-c 64'' \<noteq> []" "44 \<notin> set (bytes_of ''-c 64'')" by (simp_all add: bytes_of_def)
  ultimately show ?thesis
    using config_round_trip [of cfg_env "[67, 58]" "bytes_of ''HS-ISO.DOS''" "bytes_of ''-c 64''" "[(12, 0), (13, 1)]" cfg_empty] by simp
qed

subsection \<open>Installation\<close>

lemma install_range:
  assumes "t' = fold (\<lambda>i. install_drive table devinfo i (drives i)) [0..<n] t" "n \<le> 32"
  shows "(\<forall>i. i < 32 \<longrightarrow> bit (drvbits t') i = (bit (drvbits t) i \<or> i < n \<and> drives i \<noteq> None))
    \<and> (\<forall>i. log2phys t' i = (if table \<and> i < n \<and> drives i \<noteq> None then metadevice (the (drives i)) else log2phys t i))
    \<and> set (map snd (devices t')) = set (map snd (devices t)) \<union> {i. i < n \<and> drives i \<noteq> None}"
  using assms
proof (induction n arbitrary: t')
  case (Suc n)
  define u where "u = fold (\<lambda>i. install_drive table devinfo i (drives i)) [0..<n] t"
  have t': "t' = install_drive table devinfo n (drives n) u" using Suc.prems(1) by (simp add: u_def)
  have IH: "\<forall>i. i < 32 \<longrightarrow> bit (drvbits u) i = (bit (drvbits t) i \<or> i < n \<and> drives i \<noteq> None)"
    "\<forall>i. log2phys u i = (if table \<and> i < n \<and> drives i \<noteq> None then metadevice (the (drives i)) else log2phys t i)"
    "set (map snd (devices u)) = set (map snd (devices t)) \<union> {i. i < n \<and> drives i \<noteq> None}"
    using Suc.IH [OF u_def] Suc.prems(2) by auto
  show ?case
  proof (cases "drives n")
    case None
    then have "t' = u" by (simp add: t' install_drive_def)
    then show ?thesis using IH None by (auto simp: less_Suc_eq)
  next
    case (Some l)
    have d: "drvbits t' = drvbits u OR push_bit n 1" "log2phys t' = (if table then (log2phys u)(n := metadevice l) else log2phys u)"
      "set (map snd (devices t')) = insert n (set (map snd (devices u)))"
      by (auto simp: t' Some install_drive_def Let_def)
    have "bit (drvbits t') i = (bit (drvbits t) i \<or> i < Suc n \<and> drives i \<noteq> None)" if "i < 32" for i
      using that IH(1) Suc.prems(2) Some by (auto simp: d(1) bit_or_iff bit_exp_iff less_Suc_eq)
    moreover have "log2phys t' i = (if table \<and> i < Suc n \<and> drives i \<noteq> None then metadevice (the (drives i)) else log2phys t i)" for i
      using IH(2) Some by (auto simp: d(2) less_Suc_eq)
    moreover have "set (map snd (devices t')) = set (map snd (devices t)) \<union> {i. i < Suc n \<and> drives i \<noteq> None}"
      unfolding d(3) IH(3) using Some by (auto simp: less_Suc_eq)
    ultimately show ?thesis by blast
  qed
qed auto


text \<open>With the drive M on the device A, a MetaDOS of version 2.70 and two drives before: bit 12 is set and bit 13 is not, and M is on A.\<close>

definition cfg_one :: "nat \<Rightarrow> nat ldev option" where
  "cfg_one = [12 \<mapsto> (zero_ldev 0)\<lparr>metadevice := 65\<rparr>]"

definition cfg_before :: install where
  "cfg_before = \<lparr>drvbits = 3, log2phys = \<lambda>i. 0, firstdrive = -1, devices = []\<rparr>"


definition cfg_meta :: "nat meta" where
  "cfg_meta = demo_meta\<lparr>Metaread := \<lambda>dev b n d. if dev = 0 then ((- 11, []), d) else demo_read dev b n d\<rparr>"

lemma cfg_meta_ok: "drive_ok cfg_meta demo_disc" "\<forall>dev. small_medium demo_disc dev"
proof -
  have "\<forall>dev b n d. \<exists>err bytes d'. demo_read dev b n d = ((err, bytes), d')
      \<and> (err = 0 \<and> blocks_ok demo_disc dev b n \<and> bytes = concat (map (\<lambda>i. m_data demo_disc dev (b + of_nat i)) [0..<n]) \<or> err < 0 \<and> bytes = [])"
    using demo_drive_ok by (simp add: drive_ok_def demo_meta_def)
  then show "drive_ok cfg_meta demo_disc" using demo_drive_ok by (simp add: drive_ok_def cfg_meta_def)
  show "\<forall>dev. small_medium demo_disc dev" by (simp add: small_medium_def demo_disc_def)
qed

lemma cfg_drive: "mydrives (snd (read_config cfg_env cfg_empty)) 12 \<noteq> None"
proof -
  have l: "tokens (Some (bytes_of ''*DOS,hs-iso.dos -c64,M:A,N:B'')) [13, 10] = [bytes_of ''*DOS,hs-iso.dos -c64,M:A,N:B'']"
    by (simp add: tokens_Some strtok2_def bytes_of_def)
  have a: "tokens (Some (bytes_of ''M:A,N:B'')) [32, 44, 9] = [bytes_of ''M:A'', bytes_of ''N:B'']"
    by (simp add: tokens_Some strtok2_def bytes_of_def)
  have "mydrives (parse_line cfg_env (bytes_of ''*DOS,hs-iso.dos -c64,M:A,N:B'') cfg_empty) 12 \<noteq> None"
    using a by (simp add: parse_line_def strtok2_def bytes_of_def after_last_def driver_names_def cd_stricmp_def b_toupper_def make_cache_def cfg_empty_def cfg_env_def
        c_Mxalloc_def Let_def add_drive_def cd_drive_from_letter_def cd_letter_from_drive_def)
  moreover have "dos_line (bytes_of ''*DOS,hs-iso.dos -c64,M:A,N:B'')" by (simp add: dos_line_def bytes_of_def b_toupper_def)
  moreover have tw: "takeWhile (\<lambda>c. c \<noteq> 0) (bytes_of ''*DOS,hs-iso.dos -c64,M:A,N:B'') = bytes_of ''*DOS,hs-iso.dos -c64,M:A,N:B''" by (simp add: bytes_of_def)
  moreover have ce: "c_sys cfg_empty = 0" "cfg_empty\<lparr>c_sys := 0\<rparr> = cfg_empty" by (simp_all add: cfg_empty_def)
  moreover have "cf_Fopen cfg_env h = (6, h)" "cf_Fsize cfg_env f h = (28, h)" "Malloc cfg_env n h = (True, h)" "cf_Fclose cfg_env f h = h" "behind cfg_env h = []"
    "cf_Fread cfg_env f n h = ((28, bytes_of ''*DOS,hs-iso.dos -c64,M:A,N:B''), h)" for f n h by (simp_all add: cfg_env_def)
  ultimately show ?thesis using l by (simp add: read_config_def parse_config_def Let_def tw ce)
qed

theorem configured_drive_ready_witness:
  "\<exists>r s' l. read_config cfg_env cfg_empty = (r, s') \<and> device s' 12 = Some l \<and> (\<exists>m < 32. metadevice l = ucast (drive_letter m))
    \<and> 8 \<le> length (DCCache l) \<and> length (DCCache l) < 500 \<and> iso_ready cfg_meta (with_zero_block demo_disc) l \<and> hfs_ready cfg_meta (with_zero_block demo_disc) l"
proof -
  obtain r s' where r: "read_config cfg_env cfg_empty = (r, s')" by fastforce
  obtain l where l: "device s' 12 = Some l" using cfg_drive r by (auto simp: device_def)
  have "\<forall>b n d. fst (fst (Metaread cfg_meta 0 b n d)) < 0" by (simp add: cfg_meta_def)
  then show ?thesis using configured_drive_ready [OF r _ _ l cfg_meta_ok(1) _ cfg_meta_ok(2)] r l by (auto simp: cfg_empty_def)
qed

end
