(* ===== verification/Spec2Isabelle.thy ===== *)
theory Spec2Isabelle
  imports Ram_Init Ram_File_Props Ram_Entry_Props Ram_Path_Props Vf_Props Cd_Cache_Props Cd_Toc_Props Cd_Time_Props Cd_Xfs_Props Cd_Config_Props
begin

text \<open>
  \<^bold>\<open>File systems of MagiC, verified.\<close>  MagiC is a multitasking operating system for Atari
  computers.  Its GEMDOS part hands path names and file operations to file system drivers
  (XFS).  This development models three parts: the driver of the RAM disk,
  \<open>src/extensio/ramdisk\<close> (\<open>ramdisk.c\<close>, \<open>ramutil.c\<close>, \<open>ramdisk.h\<close>, \<open>proto.h\<close>), the long names of the
  kernel's FAT file system, \<open>src/kernel/dos/vfat.c\<close>, both with all their operations, and the library for CD-ROM drives,
  \<open>src/extensio/cd-mxfs\<close>, with its block cache (\<open>doscache.c\<close>), the readers for ISO 9660 (\<open>iso9660.c\<close>), HFS (\<open>hfs.c\<close>) and audio
  discs (\<open>tocfs.c\<close>), mounting (\<open>doskern.c\<close>), the driver that makes a file system of MagiC of them (\<open>cd-mxfsc.c\<close>) and its
  configuration (\<open>cfgread.c\<close>).

  \<^bold>\<open>How the RAM disk works.\<close>  Directories are arrays of entries (\<open>DIRENTRY\<close>), files are linked
  chains of blocks of 4096 bytes (\<open>FILEBLOCK\<close>), symbolic links are a length word and a string;
  all of it lives in blocks the kernel hands out (\<open>Kmalloc\<close>), except the static arrays \<open>root\<close>
  and \<open>root_de\<close>.  A fixed array of descriptors (\<open>fd\<close>) serves both for open files and for
  directories the kernel holds; the latter are linked to their parents and counted
  (\<open>fd_refcnt\<close>, \<open>fd_is_parent\<close>).  The kernel resolves a path with \<open>ramdisk_path2DD\<close>, passes the
  descriptor to an operation, and releases it with \<open>ramdisk_freeDD\<close>.  A directory is represented
  three times (in its parent, as \<open>.\<close>, and as \<open>..\<close> of its subdirectories), and \<open>work_entry\<close> keeps
  these in step.

  \<^bold>\<open>How long names work.\<close>  A FAT directory is a file of entries of 32 bytes.  A file has a main entry
  with a name of 8+3 characters and before it, in reverse order, entries with the pieces of its long
  name in Unicode and the check sum of the short name.  \<open>_vf_readdir\<close> reads the next file of a kind,
  \<open>vf_dirsrch\<close>, \<open>vf_path2DD\<close>, \<open>vf_readdir\<close> and \<open>vf_rlabel\<close> are built on it; to create a file the kernel
  calls \<open>vf_ffree\<close>, which finds room and a unique short name, and \<open>vf_crnam\<close>, which writes the entries.

  \<^bold>\<open>How CD-ROM drives work.\<close>  A logical device (\<open>LOGICAL_DEV\<close>) is a drive with the file system that was found on its
  disc, a table of five functions.  \<open>DCRead\<close> reads any range of bytes through a cache of blocks; \<open>get_direntry\<close> delivers the entry at an
  address of a directory and moves the address on, \<open>readfile\<close> delivers bytes of a file.  On an ISO 9660 disc a directory is a
  sequence of records that do not cross blocks; on an HFS disc all entries are records of one B-tree, the catalog, and a file has up to
  three extents; on an audio disc each track is a file of samples with a computed header.
  \<open>DKInitVolume\<close> looks whether the disc was changed and tries the file systems in turn; the preferred one comes first.  The driver
  for MagiC calls it at the start of nearly every operation, resolves names with \<open>lookup\<close>, and reads files at the position of their descriptor.
  Its main program reads \<open>config.sys\<close>, which gives the drives and the size of the cache, and installs the drives.
  The drive itself is reached through the services of MetaDOS.

  \<^bold>\<open>Theories of the model.\<close>
  \<^item> \<open>RD_Prelude\<close>: 16 and 32 bit wrap-around (\<open>s16\<close>, \<open>s32\<close>), character functions of the C
    library, scanning a part of an array, overwriting a part of a list.
  \<^item> \<open>Tos_Names\<close>: 8+3 names and search masks, name checks, drive letters (\<open>ramutil.c\<close>).
  \<^item> \<open>Ram_State\<close>: the records, memory as a map from addresses to typed blocks, the kernel calls
    with their contract \<open>kern_ok\<close>, \<open>Kmalloc\<close> and \<open>Krealloc\<close>.
  \<^item> \<open>Ram_Dir\<close>: \<open>prepare_dir\<close>, \<open>findfile\<close>, \<open>new_file\<close>, \<open>work_entry\<close> and its actions.
  \<^item> \<open>Ram_DD\<close>: \<open>drv_open\<close>, \<open>drv_close\<close>, \<open>path2DD\<close>, \<open>DD2name\<close>, reference counts, \<open>freeDD\<close>.
  \<^item> \<open>Ram_File\<close>: the operations on open files (the \<open>MX_DEV\<close> table).
  \<^item> \<open>Ram_Ops\<close>: \<open>fopen\<close>, \<open>fdelete\<close>, \<open>link\<close>, \<open>xattr\<close>, \<open>attrib\<close>, \<open>chown\<close>, \<open>chmod\<close>, \<open>dcntl\<close>.
  \<^item> \<open>Ram_Names\<close>: \<open>dcreate\<close>, \<open>ddelete\<close>, directory handles, \<open>sfirst\<close>, \<open>snext\<close>, statistics,
    labels, symbolic links.
  \<^item> \<open>Ram_Init\<close>: \<open>main\<close>, the settings file, the choice of a drive, the cookie jar.
  \<^item> \<open>Vf_Text\<close>: the tables of characters, \<open>unic2ibm\<close> with its binary search, \<open>ibm2unic\<close>.
  \<^item> \<open>Vf_Dir\<close>: \<open>_vf_readdir\<close> (\<open>vf_readdir1\<close>) and the four functions built on it.  \<open>Vf_Create\<close>: \<open>vf_crnam\<close> and
    \<open>vf_ffree\<close>.  Entries are lists of 32 bytes, C strings lists of bytes; the file of the directory
    (\<open>dosio\<close>) and the descriptors of the FAT file system (\<open>ddio\<close>) are parameters, since that code is
    68000 assembly.

  \<^item> \<open>Cd_Cache\<close>: \<open>doscache.c\<close>, over the record \<open>meta\<close> of the services of MetaDOS, which are parameters.  \<open>Cd_Kern\<close>: the entry
    (\<open>CDENTRY\<close> for \<open>DIRENTRY\<close>) and \<open>doskern.c\<close> without mounting.  \<open>Cd_Iso\<close>: \<open>iso9660.c\<close>.  \<open>Cd_Toc\<close>: \<open>tocfs.c\<close>.  \<open>Cd_Time\<close>: \<open>DMDosTime\<close>.
    \<open>Cd_Hfs\<close>: \<open>hfs.c\<close>.  The buffer
    \<open>scratch\<close>, which the structures of the disc are laid over, is a list of bytes, fields are read at their offsets.
  \<^item> \<open>Cd_Mount\<close>: the table of the five functions as a case over the file systems, \<open>get_root\<close> over the tracks and \<open>DKInitVolume\<close>.
    \<open>Cd_Xfs\<close>: the descriptors of \<open>cd-mxfsc.c\<close>, volumes, \<open>lookup\<close>, paths and names.  \<open>Cd_Dev\<close>: the other operations, open files and
    the block device.  \<open>Cd_Config\<close>: \<open>cfgread.c\<close> and \<open>main\<close>.  An operation works on one logical device, which is a value with the
    shared cache and the state of the drives in it; descriptors live in blocks of the kernel that belong to one caller, and are values too.
    A record of an HFS catalog is copied to a buffer on the stack; the bytes it does not fill are a parameter (\<open>junk\<close>).

  \<^bold>\<open>How the model corresponds to the code.\<close>  Each C function is a definition of the same name over
  the record \<open>ram\<close> of the global variables.  An operation returns an option: \<open>None\<close> is an access
  outside the memory it owns (a null or stale pointer, an index outside an array), so \<open>Some\<close> in a
  theorem says that the call is memory safe as well; error codes are ordinary results.  A pointer to
  an entry is the address of its block and an index.  \<open>WORD\<close> and \<open>LONG\<close> are integers with the
  wrap-around written out, mode words are \<open>16 word\<close>, bytes \<open>8 word\<close>.  Loops with a bound in the
  program terminate by a measure; loops along pointers that nothing in the program bounds (parents
  of descriptors, blocks of a chain) are \<open>partial_function (option)\<close>, so that not returning is \<open>None\<close>
  too, and that they return is part of what the theorems show.  The kernel is the record \<open>kern\<close> of
  functions over a state of its own; \<open>kern_ok\<close> is the documented contract of \<open>Mxalloc\<close> and \<open>Mfree\<close>
  (fresh blocks, exact release), and \<open>Ram_Demo\<close> gives an instance that satisfies it.

  \<^bold>\<open>Theories of the proofs.\<close>
  \<^item> \<open>Byte_File\<close>: a locale with the contract of a file of bytes with a position, and what follows
    from it; \<open>Ram_Data\<close> proves the contract for \<open>ramdisk_read\<close>, \<open>ramdisk_write\<close>, \<open>ramdisk_seek\<close> over the
    chains of blocks and interprets the locale.  \<open>Ram_File_Props\<close> has the resulting properties of open
    files.
  \<^item> \<open>Ram_Keep\<close>: well-formed directories (\<open>dir_ok\<close>, \<open>dd_ok\<close>), what every operation keeps of them
    (\<open>dir_keep\<close>), and a locale for the actions \<open>work_entry\<close> applies, interpreted on all of them.
    \<open>Ram_Create\<close>: creating an entry and releasing the blocks of a file.  \<open>Ram_Entry_Props\<close> has the
    resulting properties.
  \<^item> \<open>Ram_Refs\<close>: the descriptors of directories as a forest with two counters; \<open>needed\<close> and
    \<open>refs_ok\<close> say which of them have to stay, and a locale gives the walk along the parents once for
    \<open>increase_refcnts\<close> and \<open>ramdisk_freeDD\<close>.  \<open>Ram_Path\<close>: the tree of directories (\<open>tree_ok\<close>), the
    consistent system (\<open>sys_ok\<close>), what a path means (\<open>resolve\<close>), that \<open>ramdisk_path2DD\<close> computes it, and
    the step relation \<open>dd_step\<close> of lookups and releases.  \<open>Ram_Path_Name\<close>: \<open>ramdisk_drv_open\<close> establishes
    the system, and \<open>ramdisk_DD2name\<close> is the way back.  \<open>Ram_Path_Props\<close> has the resulting properties.
  \<^item> \<open>Ram_Demo\<close>: a small disk that satisfies the invariants, where the properties are applied.

  \<^item> \<open>Vf_Text\<close> also has the search: it finds what is in the table, except for the first entry.
    \<open>Vf_Chain\<close>: the entries of a long name, byte by byte, as \<open>vf_crnam\<close> writes and \<open>_vf_readdir\<close> reads them.
    \<open>Vf_Scan\<close>: the contract \<open>dir_io\<close> of the file of a directory (it delivers, replaces and appends entries
    of a list, and a new cluster has at least 16 entries), the loop of \<open>_vf_readdir\<close> as a recursion over that list.
    \<open>Vf_Lookup\<close>: the abstract directory, a list of files and deleted entries; a locale for the loops
    over \<open>_vf_readdir\<close>, interpreted on \<open>vf_dirsrch\<close> and \<open>vf_path2DD\<close>, shows that they search in that list.
    \<open>Vf_Alias\<close>: the numbers that short names occupy, and that the name made with a free number is new.
    \<open>Vf_Free\<close>: the loop of \<open>vf_ffree\<close>.  \<open>Vf_Compose\<close>: creating a file replaces a run of deleted entries, or
    the end, by the file.  \<open>Vf_Props\<close> has the resulting properties and a directory in memory where they
    are applied.

  \<^item> \<open>Byte_Sectors\<close>: a locale for bytes that lie in sectors, interpreted on the blocks of a disc and on the sectors of a
    track.  \<open>Cd_Cache_Props\<close>: reads through the cache deliver the bytes of the disc (contract \<open>drive_ok\<close>: a read delivers the blocks or an
    error; a \<open>reliable\<close> drive reads every block that can be read, and then the errors are excluded as well).  \<open>Cd_Iso_Props\<close>: names, the abstract sequence of records (\<open>next_rec\<close>, \<open>entry_of\<close>), and that \<open>get_direntry\<close> follows it and
    returns; the disc is assumed to have less than 2 GB (\<open>small_medium\<close>), so that addresses do not wrap.  \<open>Cd_Toc_Props\<close>: audio
    files (contract \<open>da_ok\<close>: raw sectors or an error) and the listing of tracks (contract \<open>toc_io_ok\<close>: no track 100).
  \<^item> \<open>Cd_Time_Props\<close>: time stamps agree with the calendar from 1980 to 2043.  \<open>Cd_Hfs_Props\<close>: records of the catalog and reads of
    files, for nodes and bytes that lie in one extent whose addresses do not wrap and which has less than 128 MB (\<open>in_extent\<close>).
    \<open>Cd_Listing\<close>: locales for a loop over \<open>get_direntry\<close>, which is what listing a directory and looking for a name have in common;
    \<open>Cd_Lookup\<close> interprets them on ISO 9660 and on audio discs and on the loop of \<open>lookup\<close>.  \<open>Cd_Xfs_Props\<close>: mounting, reading of open
    files and directory handles.  \<open>Cd_Config_Props\<close>: lines of the configuration, the drives they give and their installation.

  \<^bold>\<open>Not modelled.\<close>  Of the CD-ROM library the older driver for MetaDOS (\<open>dosmain.c\<close>, which no project file builds), the calls of MetaDOS
  themselves (\<open>metados.c\<close>), and the listings of HFS directories as properties (their code is modelled).  The assembly glue \<open>pc_xfs.s\<close>, the debug trace, console output, the FAT file
  system below \<open>vfat.c\<close> (\<open>xfs_vdos.s\<close>, \<open>dfs_fat.s\<close>), and the other programs of the repository.  Processes are not
  interleaved inside an operation: MagiC does not switch tasks inside a file system call.
\<close>

end
